(* ===== verification/Go_Prelude.thy ===== *)
theory Go_Prelude
  imports Main "HOL-Library.Char_ord" "HOL-Library.List_Lexorder" "HOL-Library.Sublist"
begin

text \<open>
  The parts of Go and of its standard library that the modelled packages use, with the lemmas the
  component theories share.

  \<^item> Strings are byte strings (\<open>char list\<close>), ordered bytewise as Go orders them (theories
    \<open>Char_ord\<close> and \<open>List_Lexorder\<close>). Case mapping is the ASCII one: bytes from 128 on are left as
    they are, so nothing here speaks about non-ASCII letters.
  \<^item> A Go \<open>int\<close> is an \<open>int\<close> in the 64-bit range; \<open>wrap64\<close> is what an increment does at the border.
  \<^item> A Go \<open>map[string]T\<close> is \<open>gomap\<close>: \<open>None\<close> is the nil map, \<open>Some kvs\<close> an allocated one. The order
    of \<open>kvs\<close> is the order in which a \<open>range\<close> loop visits the entries. Go leaves that order open, so
    a statement about every \<open>kvs\<close> is a statement about every iteration order.
  \<^item> A call that can fail returns \<open>err + 'a\<close>, with \<open>Inl\<close> for the error.
\<close>

named_theorems go_simps "unfolding rules of the library functions of Go used by the model"
named_theorems gomap_simps "lookup after each map operation"

section \<open>Errors\<close>

datatype err =
    ErrNotFound
  | ErrNoUnconfigured
  | ErrDoesNotExist
  | ErrSyntax
  | ErrRange
  | ErrIO
  | ErrPanic
  | ErrMsg string

type_synonym 'a result = "err + 'a"

section \<open>Strings\<close>

definition HasPrefix :: "string \<Rightarrow> string \<Rightarrow> bool" where
  "HasPrefix s p = (take (length p) s = p)"

definition HasSuffix :: "string \<Rightarrow> string \<Rightarrow> bool" where
  "HasSuffix s p = HasPrefix (rev s) (rev p)"

definition TrimPrefix :: "string \<Rightarrow> string \<Rightarrow> string" where
  "TrimPrefix s p = (if HasPrefix s p then drop (length p) s else s)"

text \<open>\<open>strings.Index\<close> for a separator of one byte: the first position, or \<open>-1\<close>.\<close>

fun Index :: "string \<Rightarrow> char \<Rightarrow> int" where
  "Index [] c = -1"
| "Index (x # xs) c = (if x = c then 0 else let i = Index xs c in if i < 0 then -1 else i + 1)"

text \<open>\<open>strings.Split\<close> for a separator of one byte.\<close>

fun Split :: "string \<Rightarrow> char \<Rightarrow> string list" where
  "Split [] c = [[]]"
| "Split (x # xs) c =
     (if x = c then [] # Split xs c
      else (case Split xs c of [] \<Rightarrow> [[x]] | y # ys \<Rightarrow> (x # y) # ys))"

fun Join :: "string list \<Rightarrow> string \<Rightarrow> string" where
  "Join [] sep = []"
| "Join [x] sep = x"
| "Join (x # y # ys) sep = x @ sep @ Join (y # ys) sep"

definition lower_char :: "char \<Rightarrow> char" where
  "lower_char c = (let n = (of_char c :: nat) in if 65 \<le> n \<and> n \<le> 90 then char_of (n + 32) else c)"

definition ToLower :: "string \<Rightarrow> string" where
  "ToLower s = map lower_char s"

definition EqualFold :: "string \<Rightarrow> string \<Rightarrow> bool" where
  "EqualFold s t = (ToLower s = ToLower t)"

text \<open>\<open>strings.ReplaceAll\<close> where the old and the new string are single bytes.\<close>

definition ReplaceByte :: "string \<Rightarrow> char \<Rightarrow> char \<Rightarrow> string" where
  "ReplaceByte s a b = map (\<lambda>c. if c = a then b else c) s"

text \<open>\<open>strings.Contains\<close>.\<close>

fun Contains :: "string \<Rightarrow> string \<Rightarrow> bool" where
  "Contains [] p = (p = [])"
| "Contains (x # xs) p = (HasPrefix (x # xs) p \<or> Contains xs p)"

definition is_space :: "char \<Rightarrow> bool" where
  "is_space c = (let n = (of_char c :: nat) in n = 32 \<or> (9 \<le> n \<and> n \<le> 13))"

text \<open>\<open>strings.Fields\<close>: the maximal runs of bytes that are not white space.\<close>

fun fields_acc :: "string \<Rightarrow> string \<Rightarrow> string list" where
  "fields_acc [] cur = (if cur = [] then [] else [rev cur])"
| "fields_acc (c # cs) cur =
     (if is_space c then (if cur = [] then fields_acc cs [] else rev cur # fields_acc cs [])
      else fields_acc cs (c # cur))"

definition Fields :: "string \<Rightarrow> string list" where
  "Fields s = fields_acc s []"

lemma HasPrefix_Nil [simp]: "HasPrefix s []"
  by (simp add: HasPrefix_def)

lemma HasPrefix_Cons [simp]: "HasPrefix (x # xs) (p # ps) = (x = p \<and> HasPrefix xs ps)"
  by (auto simp: HasPrefix_def)

lemma HasPrefix_empty [simp]: "HasPrefix [] (p # ps) = False"
  by (simp add: HasPrefix_def)

lemma HasPrefix_iff: "HasPrefix s p = prefix p s"
  by (metis HasPrefix_def prefixE prefixI append_eq_conv_conj append_take_drop_id)

lemma HasPrefix_append [simp]: "HasPrefix (p @ s) p"
  by (simp add: HasPrefix_iff)

lemma TrimPrefix_append [simp]: "TrimPrefix (p @ s) p = s"
  by (simp add: TrimPrefix_def)

lemma Split_neq_Nil [simp]: "Split s c \<noteq> []"
  by (induction s) (auto split: list.split)

lemma Split_no_sep: "c \<notin> set s \<Longrightarrow> Split s c = [s]"
  by (induction s) auto

lemma Split_append: "c \<notin> set s \<Longrightarrow> Split (s @ c # t) c = s # Split t c"
  by (induction s) auto

lemma Split_parts_no_sep: "p \<in> set (Split s c) \<Longrightarrow> c \<notin> set p"
  by (induction s arbitrary: p) (auto split: if_splits list.splits)

text \<open>Splitting undoes joining: the separator occurs in no part.\<close>

lemma Split_Join:
  "xs \<noteq> [] \<Longrightarrow> \<forall>x\<in>set xs. c \<notin> set x \<Longrightarrow> Split (Join xs [c]) c = xs"
proof (induction xs "[c]" rule: Join.induct)
  case (3 x y ys)
  then show ?case by (simp add: Split_append)
qed (simp_all add: Split_no_sep)

lemma Join_Split: "Join (Split s c) [c] = s"
proof (induction s)
  case (Cons x xs)
  show ?case
  proof (cases "x = c")
    case True
    then obtain y ys where "Split xs c = y # ys" by (meson Split_neq_Nil list.exhaust)
    with True Cons show ?thesis by simp
  next
    case False
    obtain y ys where "Split xs c = y # ys" by (meson Split_neq_Nil list.exhaust)
    with False Cons show ?thesis by (cases ys) auto
  qed
qed simp

lemma Index_neg: "Index s c < 0 \<longleftrightarrow> c \<notin> set s"
  by (induction s) (auto simp: Let_def)

lemma Index_ge: "Index s c \<ge> -1"
  by (induction s) (auto simp: Let_def)

lemma Index_append_hit: "c \<notin> set p \<Longrightarrow> Index (p @ c # q) c = int (length p)"
  by (induction p) (auto simp: Let_def)

lemma Index_hit:
  assumes "Index s c = int n"
  shows "\<exists>q. s = take n s @ c # q \<and> c \<notin> set (take n s) \<and> n < length s \<and> q = drop (Suc n) s"
  using assms
proof (induction s arbitrary: n)
  case (Cons x xs)
  show ?case
  proof (cases "x = c")
    case True
    with Cons.prems show ?thesis by simp
  next
    case False
    with Cons.prems obtain m where m: "n = Suc m" "Index xs c = int m"
      by (cases n) (auto simp: Let_def split: if_splits)
    with Cons.IH [OF m(2)] False show ?thesis by auto
  qed
qed simp

section \<open>Numbers in decimal notation\<close>

definition MaxInt :: int where "MaxInt = 2 ^ 63 - 1"

definition wrap64 :: "int \<Rightarrow> int" where
  "wrap64 n = (n + 2 ^ 63) mod 2 ^ 64 - 2 ^ 63"

definition is_digit :: "char \<Rightarrow> bool" where
  "is_digit c = (let n = (of_char c :: nat) in 48 \<le> n \<and> n \<le> 57)"

definition digit_val :: "char \<Rightarrow> nat" where
  "digit_val c = of_char c - 48"

definition digit_char :: "nat \<Rightarrow> char" where
  "digit_char n = char_of (48 + n)"

definition dec_val :: "string \<Rightarrow> nat" where
  "dec_val s = foldl (\<lambda>n c. 10 * n + digit_val c) 0 s"

fun show_nat :: "nat \<Rightarrow> string" where
  "show_nat n = (if n < 10 then [digit_char n] else show_nat (n div 10) @ [digit_char (n mod 10)])"

declare show_nat.simps [simp del]

text \<open>\<open>strconv.Itoa\<close>.\<close>

definition Itoa :: "int \<Rightarrow> string" where
  "Itoa n = (if n < 0 then ''-'' @ show_nat (nat (- n)) else show_nat (nat n))"

text \<open>\<open>strconv.Atoi\<close>: the value and the error. A number that does not fit is clamped to the border.\<close>

definition atoi_unsigned :: "bool \<Rightarrow> string \<Rightarrow> int \<times> err option" where
  "atoi_unsigned neg s =
     (if s = [] \<or> \<not> list_all is_digit s then (0, Some ErrSyntax)
      else let v = int (dec_val s) in
        if neg then (if v > MaxInt + 1 then (- MaxInt - 1, Some ErrRange) else (- v, None))
        else (if v > MaxInt then (MaxInt, Some ErrRange) else (v, None)))"

definition Atoi :: "string \<Rightarrow> int \<times> err option" where
  "Atoi s = (case s of
      [] \<Rightarrow> (0, Some ErrSyntax)
    | c # cs \<Rightarrow>
        if c = CHR ''-'' then atoi_unsigned True cs
        else if c = CHR ''+'' then atoi_unsigned False cs
        else atoi_unsigned False s)"

text \<open>The verb \<open>%0*d\<close> of \<open>fmt.Sprintf\<close> for a number that is not negative.\<close>

definition pad0 :: "nat \<Rightarrow> int \<Rightarrow> string" where
  "pad0 w n = (let s = show_nat (nat n) in replicate (w - length s) (CHR ''0'') @ s)"

text \<open>\<open>strconv.ParseBool\<close>: \<open>None\<close> is the syntax error.\<close>

definition ParseBool :: "string \<Rightarrow> bool option" where
  "ParseBool s =
     (if s \<in> {''1'', ''t'', ''T'', ''TRUE'', ''true'', ''True''} then Some True
      else if s \<in> {''0'', ''f'', ''F'', ''FALSE'', ''false'', ''False''} then Some False
      else None)"

text \<open>The fixed-width rendering that \<open>pad0\<close> computes when the number fits.\<close>

fun fixed_width :: "nat \<Rightarrow> nat \<Rightarrow> string" where
  "fixed_width 0 n = []"
| "fixed_width (Suc w) n = fixed_width w (n div 10) @ [digit_char (n mod 10)]"

lemma length_fixed_width [simp]: "length (fixed_width w n) = w"
  by (induction w n rule: fixed_width.induct) auto

lemma is_digit_digit_char: "n < 10 \<Longrightarrow> is_digit (digit_char n)"
  by (simp add: is_digit_def digit_char_def Let_def)

lemma digit_val_digit_char: "n < 10 \<Longrightarrow> digit_val (digit_char n) = n"
  by (simp add: digit_val_def digit_char_def)

lemma digit_char_digit_val: "is_digit c \<Longrightarrow> digit_char (digit_val c) = c"
  by (simp add: is_digit_def digit_char_def digit_val_def Let_def)

lemma digit_val_less: "is_digit c \<Longrightarrow> digit_val c < 10"
  by (auto simp: is_digit_def digit_val_def Let_def)

lemma dec_val_Nil [simp]: "dec_val [] = 0"
  by (simp add: dec_val_def)

lemma dec_val_snoc [simp]: "dec_val (s @ [c]) = 10 * dec_val s + digit_val c"
  by (simp add: dec_val_def)

lemma dec_val_bound: "list_all is_digit s \<Longrightarrow> dec_val s < 10 ^ length s"
proof (induction s rule: rev_induct)
  case (snoc c s)
  then have "dec_val s < 10 ^ length s" and "digit_val c < 10"
    by (auto dest: digit_val_less)
  then show ?case by simp
qed simp

lemma list_all_digit_fixed_width: "list_all is_digit (fixed_width w n)"
  by (induction w n rule: fixed_width.induct) (auto simp: is_digit_digit_char)

lemma dec_val_fixed_width: "n < 10 ^ w \<Longrightarrow> dec_val (fixed_width w n) = n"
  by (induction w n rule: fixed_width.induct) (auto simp: digit_val_digit_char)

lemma fixed_width_dec_val: "list_all is_digit s \<Longrightarrow> fixed_width (length s) (dec_val s) = s"
  by (induction s rule: rev_induct)
     (auto simp: digit_val_less digit_char_digit_val)

lemma fixed_width_zero: "fixed_width w 0 = replicate w (digit_char 0)"
  by (induction w) (auto simp: replicate_append_same)

lemma fixed_width_show_nat:
  "n < 10 ^ w \<Longrightarrow> 0 < w \<Longrightarrow>
     length (show_nat n) \<le> w \<and>
     fixed_width w n = replicate (w - length (show_nat n)) (digit_char 0) @ show_nat n"
proof (induction n arbitrary: w rule: show_nat.induct)
  case (1 n)
  then obtain v where w: "w = Suc v" by (cases w) auto
  show ?case
  proof (cases "n < 10")
    case True
    then show ?thesis
      by (simp add: w show_nat.simps [of n] fixed_width_zero)
  next
    case False
    with 1 w have "0 < v" and "n div 10 < 10 ^ v" by (cases v; auto)+
    with "1.IH" [OF False, of v] False show ?thesis
      by (simp add: w show_nat.simps [of n])
  qed
qed

lemma digit_char_0: "digit_char 0 = CHR ''0''"
  by code_simp

lemma pad0_fixed_width: "n < 10 ^ w \<Longrightarrow> 0 < w \<Longrightarrow> pad0 w (int n) = fixed_width w n"
  using fixed_width_show_nat [of n w] by (simp add: pad0_def Let_def digit_char_0)

lemma pad0_dec_val: "list_all is_digit s \<Longrightarrow> s \<noteq> [] \<Longrightarrow> pad0 (length s) (int (dec_val s)) = s"
  by (simp add: pad0_fixed_width dec_val_bound fixed_width_dec_val)

lemma digits_not_sign: "list_all is_digit (c # cs) \<Longrightarrow> c \<noteq> CHR ''-'' \<and> c \<noteq> CHR ''+''"
  by (auto simp: is_digit_def Let_def)

lemma Atoi_digits:
  assumes "list_all is_digit s" "s \<noteq> []"
  shows "Atoi s = (if int (dec_val s) > MaxInt then (MaxInt, Some ErrRange) else (int (dec_val s), None))"
  using assms digits_not_sign by (cases s) (auto simp: Atoi_def atoi_unsigned_def Let_def)

lemma dec_val_short: "list_all is_digit s \<Longrightarrow> length s \<le> 18 \<Longrightarrow> int (dec_val s) < MaxInt"
proof -
  assume s: "list_all is_digit s" "length s \<le> 18"
  then have "dec_val s < 10 ^ length s" by (simp add: dec_val_bound)
  also have "(10::nat) ^ length s \<le> 10 ^ 18" using s(2) by (intro power_increasing) auto
  finally have "dec_val s < 10 ^ 18" .
  then show ?thesis by (simp add: MaxInt_def)
qed

section \<open>Maps\<close>

type_synonym 'v gomap = "(string \<times> 'v) list option"

definition gm_nil :: "'v gomap" where "gm_nil = None"
definition gm_make :: "'v gomap" where "gm_make = Some []"
definition gm_entries :: "'v gomap \<Rightarrow> (string \<times> 'v) list" where
  "gm_entries m = (case m of None \<Rightarrow> [] | Some kvs \<Rightarrow> kvs)"
definition gm_keys :: "'v gomap \<Rightarrow> string list" where "gm_keys m = map fst (gm_entries m)"
definition gm_get :: "'v gomap \<Rightarrow> string \<Rightarrow> 'v option" where "gm_get m k = map_of (gm_entries m) k"
definition gm_len :: "'v gomap \<Rightarrow> nat" where "gm_len m = length (gm_entries m)"

fun al_update :: "string \<Rightarrow> 'v \<Rightarrow> (string \<times> 'v) list \<Rightarrow> (string \<times> 'v) list" where
  "al_update k v [] = [(k, v)]"
| "al_update k v ((k', v') # xs) = (if k = k' then (k, v) # xs else (k', v') # al_update k v xs)"

text \<open>\<open>m[k] = v\<close>: an assignment into the nil map panics.\<close>

definition gm_put :: "'v gomap \<Rightarrow> string \<Rightarrow> 'v \<Rightarrow> 'v gomap result" where
  "gm_put m k v = (case m of None \<Rightarrow> Inl ErrPanic | Some kvs \<Rightarrow> Inr (Some (al_update k v kvs)))"

text \<open>\<open>delete(m, k)\<close>, which does nothing to the nil map.\<close>

definition gm_delete :: "'v gomap \<Rightarrow> string \<Rightarrow> 'v gomap" where
  "gm_delete m k = map_option (filter (\<lambda>(k', _). k' \<noteq> k)) m"

definition gm_ok :: "'v gomap \<Rightarrow> bool" where
  "gm_ok m = distinct (gm_keys m)"

lemma map_of_al_update: "map_of (al_update k v xs) = (map_of xs)(k \<mapsto> v)"
  by (induction k v xs rule: al_update.induct) auto

lemma keys_al_update: "set (map fst (al_update k v xs)) = insert k (set (map fst xs))"
  by (induction k v xs rule: al_update.induct) auto

lemma distinct_al_update: "distinct (map fst xs) \<Longrightarrow> distinct (map fst (al_update k v xs))"
  by (induction k v xs rule: al_update.induct) (auto simp: keys_al_update simp del: set_map)

lemma map_of_filter_neq: "map_of (filter (\<lambda>(k', _). k' \<noteq> k) xs) = (map_of xs)(k := None)"
  by (induction xs) (auto simp: fun_eq_iff)

lemma distinct_filter_keys: "distinct (map fst xs) \<Longrightarrow> distinct (map fst (filter P xs))"
  by (induction xs) auto

lemma gm_get_nil [simp, gomap_simps]: "gm_get None k = None"
  by (simp add: gm_get_def gm_entries_def)

lemma gm_get_make [simp, gomap_simps]: "gm_get gm_make k = None"
  by (simp add: gm_get_def gm_entries_def gm_make_def)

lemma gm_get_Some [simp, gomap_simps]: "gm_get (Some kvs) k = map_of kvs k"
  by (simp add: gm_get_def gm_entries_def)

lemma gm_get_put [gomap_simps]:
  "gm_put m k v = Inr m' \<Longrightarrow> gm_get m' x = (if x = k then Some v else gm_get m x)"
  by (cases m) (auto simp: gm_put_def map_of_al_update)

lemma gm_get_delete [gomap_simps]: "gm_get (gm_delete m k) x = (if x = k then None else gm_get m x)"
  by (cases m) (auto simp: gm_delete_def map_of_filter_neq)

lemma gm_ok_put: "gm_ok m \<Longrightarrow> gm_put m k v = Inr m' \<Longrightarrow> gm_ok m'"
  by (cases m) (auto simp: gm_put_def gm_ok_def gm_keys_def gm_entries_def distinct_al_update)

lemma gm_ok_delete: "gm_ok m \<Longrightarrow> gm_ok (gm_delete m k)"
  by (cases m) (auto simp: gm_delete_def gm_ok_def gm_keys_def gm_entries_def distinct_filter_keys)

text \<open>The loops \<open>for _, k := range ks { delete(m, k) }\<close> and \<open>for k, v := range kvs { m[k] = v }\<close>.\<close>

fun del_all :: "('m \<Rightarrow> 'k \<Rightarrow> 'm) \<Rightarrow> 'm \<Rightarrow> 'k list \<Rightarrow> 'm" where
  "del_all del m [] = m"
| "del_all del m (k # ks) = del_all del (del m k) ks"

fun put_all :: "('m \<Rightarrow> 'k \<Rightarrow> 'v \<Rightarrow> err + 'm) \<Rightarrow> 'm \<Rightarrow> ('k \<times> 'v) list \<Rightarrow> err + 'm" where
  "put_all put m [] = Inr m"
| "put_all put m ((k, v) # kvs) = (case put m k v of Inl e \<Rightarrow> Inl e | Inr m' \<Rightarrow> put_all put m' kvs)"

text \<open>
  The contract of a map, as its clients use it: what a lookup returns after a store and after a
  deletion, and that both keep the keys distinct.
\<close>

locale finite_store =
  fixes get :: "'m \<Rightarrow> 'k \<Rightarrow> 'v option"
    and put :: "'m \<Rightarrow> 'k \<Rightarrow> 'v \<Rightarrow> err + 'm"
    and del :: "'m \<Rightarrow> 'k \<Rightarrow> 'm"
    and invar :: "'m \<Rightarrow> bool"
  assumes get_put: "put m k v = Inr m' \<Longrightarrow> get m' x = (if x = k then Some v else get m x)"
    and get_del: "get (del m k) x = (if x = k then None else get m x)"
    and invar_put: "invar m \<Longrightarrow> put m k v = Inr m' \<Longrightarrow> invar m'"
    and invar_del: "invar m \<Longrightarrow> invar (del m k)"
begin

lemma get_del_all: "get (del_all del m ks) x = (if x \<in> set ks then None else get m x)"
  by (induction ks arbitrary: m) (auto simp: get_del)

lemma get_put_all:
  "put_all put m kvs = Inr m' \<Longrightarrow> distinct (map fst kvs) \<Longrightarrow>
     get m' x = (case map_of kvs x of Some v \<Rightarrow> Some v | None \<Rightarrow> get m x)"
proof (induction kvs arbitrary: m)
  case (Cons kv kvs)
  obtain k v where kv: "kv = (k, v)" by (cases kv)
  with Cons.prems obtain m1 where m1: "put m k v = Inr m1" and rest: "put_all put m1 kvs = Inr m'"
    by (auto split: sum.splits)
  have notin: "map_of kvs k = None" using Cons.prems(2) kv by (simp add: map_of_eq_None_iff)
  from Cons.IH [OF rest] Cons.prems(2) kv get_put [OF m1, of x] notin show ?case
    by (auto split: option.split)
qed simp

lemma invar_del_all: "invar m \<Longrightarrow> invar (del_all del m ks)"
  by (induction ks arbitrary: m) (auto intro: invar_del)

lemma invar_put_all: "put_all put m kvs = Inr m' \<Longrightarrow> invar m \<Longrightarrow> invar m'"
  by (induction kvs arbitrary: m) (fastforce split: sum.splits dest: invar_put)+

end

interpretation gm: finite_store gm_get gm_put gm_delete gm_ok
  by unfold_locales (auto simp: gomap_simps intro: gm_ok_put gm_ok_delete)

lemma gm_put_all_total: "\<exists>kvs'. put_all gm_put (Some m) kvs = Inr (Some kvs')"
  by (induction kvs arbitrary: m) (auto simp: gm_put_def)

section \<open>Lists\<close>

text \<open>\<open>slices.Contains\<close> is list membership; the sorts of Go are modelled by \<open>sort\<close> and \<open>sort_key\<close>.\<close>

lemma sorted_remdups_sort: "sorted (sort (remdups xs)) \<and> distinct (sort (remdups xs))"
  by simp

lemma map_of_distinct_in: "distinct (map fst xs) \<Longrightarrow> (k, v) \<in> set xs \<Longrightarrow> map_of xs k = Some v"
  by (simp add: map_of_is_SomeI)

end
