(* ===== verification/Hostlist.thy ===== *)
theory Hostlist
  imports Go_Prelude
begin

text \<open>
  The package \<open>internal/pkg/hostlist\<close>: host patterns such as \<open>node[01-03,05]\<close> and \<open>@rack1\<close> are
  expanded to host names (\<open>Expand\<close>), and host names are folded back into patterns (\<open>Compress\<close>).

  \<open>Expand\<close> returns an option: \<open>None\<close> says that the call does not return. The outer rewriting loop
  always ends (its termination proof counts opening brackets), but the counting loop
  \<open>for num := startNum; num <= endNum; num++\<close> does not when \<open>endNum\<close> is the largest 64-bit integer.
  The group resolver installed by \<open>SetGroupResolver\<close> is an argument of \<open>Expand\<close>.
\<close>

section \<open>Definitions\<close>

definition GroupPrefix :: string where "GroupPrefix = ''@''"

type_synonym GroupResolver = "string \<Rightarrow> string list"

definition nopResolver :: GroupResolver where "nopResolver name = []"

definition SetGroupResolver :: "GroupResolver option \<Rightarrow> GroupResolver" where
  "SetGroupResolver r = (case r of None \<Rightarrow> nopResolver | Some r' \<Rightarrow> r')"

text \<open>\<open>add\<close> of \<open>resolveGroups\<close>; the map \<open>seen\<close> holds exactly the strings of \<open>result\<close>.\<close>

definition add_host :: "string list \<Rightarrow> string \<Rightarrow> string list" where
  "add_host result s = (if s \<in> set result then result else result @ [s])"

fun resolve_tokens :: "GroupResolver \<Rightarrow> string list \<Rightarrow> string list \<Rightarrow> string list" where
  "resolve_tokens res [] result = result"
| "resolve_tokens res (tok # toks) result =
     (if \<not> HasPrefix tok GroupPrefix then resolve_tokens res toks (add_host result tok)
      else let name = TrimPrefix tok GroupPrefix in
        if name = [] then resolve_tokens res toks result
        else resolve_tokens res toks (foldl add_host result (res name)))"

definition resolveGroups :: "GroupResolver \<Rightarrow> string list \<Rightarrow> string list" where
  "resolveGroups res tokens = resolve_tokens res tokens []"

definition toInt :: "string \<Rightarrow> int" where "toInt s = fst (Atoi s)"

definition isDigit :: "string \<Rightarrow> bool" where "isDigit s = list_all is_digit s"

text \<open>The numbers that \<open>for num := startNum; num <= endNum; num++\<close> visits.\<close>

partial_function (option) num_loop :: "int \<Rightarrow> int \<Rightarrow> int list option" where
  "num_loop num endNum =
     (if num \<le> endNum
      then Option.bind (num_loop (wrap64 (num + 1)) endNum) (\<lambda>ns. Some (num # ns))
      else Some [])"

text \<open>The loop over the ranges of one bracket; \<open>True\<close> reports the early return on invalid input.\<close>

fun expand_ranges ::
  "string \<Rightarrow> string \<Rightarrow> string list \<Rightarrow> string list \<Rightarrow> (string list \<times> bool) option" where
  "expand_ranges pre suf [] result = Some (result, False)"
| "expand_ranges pre suf (rng # rngs) result =
     (case Split rng (CHR ''-'') of
        [p] \<Rightarrow>
          if \<not> isDigit p then Some (result, True)
          else expand_ranges pre suf rngs (result @ [pre @ p @ suf])
      | [p, q] \<Rightarrow>
          if \<not> isDigit p \<or> \<not> isDigit q then Some (result, True)
          else (case num_loop (toInt p) (toInt q) of
              None \<Rightarrow> None
            | Some ns \<Rightarrow>
                expand_ranges pre suf rngs (result @ map (\<lambda>n. pre @ pad0 (length p) n @ suf) ns))
      | _ \<Rightarrow> expand_ranges pre suf rngs result)"

definition bracketed :: "string \<Rightarrow> bool" where
  "bracketed host = (0 \<le> Index host (CHR ''['') \<and> Index host (CHR ''['') < Index host (CHR '']''))"

definition bracket_prefix :: "string \<Rightarrow> string" where
  "bracket_prefix host = take (nat (Index host (CHR ''[''))) host"

definition bracket_suffix :: "string \<Rightarrow> string" where
  "bracket_suffix host = drop (nat (Index host (CHR '']'') + 1)) host"

definition bracket_content :: "string \<Rightarrow> string" where
  "bracket_content host =
     drop (nat (Index host (CHR ''['') + 1)) (take (nat (Index host (CHR '']''))) host)"

fun expand_hosts :: "string list \<Rightarrow> string list \<Rightarrow> nat \<Rightarrow> (string list \<times> nat) option" where
  "expand_hosts [] result expansionCount = Some (result, expansionCount)"
| "expand_hosts (host # hosts) result expansionCount =
     (if bracketed host then
        (case expand_ranges (bracket_prefix host) (bracket_suffix host)
                (Split (bracket_content host) (CHR '','')) result of
           None \<Rightarrow> None
         | Some (result', True) \<Rightarrow> Some (result', 0)
         | Some (result', False) \<Rightarrow> expand_hosts hosts result' (Suc expansionCount))
      else expand_hosts hosts (result @ [host]) expansionCount)"

definition expandOnce :: "string list \<Rightarrow> (string list \<times> nat) option" where
  "expandOnce hosts = expand_hosts hosts [] 0"

fun split_top :: "string \<Rightarrow> nat \<Rightarrow> string \<Rightarrow> string list" where
  "split_top [] depth cur = [cur]"
| "split_top (ch # s) depth cur =
     (if ch = CHR ''['' then split_top s (Suc depth) (cur @ [ch])
      else if ch = CHR '']'' then split_top s (depth - 1) (cur @ [ch])
      else if ch = CHR '','' \<and> depth = 0 then cur # split_top s depth []
      else split_top s depth (cur @ [ch]))"

definition splitTopLevel :: "string \<Rightarrow> string list" where
  "splitTopLevel s = split_top s 0 []"

section \<open>Termination of the rewriting loop\<close>

lemma bracketedE:
  assumes "bracketed host"
  obtains "host = bracket_prefix host @ CHR ''['' # bracket_content host @ CHR '']'' # bracket_suffix host"
    and "CHR ''['' \<notin> set (bracket_prefix host)" and "CHR '']'' \<notin> set (bracket_prefix host)"
    and "CHR '']'' \<notin> set (bracket_content host)"
proof -
  from assms obtain b where b: "Index host (CHR ''['') = int b"
    by (metis bracketed_def nonneg_int_cases)
  from assms b obtain e where e: "Index host (CHR '']'') = int e" and be: "b < e"
    by (metis bracketed_def nonneg_int_cases of_nat_less_iff order.strict_trans1 order_less_imp_le)
  have pre: "bracket_prefix host = take b host" by (simp add: bracket_prefix_def b)
  have suf: "bracket_suffix host = drop (Suc e) host"
    by (simp add: bracket_suffix_def e nat_add_distrib flip: Suc_eq_plus1)
  have con: "bracket_content host = drop (Suc b) (take e host)"
    by (simp add: bracket_content_def b e nat_add_distrib flip: Suc_eq_plus1)
  from Index_hit [OF b] have hb: "CHR ''['' \<notin> set (take b host)" "b < length host" "host ! b = CHR ''[''"
    by (auto simp: id_take_nth_drop nth_append) (metis nth_append_length length_take min.absorb4)
  from Index_hit [OF e] have he: "CHR '']'' \<notin> set (take e host)" "e < length host" "host ! e = CHR '']''"
    by (auto simp: id_take_nth_drop nth_append) (metis nth_append_length length_take min.absorb4)
  have "take e host = take b host @ CHR ''['' # drop (Suc b) (take e host)"
    using id_take_nth_drop [of b "take e host"] be he(2) hb(3) by (simp add: min_def)
  moreover have "host = take e host @ CHR '']'' # drop (Suc e) host"
    using id_take_nth_drop [OF he(2)] he(3) by simp
  ultimately have *: "host = take b host @ CHR ''['' # drop (Suc b) (take e host) @ CHR '']'' # drop (Suc e) host"
    by (metis append.assoc append_Cons)
  show thesis
  proof (rule that)
    show "CHR '']'' \<notin> set (bracket_prefix host)"
      using he(1) be by (auto simp: pre dest: in_set_takeD) (metis in_set_takeD min.absorb3 take_take)
    show "CHR '']'' \<notin> set (bracket_content host)"
      using he(1) by (auto simp: con dest: in_set_dropD)
  qed (use * hb(1) in \<open>simp_all add: pre suf con\<close>)
qed

text \<open>How many opening brackets an expandable host still holds.\<close>

definition brackets :: "string \<Rightarrow> nat" where
  "brackets host = (if bracketed host then count_list host (CHR ''['') else 0)"

definition bracket_measure :: "string list \<Rightarrow> nat" where
  "bracket_measure hosts = foldr (\<lambda>h m. max (brackets h) m) hosts 0"

lemma bracket_measure_less_iff:
  "0 < n \<Longrightarrow> bracket_measure hosts < n \<longleftrightarrow> (\<forall>h\<in>set hosts. brackets h < n)"
  by (induction hosts) (auto simp: bracket_measure_def)

lemma brackets_le_measure: "h \<in> set hosts \<Longrightarrow> brackets h \<le> bracket_measure hosts"
  by (induction hosts) (auto simp: bracket_measure_def)

lemma count_list_digits: "isDigit s \<Longrightarrow> count_list s (CHR ''['') = 0"
  by (induction s) (auto simp: isDigit_def is_digit_def Let_def)

lemma show_nat_digits: "list_all is_digit (show_nat n)"
  by (induction n rule: show_nat.induct) (subst show_nat.simps, auto simp: is_digit_digit_char)

lemma isDigit_pad0: "isDigit (pad0 w n)"
proof -
  have "is_digit (CHR ''0'')" by code_simp
  then show ?thesis
    by (auto simp: isDigit_def pad0_def Let_def show_nat_digits list_all_iff [of _ "replicate _ _"])
qed

lemma expand_ranges_acc:
  "expand_ranges pre suf rngs result =
     map_option (\<lambda>(r, a). (result @ r, a)) (expand_ranges pre suf rngs [])"
proof (induction rngs arbitrary: result)
  case (Cons rng rngs)
  note IH = Cons.IH
  show ?case
  proof (cases "Split rng (CHR ''-'')")
    case (Cons p ps)
    show ?thesis
    proof (cases ps)
      case Nil
      with Cons show ?thesis
        by (simp add: IH [of "result @ _"] IH [of "[_]"] option.map_comp comp_def case_prod_unfold)
    next
      case (Cons q qs)
      note sp = \<open>Split rng _ = p # ps\<close> Cons
      show ?thesis
      proof (cases qs)
        case Nil
        with sp show ?thesis
          by (auto simp: IH [of "result @ _"] IH [of "map _ _"] option.map_comp comp_def case_prod_unfold
              split: option.splits)
      next
        case (Cons x xs)
        with sp have split: "Split rng (CHR ''-'') = p # q # x # xs" by simp
        show ?thesis by (simp only: expand_ranges.simps split list.case) (rule IH)
      qed
    qed
  qed simp
qed simp

lemma expand_ranges_elem:
  "expand_ranges pre suf rngs [] = Some (r, a) \<Longrightarrow> h \<in> set r \<Longrightarrow>
     \<exists>d. isDigit d \<and> h = pre @ d @ suf"
proof (induction rngs arbitrary: r)
  case (Cons rng rngs)
  show ?case
  proof (cases "Split rng (CHR ''-'')")
    case Nil
    then show ?thesis by simp
  next
    case sp: (Cons p ps)
    then show ?thesis
    proof (cases ps)
      case Nil
      with sp Cons show ?thesis
        by (auto simp: expand_ranges_acc [of _ _ _ "[_]"] split: if_splits)
    next
      case ps: (Cons q qs)
      show ?thesis
      proof (cases qs)
        case Nil
        with sp ps Cons show ?thesis
          by (auto simp: expand_ranges_acc [of _ _ _ "map _ _"] isDigit_pad0 split: if_splits option.splits)
      next
        case (Cons _ _)
        with sp ps Cons.IH Cons.prems show ?thesis by simp
      qed
    qed
  qed
qed simp

lemma brackets_expanded:
  assumes b: "bracketed host" and d: "isDigit d"
  shows "brackets (bracket_prefix host @ d @ bracket_suffix host) < brackets host"
proof -
  let ?c = "\<lambda>s. count_list s (CHR ''['')"
  from b have "?c host = ?c (bracket_prefix host) + 1 + ?c (bracket_content host) + ?c (bracket_suffix host)"
  proof (rule bracketedE)
    assume "host = bracket_prefix host @ CHR ''['' # bracket_content host @ CHR '']'' # bracket_suffix host"
    then have "?c host = ?c (bracket_prefix host @ CHR ''['' # bracket_content host @ CHR '']'' # bracket_suffix host)"
      by (rule arg_cong)
    then show ?thesis by (simp only: count_list_append) simp
  qed
  moreover have "brackets (bracket_prefix host @ d @ bracket_suffix host)
      \<le> ?c (bracket_prefix host) + ?c (bracket_suffix host)"
    by (simp add: brackets_def count_list_append count_list_digits [OF d])
  ultimately show ?thesis using b by (simp add: brackets_def)
qed

lemma expand_hosts_elem:
  "expand_hosts hosts result n = Some (result', n') \<Longrightarrow> h \<in> set result' \<Longrightarrow>
     h \<in> set result \<or> (h \<in> set hosts \<and> \<not> bracketed h) \<or>
     (\<exists>host\<in>set hosts. bracketed host \<and> brackets h < brackets host)"
proof (induction hosts arbitrary: result n)
  case (Cons host hosts)
  show ?case
  proof (cases "bracketed host")
    case False
    with Cons.prems Cons.IH [of "result @ [host]" n] show ?thesis by auto
  next
    case True
    let ?r = "expand_ranges (bracket_prefix host) (bracket_suffix host)
                (Split (bracket_content host) (CHR '',''))"
    from True Cons.prems obtain r a where r: "?r [] = Some (r, a)"
      by (auto simp: expand_ranges_acc [of _ _ _ result] split: option.splits)
    have new: "brackets x < brackets host" if "x \<in> set r" for x
      using expand_ranges_elem [OF r that] brackets_expanded [OF True] by auto
    show ?thesis
    proof (cases a)
      case a: True
      with True r Cons.prems have "result' = result @ r"
        by (simp add: expand_ranges_acc [of _ _ _ result])
      with Cons.prems(2) True new show ?thesis by auto
    next
      case a: False
      with True r Cons.prems have "expand_hosts hosts (result @ r) (Suc n) = Some (result', n')"
        by (simp add: expand_ranges_acc [of _ _ _ result])
      from Cons.IH [OF this Cons.prems(2)] True new show ?thesis by auto
    qed
  qed
qed simp

lemma expand_hosts_count:
  "expand_hosts hosts result n = Some (result', n') \<Longrightarrow> n' \<noteq> n \<Longrightarrow> n' \<noteq> 0 \<Longrightarrow> \<exists>h\<in>set hosts. bracketed h"
proof (induction hosts arbitrary: result n)
  case (Cons host hosts)
  then show ?case by (cases "bracketed host") auto
qed simp

lemma bracketed_brackets: "bracketed h \<Longrightarrow> 0 < brackets h"
  by (rule bracketedE, assumption)
     (metis brackets_def count_list_0_iff gr0I in_set_conv_decomp)

lemma expandOnce_decreases:
  assumes "expandOnce hosts = Some (once, n)" "n \<noteq> 0"
  shows "bracket_measure once < bracket_measure hosts"
proof -
  from assms have run: "expand_hosts hosts [] 0 = Some (once, n)" by (simp add: expandOnce_def)
  from expand_hosts_count [OF run] assms(2) obtain h where h: "h \<in> set hosts" "bracketed h" by auto
  then have pos: "0 < bracket_measure hosts"
    using brackets_le_measure [OF h(1)] bracketed_brackets [OF h(2)] by simp
  have "brackets x < bracket_measure hosts" if "x \<in> set once" for x
    using expand_hosts_elem [OF run that] brackets_le_measure pos
    by (auto simp: brackets_def [of x]) (metis brackets_def brackets_le_measure order_less_le_trans)
  with pos show ?thesis by (simp add: bracket_measure_less_iff)
qed

function expand_loop :: "string list \<Rightarrow> string list option" where
  "expand_loop expanded =
     (case expandOnce expanded of
        None \<Rightarrow> None
      | Some (onceExpanded, count) \<Rightarrow> if count = 0 then Some expanded else expand_loop onceExpanded)"
  by pat_completeness auto
termination
  by (relation "measure bracket_measure") (auto intro: expandOnce_decreases)

declare expand_loop.simps [simp del]

definition Expand :: "GroupResolver \<Rightarrow> string list \<Rightarrow> string list option" where
  "Expand res list =
     map_option (resolveGroups res) (expand_loop (concat (map splitTopLevel list)))"

section \<open>The counting loop\<close>

lemma wrap64_id: "- (2 ^ 63) \<le> n \<Longrightarrow> n \<le> MaxInt \<Longrightarrow> wrap64 n = n"
  by (simp add: wrap64_def MaxInt_def)

lemma wrap64_range: "- (2 ^ 63) \<le> wrap64 n \<and> wrap64 n \<le> MaxInt"
proof -
  have "0 \<le> (n + 2 ^ 63) mod 2 ^ 64" "(n + 2 ^ 63) mod (2 ^ 64 :: int) < 2 ^ 64"
    by (rule pos_mod_sign, simp) (rule pos_mod_bound, simp)
  then show ?thesis by (simp add: wrap64_def MaxInt_def)
qed

lemma num_loop_upto:
  "- (2 ^ 63) \<le> i \<Longrightarrow> e < MaxInt \<Longrightarrow> num_loop i e = Some [i..e]"
proof (induction "nat (e + 1 - i)" arbitrary: i)
  case 0
  then show ?case by (simp add: num_loop.simps [of i])
next
  case (Suc k)
  then have ie: "i \<le> e" by simp
  with Suc.prems have w: "wrap64 (i + 1) = i + 1" by (intro wrap64_id) auto
  have "num_loop (i + 1) e = Some [i + 1..e]"
    using Suc ie by (intro Suc.hyps(1)) auto
  with ie show ?case by (simp add: num_loop.simps [of i] w upto_rec1)
qed

lemma num_loop_diverges:
  assumes "- (2 ^ 63) \<le> i" "i \<le> MaxInt"
  shows "num_loop i MaxInt = None"
proof (rule ccontr)
  assume "num_loop i MaxInt \<noteq> None"
  then obtain r where r: "num_loop i MaxInt = Some r" by auto
  have "\<not> (MaxInt = MaxInt \<and> i \<le> MaxInt)"
  proof (rule num_loop.raw_induct [where P = "\<lambda>i e r. \<not> (e = MaxInt \<and> i \<le> MaxInt)", OF _ r])
    fix f :: "int \<Rightarrow> int \<Rightarrow> int list option" and i e r
    assume IH: "\<And>i e r. f i e = Some r \<Longrightarrow> \<not> (e = MaxInt \<and> i \<le> MaxInt)"
      and eq: "(if i \<le> e then Option.bind (f (wrap64 (i + 1)) e) (\<lambda>ns. Some (i # ns)) else Some []) = Some r"
    show "\<not> (e = MaxInt \<and> i \<le> MaxInt)"
    proof
      assume "e = MaxInt \<and> i \<le> MaxInt"
      with eq obtain ns where "f (wrap64 (i + 1)) e = Some ns"
        by (auto simp: Option.bind_eq_Some_conv)
      with IH \<open>e = MaxInt \<and> i \<le> MaxInt\<close> wrap64_range show False by blast
    qed
  qed
  with assms show False by simp
qed

lemma toInt_digits: "isDigit s \<Longrightarrow> toInt s = min MaxInt (int (dec_val s))"
proof (cases "s = []")
  case True
  then show ?thesis by (simp add: toInt_def Atoi_def MaxInt_def)
next
  case False
  assume "isDigit s"
  with False show ?thesis by (simp add: toInt_def isDigit_def Atoi_digits)
qed

lemma toInt_nonneg: "isDigit s \<Longrightarrow> 0 \<le> toInt s"
  by (simp add: toInt_digits MaxInt_def)

section \<open>Tokens without brackets\<close>

lemma expand_hosts_plain:
  "\<forall>h\<in>set hosts. \<not> bracketed h \<Longrightarrow> expand_hosts hosts result n = Some (result @ hosts, n)"
  by (induction hosts arbitrary: result) auto

lemma expand_loop_plain: "\<forall>h\<in>set hosts. \<not> bracketed h \<Longrightarrow> expand_loop hosts = Some hosts"
  by (simp add: expand_loop.simps [of hosts] expandOnce_def expand_hosts_plain)

lemma not_bracketed: "CHR ''['' \<notin> set h \<Longrightarrow> \<not> bracketed h"
  using Index_neg [of h "CHR ''[''"] by (simp add: bracketed_def)

lemma split_top_plain:
  "CHR ''['' \<notin> set s \<Longrightarrow> CHR '','' \<notin> set s \<Longrightarrow> split_top s 0 cur = [cur @ s]"
  by (induction s arbitrary: cur) auto

lemma concat_split_plain:
  "\<forall>s\<in>set list. CHR ''['' \<notin> set s \<and> CHR '','' \<notin> set s \<Longrightarrow> concat (map splitTopLevel list) = list"
  by (induction list) (auto simp: splitTopLevel_def split_top_plain)

lemma distinct_add_host: "distinct r \<Longrightarrow> distinct (add_host r s)"
  by (simp add: add_host_def)

lemma set_add_host: "set (add_host r s) = insert s (set r)"
  by (auto simp: add_host_def)

lemma foldl_add_host:
  "distinct (foldl add_host r ss) = distinct r \<and> set (foldl add_host r ss) = set r \<union> set ss"
  by (induction ss arbitrary: r) (auto simp: add_host_def)

lemma distinct_resolve: "distinct result \<Longrightarrow> distinct (resolve_tokens res toks result)"
  by (induction res toks result rule: resolve_tokens.induct)
     (auto simp: distinct_add_host foldl_add_host Let_def)

lemma set_resolve:
  "set (resolve_tokens res toks result) =
     set result \<union> {t \<in> set toks. \<not> HasPrefix t GroupPrefix} \<union>
     (\<Union>g\<in>{g. g \<noteq> [] \<and> GroupPrefix @ g \<in> set toks}. set (res g))"
proof (induction res toks result rule: resolve_tokens.induct)
  case (2 res tok toks result)
  show ?case
  proof (cases "HasPrefix tok GroupPrefix")
    case False
    with 2(1) show ?thesis by (auto simp: set_add_host)
  next
    case True
    then obtain g where g: "tok = GroupPrefix @ g" by (auto simp: HasPrefix_iff prefix_def)
    have groups: "{x. x \<noteq> [] \<and> GroupPrefix @ x \<in> set (tok # toks)} =
        (if g = [] then {} else {g}) \<union> {x. x \<noteq> [] \<and> GroupPrefix @ x \<in> set toks}"
      by (auto simp: g)
    have plain: "{t \<in> set (tok # toks). \<not> HasPrefix t GroupPrefix} = {t \<in> set toks. \<not> HasPrefix t GroupPrefix}"
      by (auto simp: g)
    show ?thesis
    proof (cases "g = []")
      case True
      with 2(2) g show ?thesis unfolding groups plain by (simp add: TrimPrefix_def HasPrefix_def)
    next
      case False
      with 2(3) g show ?thesis unfolding groups plain by (simp add: foldl_add_host Un_ac)
    qed
  qed
qed simp

lemma resolve_plain:
  "\<forall>t\<in>set toks. \<not> HasPrefix t GroupPrefix \<Longrightarrow> resolve_tokens res toks result = foldl add_host result toks"
  by (induction toks arbitrary: result) auto

lemma foldl_add_host_distinct:
  "distinct (r @ ss) \<Longrightarrow> foldl add_host r ss = r @ ss"
  by (induction ss arbitrary: r) (auto simp: add_host_def)

text \<open>
  Expansion never returns a host twice.
\<close>

theorem Expand_distinct: "Expand res list = Some r \<Longrightarrow> distinct r"
  by (auto simp: Expand_def resolveGroups_def distinct_resolve)

theorem Expand_distinct_witness:
  "Expand nopResolver [''n1'', ''n2'', ''n1''] = Some [''n1'', ''n2''] \<and> distinct [''n1'', ''n2'']"
proof -
  have "Expand nopResolver [''n1'', ''n2'', ''n1''] = Some [''n1'', ''n2'']"
    by code_simp
  with Expand_distinct [OF this] show ?thesis by blast
qed

text \<open>
  A list of names and group references without brackets and commas expands to exactly the
  names it holds and the members of the groups it mentions; an empty group name adds nothing.
\<close>

theorem Expand_groups:
  assumes "\<forall>s\<in>set list. CHR ''['' \<notin> set s \<and> CHR '','' \<notin> set s"
  shows "\<exists>r. Expand res list = Some r \<and>
    set r = {t \<in> set list. \<not> HasPrefix t GroupPrefix} \<union>
            (\<Union>g\<in>{g. g \<noteq> [] \<and> GroupPrefix @ g \<in> set list}. set (res g))"
  using assms
  by (simp add: Expand_def concat_split_plain expand_loop_plain not_bracketed resolveGroups_def set_resolve)

theorem Expand_groups_witness:
  "\<exists>r. Expand (\<lambda>g. if g = ''rack1'' then [''n2'', ''n3''] else []) [''n1'', ''@rack1''] = Some r \<and>
     set r = {t \<in> {''n1'', ''@rack1''}. \<not> HasPrefix t GroupPrefix} \<union>
            (\<Union>g\<in>{g. g \<noteq> [] \<and> GroupPrefix @ g \<in> {''n1'', ''@rack1''}}.
               set (if g = ''rack1'' then [''n2'', ''n3''] else []))"
proof -
  have h: "\<forall>s\<in>set [''n1'', ''@rack1'']. CHR ''['' \<notin> set s \<and> CHR '','' \<notin> set s" by simp
  show ?thesis using Expand_groups [OF h, of "\<lambda>g. if g = ''rack1'' then [''n2'', ''n3''] else []"] by simp
qed

section \<open>Expansion returns\<close>

text \<open>
  \<open>runs_ok\<close> reads a pattern from left to right and checks that no run of digits between an opening
  bracket and the next closing one is longer than 18, so that every number read from a bracket is
  below the largest 64-bit integer.
\<close>

fun runs_ok :: "bool \<Rightarrow> nat \<Rightarrow> string \<Rightarrow> bool" where
  "runs_ok inside n [] = True"
| "runs_ok inside n (c # s) =
     (if c = CHR ''['' then runs_ok True 0 s
      else if c = CHR '']'' then runs_ok False 0 s
      else if inside \<and> is_digit c then n < 18 \<and> runs_ok inside (Suc n) s
      else runs_ok inside 0 s)"

fun inside_after :: "bool \<Rightarrow> string \<Rightarrow> bool" where
  "inside_after inside [] = inside"
| "inside_after inside (c # s) =
     inside_after (if c = CHR ''['' then True else if c = CHR '']'' then False else inside) s"

lemma inside_after_append: "inside_after b (s @ t) = inside_after (inside_after b s) t"
  by (induction s arbitrary: b) auto

lemma is_digit_bracket: "is_digit c \<Longrightarrow> c \<noteq> CHR ''['' \<and> c \<noteq> CHR '']'' \<and> c \<noteq> CHR '','' \<and> c \<noteq> CHR ''-'' \<and> c \<noteq> CHR ''@''"
  by (auto simp: is_digit_def Let_def)

lemma runs_ok_prefix: "runs_ok b n (s @ t) \<Longrightarrow> runs_ok b n s"
  by (induction s arbitrary: b n) (auto split: if_splits)

lemma runs_ok_outside: "CHR ''['' \<notin> set p \<Longrightarrow> runs_ok False n (p @ t) = (if p = [] then runs_ok False n t else runs_ok False 0 t)"
  by (induction p arbitrary: n) auto

lemma runs_ok_False: "runs_ok False n t = runs_ok False 0 t"
  by (cases t) auto

lemma runs_ok_after_close: "CHR '']'' \<notin> set c \<Longrightarrow> runs_ok True n (c @ CHR '']'' # s) \<Longrightarrow> runs_ok False 0 s"
  by (induction c arbitrary: n) (auto split: if_splits)

lemma runs_ok_after_comma:
  "runs_ok b n (cur @ CHR '','' # s) \<Longrightarrow> \<not> inside_after b cur \<Longrightarrow> runs_ok False 0 s"
proof (induction cur arbitrary: b n)
  case Nil
  then show ?case by (simp add: is_digit_def Let_def)
next
  case (Cons c cur)
  then show ?case by (auto split: if_splits)
qed

lemma runs_ok_digits:
  "runs_ok True n (q @ y) \<Longrightarrow> list_all is_digit q \<Longrightarrow> n \<le> 18 \<Longrightarrow> n + length q \<le> 18"
proof (induction q arbitrary: n)
  case (Cons c q)
  then have "n < 18" and "runs_ok True (Suc n) (q @ y)"
    using is_digit_bracket [of c] by auto
  with Cons.IH [of "Suc n"] Cons.prems show ?case by simp
qed simp

lemma runs_ok_inner_digits:
  "runs_ok True n (x @ q @ y) \<Longrightarrow> CHR '']'' \<notin> set x \<Longrightarrow> list_all is_digit q \<Longrightarrow> n \<le> 18 \<Longrightarrow> length q \<le> 18"
proof (induction x arbitrary: n)
  case Nil
  then show ?case using runs_ok_digits [of n q y] by simp
next
  case (Cons c x)
  then show ?case by (auto split: if_splits)
qed

lemma Split_sublist: "p \<in> set (Split s c) \<Longrightarrow> sublist p s"
proof (induction s arbitrary: p)
  case (Cons x xs)
  show ?case
  proof (cases "x = c")
    case True
    with Cons show ?thesis by (auto simp: sublist_Cons_right)
  next
    case False
    obtain y ys where sp: "Split xs c = y # ys" by (meson Split_neq_Nil list.exhaust)
    have "prefix y xs"
      using sp by (induction xs arbitrary: y ys) (auto split: if_splits list.splits)
    with False sp Cons show ?thesis
      by (auto simp: sublist_Cons_right)
  qed
qed simp

lemma expand_ranges_total:
  assumes "\<forall>rng\<in>set rngs. \<forall>q\<in>set (Split rng (CHR ''-'')). isDigit q \<longrightarrow> length q \<le> 18"
  shows "\<exists>r a. expand_ranges pre suf rngs result = Some (r, a)"
  using assms
proof (induction rngs arbitrary: result)
  case (Cons rng rngs)
  have short: "num_loop (toInt p) (toInt q) = Some [toInt p..toInt q]"
    if "isDigit p" "isDigit q" "q \<in> set (Split rng (CHR ''-''))" for p q
    using that Cons.prems dec_val_short [of q] toInt_nonneg [of p]
    by (intro num_loop_upto) (auto simp: toInt_digits isDigit_def)
  show ?case
  proof (cases "Split rng (CHR ''-'')")
    case (Cons p ps)
    with Cons.IH Cons.prems short show ?thesis
      by (auto split: list.split)
  qed simp
qed auto

lemma bracket_runs:
  assumes "bracketed host" "runs_ok False 0 host"
  shows "runs_ok True 0 (bracket_content host @ CHR '']'' # bracket_suffix host)"
    and "runs_ok False 0 (bracket_suffix host)"
proof -
  from assms(1) obtain h: "host = bracket_prefix host @ CHR ''['' # bracket_content host @ CHR '']'' # bracket_suffix host"
    and p: "CHR ''['' \<notin> set (bracket_prefix host)" and c: "CHR '']'' \<notin> set (bracket_content host)"
    by (rule bracketedE)
  have "runs_ok False 0 (bracket_prefix host @ CHR ''['' # bracket_content host @ CHR '']'' # bracket_suffix host)"
    using assms(2) h by metis
  then show t: "runs_ok True 0 (bracket_content host @ CHR '']'' # bracket_suffix host)"
    by (simp only: runs_ok_outside [OF p]) (simp split: if_splits)
  from runs_ok_after_close [OF c t] show "runs_ok False 0 (bracket_suffix host)" .
qed

lemma bracket_ranges_short:
  assumes b: "bracketed host" and ok: "runs_ok False 0 host"
    and rng: "rng \<in> set (Split (bracket_content host) (CHR '',''))"
    and q: "q \<in> set (Split rng (CHR ''-''))" and d: "isDigit q"
  shows "length q \<le> 18"
proof -
  from Split_sublist [OF q] Split_sublist [OF rng] have "sublist q (bracket_content host)"
    by (rule sublist_order.order_trans)
  then obtain x y where xy: "bracket_content host = x @ q @ y" by (auto simp: sublist_def)
  from b have "CHR '']'' \<notin> set x" by (rule bracketedE) (simp add: xy)
  moreover from bracket_runs(1) [OF b ok] have "runs_ok True 0 (x @ q @ (y @ CHR '']'' # bracket_suffix host))"
    by (simp add: xy)
  ultimately show ?thesis using d runs_ok_inner_digits [of 0 x q] by (simp add: isDigit_def)
qed

lemma expand_hosts_total:
  assumes "\<forall>h\<in>set hosts \<union> set result. runs_ok False 0 h"
  shows "\<exists>r n'. expand_hosts hosts result n = Some (r, n') \<and> (\<forall>h\<in>set r. runs_ok False 0 h)"
  using assms
proof (induction hosts arbitrary: result n)
  case (Cons host hosts)
  show ?case
  proof (cases "bracketed host")
    case False
    with Cons show ?thesis by auto
  next
    case True
    let ?x = "expand_ranges (bracket_prefix host) (bracket_suffix host) (Split (bracket_content host) (CHR '',''))"
    have "\<exists>r a. ?x [] = Some (r, a)"
      using bracket_ranges_short [OF True] Cons.prems by (intro expand_ranges_total) auto
    then obtain r a where r: "?x [] = Some (r, a)" by blast
    have "runs_ok False 0 h" if h: "h \<in> set r" for h
    proof -
      from expand_ranges_elem [OF r h] obtain d where d: "isDigit d" "h = bracket_prefix host @ d @ bracket_suffix host"
        by auto
      have "CHR ''['' \<notin> set (bracket_prefix host @ d)"
        using bracketedE [OF True] d(1) is_digit_bracket by (auto simp: isDigit_def list_all_iff)
      with d(2) bracket_runs(2) [OF True] Cons.prems show ?thesis
        by (simp add: runs_ok_outside flip: append_assoc)
    qed
    with r True Cons.prems Cons.IH [of "result @ r" "Suc n"] show ?thesis
      by (cases a) (auto simp: expand_ranges_acc [of _ _ _ result])
  qed
qed simp

lemma expand_loop_total:
  "\<forall>h\<in>set hosts. runs_ok False 0 h \<Longrightarrow> \<exists>r. expand_loop hosts = Some r"
proof (induction hosts rule: expand_loop.induct)
  case (1 hosts)
  from 1(2) expand_hosts_total [of hosts "[]" 0] obtain r n where
    r: "expandOnce hosts = Some (r, n)" and ok: "\<forall>h\<in>set r. runs_ok False 0 h"
    by (auto simp: expandOnce_def)
  with 1(1) [OF r refl] show ?case by (cases "n = 0") (auto simp: expand_loop.simps [of hosts])
qed

lemma split_top_runs:
  "runs_ok False 0 (cur @ s) \<Longrightarrow> (depth = 0 \<longrightarrow> \<not> inside_after False cur) \<Longrightarrow>
     \<forall>p\<in>set (split_top s depth cur). runs_ok False 0 p"
proof (induction s depth cur rule: split_top.induct)
  case (1 depth cur)
  then show ?case by simp
next
  case (2 ch s depth cur)
  have ok: "runs_ok False 0 ((cur @ [ch]) @ s)" using 2(5) by simp
  consider (op) "ch = CHR ''[''" | (cl) "ch = CHR '']''" | (comma) "ch = CHR '','' \<and> depth = 0"
    | (other) "ch \<noteq> CHR ''['' \<and> ch \<noteq> CHR '']'' \<and> \<not> (ch = CHR '','' \<and> depth = 0)"
    by blast
  then show ?case
  proof cases
    case op
    with "2.IH"(1) ok show ?thesis by simp
  next
    case cl
    with "2.IH"(2) ok show ?thesis by (simp add: inside_after_append)
  next
    case comma
    then have "runs_ok False 0 s" and "runs_ok False 0 cur"
      using runs_ok_after_comma [of False 0 cur s] runs_ok_prefix [of False 0 cur "ch # s"] 2(5,6) by auto
    with comma "2.IH"(3) show ?thesis by simp
  next
    case other
    with "2.IH"(4) ok 2(6) show ?thesis by (auto simp: inside_after_append)
  qed
qed

text \<open>
  (C39) Expansion returns for every list of patterns whose bracketed numbers have at most 18 digits,
  whatever else the patterns hold (unbalanced or nested brackets, ranges that run backwards, text
  that is no number).
\<close>

theorem Expand_returns:
  "\<forall>s\<in>set list. runs_ok False 0 s \<Longrightarrow> \<exists>r. Expand res list = Some r"
  using expand_loop_total [of "concat (map splitTopLevel list)"] split_top_runs [of "[]" _ 0]
  by (auto simp: Expand_def splitTopLevel_def)

theorem Expand_returns_witness:
  "\<exists>r. Expand nopResolver [''a[1-3]b[2],x]['', ''n[5-2]''] = Some r"
proof -
  have h: "\<forall>s\<in>set [''a[1-3]b[2],x]['', ''n[5-2]'']. runs_ok False 0 s" by code_simp
  show ?thesis using Expand_returns [OF h] .
qed

section \<open>One bracket\<close>

lemma bracket_parts:
  fixes suf :: string
  assumes "CHR ''['' \<notin> set pre" "CHR '']'' \<notin> set pre" "CHR '']'' \<notin> set c"
  defines "host \<equiv> pre @ CHR ''['' # c @ CHR '']'' # suf"
  shows "bracketed host" "bracket_prefix host = pre" "bracket_content host = c" "bracket_suffix host = suf"
proof -
  have o: "Index host (CHR ''['') = int (length pre)"
    using assms by (simp add: host_def Index_append_hit)
  have "host = (pre @ CHR ''['' # c) @ CHR '']'' # suf" by (simp add: host_def)
  then have e: "Index host (CHR '']'') = int (length pre + Suc (length c))"
    using assms Index_append_hit [of "CHR '']''" "pre @ CHR ''['' # c" suf] by simp
  have nat: "nat (1 + int m) = Suc m" "nat (int m + 1) = Suc m" for m by simp_all
  show "bracketed host" by (simp add: bracketed_def o e)
  show "bracket_prefix host = pre" by (simp only: bracket_prefix_def o nat_int) (simp add: host_def)
  show "bracket_suffix host = suf"
    by (simp only: bracket_suffix_def e nat) (simp add: host_def)
  show "bracket_content host = c"
    by (simp only: bracket_content_def o e nat nat_int) (simp add: host_def)
qed

lemma split_top_outer:
  "CHR ''['' \<notin> set p \<Longrightarrow> CHR '','' \<notin> set p \<Longrightarrow> split_top (p @ t) 0 cur = split_top t 0 (cur @ p)"
  by (induction p arbitrary: cur) auto

lemma split_top_inner:
  "CHR ''['' \<notin> set c \<Longrightarrow> CHR '']'' \<notin> set c \<Longrightarrow> split_top (c @ t) (Suc d) cur = split_top t (Suc d) (cur @ c)"
  by (induction c arbitrary: cur) auto

lemma split_top_bracket:
  assumes "CHR ''['' \<notin> set pre" "CHR '','' \<notin> set pre" "CHR ''['' \<notin> set c" "CHR '']'' \<notin> set c"
  shows "split_top (pre @ CHR ''['' # c @ CHR '']'' # t) 0 cur = split_top t 0 (cur @ pre @ CHR ''['' # c @ [CHR '']''])"
  using assms by (simp add: split_top_outer split_top_inner)

lemma digits_no_bracket:
  "isDigit d \<Longrightarrow> CHR ''['' \<notin> set d \<and> CHR '']'' \<notin> set d \<and> CHR '','' \<notin> set d \<and> CHR ''-'' \<notin> set d"
  using is_digit_bracket by (auto simp: isDigit_def list_all_iff)

lemma dec_val_append_zero: "dec_val (replicate k (CHR ''0'') @ s) = dec_val s"
proof -
  have "foldl (\<lambda>n c. 10 * n + digit_val c) 0 (replicate k (CHR ''0'')) = 0"
    by (induction k) (auto simp: digit_val_def)
  then show ?thesis by (simp add: dec_val_def)
qed

lemma dec_val_show_nat: "dec_val (show_nat n) = n"
proof (induction n rule: show_nat.induct)
  case (1 n)
  then show ?case
    using dec_val_snoc [of "[]"] by (subst show_nat.simps) (auto simp: digit_val_digit_char)
qed

lemma dec_val_pad0: "dec_val (pad0 w n) = nat n"
  by (simp add: pad0_def Let_def dec_val_append_zero dec_val_show_nat)

lemma pad0_not_Nil: "pad0 w n \<noteq> []"
  by (subst pad0_def, subst show_nat.simps) (simp add: Let_def)

lemma not_group_prefix: "\<not> HasPrefix pre GroupPrefix \<Longrightarrow> \<not> HasPrefix (pre @ pad0 w n @ suf) GroupPrefix"
proof (cases pre)
  case Nil
  obtain c cs where c: "pad0 w n = c # cs" by (meson pad0_not_Nil list.exhaust)
  with isDigit_pad0 [of w n] have "c \<noteq> CHR ''@''" using is_digit_bracket by (simp add: isDigit_def)
  with Nil c show ?thesis by (simp add: GroupPrefix_def)
qed (simp add: GroupPrefix_def)

definition range_pattern :: "string \<Rightarrow> string \<Rightarrow> string \<Rightarrow> string \<Rightarrow> string" where
  "range_pattern pre a b suf = pre @ ''['' @ a @ ''-'' @ b @ '']'' @ suf"

definition plain :: "string \<Rightarrow> bool" where
  "plain s = (CHR ''['' \<notin> set s \<and> CHR '']'' \<notin> set s \<and> CHR '','' \<notin> set s)"

lemma range_pattern_split:
  assumes "plain pre" "plain suf" "isDigit a" "isDigit b"
  shows "splitTopLevel (range_pattern pre a b suf) = [range_pattern pre a b suf]"
proof -
  have "range_pattern pre a b suf = pre @ CHR ''['' # (a @ CHR ''-'' # b) @ CHR '']'' # suf"
    by (simp add: range_pattern_def)
  moreover have "split_top (pre @ CHR ''['' # (a @ CHR ''-'' # b) @ CHR '']'' # suf) 0 [] =
      split_top suf 0 ([] @ pre @ CHR ''['' # (a @ CHR ''-'' # b) @ [CHR '']''])"
    using assms digits_no_bracket by (intro split_top_bracket) (auto simp: plain_def)
  moreover have "split_top suf 0 cur = [cur @ suf]" for cur
    using assms(2) split_top_outer [of suf "[]" cur] by (simp add: plain_def)
  ultimately show ?thesis by (simp add: splitTopLevel_def)
qed

lemma range_pattern_once:
  assumes "plain pre" "plain suf" "isDigit a" "isDigit b"
  shows "expandOnce [range_pattern pre a b suf] =
    map_option (\<lambda>ns. (map (\<lambda>n. pre @ pad0 (length a) n @ suf) ns, 1)) (num_loop (toInt a) (toInt b))"
proof -
  let ?c = "a @ CHR ''-'' # b"
  have c: "CHR '']'' \<notin> set ?c" "CHR '','' \<notin> set ?c" using assms digits_no_bracket by auto
  have h: "range_pattern pre a b suf = pre @ CHR ''['' # ?c @ CHR '']'' # suf"
    by (simp add: range_pattern_def)
  note parts = bracket_parts [of pre ?c suf, folded h]
  have "Split ?c (CHR '','') = [?c]" using c by (simp add: Split_no_sep)
  moreover have "Split ?c (CHR ''-'') = [a, b]"
    using assms digits_no_bracket by (simp add: Split_append Split_no_sep)
  ultimately show ?thesis
    using parts assms c(1) by (auto simp: plain_def expandOnce_def split: option.split)
qed

text \<open>
  A range such as \<open>node[01-12]\<close> expands to its numbers in ascending order, each written with
  at least as many digits as the lower bound.
\<close>

theorem Expand_range:
  assumes "plain pre" "plain suf" "isDigit a" "isDigit b" "\<not> HasPrefix pre GroupPrefix"
    and "int (dec_val b) < MaxInt"
  shows "Expand res [range_pattern pre a b suf] =
    Some (map (\<lambda>n. pre @ pad0 (length a) n @ suf) [int (dec_val a)..int (dec_val b)])"
proof -
  let ?h = "\<lambda>n. pre @ pad0 (length a) n @ suf" and ?ns = "[toInt a..toInt b]"
  have b: "toInt b = int (dec_val b)" using assms by (simp add: toInt_digits)
  have ns: "num_loop (toInt a) (toInt b) = Some ?ns"
    using assms toInt_nonneg [of a] by (intro num_loop_upto) (simp_all add: b)
  have rng: "?ns = [int (dec_val a)..int (dec_val b)]"
    using assms by (auto simp: b toInt_digits min_def)
  have plain: "\<not> bracketed (?h n)" for n
    using assms digits_no_bracket [OF isDigit_pad0] by (intro not_bracketed) (auto simp: plain_def)
  have "inj_on ?h (set ?ns)"
    using toInt_nonneg [OF assms(3)] by (intro inj_onI) (auto dest: arg_cong [where f = dec_val] simp: dec_val_pad0)
  then have "foldl add_host [] (map ?h ?ns) = map ?h ?ns"
    using foldl_add_host_distinct [of "[]" "map ?h ?ns"] by (simp add: distinct_map)
  moreover have "expand_loop [range_pattern pre a b suf] = Some (map ?h ?ns)"
    using assms plain by (subst expand_loop.simps) (simp add: range_pattern_once ns expand_loop_plain)
  ultimately show ?thesis
    using assms by (simp add: Expand_def range_pattern_split resolveGroups_def resolve_plain not_group_prefix rng)
qed

theorem Expand_range_witness:
  "Expand nopResolver [range_pattern ''n'' ''09'' ''11'' ''''] = Some [''n09'', ''n10'', ''n11'']"
proof -
  have h: "plain ''n''" "plain ''''" "isDigit ''09''" "isDigit ''11''" "\<not> HasPrefix ''n'' GroupPrefix"
    "int (dec_val ''11'') < MaxInt" by code_simp+
  have "map (\<lambda>n. ''n'' @ pad0 (length ''09'') n @ '''') [int (dec_val ''09'')..int (dec_val ''11'')] =
      [''n09'', ''n10'', ''n11'']" by code_simp
  with Expand_range [OF h] show ?thesis by simp
qed

text \<open>
  (C40) A range whose upper bound does not fit below the largest 64-bit integer never returns: the
  bound is clamped by \<open>strconv.Atoi\<close>, whose error \<open>toInt\<close> drops, and the counter wraps around before
  it can pass the bound.
\<close>

theorem Expand_unbounded_range:
  assumes "plain pre" "plain suf" "isDigit a" "isDigit b" "int (dec_val b) \<ge> MaxInt"
  shows "Expand res [range_pattern pre a b suf] = None"
proof -
  have "toInt b = MaxInt" using assms by (simp add: toInt_digits)
  moreover have "num_loop (toInt a) MaxInt = None"
    using assms(3) by (intro num_loop_diverges) (simp_all add: toInt_digits MaxInt_def)
  ultimately have "expand_loop [range_pattern pre a b suf] = None"
    using assms by (subst expand_loop.simps) (simp add: range_pattern_once)
  then show ?thesis using assms by (simp add: Expand_def range_pattern_split)
qed

theorem Expand_unbounded_range_witness:
  "Expand nopResolver [range_pattern ''n'' ''1'' ''9223372036854775807'' ''''] = None"
proof -
  have h: "plain ''n''" "plain ''''" "isDigit ''1''" "isDigit ''9223372036854775807''"
    "int (dec_val ''9223372036854775807'') \<ge> MaxInt"
    by (simp_all add: plain_def isDigit_def is_digit_def dec_val_def digit_val_def MaxInt_def)
  show ?thesis using Expand_unbounded_range [OF h] .
qed

section \<open>The contract of a group resolver\<close>

text \<open>
  \<open>GroupResolver\<close> as the commands rely on it: the members of a group are listed without repetition
  and in order. What an expansion of group references returns is proved from this contract alone.
\<close>

locale group_resolver =
  fixes members :: "string \<Rightarrow> string list"
  assumes members_distinct: "distinct (members name)"
    and members_sorted: "sorted (members name)"
begin

lemma expand_one_group:
  assumes "g \<noteq> []" "CHR ''['' \<notin> set g" "CHR '','' \<notin> set g"
  shows "Expand members [GroupPrefix @ g] = Some (members g)"
proof -
  have p: "\<forall>s\<in>set [GroupPrefix @ g]. CHR ''['' \<notin> set s \<and> CHR '','' \<notin> set s"
    using assms by (simp add: GroupPrefix_def)
  have "expand_loop (concat (map splitTopLevel [GroupPrefix @ g])) = Some [GroupPrefix @ g]"
    unfolding concat_split_plain [OF p] using p by (intro expand_loop_plain) (simp add: not_bracketed)
  then have "Expand members [GroupPrefix @ g] = Some (resolveGroups members [GroupPrefix @ g])"
    by (simp add: Expand_def)
  then show ?thesis
    using assms(1) foldl_add_host_distinct [of "[]" "members g"] members_distinct
    by (simp add: resolveGroups_def)
qed

end

end
