(* ===== verification/Hostlist_Compress.thy ===== *)
theory Hostlist_Compress
  imports Hostlist
begin

text \<open>
  \<open>Compress\<close> of \<open>internal/pkg/hostlist\<close> and its relation to \<open>Expand\<close>: the pattern that it prints for
  a list of host names expands to the same hosts. The Go map \<open>groups\<close> is an association list, the
  slice \<open>order\<close> a list of its keys.
\<close>

section \<open>Definitions\<close>

record group =
  g_prefix :: string
  g_width :: nat
  g_nums :: "int list"
  g_single :: string
  g_firstIdx :: nat

text \<open>\<open>for i > 0 && id[i-1] >= '0' && id[i-1] <= '9' { i-- }\<close>\<close>

fun digit_start :: "string \<Rightarrow> nat \<Rightarrow> nat" where
  "digit_start s 0 = 0"
| "digit_start s (Suc i) = (if is_digit (s ! i) then digit_start s i else Suc i)"

definition compress_key :: "string \<Rightarrow> nat \<Rightarrow> string" where
  "compress_key s i =
     (if i = length s then CHR 0x00 # s else take i s @ CHR 0x00 # show_nat (length s - i))"

definition new_group :: "nat \<Rightarrow> string \<Rightarrow> nat \<Rightarrow> group" where
  "new_group idx s i =
     (if i = length s
      then \<lparr>g_prefix = [], g_width = 0, g_nums = [], g_single = s, g_firstIdx = idx\<rparr>
      else \<lparr>g_prefix = take i s, g_width = length s - i, g_nums = [], g_single = [], g_firstIdx = idx\<rparr>)"

definition add_num :: "group \<Rightarrow> string \<Rightarrow> nat \<Rightarrow> group" where
  "add_num g s i = (if 0 < g_width g then g\<lparr>g_nums := g_nums g @ [fst (Atoi (drop i s))]\<rparr> else g)"

fun collect ::
  "nat \<Rightarrow> string list \<Rightarrow> (string \<times> group) list \<Rightarrow> string list \<Rightarrow> (string \<times> group) list \<times> string list" where
  "collect idx [] groups order = (groups, order)"
| "collect idx (s # ss) groups order =
     (let i = digit_start s (length s); key = compress_key s i in
      case map_of groups key of
        Some g \<Rightarrow> collect (Suc idx) ss (al_update key (add_num g s i) groups) order
      | None \<Rightarrow>
          collect (Suc idx) ss (al_update key (add_num (new_group idx s i) s i) groups) (order @ [key]))"

definition flush :: "nat \<Rightarrow> int \<Rightarrow> int \<Rightarrow> string" where
  "flush w start prev = (if start = prev then pad0 w start else pad0 w start @ ''-'' @ pad0 w prev)"

fun compress_ranges :: "nat \<Rightarrow> int \<Rightarrow> int \<Rightarrow> int list \<Rightarrow> string list" where
  "compress_ranges w start prev [] = [flush w start prev]"
| "compress_ranges w start prev (v # vs) =
     (if v = prev + 1 then compress_ranges w start v vs
      else flush w start prev # compress_ranges w v v vs)"

text \<open>The text of one group. A group with a width holds at least the number that created it.\<close>

definition group_part :: "group \<Rightarrow> string" where
  "group_part g =
     (if g_width g = 0 then g_single g
      else case sort (g_nums g) of
          [] \<Rightarrow> []
        | [n] \<Rightarrow> g_prefix g @ pad0 (g_width g) n
        | n # ns \<Rightarrow> g_prefix g @ ''['' @ Join (compress_ranges (g_width g) n n ns) '','' @ '']'')"

definition Compress :: "string list \<Rightarrow> string" where
  "Compress ids =
     (let (groups, order) = collect 0 ids [] [];
          order' = sort_key (\<lambda>k. g_firstIdx (the (map_of groups k))) order
      in Join (map (\<lambda>k. group_part (the (map_of groups k))) order') '','')"

section \<open>Where the trailing digits start\<close>

lemma digit_start_props:
  "i \<le> length s \<Longrightarrow> digit_start s i \<le> i \<and> list_all is_digit (drop (digit_start s i) (take i s)) \<and>
     (digit_start s i = 0 \<or> \<not> is_digit (s ! (digit_start s i - 1)))"
proof (induction s i rule: digit_start.induct)
  case (2 s i)
  then show ?case by (auto simp: take_Suc_conv_app_nth)
qed simp

abbreviation dstart :: "string \<Rightarrow> nat" where "dstart s \<equiv> digit_start s (length s)"

lemma dstart_le: "dstart s \<le> length s"
  using digit_start_props [of "length s" s] by simp

lemma dstart_digits: "list_all is_digit (drop (dstart s) s)"
  using digit_start_props [of "length s" s] by simp

lemma dstart_single_last: "dstart s = length s \<Longrightarrow> s \<noteq> [] \<Longrightarrow> \<not> is_digit (last s)"
  using digit_start_props [of "length s" s] by (simp add: last_conv_nth)

lemma nul_not_digit: "\<not> is_digit (CHR 0x00)"
  by code_simp

lemma show_nat_not_Nil: "show_nat n \<noteq> []"
  by (subst show_nat.simps) simp

lemma show_nat_last: "is_digit (last (show_nat n))"
  using show_nat_digits [of n] show_nat_not_Nil [of n] by (simp add: list_all_iff)

lemma nul_split:
  assumes "p @ CHR 0x00 # d = p' @ CHR 0x00 # d'" "list_all is_digit d" "list_all is_digit d'"
  shows "p = p' \<and> d = d'"
proof -
  have tw: "takeWhile is_digit (rev (q @ CHR 0x00 # e)) = rev e" if "list_all is_digit e" for q e
  proof -
    have "takeWhile is_digit (rev e @ CHR 0x00 # rev q) = rev e @ takeWhile is_digit (CHR 0x00 # rev q)"
      using that by (intro takeWhile_append2) (simp add: list_all_iff)
    then show ?thesis using nul_not_digit by simp
  qed
  from tw [OF assms(2), of p] tw [OF assms(3), of p'] assms(1) have "d = d'" by simp
  with assms(1) show ?thesis by simp
qed

text \<open>Two names with the same key are the same single name, or share prefix and width.\<close>

lemma compress_key_eq:
  assumes "compress_key s (dstart s) = compress_key t (dstart t)"
  shows "(dstart s = length s \<and> dstart t = length t \<and> s = t) \<or>
    (dstart s < length s \<and> dstart t < length t \<and> take (dstart s) s = take (dstart t) t \<and>
     length s - dstart s = length t - dstart t)"
proof -
  have single: "\<not> is_digit (last (compress_key u (dstart u)))" if "dstart u = length u" for u
    using that dstart_single_last [of u] nul_not_digit by (auto simp: compress_key_def)
  have numeric: "is_digit (last (compress_key u (dstart u)))" if "dstart u \<noteq> length u" for u
    using that show_nat_last show_nat_not_Nil by (simp add: compress_key_def)
  show ?thesis
  proof (cases "dstart s = length s")
    case True
    then have "dstart t = length t" using single [of s] numeric [of t] assms by auto
    with True assms show ?thesis by (simp add: compress_key_def)
  next
    case False
    then have t: "dstart t \<noteq> length t" using single [of t] numeric [of s] assms by auto
    from assms False t have "take (dstart s) s = take (dstart t) t \<and>
        show_nat (length s - dstart s) = show_nat (length t - dstart t)"
      by (intro nul_split) (auto simp: compress_key_def show_nat_digits)
    then have "take (dstart s) s = take (dstart t) t" "length s - dstart s = length t - dstart t"
      by (auto dest: arg_cong [where f = dec_val] simp: dec_val_show_nat)
    with False t dstart_le [of s] dstart_le [of t] show ?thesis by simp
  qed
qed

section \<open>What the groups hold\<close>

definition group_ids :: "group \<Rightarrow> string set" where
  "group_ids g =
     (if g_width g = 0 then {g_single g} else (\<lambda>n. g_prefix g @ pad0 (g_width g) n) ` set (g_nums g))"

text \<open>\<open>g\<close> is a group that \<open>s\<close> belongs to, given that its number has been added.\<close>

definition group_of_id :: "group \<Rightarrow> string \<Rightarrow> bool" where
  "group_of_id g s =
     (if dstart s = length s then g_width g = 0 \<and> g_single g = s
      else g_width g = length s - dstart s \<and> 0 < g_width g \<and> g_width g \<le> 18 \<and> g_prefix g = take (dstart s) s \<and>
        g_nums g \<noteq> [] \<and> (\<forall>n\<in>set (g_nums g). 0 \<le> n \<and> n < 10 ^ g_width g))"

definition groups_inv :: "(string \<times> group) list \<Rightarrow> bool" where
  "groups_inv groups \<longleftrightarrow>
     distinct (map fst groups) \<and>
     (\<forall>(k, g)\<in>set groups. \<exists>s. k = compress_key s (dstart s) \<and> group_of_id g s)"

definition short_id :: "string \<Rightarrow> bool" where
  "short_id s = (length s - dstart s \<le> 18)"

lemma Atoi_drop:
  assumes "short_id s" "dstart s \<noteq> length s"
  shows "fst (Atoi (drop (dstart s) s)) = int (dec_val (drop (dstart s) s))"
    and "dec_val (drop (dstart s) s) < 10 ^ (length s - dstart s)"
    and "pad0 (length s - dstart s) (int (dec_val (drop (dstart s) s))) = drop (dstart s) s"
proof -
  have d: "list_all is_digit (drop (dstart s) s)" "drop (dstart s) s \<noteq> []"
    using dstart_digits [of s] dstart_le [of s] assms(2) by auto
  show "fst (Atoi (drop (dstart s) s)) = int (dec_val (drop (dstart s) s))"
    using dec_val_short [OF d(1)] assms(1) by (simp add: Atoi_digits [OF d] short_id_def)
  show "dec_val (drop (dstart s) s) < 10 ^ (length s - dstart s)"
    using dec_val_bound [OF d(1)] by simp
  show "pad0 (length s - dstart s) (int (dec_val (drop (dstart s) s))) = drop (dstart s) s"
    using pad0_dec_val [OF d] by simp
qed

lemma new_group_id:
  fixes idx :: nat
  assumes "short_id s"
  defines "g \<equiv> add_num (new_group idx s (dstart s)) s (dstart s)"
  shows "group_of_id g s" "group_ids g = {s}"
proof -
  consider (single) "dstart s = length s" | (num) "dstart s \<noteq> length s" "dstart s < length s"
    using dstart_le [of s] by linarith
  then have "group_of_id g s \<and> group_ids g = {s}"
  proof cases
    case single
    then show ?thesis by (simp add: g_def add_num_def new_group_def group_of_id_def group_ids_def)
  next
    case num
    note a = Atoi_drop [OF assms(1) num(1)]
    from num a(2) assms(1) show ?thesis
      by (simp add: g_def add_num_def new_group_def group_of_id_def group_ids_def a(1,3) short_id_def)
  qed
  then show "group_of_id g s" "group_ids g = {s}" by auto
qed

lemma add_num_id:
  fixes g :: group
  assumes "short_id s" "group_of_id g t" "compress_key s (dstart s) = compress_key t (dstart t)"
  defines "g' \<equiv> add_num g s (dstart s)"
  shows "group_of_id g' s" "group_ids g' = insert s (group_ids g)"
proof -
  have "group_of_id g' s \<and> group_ids g' = insert s (group_ids g)"
    using compress_key_eq [OF assms(3)]
  proof (elim disjE conjE)
    assume "dstart s = length s" "dstart t = length t" "s = t"
    with assms(2) show ?thesis by (simp add: g'_def add_num_def group_of_id_def group_ids_def)
  next
    assume s: "dstart s < length s" and t: "dstart t < length t"
      and pre: "take (dstart s) s = take (dstart t) t" and w: "length s - dstart s = length t - dstart t"
    from s have s': "dstart s \<noteq> length s" by simp
    note a = Atoi_drop [OF assms(1) s']
    from s t pre w a(2) assms(2) have 1: "group_of_id g' s"
      by (auto simp: g'_def add_num_def group_of_id_def a(1))
    from s t pre w assms(2) a(3) have "g_prefix g @ pad0 (g_width g) (int (dec_val (drop (dstart s) s))) = s"
      by (simp add: group_of_id_def) (metis append_take_drop_id)
    with s t assms(2) have "group_ids g' = insert s (group_ids g)"
      by (auto simp: g'_def add_num_def group_of_id_def group_ids_def a(1))
    with 1 show ?thesis ..
  qed
  then show "group_of_id g' s" "group_ids g' = insert s (group_ids g)" by auto
qed

lemma groups_inv_lookup:
  "groups_inv groups \<Longrightarrow> map_of groups k = Some g \<Longrightarrow> \<exists>s. k = compress_key s (dstart s) \<and> group_of_id g s"
  by (auto simp: groups_inv_def dest: map_of_SomeD)

lemma set_al_update:
  "distinct (map fst xs) \<Longrightarrow> set (al_update k v xs) = insert (k, v) {(k', v') \<in> set xs. k' \<noteq> k}"
  by (induction k v xs rule: al_update.induct) (auto simp: image_iff)

lemma groups_inv_update:
  assumes "groups_inv groups" "group_of_id g s" "k = compress_key s (dstart s)"
  shows "groups_inv (al_update k g groups)"
  using assms by (auto simp: groups_inv_def distinct_al_update set_al_update)

lemma union_al_update:
  assumes "distinct (map fst groups)" "map_of groups k = Some g" "group_ids g' = insert s (group_ids g)"
  shows "(\<Union>(_, h)\<in>set (al_update k g' groups). group_ids h) = insert s (\<Union>(_, h)\<in>set groups. group_ids h)"
proof -
  have "set groups = insert (k, g) {(k', h) \<in> set groups. k' \<noteq> k}"
    using assms(1,2) by (auto dest: map_of_SomeD) (metis map_of_distinct_in option.inject)
  then have "(\<Union>(_, h)\<in>set groups. group_ids h) = group_ids g \<union> (\<Union>(_, h)\<in>{(k', h) \<in> set groups. k' \<noteq> k}. group_ids h)"
    by (metis (no_types, lifting) UN_insert case_prod_conv)
  then show ?thesis using assms(1,3) by (simp add: set_al_update)
qed

lemma union_al_update_new:
  assumes "distinct (map fst groups)" "map_of groups k = None" "group_ids g' = {s}"
  shows "(\<Union>(_, h)\<in>set (al_update k g' groups). group_ids h) = insert s (\<Union>(_, h)\<in>set groups. group_ids h)"
proof -
  have "{(k', h) \<in> set groups. k' \<noteq> k} = set groups"
    using assms(2) by (auto simp: map_of_eq_None_iff image_iff)
  with assms show ?thesis by (simp add: set_al_update)
qed

lemma map_fst_al_update:
  "map fst (al_update k v xs) = (if k \<in> fst ` set xs then map fst xs else map fst xs @ [k])"
  by (induction k v xs rule: al_update.induct) auto

lemma collect_inv:
  assumes "groups_inv groups" "order = map fst groups" "\<forall>s\<in>set ids. short_id s"
    and "collect idx ids groups order = (groups', order')"
  shows "groups_inv groups' \<and> order' = map fst groups' \<and>
    (\<Union>(_, h)\<in>set groups'. group_ids h) = set ids \<union> (\<Union>(_, h)\<in>set groups. group_ids h)"
  using assms
proof (induction ids arbitrary: idx groups order)
  case (Cons s ss)
  define k where "k = compress_key s (dstart s)"
  have short: "short_id s" using Cons.prems(3) by simp
  have dist: "distinct (map fst groups)" using Cons.prems(1) by (simp add: groups_inv_def)
  show ?case
  proof (cases "map_of groups k")
    case None
    let ?g = "add_num (new_group idx s (dstart s)) s (dstart s)"
    note g = new_group_id [OF short, of idx]
    have inv: "groups_inv (al_update k ?g groups)"
      by (rule groups_inv_update [OF Cons.prems(1) g(1) k_def])
    have run: "collect (Suc idx) ss (al_update k ?g groups) (order @ [k]) = (groups', order')"
      using Cons.prems(4) None by (simp add: k_def Let_def)
    have ord: "order @ [k] = map fst (al_update k ?g groups)"
      using None Cons.prems(2) by (simp add: map_fst_al_update map_of_eq_None_iff)
    from Cons.IH [OF inv ord _ run] Cons.prems(3) union_al_update_new [OF dist None g(2)] show ?thesis by auto
  next
    case (Some g)
    let ?g = "add_num g s (dstart s)"
    from groups_inv_lookup [OF Cons.prems(1) Some] obtain t where
      t: "compress_key s (dstart s) = compress_key t (dstart t)" "group_of_id g t" by (auto simp: k_def)
    note g = add_num_id [OF short t(2,1)]
    have inv: "groups_inv (al_update k ?g groups)"
      by (rule groups_inv_update [OF Cons.prems(1) g(1) k_def])
    have run: "collect (Suc idx) ss (al_update k ?g groups) order = (groups', order')"
      using Cons.prems(4) Some by (simp add: k_def Let_def)
    have ord: "order = map fst (al_update k ?g groups)"
      using Some Cons.prems(2) by (auto simp: map_fst_al_update dest!: map_of_SomeD) (metis fst_conv image_eqI)
    from Cons.IH [OF inv ord _ run] Cons.prems(3) union_al_update [OF dist Some g(2)] show ?thesis by auto
  qed
qed simp

section \<open>What the printed ranges expand to\<close>

fun run_nums :: "int \<Rightarrow> int \<Rightarrow> int list \<Rightarrow> int list" where
  "run_nums start prev [] = [start..prev]"
| "run_nums start prev (v # vs) =
     (if v = prev + 1 then run_nums start v vs else [start..prev] @ run_nums v v vs)"

lemma set_run_nums: "start \<le> prev \<Longrightarrow> set (run_nums start prev vs) = {start..prev} \<union> set vs"
proof (induction start prev vs rule: run_nums.induct)
  case (2 start prev v vs)
  have "{start..prev + 1} = insert (prev + 1) {start..prev}" using 2(3) by auto
  with 2 show ?case by auto
qed simp

lemma toInt_pad0: "0 \<le> n \<Longrightarrow> n < MaxInt \<Longrightarrow> toInt (pad0 w n) = n"
  by (simp add: toInt_digits [OF isDigit_pad0] dec_val_pad0)

lemma length_pad0: "0 \<le> n \<Longrightarrow> n < 10 ^ w \<Longrightarrow> 0 < w \<Longrightarrow> length (pad0 w n) = w"
  using pad0_fixed_width [of "nat n" w] by (simp add: nat_less_iff)

lemma flush_parts:
  "Split (flush w start prev) (CHR ''-'') = (if start = prev then [pad0 w start] else [pad0 w start, pad0 w prev])"
  using digits_no_bracket [OF isDigit_pad0] by (simp add: flush_def Split_no_sep Split_append)

lemma flush_plain:
  "CHR ''['' \<notin> set (flush w a b) \<and> CHR '']'' \<notin> set (flush w a b) \<and> CHR '','' \<notin> set (flush w a b)"
  using digits_no_bracket [OF isDigit_pad0, of w] by (auto simp: flush_def)

definition width_ok :: "nat \<Rightarrow> int \<Rightarrow> bool" where
  "width_ok w n = (0 \<le> n \<and> n < 10 ^ w)"

lemma width_ok_less: "w \<le> 18 \<Longrightarrow> width_ok w n \<Longrightarrow> n < MaxInt"
proof -
  assume "w \<le> 18" "width_ok w n"
  then have n: "n < 10 ^ w" by (simp add: width_ok_def)
  have "(10::int) ^ w \<le> 10 ^ 18" using \<open>w \<le> 18\<close> by (intro power_increasing) auto
  with n have "n < 10 ^ 18" by linarith
  then show ?thesis by (simp add: MaxInt_def)
qed

lemma expand_flush:
  assumes "0 < w" "w \<le> 18" "width_ok w start" "width_ok w prev" "start \<le> prev"
  shows "expand_ranges pre [] (flush w start prev # rngs) result =
    expand_ranges pre [] rngs (result @ map (\<lambda>n. pre @ pad0 w n) [start..prev])"
proof -
  have "num_loop start prev = Some [start..prev]"
    using assms width_ok_less [of w prev] by (intro num_loop_upto) (auto simp: width_ok_def)
  moreover have "toInt (pad0 w start) = start" "toInt (pad0 w prev) = prev" "length (pad0 w start) = w"
    using assms width_ok_less by (auto simp: width_ok_def toInt_pad0 length_pad0)
  ultimately show ?thesis using assms by (simp add: flush_parts isDigit_pad0)
qed

lemma expand_compress_ranges:
  assumes "0 < w" "w \<le> 18" "width_ok w start" "width_ok w prev" "start \<le> prev" "\<forall>v\<in>set vs. width_ok w v"
  shows "expand_ranges pre [] (compress_ranges w start prev vs) result =
    Some (result @ map (\<lambda>n. pre @ pad0 w n) (run_nums start prev vs), False)"
  using assms
proof (induction w start prev vs arbitrary: result rule: compress_ranges.induct)
  case (1 w start prev)
  then show ?case by (simp only: compress_ranges.simps expand_flush) simp
next
  case (2 w start prev v vs)
  show ?case
  proof (cases "v = prev + 1")
    case True
    with 2 show ?thesis by simp
  next
    case False
    with 2(2) [OF False] 2(3-) show ?thesis by (simp only: compress_ranges.simps expand_flush if_False) simp
  qed
qed

lemma compress_ranges_plain:
  "\<forall>r\<in>set (compress_ranges w start prev vs). CHR ''['' \<notin> set r \<and> CHR '']'' \<notin> set r \<and> CHR '','' \<notin> set r"
  by (induction w start prev vs rule: compress_ranges.induct) (auto simp: flush_plain)

lemma compress_ranges_not_Nil: "compress_ranges w start prev vs \<noteq> []"
  by (induction w start prev vs rule: compress_ranges.induct) auto

lemma set_Join: "set (Join xs sep) \<subseteq> \<Union> (set ` set xs) \<union> set sep"
  by (induction xs sep rule: Join.induct) auto

section \<open>Compressing and expanding again\<close>

text \<open>The hosts that the text of a group stands for.\<close>

definition group_hosts :: "group \<Rightarrow> string list" where
  "group_hosts g =
     (if g_width g = 0 then [g_single g]
      else case sort (g_nums g) of
          [] \<Rightarrow> []
        | n # ns \<Rightarrow> map (\<lambda>n. g_prefix g @ pad0 (g_width g) n) (run_nums n n ns))"

lemma set_group_hosts: "set (group_hosts g) = group_ids g"
proof (cases "sort (g_nums g)")
  case Nil
  then have "g_nums g = []" by (metis length_0_conv length_sort)
  then show ?thesis by (simp add: group_hosts_def group_ids_def)
next
  case (Cons n ns)
  then have "set (g_nums g) = set (n # ns)" by (metis set_sort)
  with Cons show ?thesis by (simp add: group_hosts_def group_ids_def set_run_nums)
qed

text \<open>A part of the printed pattern, with the hosts that one round of expansion makes of it.\<close>

definition part_ok :: "string \<Rightarrow> string list \<Rightarrow> bool" where
  "part_ok p hosts \<longleftrightarrow>
     (\<forall>t cur. split_top (p @ t) 0 cur = split_top t 0 (cur @ p)) \<and>
     (\<not> bracketed p \<and> hosts = [p] \<or>
      bracketed p \<and> expand_ranges (bracket_prefix p) (bracket_suffix p)
        (Split (bracket_content p) (CHR '','')) [] = Some (hosts, False))"

lemma part_ok_plain: "plain p \<Longrightarrow> part_ok p [p]"
  by (auto simp: part_ok_def plain_def split_top_outer dest: not_bracketed)

lemma part_ok_bracket:
  assumes "plain pre" "rngs \<noteq> []"
    and rngs: "\<forall>r\<in>set rngs. CHR ''['' \<notin> set r \<and> CHR '']'' \<notin> set r \<and> CHR '','' \<notin> set r"
    and ex: "expand_ranges pre [] rngs [] = Some (hosts, False)"
  shows "part_ok (pre @ ''['' @ Join rngs '','' @ '']'') hosts"
proof -
  let ?c = "Join rngs '',''"
  have c: "CHR ''['' \<notin> set ?c" "CHR '']'' \<notin> set ?c"
    using rngs set_Join [of rngs "'',''"] by auto
  have h: "pre @ ''['' @ ?c @ '']'' = pre @ CHR ''['' # ?c @ CHR '']'' # []" by simp
  note parts = bracket_parts [of pre ?c "[]", folded h]
  have "Split ?c (CHR '','') = rngs" using assms(2) rngs by (simp add: Split_Join)
  with assms(1) parts c ex have "bracketed (pre @ ''['' @ ?c @ '']'') \<and>
    expand_ranges (bracket_prefix (pre @ ''['' @ ?c @ '']'')) (bracket_suffix (pre @ ''['' @ ?c @ '']''))
        (Split (bracket_content (pre @ ''['' @ ?c @ '']'')) (CHR '','')) [] = Some (hosts, False)"
    by (simp add: plain_def)
  moreover have "split_top ((pre @ ''['' @ ?c @ '']'') @ t) 0 cur = split_top t 0 (cur @ pre @ ''['' @ ?c @ '']'')" for t cur
    using assms(1) c split_top_bracket [of pre ?c t cur] by (simp add: plain_def)
  ultimately show ?thesis unfolding part_ok_def by blast
qed

lemma group_part_ok:
  assumes "group_of_id g s" "\<forall>x\<in>group_ids g. plain x"
  shows "part_ok (group_part g) (group_hosts g)"
proof (cases "g_width g = 0")
  case True
  with assms show ?thesis by (simp add: group_part_def group_hosts_def group_ids_def part_ok_plain)
next
  case False
  with assms(1) have w: "0 < g_width g" "g_width g \<le> 18" "g_nums g \<noteq> []"
      and nums: "\<forall>n\<in>set (g_nums g). width_ok (g_width g) n"
    by (auto simp: group_of_id_def width_ok_def split: if_splits)
  from w(3) obtain n ns where sorted: "sort (g_nums g) = n # ns"
    by (metis length_0_conv length_sort list.exhaust)
  then have mem: "set (g_nums g) = set (n # ns)" by (metis set_sort)
  show ?thesis
  proof (cases ns)
    case Nil
    with sorted mem False assms(2) show ?thesis
      by (simp add: group_part_def group_hosts_def group_ids_def part_ok_plain)
  next
    case (Cons m ms)
    have "plain (g_prefix g @ pad0 (g_width g) n)" using assms(2) False mem by (simp add: group_ids_def)
    then have pre: "plain (g_prefix g)" by (simp add: plain_def)
    have "expand_ranges (g_prefix g) [] (compress_ranges (g_width g) n n ns) [] = Some (group_hosts g, False)"
      using w nums mem False sorted by (simp add: expand_compress_ranges group_hosts_def)
    from part_ok_bracket [OF pre compress_ranges_not_Nil compress_ranges_plain this] False sorted Cons
    show ?thesis by (simp add: group_part_def)
  qed
qed

lemma split_parts:
  "parts \<noteq> [] \<Longrightarrow> \<forall>p\<in>set parts. \<exists>hs. part_ok p hs \<Longrightarrow> split_top (Join parts '','') 0 [] = parts"
proof (induction parts "'',''" rule: Join.induct)
  case (2 p)
  then obtain hs where "part_ok p hs" by auto
  then have "split_top (p @ []) 0 [] = split_top [] 0 ([] @ p)" unfolding part_ok_def by blast
  then show ?case by simp
next
  case (3 p q ps)
  then obtain hs where "part_ok p hs" by auto
  then have "split_top (p @ '','' @ Join (q # ps) '','') 0 [] = split_top ('','' @ Join (q # ps) '','') 0 ([] @ p)"
    unfolding part_ok_def by blast
  with 3 show ?case by simp
qed simp

lemma expand_hosts_parts:
  assumes "list_all2 part_ok parts hss"
  shows "\<exists>m. expand_hosts parts result n = Some (result @ concat hss, n + m) \<and>
    (m = 0 \<longrightarrow> concat hss = parts)"
  using assms
proof (induction parts hss arbitrary: result n rule: list_all2_induct)
  case (Cons p ps hs hss)
  show ?case
  proof (cases "bracketed p")
    case False
    with Cons(1) have "hs = [p]" by (auto simp: part_ok_def)
    with False Cons(3) [of "result @ [p]" n] show ?thesis by auto
  next
    case True
    with Cons(1) have "expand_hosts (p # ps) result n = expand_hosts ps (result @ hs) (Suc n)"
      by (simp add: part_ok_def expand_ranges_acc [of _ _ _ result])
    with Cons(3) [of "result @ hs" "Suc n"] show ?thesis by fastforce
  qed
qed simp

lemma expand_loop_parts:
  assumes "list_all2 part_ok parts hss" "\<forall>h\<in>set (concat hss). \<not> bracketed h"
  shows "expand_loop parts = Some (concat hss)"
proof -
  from expand_hosts_parts [OF assms(1), of "[]" 0] obtain m where
    m: "expandOnce parts = Some (concat hss, m)" "m = 0 \<longrightarrow> concat hss = parts"
    by (auto simp: expandOnce_def)
  with assms(2) show ?thesis
    by (subst expand_loop.simps) (auto simp: expand_loop_plain)
qed

definition host_name :: "string \<Rightarrow> bool" where
  "host_name s = (plain s \<and> short_id s \<and> \<not> HasPrefix s GroupPrefix)"

text \<open>
  (C1) \<open>Compress\<close> is undone by \<open>Expand\<close>: for a non-empty list of names without brackets, commas and
  a leading \<open>@\<close>, whose trailing digit run has at most 18 digits, the printed pattern expands to
  exactly these names, each once.
\<close>

theorem Expand_Compress:
  assumes "ids \<noteq> []" "\<forall>s\<in>set ids. host_name s"
  shows "\<exists>r. Expand res [Compress ids] = Some r \<and> distinct r \<and> set r = set ids"
proof -
  obtain groups order where col: "collect 0 ids [] [] = (groups, order)" by fastforce
  have "groups_inv []" by (simp add: groups_inv_def)
  from collect_inv [OF this _ _ col] assms(2) have inv: "groups_inv groups" and ord: "order = map fst groups"
    and ids: "(\<Union>(_, h)\<in>set groups. group_ids h) = set ids"
    by (auto simp: host_name_def)
  define gs where "gs = map (\<lambda>k. the (map_of groups k)) (sort_key (\<lambda>k. g_firstIdx (the (map_of groups k))) order)"
  have comp: "Compress ids = Join (map group_part gs) '',''" by (simp add: Compress_def col gs_def comp_def)
  have "set gs = snd ` set groups"
    using inv by (force simp: gs_def ord groups_inv_def image_image)
  then have union: "(\<Union>g\<in>set gs. group_ids g) = set ids" using ids by (auto simp: case_prod_unfold)
  have ok: "part_ok (group_part g) (group_hosts g)" if "g \<in> set gs" for g
  proof -
    from that \<open>set gs = _\<close> inv obtain s where "group_of_id g s" by (auto simp: groups_inv_def)
    moreover have "\<forall>x\<in>group_ids g. plain x" using that union assms(2) by (auto simp: host_name_def)
    ultimately show ?thesis by (rule group_part_ok)
  qed
  have all: "list_all2 part_ok (map group_part gs) (map group_hosts gs)"
    using ok by (simp add: list_all2_map1 list_all2_map2 list_all2_same)
  have hosts: "set (concat (map group_hosts gs)) = set ids" using union by (simp add: set_group_hosts)
  have "gs \<noteq> []" using union assms(1) by auto
  then have "splitTopLevel (Compress ids) = map group_part gs"
    unfolding comp splitTopLevel_def using ok by (intro split_parts) auto
  moreover have "expand_loop (map group_part gs) = Some (concat (map group_hosts gs))"
    using all hosts assms(2) by (intro expand_loop_parts) (auto simp: host_name_def plain_def dest: not_bracketed)
  ultimately have "Expand res [Compress ids] = Some (foldl add_host [] (concat (map group_hosts gs)))"
    using hosts assms(2) by (simp add: Expand_def resolveGroups_def host_name_def resolve_plain)
  then show ?thesis using hosts foldl_add_host [of "[]"] by auto
qed

theorem Expand_Compress_witness:
  "\<exists>r. Expand nopResolver [Compress [''n01'', ''n02'', ''login'', ''n05'', ''n1'']] = Some r \<and> distinct r \<and>
     set r = set [''n01'', ''n02'', ''login'', ''n05'', ''n1'']"
proof -
  have h: "\<forall>s\<in>set [''n01'', ''n02'', ''login'', ''n05'', ''n1'']. host_name s" by code_simp
  show ?thesis by (rule Expand_Compress [OF _ h]) simp
qed

end
