(* ===== verification/Wwbool.thy ===== *)
theory Wwbool
  imports Go_Prelude
begin

text \<open>
  The string-backed boolean of \<open>internal/pkg/wwtype/wwbool.go\<close>. The stored text survives merging;
  it becomes a truth value only when \<open>Bool\<close> or \<open>BoolDefaultTrue\<close> read it.
\<close>

type_synonym WWbool = string

definition unsetValues :: "string list" where
  "unsetValues = [''unset'', ''delete'', ''undef'', ''--'', ''nil'', ''0.0.0.0'']"

definition isUnsetValue :: "string \<Rightarrow> bool" where
  "isUnsetValue value = (ToLower value \<in> set unsetValues)"

definition WWbool_Bool :: "WWbool \<Rightarrow> bool" where
  "WWbool_Bool val = (let str = ToLower val in
     if isUnsetValue str then False
     else if str = ''yes'' then True
     else if str = ''no'' \<or> str = '''' then False
     else (case ParseBool str of None \<Rightarrow> False | Some b \<Rightarrow> b))"

definition WWbool_BoolDefaultTrue :: "WWbool \<Rightarrow> bool" where
  "WWbool_BoolDefaultTrue val = (let str = ToLower val in
     if isUnsetValue str then False
     else if str = ''yes'' \<or> str = '''' then True
     else if str = ''no'' then False
     else (case ParseBool str of None \<Rightarrow> True | Some b \<Rightarrow> b))"

definition FormatBool :: "bool \<Rightarrow> string" where
  "FormatBool b = (if b then ''true'' else ''false'')"

definition WWbool_Set :: "string \<Rightarrow> err + WWbool" where
  "WWbool_Set str =
     (if isUnsetValue str then Inr str
      else if ToLower str = ''yes'' then Inr ''true''
      else if ToLower str = ''no'' then Inr ''false''
      else (case ParseBool str of
          Some b \<Rightarrow> Inr (FormatBool b)
        | None \<Rightarrow> Inl (ErrMsg (''value for WWbool can't be set from '' @ str))))"

definition WWbool_String :: "WWbool \<Rightarrow> string" where "WWbool_String val = val"

definition WWbool_Type :: "WWbool \<Rightarrow> string" where "WWbool_Type b = ''WWbool''"

section \<open>Reading back what was set\<close>

lemma lower_char_idem [simp]: "lower_char (lower_char c) = lower_char c"
  by (auto simp: lower_char_def Let_def)

lemma ToLower_idem [simp]: "ToLower (ToLower s) = ToLower s"
  by (simp add: ToLower_def comp_def)

lemma isUnsetValue_lower [simp]: "isUnsetValue (ToLower s) = isUnsetValue s"
  by (simp add: isUnsetValue_def)

text \<open>The spellings that \<open>Set\<close> turns into the two canonical texts.\<close>

definition spelled_true :: "string \<Rightarrow> bool" where
  "spelled_true s = (ToLower s = ''yes'' \<or> ParseBool s = Some True)"

definition spelled_false :: "string \<Rightarrow> bool" where
  "spelled_false s = (ToLower s = ''no'' \<or> ParseBool s = Some False)"

lemma ToLower_canonical [simp]: "ToLower ''true'' = ''true''" "ToLower ''false'' = ''false''"
  by code_simp+

lemma isUnsetValue_canonical [simp]: "\<not> isUnsetValue ''true''" "\<not> isUnsetValue ''false''"
  by code_simp+

lemma Bool_canonical [simp]: "WWbool_Bool ''true''" "\<not> WWbool_Bool ''false''"
  "WWbool_BoolDefaultTrue ''true''" "\<not> WWbool_BoolDefaultTrue ''false''"
  by code_simp+

lemma Bool_unset: "isUnsetValue v \<Longrightarrow> \<not> WWbool_Bool v \<and> \<not> WWbool_BoolDefaultTrue v"
  by (simp add: WWbool_Bool_def WWbool_BoolDefaultTrue_def Let_def)

lemma ParseBool_spellings_lower:
  "ParseBool s = Some b \<Longrightarrow> ToLower s \<in> set [''1'', ''t'', ''true'', ''0'', ''f'', ''false'']"
proof -
  assume "ParseBool s = Some b"
  then have "s \<in> set [''1'', ''t'', ''T'', ''TRUE'', ''true'', ''True'', ''0'', ''f'', ''F'', ''FALSE'', ''false'', ''False'']"
    by (auto simp: ParseBool_def split: if_splits)
  moreover have "\<forall>s\<in>set [''1'', ''t'', ''T'', ''TRUE'', ''true'', ''True'', ''0'', ''f'', ''F'', ''FALSE'', ''false'', ''False''].
      ToLower s \<in> set [''1'', ''t'', ''true'', ''0'', ''f'', ''false'']"
    by code_simp
  ultimately show ?thesis by blast
qed

lemma spelled_not_unset: "spelled_true s \<or> spelled_false s \<Longrightarrow> \<not> isUnsetValue s"
  by (auto simp: spelled_true_def spelled_false_def isUnsetValue_def unsetValues_def
      dest!: ParseBool_spellings_lower)

lemma WWbool_Set_cases:
  "WWbool_Set s = Inr v \<longleftrightarrow>
     isUnsetValue s \<and> v = s \<or> spelled_true s \<and> v = ''true'' \<or> spelled_false s \<and> v = ''false''"
  using spelled_not_unset [of s] ParseBool_spellings_lower [of s]
  by (cases "isUnsetValue s"; cases "ParseBool s")
     (auto simp: WWbool_Set_def spelled_true_def spelled_false_def FormatBool_def)

text \<open>
  A flag value is accepted exactly when it spells a truth value or unsets the field, and both
  readers then agree on it: an accepted value reads as true when it spells true, and as false when
  it spells false or unsets the field. What is stored is \<open>true\<close>, \<open>false\<close> or the unset verb itself,
  and setting the stored text again changes nothing.
\<close>

theorem WWbool_Set_reads:
  "((\<exists>v. WWbool_Set s = Inr v) \<longleftrightarrow> isUnsetValue s \<or> spelled_true s \<or> spelled_false s) \<and>
   (\<forall>v. WWbool_Set s = Inr v \<longrightarrow>
      WWbool_Bool v = spelled_true s \<and> WWbool_BoolDefaultTrue v = spelled_true s \<and> WWbool_Set v = Inr v)"
proof (intro conjI allI impI)
  show "(\<exists>v. WWbool_Set s = Inr v) \<longleftrightarrow> isUnsetValue s \<or> spelled_true s \<or> spelled_false s"
    by (auto simp: WWbool_Set_cases)
  have canon: "WWbool_Set ''true'' = Inr ''true''" "WWbool_Set ''false'' = Inr ''false''" by code_simp+
  have excl: "spelled_false s \<Longrightarrow> \<not> spelled_true s"
    using ParseBool_spellings_lower [of s True] ParseBool_spellings_lower [of s False]
    by (auto simp: spelled_false_def spelled_true_def)
  fix v
  assume set: "WWbool_Set s = Inr v"
  then consider "isUnsetValue s" "v = s" | "spelled_true s" "v = ''true''" | "spelled_false s" "v = ''false''"
    by (auto simp: WWbool_Set_cases)
  then show "WWbool_Bool v = spelled_true s" "WWbool_BoolDefaultTrue v = spelled_true s" "WWbool_Set v = Inr v"
    using set Bool_unset [of s] spelled_not_unset [of s] canon excl by (cases; auto)+
qed

theorem WWbool_Set_reads_witness:
  "WWbool_Set ''YES'' = Inr ''true'' \<and> WWbool_Bool ''true'' \<and> \<not> (\<exists>v. WWbool_Set ''maybe'' = Inr v)"
proof -
  have s: "WWbool_Set ''YES'' = Inr ''true''" by code_simp
  have "WWbool_Bool ''true'' = spelled_true ''YES''" using WWbool_Set_reads [of "''YES''"] s by blast
  moreover have "spelled_true ''YES''" by code_simp
  moreover have "\<not> (isUnsetValue ''maybe'' \<or> spelled_true ''maybe'' \<or> spelled_false ''maybe'')" by code_simp
  ultimately show ?thesis using s WWbool_Set_reads [of "''maybe''"] by simp
qed

end
