(* ===== verification/Node_Data.thy ===== *)
theory Node_Data
  imports Wwbool "HOL-Library.Word"
begin

text \<open>
  The data of \<open>internal/pkg/node/datastructure.go\<close> and the constructors of values of it
  (\<open>NewNode\<close>, \<open>EmptyProfile\<close>, \<open>Expand\<close> of \<open>methods.go\<close>).

  A pointer to a struct is an option. The values of \<open>map[string]*T\<close> are modelled as present: a key
  with a null value, which a hand-written configuration file can produce, is outside the model. A
  \<open>net.IP\<close> is its byte list, and the nil slice is the empty list. The embedded \<open>Profile\<close> of a node is
  the field \<open>nd_Profile\<close>.
\<close>

type_synonym IP = "8 word list"

datatype resource =
    RNil
  | RStr string
  | RInt int
  | RBool bool
  | RList "resource list"
  | RMap "(string \<times> resource) list"

record IpmiConf =
  ip_UserName :: string
  ip_Password :: string
  ip_Ipaddr :: IP
  ip_Gateway :: IP
  ip_Netmask :: IP
  ip_Port :: string
  ip_Interface :: string
  ip_EscapeChar :: string
  ip_Write :: WWbool
  ip_Template :: string
  ip_Tags :: "string gomap"

record KernelConf =
  kn_Version :: string
  kn_Args :: "string list"

record NetDev =
  dev_Type :: string
  dev_OnBoot :: WWbool
  dev_Device :: string
  dev_Hwaddr :: string
  dev_Ipaddr :: IP
  dev_Netmask :: IP
  dev_Gateway :: IP
  dev_Ipaddr6 :: IP
  dev_PrefixLen6 :: string
  dev_Gateway6 :: IP
  dev_MTU :: string
  dev_Tags :: "string gomap"
  dev_primary :: bool

record Partition =
  pt_id :: string
  pt_Number :: string
  pt_SizeMiB :: string
  pt_StartMiB :: string
  pt_TypeGuid :: string
  pt_Guid :: string
  pt_WipePartitionEntryP :: "bool option"
  pt_ShouldExistP :: "bool option"
  pt_ResizeP :: "bool option"

record Disk =
  dk_id :: string
  dk_WipeTableP :: "bool option"
  dk_Partitions :: "Partition gomap"

record FileSystem =
  fs_id :: string
  fs_Format :: string
  fs_Path :: string
  fs_WipeFileSystemP :: "bool option"
  fs_Label :: string
  fs_Uuid :: string
  fs_Options :: "string list"
  fs_MountOptions :: string

record Profile =
  pf_id :: string
  pf_Profiles :: "string list"
  pf_Groups :: "string list"
  pf_Comment :: string
  pf_ClusterName :: string
  pf_ImageName :: string
  pf_Ipxe :: string
  pf_RuntimeOverlay :: "string list"
  pf_SystemOverlay :: "string list"
  pf_Kernel :: "KernelConf option"
  pf_Ipmi :: "IpmiConf option"
  pf_Init :: string
  pf_Root :: string
  pf_NetDevs :: "NetDev gomap"
  pf_Tags :: "string gomap"
  pf_PrimaryNetDev :: string
  pf_Disks :: "Disk gomap"
  pf_FileSystems :: "FileSystem gomap"
  pf_Resources :: "resource gomap"

record Node =
  nd_id :: string
  nd_valid :: bool
  nd_Discoverable :: WWbool
  nd_AssetKey :: string
  nd_Profile :: Profile

record NodesYaml =
  NodeProfiles :: "Profile gomap"
  Nodes :: "Node gomap"

text \<open>The zero values that \<open>new(T)\<close> and \<open>T{}\<close> make.\<close>

definition zero_IpmiConf :: IpmiConf where
  "zero_IpmiConf = \<lparr>ip_UserName = [], ip_Password = [], ip_Ipaddr = [], ip_Gateway = [], ip_Netmask = [],
     ip_Port = [], ip_Interface = [], ip_EscapeChar = [], ip_Write = [], ip_Template = [], ip_Tags = gm_nil\<rparr>"

definition zero_KernelConf :: KernelConf where
  "zero_KernelConf = \<lparr>kn_Version = [], kn_Args = []\<rparr>"

definition zero_NetDev :: NetDev where
  "zero_NetDev = \<lparr>dev_Type = [], dev_OnBoot = [], dev_Device = [], dev_Hwaddr = [], dev_Ipaddr = [],
     dev_Netmask = [], dev_Gateway = [], dev_Ipaddr6 = [], dev_PrefixLen6 = [], dev_Gateway6 = [],
     dev_MTU = [], dev_Tags = gm_nil, dev_primary = False\<rparr>"

definition zero_Partition :: Partition where
  "zero_Partition = \<lparr>pt_id = [], pt_Number = [], pt_SizeMiB = [], pt_StartMiB = [], pt_TypeGuid = [],
     pt_Guid = [], pt_WipePartitionEntryP = None, pt_ShouldExistP = None, pt_ResizeP = None\<rparr>"

definition zero_Disk :: Disk where
  "zero_Disk = \<lparr>dk_id = [], dk_WipeTableP = None, dk_Partitions = gm_nil\<rparr>"

definition zero_FileSystem :: FileSystem where
  "zero_FileSystem = \<lparr>fs_id = [], fs_Format = [], fs_Path = [], fs_WipeFileSystemP = None, fs_Label = [],
     fs_Uuid = [], fs_Options = [], fs_MountOptions = []\<rparr>"

definition zero_Profile :: Profile where
  "zero_Profile = \<lparr>pf_id = [], pf_Profiles = [], pf_Groups = [], pf_Comment = [], pf_ClusterName = [],
     pf_ImageName = [], pf_Ipxe = [], pf_RuntimeOverlay = [], pf_SystemOverlay = [], pf_Kernel = None,
     pf_Ipmi = None, pf_Init = [], pf_Root = [], pf_NetDevs = gm_nil, pf_Tags = gm_nil,
     pf_PrimaryNetDev = [], pf_Disks = gm_nil, pf_FileSystems = gm_nil, pf_Resources = gm_nil\<rparr>"

definition zero_Node :: Node where
  "zero_Node = \<lparr>nd_id = [], nd_valid = False, nd_Discoverable = [], nd_AssetKey = [], nd_Profile = zero_Profile\<rparr>"

section \<open>Accessors\<close>

definition BoolP :: "bool option \<Rightarrow> bool" where "BoolP p = (p = Some True)"

definition Disk_WipeTable :: "Disk \<Rightarrow> bool" where "Disk_WipeTable disk = BoolP (dk_WipeTableP disk)"

definition Partition_WipePartitionEntry :: "Partition \<Rightarrow> bool" where
  "Partition_WipePartitionEntry p = BoolP (pt_WipePartitionEntryP p)"

definition Partition_ShouldExist :: "Partition \<Rightarrow> bool" where
  "Partition_ShouldExist p = BoolP (pt_ShouldExistP p)"

definition Partition_Resize :: "Partition \<Rightarrow> bool" where
  "Partition_Resize p = BoolP (pt_ResizeP p)"

definition FileSystem_WipeFileSystem :: "FileSystem \<Rightarrow> bool" where
  "FileSystem_WipeFileSystem fs = BoolP (fs_WipeFileSystemP fs)"

section \<open>Constructors\<close>

definition make_if_nil :: "'v gomap \<Rightarrow> 'v gomap" where
  "make_if_nil m = (case m of None \<Rightarrow> gm_make | Some _ \<Rightarrow> m)"

definition gm_map :: "('v \<Rightarrow> 'w) \<Rightarrow> 'v gomap \<Rightarrow> 'w gomap" where
  "gm_map f m = map_option (map (map_prod id f)) m"

definition Profile_Expand :: "Profile \<Rightarrow> Profile" where
  "Profile_Expand p =
     (let ipmi = (case pf_Ipmi p of None \<Rightarrow> zero_IpmiConf | Some i \<Rightarrow> i);
          ipmi = ipmi\<lparr>ip_Tags := make_if_nil (ip_Tags ipmi)\<rparr>;
          kernel = (case pf_Kernel p of None \<Rightarrow> zero_KernelConf | Some k \<Rightarrow> k);
          netdevs = gm_map (\<lambda>d. d\<lparr>dev_Tags := make_if_nil (dev_Tags d)\<rparr>) (make_if_nil (pf_NetDevs p))
      in p\<lparr>pf_Ipmi := Some ipmi, pf_Kernel := Some kernel, pf_NetDevs := netdevs,
           pf_Tags := make_if_nil (pf_Tags p)\<rparr>)"

definition Node_Expand :: "Node \<Rightarrow> Node" where
  "Node_Expand n = n\<lparr>nd_Profile := Profile_Expand (nd_Profile n)\<rparr>"

definition EmptyNode :: Node where "EmptyNode = Node_Expand zero_Node"

definition EmptyProfile :: Profile where "EmptyProfile = Profile_Expand zero_Profile"

definition NewNode :: "string \<Rightarrow> Node" where "NewNode i = EmptyNode\<lparr>nd_id := i\<rparr>"

definition NewProfile :: "string \<Rightarrow> Profile" where "NewProfile i = EmptyProfile\<lparr>pf_id := i\<rparr>"

definition Node_Id :: "Node \<Rightarrow> string" where "Node_Id n = nd_id n"
definition Profile_Id :: "Profile \<Rightarrow> string" where "Profile_Id p = pf_id p"
definition Node_ContainerName :: "Node \<Rightarrow> string" where "Node_ContainerName n = pf_ImageName (nd_Profile n)"
definition Profile_ContainerName :: "Profile \<Rightarrow> string" where "Profile_ContainerName p = pf_ImageName p"
definition Node_Valid :: "Node \<Rightarrow> bool" where "Node_Valid n = nd_valid n"
definition NetDev_Primary :: "NetDev \<Rightarrow> bool" where "NetDev_Primary d = dev_primary d"

section \<open>What \<open>Expand\<close> establishes\<close>

text \<open>Every tag map that the update commands write to is allocated.\<close>

definition expanded :: "Profile \<Rightarrow> bool" where
  "expanded p \<longleftrightarrow>
     (\<exists>i. pf_Ipmi p = Some i \<and> ip_Tags i \<noteq> None) \<and> pf_Kernel p \<noteq> None \<and> pf_Tags p \<noteq> None \<and>
     (\<exists>ds. pf_NetDevs p = Some ds \<and> (\<forall>(k, d)\<in>set ds. dev_Tags d \<noteq> None))"

lemma make_if_nil_not_None [simp]: "make_if_nil m \<noteq> None" "make_if_nil (Some kvs) = Some kvs"
  by (cases m; simp add: make_if_nil_def gm_make_def)+

lemma make_if_nil_Some [simp]: "\<exists>kvs. make_if_nil m = Some kvs"
  by (cases m) (simp_all add: make_if_nil_def gm_make_def)

lemma make_if_nil_idem [simp]: "make_if_nil (make_if_nil m) = make_if_nil m"
  by (cases m) (simp_all add: make_if_nil_def gm_make_def)

lemma gm_map_make_if_nil: "\<exists>kvs. gm_map f (make_if_nil m) = Some (map (map_prod id f) kvs)"
  by (cases m) (auto simp: gm_map_def make_if_nil_def gm_make_def)

lemma gm_get_gm_map [gomap_simps]: "gm_get (gm_map f m) k = map_option f (gm_get m k)"
  by (cases m) (simp_all add: gm_get_def gm_map_def gm_entries_def map_prod_def map_of_map)

lemma gm_keys_gm_map [simp]: "gm_keys (gm_map f m) = gm_keys m"
  by (cases m) (auto simp: gm_keys_def gm_map_def gm_entries_def map_prod_def)

lemma gm_get_make_if_nil [simp, gomap_simps]: "gm_get (make_if_nil m) k = gm_get m k"
  by (cases m) (simp_all add: gm_get_def gm_entries_def make_if_nil_def gm_make_def)

lemma gm_keys_make_if_nil [simp]: "gm_keys (make_if_nil m) = gm_keys m"
  by (cases m) (simp_all add: gm_keys_def gm_entries_def make_if_nil_def gm_make_def)

lemma expanded_Expand: "expanded (Profile_Expand p)"
proof -
  obtain kvs where "pf_NetDevs (Profile_Expand p) =
      Some (map (map_prod id (\<lambda>d. d\<lparr>dev_Tags := make_if_nil (dev_Tags d)\<rparr>)) kvs)"
    using gm_map_make_if_nil [of _ "pf_NetDevs p"] by (auto simp: Profile_Expand_def Let_def)
  then show ?thesis by (auto simp: expanded_def) (auto simp: Profile_Expand_def Let_def)
qed

end
