(* ===== verification/Profile_Lists.thy ===== *)
theory Profile_Lists
  imports Node_Data
begin

text \<open>
  The lists of profile names that a node collects: negated names and their removal (\<open>negList\<close>,
  \<open>cleanList\<close>, \<open>cleanLists\<close> of \<open>node/methods.go\<close>) and the depth-first expansion of nested profiles
  (\<open>getProfilesProfiles\<close>, \<open>getNodeProfiles\<close> of \<open>node/mergo.go\<close>).
\<close>

definition negList :: "string list \<Rightarrow> string list" where
  "negList list = map (drop 1) (filter (\<lambda>tok. HasPrefix tok ''~'') list)"

fun notNegate :: "string \<Rightarrow> string list \<Rightarrow> bool" where
  "notNegate listTok [] = True"
| "notNegate listTok (negTok # neg) =
     (if listTok = negTok \<or> listTok = ''~'' @ negTok then False else notNegate listTok neg)"

definition cleanList :: "string list \<Rightarrow> string list" where
  "cleanList list = filter (\<lambda>listTok. notNegate listTok (negList list)) list"

definition cleanLists :: "Profile \<Rightarrow> Profile" where
  "cleanLists p = p\<lparr>
     pf_Profiles := cleanList (pf_Profiles p),
     pf_Groups := cleanList (pf_Groups p),
     pf_SystemOverlay := cleanList (pf_SystemOverlay p),
     pf_RuntimeOverlay := cleanList (pf_RuntimeOverlay p),
     pf_Kernel := map_option (\<lambda>k. k\<lparr>kn_Args := cleanList (kn_Args k)\<rparr>) (pf_Kernel p)\<rparr>"

lemma negList_iff: "t \<in> set (negList list) \<longleftrightarrow> ''~'' @ t \<in> set list"
proof -
  have "HasPrefix s ''~'' \<longleftrightarrow> (\<exists>t. s = ''~'' @ t)" for s by (cases s) auto
  then show ?thesis by (force simp: negList_def)
qed

lemma notNegate_iff: "notNegate t neg \<longleftrightarrow> t \<notin> set neg \<and> t \<notin> (\<lambda>n. ''~'' @ n) ` set neg"
  by (induction neg) auto

lemma cleanList_elem_iff: "t \<in> set (cleanList list) \<longleftrightarrow> t \<in> set list \<and> \<not> HasPrefix t ''~'' \<and> ''~'' @ t \<notin> set list"
proof -
  have "HasPrefix t ''~'' \<longleftrightarrow> (\<exists>n. t = ''~'' @ n)" by (cases t) auto
  then show ?thesis by (auto simp: cleanList_def notNegate_iff negList_iff)
qed

lemma cleanList_filter:
  "cleanList list = filter (\<lambda>t. \<not> HasPrefix t ''~'' \<and> ''~'' @ t \<notin> set list) list"
  unfolding cleanList_def by (rule filter_cong) (use cleanList_elem_iff [unfolded cleanList_def] in auto)

lemma cleanList_cleanList: "cleanList (cleanList list) = cleanList list"
  by (simp add: cleanList_filter [of "cleanList list"] filter_id_conv cleanList_elem_iff)

lemma cleanList_no_negation: "\<forall>t\<in>set list. \<not> HasPrefix t ''~'' \<Longrightarrow> cleanList list = list"
  by (subst cleanList_filter) (auto intro!: filter_True)

text \<open>
  Cleaning a list keeps, in their order and with their repetitions, exactly the plain names
  that no negated token of the list removes, wherever that token stands; no negated token is left,
  and cleaning again changes nothing.
\<close>

theorem cleanList_correct:
  "cleanList list = filter (\<lambda>t. \<not> HasPrefix t ''~'' \<and> ''~'' @ t \<notin> set list) list \<and>
   cleanList (cleanList list) = cleanList list"
  using cleanList_filter cleanList_cleanList by blast

section \<open>Nested profiles\<close>

text \<open>
  The map \<open>visited\<close> is a set that the recursive calls share, so it is returned beside the list.
\<close>

function getProfilesProfiles ::
  "NodesYaml \<Rightarrow> string list \<Rightarrow> string set \<Rightarrow> string list \<times> string set" where
  "getProfilesProfiles config [] visited = ([], visited)"
| "getProfilesProfiles config (i # input) visited =
     (if HasPrefix i ''~'' then
        (let (output, visited') = getProfilesProfiles config input visited in (i # output, visited'))
      else if i \<in> visited then getProfilesProfiles config input visited
      else
        (let (inner, visited1) =
               (case gm_get (NodeProfiles config) i of
                  None \<Rightarrow> ([], insert i visited)
                | Some profile \<Rightarrow> getProfilesProfiles config (pf_Profiles profile) (insert i visited));
             (output, visited2) = getProfilesProfiles config input visited1
         in (inner @ i # output, visited2)))"
  by pat_completeness auto

text \<open>
  Two lexicographic components decrease: the configured profiles that are not visited yet, and the
  length of the list. The recursion is nested, so that a call only adds to \<open>visited\<close> is shown first.
\<close>

definition unvisited :: "NodesYaml \<Rightarrow> string set \<Rightarrow> nat" where
  "unvisited config visited = card (set (gm_keys (NodeProfiles config)) - visited)"

lemma unvisited_mono: "visited \<subseteq> visited' \<Longrightarrow> unvisited config visited' \<le> unvisited config visited"
  unfolding unvisited_def by (intro card_mono) auto

lemma gm_get_key: "gm_get m k = Some v \<Longrightarrow> k \<in> set (gm_keys m)"
  by (force simp: gm_get_def gm_keys_def dest: map_of_SomeD)

lemma unvisited_insert:
  "gm_get (NodeProfiles config) i = Some p \<Longrightarrow> i \<notin> visited \<Longrightarrow>
     unvisited config (insert i visited) < unvisited config visited"
  unfolding unvisited_def by (intro psubset_card_mono) (auto dest: gm_get_key)

lemma visited_grows:
  "getProfilesProfiles_dom (config, input, visited) \<Longrightarrow> visited \<subseteq> snd (getProfilesProfiles config input visited)"
proof (induction config input visited rule: getProfilesProfiles.pinduct)
  case (1 config visited)
  then show ?case by (simp add: getProfilesProfiles.psimps)
next
  case (2 config i input visited)
  show ?case
  proof (cases "HasPrefix i ''~'' \<or> i \<in> visited")
    case True
    with 2 show ?thesis by (auto simp: getProfilesProfiles.psimps Let_def split: prod.splits)
  next
    case False
    define r where "r = (case gm_get (NodeProfiles config) i of None \<Rightarrow> ([], insert i visited)
      | Some profile \<Rightarrow> getProfilesProfiles config (pf_Profiles profile) (insert i visited))"
    have r: "insert i visited \<subseteq> snd r" using False 2(4) by (auto simp: r_def split: option.split)
    have "snd r \<subseteq> snd (getProfilesProfiles config input (snd r))"
      using 2(5) [of r "fst r" "snd r"] False by (simp flip: r_def)
    with r False show ?thesis
      by (simp add: getProfilesProfiles.psimps(2) [OF 2(1)] Let_def split_beta flip: r_def) blast
  qed
qed

termination getProfilesProfiles
proof (relation "inv_image (less_than <*lex*> less_than) (\<lambda>(c, xs, v). (unvisited c v, length xs))", goal_cases)
  case (5 config i input visited r inner visited1)
  have "visited \<subseteq> visited1"
  proof (cases "gm_get (NodeProfiles config) i")
    case (Some p)
    with 5 visited_grows [of config "pf_Profiles p" "insert i visited"] show ?thesis by (auto; metis snd_conv subsetD)
  qed (use 5 in auto)
  then show ?case using unvisited_mono [of visited visited1 config] by auto
qed (auto dest: unvisited_insert)

definition getNodeProfiles :: "NodesYaml \<Rightarrow> string \<Rightarrow> string list" where
  "getNodeProfiles config i = (case gm_get (Nodes config) i of
      None \<Rightarrow> []
    | Some node \<Rightarrow> cleanList (fst (getProfilesProfiles config (pf_Profiles (nd_Profile node)) {})))"

section \<open>What the expansion collects\<close>

text \<open>A configured profile lists another one; a negated token is not a profile.\<close>

definition lists_profile :: "NodesYaml \<Rightarrow> string \<Rightarrow> string \<Rightarrow> bool" where
  "lists_profile config i j \<longleftrightarrow>
     (\<exists>p. gm_get (NodeProfiles config) i = Some p \<and> j \<in> set (pf_Profiles p) \<and> \<not> HasPrefix j ''~'')"

text \<open>The profiles that are reached from a list, and the negated tokens met on the way.\<close>

inductive reached :: "NodesYaml \<Rightarrow> string list \<Rightarrow> string \<Rightarrow> bool" for config input where
  listed: "i \<in> set input \<Longrightarrow> \<not> HasPrefix i ''~'' \<Longrightarrow> reached config input i"
| included: "reached config input i \<Longrightarrow> lists_profile config i j \<Longrightarrow> reached config input j"

definition negated :: "NodesYaml \<Rightarrow> string list \<Rightarrow> string \<Rightarrow> bool" where
  "negated config input i \<longleftrightarrow> ''~'' @ i \<in> set input \<or>
     (\<exists>j p. reached config input j \<and> gm_get (NodeProfiles config) j = Some p \<and> ''~'' @ i \<in> set (pf_Profiles p))"

definition precedes :: "string \<Rightarrow> string \<Rightarrow> string list \<Rightarrow> bool" where
  "precedes j i out \<longleftrightarrow> (\<exists>xs ys. out = xs @ i # ys \<and> j \<in> set xs)"

abbreviation plain_names :: "string list \<Rightarrow> string list" where
  "plain_names xs \<equiv> filter (\<lambda>t. \<not> HasPrefix t ''~'') xs"

lemma precedes_left: "precedes j i out \<Longrightarrow> precedes j i (out @ out')"
  unfolding precedes_def by (metis append_Cons append_assoc)

lemma precedes_right: "precedes j i out' \<Longrightarrow> precedes j i (out @ out')"
  unfolding precedes_def by (metis Un_iff append_assoc set_append)

lemma precedes_across: "j \<in> set out \<Longrightarrow> i \<in> set out' \<Longrightarrow> precedes j i (out @ out')"
  unfolding precedes_def by (metis UnCI append.assoc set_append split_list_first)

lemma reached_mono: "reached config input i \<Longrightarrow> set input \<subseteq> set input' \<Longrightarrow> reached config input' i"
  by (induction rule: reached.induct) (auto intro: reached.intros)

lemma reached_nested:
  "reached config (pf_Profiles p) j \<Longrightarrow> gm_get (NodeProfiles config) i = Some p \<Longrightarrow>
     \<not> HasPrefix i ''~'' \<Longrightarrow> i \<in> set input \<Longrightarrow> reached config input j \<and> (lists_profile config)\<^sup>+\<^sup>+ i j"
proof (induction rule: reached.induct)
  case (listed j)
  then have "lists_profile config i j" by (auto simp: lists_profile_def)
  with listed show ?case by (metis reached.intros tranclp.r_into_trancl)
next
  case (included j k)
  then show ?case by (metis reached.included tranclp.trancl_into_trancl)
qed

definition closed_in :: "NodesYaml \<Rightarrow> string list \<Rightarrow> string set \<Rightarrow> bool" where
  "closed_in config out V \<longleftrightarrow> (\<forall>i\<in>set out. {j. lists_profile config i j} \<subseteq> V)"

lemma closed_inD: "closed_in config out V \<Longrightarrow> i \<in> set out \<Longrightarrow> lists_profile config i j \<Longrightarrow> j \<in> V"
  by (auto simp: closed_in_def)

lemma closed_in_append:
  "closed_in config out V \<Longrightarrow> closed_in config out' W \<Longrightarrow> V \<subseteq> W \<Longrightarrow> closed_in config (out @ out') W"
  by (fastforce simp: closed_in_def)

lemma closed_in_Nil [simp]: "closed_in config [] V"
  by (simp add: closed_in_def)

text \<open>What one call adds to the list and to the visited set.\<close>

definition expands_to ::
  "NodesYaml \<Rightarrow> string list \<Rightarrow> string set \<Rightarrow> string list \<Rightarrow> string set \<Rightarrow> bool" where
  "expands_to config input visited out visited' \<longleftrightarrow>
     distinct (plain_names out) \<and> set (plain_names out) \<inter> visited = {} \<and>
     visited' = visited \<union> set (plain_names out) \<and>
     set (plain_names input) \<subseteq> visited' \<and>
     (\<forall>i\<in>set (plain_names out). reached config input i) \<and>
     closed_in config (plain_names out) visited' \<and>
     (\<forall>i j. i \<in> set (plain_names out) \<longrightarrow> lists_profile config i j \<longrightarrow>
        j \<in> visited \<or> precedes j i out \<or> (lists_profile config)\<^sup>+\<^sup>+ j i)"

lemma expands_to_elem:
  "expands_to config input visited out visited' \<Longrightarrow> j \<in> visited' \<longleftrightarrow> j \<in> visited \<or> j \<in> set (plain_names out)"
  by (auto simp: expands_to_def)

lemma expands_to_Nil: "expands_to config [] visited [] visited"
  by (simp add: expands_to_def)

lemma expands_to_neg:
  assumes "HasPrefix i ''~''" "expands_to config input visited out visited'"
  shows "expands_to config (i # input) visited (i # out) visited'"
proof -
  have "reached config (i # input) j" if "reached config input j" for j
    using that by (rule reached_mono) auto
  moreover have "precedes j k out \<Longrightarrow> precedes j k (i # out)" for j k
    using precedes_right [of j k out "[i]"] by simp
  ultimately show ?thesis using assms unfolding expands_to_def by (auto; blast)
qed

lemma expands_to_skip:
  assumes "\<not> HasPrefix i ''~''" "i \<in> visited" "expands_to config input visited out visited'"
  shows "expands_to config (i # input) visited out visited'"
proof -
  have "reached config (i # input) j" if "reached config input j" for j
    using that by (rule reached_mono) auto
  then show ?thesis using assms unfolding expands_to_def by auto
qed

lemma expands_to_Cons:
  assumes i: "\<not> HasPrefix i ''~''" "i \<notin> visited"
    and inner: "expands_to config ps (insert i visited) inner visited1"
    and ps: "gm_get (NodeProfiles config) i = Some p \<and> ps = pf_Profiles p \<or>
             gm_get (NodeProfiles config) i = None \<and> ps = []"
    and rest: "expands_to config input visited1 out visited2"
  shows "expands_to config (i # input) visited (inner @ i # out) visited2"
proof -
  note in1 = expands_to_elem [OF inner] and in2 = expands_to_elem [OF rest]
  have reach_in: "reached config (i # input) k \<and> (lists_profile config)\<^sup>+\<^sup>+ i k" if "k \<in> set (plain_names inner)" for k
  proof -
    from that inner have "reached config ps k" by (auto simp: expands_to_def)
    moreover have "\<not> reached config [] k" using reached.induct [of config "[]" k "\<lambda>_. False"] by auto
    ultimately show ?thesis using ps reached_nested [of config p k i "i # input"] i by auto
  qed
  have reach_out: "reached config (i # input) k" if "k \<in> set (plain_names out)" for k
    using that rest by (auto simp: expands_to_def intro: reached_mono)
  have order: "j \<in> visited \<or> precedes j k (inner @ i # out) \<or> (lists_profile config)\<^sup>+\<^sup>+ j k"
    if k: "k \<in> set (plain_names (inner @ i # out))" and kj: "lists_profile config k j" for k j
  proof -
    have j: "\<not> HasPrefix j ''~''" using kj by (auto simp: lists_profile_def)
    consider "k \<in> set (plain_names inner)" | "k = i" | "k \<in> set (plain_names out)" using k by (auto split: if_splits)
    then show ?thesis
    proof cases
      case 1
      with inner kj have "j = i \<or> j \<in> visited \<or> precedes j k inner \<or> (lists_profile config)\<^sup>+\<^sup>+ j k"
        by (auto simp: expands_to_def)
      then show ?thesis using reach_in [OF 1] precedes_left [of j k inner] by auto
    next
      case 2
      with kj ps have "j \<in> set (plain_names ps)" by (auto simp: lists_profile_def)
      then have "j \<in> visited1" using inner by (auto simp: expands_to_def)
      then have "j = i \<or> j \<in> visited \<or> j \<in> set inner" using in1 [of j] by auto
      then show ?thesis using 2 kj precedes_across [of j inner i "i # out"] by auto
    next
      case 3
      with rest kj have "j \<in> visited1 \<or> precedes j k out \<or> (lists_profile config)\<^sup>+\<^sup>+ j k"
        by (auto simp: expands_to_def)
      moreover have "j \<in> visited1 \<Longrightarrow> j \<in> visited \<or> j \<in> set (inner @ [i])" using in1 [of j] by auto
      ultimately show ?thesis
        using 3 precedes_across [of j "inner @ [i]" k out] precedes_right [of j k out "inner @ [i]"] by auto
    qed
  qed
  have V12: "visited1 \<subseteq> visited2" using in2 by auto
  have "closed_in config [i] visited1"
    using inner ps by (auto simp: closed_in_def lists_profile_def expands_to_def)
  moreover have "closed_in config (plain_names inner) visited1" "closed_in config (plain_names out) visited2"
    using inner rest unfolding expands_to_def by blast+
  ultimately have closed: "closed_in config (plain_names (inner @ i # out)) visited2"
    using i V12 closed_in_append [of config "plain_names inner" visited1 "[i]" visited1]
      closed_in_append [of config "plain_names inner @ [i]" visited1 "plain_names out" visited2] by simp
  have reach: "reached config (i # input) k" if "k \<in> set (plain_names (inner @ i # out))" for k
    using that reach_in reach_out i by (auto intro: reached.listed)
  have "distinct (plain_names (inner @ i # out)) \<and> set (plain_names (inner @ i # out)) \<inter> visited = {} \<and>
      visited2 = visited \<union> set (plain_names (inner @ i # out)) \<and> set (plain_names (i # input)) \<subseteq> visited2"
    using inner rest i unfolding expands_to_def by auto
  with reach order closed show ?thesis unfolding expands_to_def by blast
qed

lemma getProfilesProfiles_expands:
  "getProfilesProfiles config input visited = (out, visited') \<Longrightarrow> expands_to config input visited out visited'"
proof (induction config input visited arbitrary: out visited' rule: getProfilesProfiles.induct)
  case (1 config visited)
  then show ?case by (simp add: expands_to_Nil)
next
  case (2 config i input visited)
  show ?case
  proof (cases "HasPrefix i ''~'' \<or> i \<in> visited")
    case True
    with 2(1-2,5) show ?thesis
      by (auto simp: Let_def split: prod.splits if_splits intro: expands_to_neg expands_to_skip)
  next
    case False
    define r where "r = (case gm_get (NodeProfiles config) i of None \<Rightarrow> ([], insert i visited)
      | Some profile \<Rightarrow> getProfilesProfiles config (pf_Profiles profile) (insert i visited))"
    obtain inner visited1 where r: "r = (inner, visited1)" by (cases r)
    with 2(5) False obtain out' where
      rest: "getProfilesProfiles config input visited1 = (out', visited')" and out: "out = inner @ i # out'"
      by (cases "getProfilesProfiles config input visited1") (auto simp: Let_def split_beta simp flip: r_def)
    have "expands_to config input visited1 out' visited'"
      using 2(4) [OF _ _ r_def _ rest] False r by simp
    moreover have "expands_to config (case gm_get (NodeProfiles config) i of None \<Rightarrow> [] | Some p \<Rightarrow> pf_Profiles p)
        (insert i visited) inner visited1"
      using r 2(3) False by (auto simp: r_def expands_to_Nil split: option.splits)
    ultimately show ?thesis
      unfolding out using False
      by (intro expands_to_Cons [where ps = "case gm_get (NodeProfiles config) i of None \<Rightarrow> [] | Some p \<Rightarrow> pf_Profiles p"
            and p = "the (gm_get (NodeProfiles config) i)"]) (auto split: option.splits)
  qed
qed

lemma getProfilesProfiles_negated:
  "getProfilesProfiles config input visited = (out, visited') \<Longrightarrow> HasPrefix t ''~'' \<Longrightarrow>
     t \<in> set out \<longleftrightarrow> t \<in> set input \<or>
       (\<exists>i\<in>set (plain_names out). \<exists>p. gm_get (NodeProfiles config) i = Some p \<and> t \<in> set (pf_Profiles p))"
proof (induction config input visited arbitrary: out visited' rule: getProfilesProfiles.induct)
  case (2 config i input visited)
  show ?case
  proof (cases "HasPrefix i ''~'' \<or> i \<in> visited")
    case True
    with 2(1-2,5-) show ?thesis by (auto simp: Let_def split: prod.splits if_splits)
  next
    case False
    define r where "r = (case gm_get (NodeProfiles config) i of None \<Rightarrow> ([], insert i visited)
      | Some profile \<Rightarrow> getProfilesProfiles config (pf_Profiles profile) (insert i visited))"
    obtain inner visited1 where r: "r = (inner, visited1)" by (cases r)
    with 2(5) False obtain out' where
      rest: "getProfilesProfiles config input visited1 = (out', visited')" and out: "out = inner @ i # out'"
      by (cases "getProfilesProfiles config input visited1") (auto simp: Let_def split_beta simp flip: r_def)
    have out': "t \<in> set out' \<longleftrightarrow> t \<in> set input \<or>
        (\<exists>i\<in>set (plain_names out'). \<exists>p. gm_get (NodeProfiles config) i = Some p \<and> t \<in> set (pf_Profiles p))"
      using 2(4) [OF _ _ r_def _ rest 2(6)] False r by simp
    have inner: "t \<in> set inner \<longleftrightarrow>
        (\<exists>p. gm_get (NodeProfiles config) i = Some p \<and> t \<in> set (pf_Profiles p)) \<or>
        (\<exists>i\<in>set (plain_names inner). \<exists>p. gm_get (NodeProfiles config) i = Some p \<and> t \<in> set (pf_Profiles p))"
      using r 2(3) [OF _ _ _ _ 2(6)] False by (auto simp: r_def split: option.splits)
    have "t \<noteq> i" using False 2(6) by auto
    with False show ?thesis unfolding out by (auto simp: inner out')
  qed
qed simp

lemma reached_expands:
  assumes "expands_to config input {} out visited'"
  shows "set (plain_names out) = {i. reached config input i}"
proof -
  have "i \<in> set (plain_names out)" if "reached config input i" for i
    using that
  proof (induction rule: reached.induct)
    case (listed i)
    then show ?case using assms by (auto simp: expands_to_def)
  next
    case (included i j)
    have "closed_in config (plain_names out) visited'" "visited' = {} \<union> set (plain_names out)"
      using assms unfolding expands_to_def by blast+
    then have "closed_in config (plain_names out) (set (plain_names out))" by simp
    from closed_inD [OF this included(3,2)] show ?case .
  qed
  moreover have "\<forall>i\<in>set (plain_names out). reached config input i"
    using assms unfolding expands_to_def by blast
  ultimately show ?thesis by blast
qed

lemma plain_names_cleanList: "plain_names (cleanList xs) = cleanList xs"
  by (auto simp: filter_id_conv cleanList_elem_iff)

lemma cleanList_via_plain: "cleanList xs = filter (\<lambda>t. ''~'' @ t \<notin> set xs) (plain_names xs)"
  by (simp add: cleanList_filter conj_commute)

lemma precedes_filter: "precedes j i xs \<Longrightarrow> P j \<Longrightarrow> P i \<Longrightarrow> precedes j i (filter P xs)"
  unfolding precedes_def by fastforce

text \<open>
  (C4) The profiles of a node, in the order in which they are merged: no profile occurs twice; the
  list holds exactly the profiles reached from the node's own list by following nested profiles,
  less those negated anywhere on the way; and a profile stands after every profile it includes,
  so that its own values win, unless the two include each other in a cycle. In particular the
  expansion ends on cyclic profiles.
\<close>

theorem getNodeProfiles_correct:
  assumes "gm_get (Nodes config) i = Some node"
  defines "own \<equiv> pf_Profiles (nd_Profile node)"
  shows "distinct (getNodeProfiles config i) \<and>
    (\<forall>j. j \<in> set (getNodeProfiles config i) \<longleftrightarrow> reached config own j \<and> \<not> negated config own j) \<and>
    (\<forall>j k. {j, k} \<subseteq> set (getNodeProfiles config i) \<longrightarrow> lists_profile config k j \<longrightarrow>
       precedes j k (getNodeProfiles config i) \<or> (lists_profile config)\<^sup>*\<^sup>* j k)"
proof -
  obtain out v where call: "getProfilesProfiles config own {} = (out, v)" by fastforce
  note exp = getProfilesProfiles_expands [OF call]
  have get: "getNodeProfiles config i = cleanList out" using assms(1) call by (simp add: getNodeProfiles_def own_def)
  have reach: "j \<in> set (plain_names out) \<longleftrightarrow> reached config own j" for j using reached_expands [OF exp] by auto
  have neg: "''~'' @ j \<in> set out \<longleftrightarrow> negated config own j" for j
    using getProfilesProfiles_negated [OF call, of "''~'' @ j"] reach by (auto simp: negated_def)
  have mem: "j \<in> set (cleanList out) \<longleftrightarrow> reached config own j \<and> \<not> negated config own j" for j
    using reach [of j] neg [of j] by (auto simp: cleanList_elem_iff)
  have dist: "distinct (cleanList out)"
  proof -
    have "distinct (plain_names out)" using exp unfolding expands_to_def by blast
    then show ?thesis unfolding cleanList_via_plain by (rule distinct_filter)
  qed
  have ord: "precedes j k (cleanList out) \<or> (lists_profile config)\<^sup>*\<^sup>* j k"
    if "{j, k} \<subseteq> set (cleanList out)" "lists_profile config k j" for j k
  proof -
    have "k \<in> set (plain_names out)" using that(1) by (auto simp: cleanList_elem_iff)
    then have "precedes j k out \<or> (lists_profile config)\<^sup>+\<^sup>+ j k" using exp that(2) unfolding expands_to_def by blast
    then show ?thesis
      using that(1) by (auto simp: cleanList_filter intro!: precedes_filter dest: tranclp_into_rtranclp)
  qed
  show ?thesis unfolding get using mem dist ord by blast
qed

definition sample_profiles :: NodesYaml where
  "sample_profiles = \<lparr>
     NodeProfiles = Some [
       (''base'', zero_Profile), (''gpu'', zero_Profile\<lparr>pf_Profiles := [''base'', ''net'']\<rparr>),
       (''net'', zero_Profile\<lparr>pf_Profiles := [''gpu'', ''~base'']\<rparr>)],
     Nodes = Some [(''n1'', zero_Node\<lparr>nd_Profile := zero_Profile\<lparr>pf_Profiles := [''gpu'', ''missing'']\<rparr>\<rparr>)]\<rparr>"

theorem getNodeProfiles_correct_witness:
  "getNodeProfiles sample_profiles ''n1'' = [''net'', ''gpu'', ''missing''] \<and>
   reached sample_profiles [''gpu'', ''missing''] ''net'' \<and> negated sample_profiles [''gpu'', ''missing''] ''base''"
proof -
  have node: "gm_get (Nodes sample_profiles) ''n1'' =
      Some (zero_Node\<lparr>nd_Profile := zero_Profile\<lparr>pf_Profiles := [''gpu'', ''missing'']\<rparr>\<rparr>)"
    by code_simp
  have get: "getNodeProfiles sample_profiles ''n1'' = [''net'', ''gpu'', ''missing'']" by code_simp
  have "reached sample_profiles [''gpu'', ''missing''] ''base''"
    by (rule reached.included [where i = "''gpu''"], rule reached.listed)
       (simp_all add: lists_profile_def sample_profiles_def gm_get_def gm_entries_def zero_Profile_def)
  moreover have "j \<in> set [''net'', ''gpu'', ''missing''] \<longleftrightarrow>
      reached sample_profiles [''gpu'', ''missing''] j \<and> \<not> negated sample_profiles [''gpu'', ''missing''] j" for j
    using getNodeProfiles_correct [OF node] unfolding get by (simp add: zero_Node_def zero_Profile_def)
  from this [of "''net''"] this [of "''base''"] calculation show ?thesis by (simp add: get)
qed

end
