(* ===== verification/Reflect.thy ===== *)
theory Reflect
  imports Node_Data
begin

text \<open>
  The view of the configuration structs that Go's package \<open>reflect\<close> gives to \<open>recursiveFlatten\<close>,
  \<open>listFields\<close>, \<open>diffStruct\<close> and \<open>recursiveUpdateFrom\<close>. A \<open>gval\<close> is a value with enough of its type
  to be walked: a struct is the list of its fields with their tags, and a pointer to a struct and a
  map of such pointers carry the zero value of the struct, which is what these functions read of the
  pointer's type. Of a \<open>comment\<close> tag only its presence is kept.
\<close>

record sfield =
  sf_Name :: string
  sf_exported :: bool
  sf_Anonymous :: bool
  sf_yaml :: string
  sf_lopt :: string
  sf_comment :: bool
  sf_type :: string
  sf_name :: string
  sf_scope :: string

definition tagged ::
  "string \<Rightarrow> string \<Rightarrow> string \<Rightarrow> bool \<Rightarrow> string \<Rightarrow> string \<Rightarrow> string \<Rightarrow> sfield" where
  "tagged n y l c t d s = \<lparr>sf_Name = n, sf_exported = True, sf_Anonymous = False, sf_yaml = y, sf_lopt = l,
     sf_comment = c, sf_type = t, sf_name = d, sf_scope = s\<rparr>"

definition unexported :: "string \<Rightarrow> sfield" where
  "unexported n = (tagged n [] [] False [] [] [])\<lparr>sf_exported := False\<rparr>"

definition embedded :: "string \<Rightarrow> sfield" where
  "embedded n = (tagged n ''-,inline'' [] False [] [] [])\<lparr>sf_Anonymous := True\<rparr>"

datatype gval =
    GStr string
  | GWWbool string
  | GBool bool
  | GIP IP
  | GStrs "string list"
  | GPtrBool "bool option"
  | GAny resource
  | GPtr gval "gval option"
  | GMapStr "string gomap"
  | GMapAny "resource gomap"
  | GMapPtr gval "(string \<times> gval) list option"
  | GStruct "(sfield \<times> gval) list"

text \<open>\<open>reflect.Zero\<close> of the type of a value.\<close>

fun gzero :: "gval \<Rightarrow> gval" where
  "gzero (GStr _) = GStr []"
| "gzero (GWWbool _) = GWWbool []"
| "gzero (GBool _) = GBool False"
| "gzero (GIP _) = GIP []"
| "gzero (GStrs _) = GStrs []"
| "gzero (GPtrBool _) = GPtrBool None"
| "gzero (GAny _) = GAny RNil"
| "gzero (GPtr t _) = GPtr t None"
| "gzero (GMapStr _) = GMapStr gm_nil"
| "gzero (GMapAny _) = GMapAny gm_nil"
| "gzero (GMapPtr t _) = GMapPtr t None"
| "gzero (GStruct fs) = GStruct (map (\<lambda>(f, v). (f, gzero v)) fs)"

section \<open>Structs as reflected values\<close>

fun as_str :: "gval \<Rightarrow> string" where
  "as_str (GStr s) = s" | "as_str (GWWbool s) = s" | "as_str _ = []"
fun as_bool :: "gval \<Rightarrow> bool" where
  "as_bool (GBool b) = b" | "as_bool _ = False"
fun as_ip :: "gval \<Rightarrow> IP" where
  "as_ip (GIP i) = i" | "as_ip _ = []"
fun as_strs :: "gval \<Rightarrow> string list" where
  "as_strs (GStrs ss) = ss" | "as_strs _ = []"
fun as_pbool :: "gval \<Rightarrow> bool option" where
  "as_pbool (GPtrBool b) = b" | "as_pbool _ = None"
fun as_ptr :: "gval \<Rightarrow> gval option" where
  "as_ptr (GPtr t p) = p" | "as_ptr _ = None"
fun as_mapstr :: "gval \<Rightarrow> string gomap" where
  "as_mapstr (GMapStr m) = m" | "as_mapstr _ = None"
fun as_mapany :: "gval \<Rightarrow> resource gomap" where
  "as_mapany (GMapAny m) = m" | "as_mapany _ = None"
fun as_mapptr :: "gval \<Rightarrow> (string \<times> gval) list option" where
  "as_mapptr (GMapPtr t m) = m" | "as_mapptr _ = None"

fun field_of :: "string \<Rightarrow> (sfield \<times> gval) list \<Rightarrow> gval" where
  "field_of n [] = GBool False"
| "field_of n ((f, v) # fs) = (if sf_Name f = n then v else field_of n fs)"

fun field_val :: "string \<Rightarrow> gval \<Rightarrow> gval" where
  "field_val n (GStruct fs) = field_of n fs"
| "field_val n _ = GBool False"

lemma sf_simps [simp]:
  "sf_Name (tagged n y l c t d s) = n" "sf_Name (unexported n) = n" "sf_Name (embedded n) = n"
  "sf_exported (tagged n y l c t d s)" "\<not> sf_exported (unexported n)" "sf_exported (embedded n)"
  "\<not> sf_Anonymous (tagged n y l c t d s)" "\<not> sf_Anonymous (unexported n)" "sf_Anonymous (embedded n)"
  "sf_lopt (tagged n y l c t d s) = l" "sf_comment (tagged n y l c t d s) = c" "sf_lopt (embedded n) = []"
  "sf_name (tagged n y l c t d s) = d" "sf_yaml (tagged n y l c t d s) = y"
  by (simp_all add: tagged_def unexported_def embedded_def)

definition IpmiConf_val :: "IpmiConf \<Rightarrow> gval" where
  "IpmiConf_val x = GStruct [
     (tagged ''UserName'' ''username,omitempty'' ''ipmiuser'' True '''' '''' '''', GStr (ip_UserName x)),
     (tagged ''Password'' ''password,omitempty'' ''ipmipass'' True '''' '''' '''', GStr (ip_Password x)),
     (tagged ''Ipaddr'' ''ipaddr,omitempty'' ''ipmiaddr'' True ''IP'' '''' '''', GIP (ip_Ipaddr x)),
     (tagged ''Gateway'' ''gateway,omitempty'' ''ipmigateway'' True ''IP'' '''' '''', GIP (ip_Gateway x)),
     (tagged ''Netmask'' ''netmask,omitempty'' ''ipminetmask'' True ''IP'' '''' '''', GIP (ip_Netmask x)),
     (tagged ''Port'' ''port,omitempty'' ''ipmiport'' True '''' '''' '''', GStr (ip_Port x)),
     (tagged ''Interface'' ''interface,omitempty'' ''ipmiinterface'' True '''' '''' '''', GStr (ip_Interface x)),
     (tagged ''EscapeChar'' ''escapechar,omitempty'' ''ipmiescapechar'' True '''' '''' '''', GStr (ip_EscapeChar x)),
     (tagged ''Write'' ''write,omitempty'' ''ipmiwrite'' True '''' '''' '''', GWWbool (ip_Write x)),
     (tagged ''Template'' ''template,omitempty'' ''ipmitemplate'' True '''' '''' '''', GStr (ip_Template x)),
     (tagged ''Tags'' ''tags,omitempty'' '''' False '''' '''' '''', GMapStr (ip_Tags x))]"

definition val_IpmiConf :: "gval \<Rightarrow> IpmiConf" where
  "val_IpmiConf v = \<lparr>
     ip_UserName = as_str (field_val ''UserName'' v),
     ip_Password = as_str (field_val ''Password'' v),
     ip_Ipaddr = as_ip (field_val ''Ipaddr'' v),
     ip_Gateway = as_ip (field_val ''Gateway'' v),
     ip_Netmask = as_ip (field_val ''Netmask'' v),
     ip_Port = as_str (field_val ''Port'' v),
     ip_Interface = as_str (field_val ''Interface'' v),
     ip_EscapeChar = as_str (field_val ''EscapeChar'' v),
     ip_Write = as_str (field_val ''Write'' v),
     ip_Template = as_str (field_val ''Template'' v),
     ip_Tags = as_mapstr (field_val ''Tags'' v)\<rparr>"

definition KernelConf_val :: "KernelConf \<Rightarrow> gval" where
  "KernelConf_val x = GStruct [
     (tagged ''Version'' ''version,omitempty'' ''kernelversion'' True '''' '''' '''', GStr (kn_Version x)),
     (tagged ''Args'' ''args,omitempty'' ''kernelargs'' True '''' '''' '''', GStrs (kn_Args x))]"

definition val_KernelConf :: "gval \<Rightarrow> KernelConf" where
  "val_KernelConf v = \<lparr>
     kn_Version = as_str (field_val ''Version'' v),
     kn_Args = as_strs (field_val ''Args'' v)\<rparr>"

definition NetDev_val :: "NetDev \<Rightarrow> gval" where
  "NetDev_val x = GStruct [
     (tagged ''Type'' ''type,omitempty'' ''type'' True '''' '''' ''net'', GStr (dev_Type x)),
     (tagged ''OnBoot'' ''onboot,omitempty'' ''onboot'' True '''' '''' ''net'', GWWbool (dev_OnBoot x)),
     (tagged ''Device'' ''device,omitempty'' ''netdev'' True '''' '''' ''net'', GStr (dev_Device x)),
     (tagged ''Hwaddr'' ''hwaddr,omitempty'' ''hwaddr'' True ''MAC'' '''' ''net'', GStr (dev_Hwaddr x)),
     (tagged ''Ipaddr'' ''ipaddr,omitempty'' ''ipaddr'' True ''IP'' '''' ''net'', GIP (dev_Ipaddr x)),
     (tagged ''Netmask'' ''netmask,omitempty'' ''netmask'' True ''IP'' '''' ''net'', GIP (dev_Netmask x)),
     (tagged ''Gateway'' ''gateway,omitempty'' ''gateway'' True ''IP'' '''' ''net'', GIP (dev_Gateway x)),
     (tagged ''Ipaddr6'' ''ipaddr6,omitempty'' ''ipaddr6'' True ''IP'' '''' ''net'', GIP (dev_Ipaddr6 x)),
     (tagged ''PrefixLen6'' ''prefixlen6,omitempty'' ''prefixlen6'' True ''uint'' '''' ''net'', GStr (dev_PrefixLen6 x)),
     (tagged ''Gateway6'' ''gateway6,omitempty'' ''gateway6'' True ''IP'' '''' ''net'', GIP (dev_Gateway6 x)),
     (tagged ''MTU'' ''mtu,omitempty'' ''mtu'' True ''uint'' '''' ''net'', GStr (dev_MTU x)),
     (tagged ''Tags'' ''tags,omitempty'' '''' False '''' '''' '''', GMapStr (dev_Tags x)),
     (unexported ''primary'', GBool (dev_primary x))]"

definition val_NetDev :: "gval \<Rightarrow> NetDev" where
  "val_NetDev v = \<lparr>
     dev_Type = as_str (field_val ''Type'' v),
     dev_OnBoot = as_str (field_val ''OnBoot'' v),
     dev_Device = as_str (field_val ''Device'' v),
     dev_Hwaddr = as_str (field_val ''Hwaddr'' v),
     dev_Ipaddr = as_ip (field_val ''Ipaddr'' v),
     dev_Netmask = as_ip (field_val ''Netmask'' v),
     dev_Gateway = as_ip (field_val ''Gateway'' v),
     dev_Ipaddr6 = as_ip (field_val ''Ipaddr6'' v),
     dev_PrefixLen6 = as_str (field_val ''PrefixLen6'' v),
     dev_Gateway6 = as_ip (field_val ''Gateway6'' v),
     dev_MTU = as_str (field_val ''MTU'' v),
     dev_Tags = as_mapstr (field_val ''Tags'' v),
     dev_primary = as_bool (field_val ''primary'' v)\<rparr>"

definition Partition_val :: "Partition \<Rightarrow> gval" where
  "Partition_val x = GStruct [
     (unexported ''id'', GStr (pt_id x)),
     (tagged ''Number'' ''number,omitempty'' ''partnumber'' True ''uint'' '''' ''disk,part'', GStr (pt_Number x)),
     (tagged ''SizeMiB'' ''size_mib,omitempty'' ''partsize'' True ''uint'' '''' ''disk,part'', GStr (pt_SizeMiB x)),
     (tagged ''StartMiB'' ''start_mib,omitempty'' '''' True ''uint'' '''' '''', GStr (pt_StartMiB x)),
     (tagged ''TypeGuid'' ''type_guid,omitempty'' ''parttype'' True '''' '''' ''disk,part'', GStr (pt_TypeGuid x)),
     (tagged ''Guid'' ''guid,omitempty'' '''' True '''' '''' '''', GStr (pt_Guid x)),
     (tagged ''WipePartitionEntryP'' ''wipe_partition_entry,omitempty'' ''partwipe'' True '''' ''WipePartitionEntry'' ''disk,part'', GPtrBool (pt_WipePartitionEntryP x)),
     (tagged ''ShouldExistP'' ''should_exist,omitempty'' ''partcreate'' True '''' ''ShouldExist'' ''disk,part'', GPtrBool (pt_ShouldExistP x)),
     (tagged ''ResizeP'' ''resize,omitempty'' '''' True '''' ''Resize'' '''', GPtrBool (pt_ResizeP x))]"

definition val_Partition :: "gval \<Rightarrow> Partition" where
  "val_Partition v = \<lparr>
     pt_id = as_str (field_val ''id'' v),
     pt_Number = as_str (field_val ''Number'' v),
     pt_SizeMiB = as_str (field_val ''SizeMiB'' v),
     pt_StartMiB = as_str (field_val ''StartMiB'' v),
     pt_TypeGuid = as_str (field_val ''TypeGuid'' v),
     pt_Guid = as_str (field_val ''Guid'' v),
     pt_WipePartitionEntryP = as_pbool (field_val ''WipePartitionEntryP'' v),
     pt_ShouldExistP = as_pbool (field_val ''ShouldExistP'' v),
     pt_ResizeP = as_pbool (field_val ''ResizeP'' v)\<rparr>"

definition Disk_val :: "Disk \<Rightarrow> gval" where
  "Disk_val x = GStruct [
     (unexported ''id'', GStr (dk_id x)),
     (tagged ''WipeTableP'' ''wipe_table,omitempty'' ''diskwipe'' True '''' ''WipeTable'' ''disk'', GPtrBool (dk_WipeTableP x)),
     (tagged ''Partitions'' ''partitions,omitempty'' '''' False '''' '''' '''', GMapPtr (Partition_val zero_Partition) (gm_map Partition_val (dk_Partitions x)))]"

definition val_Disk :: "gval \<Rightarrow> Disk" where
  "val_Disk v = \<lparr>
     dk_id = as_str (field_val ''id'' v),
     dk_WipeTableP = as_pbool (field_val ''WipeTableP'' v),
     dk_Partitions = gm_map val_Partition (as_mapptr (field_val ''Partitions'' v))\<rparr>"

definition FileSystem_val :: "FileSystem \<Rightarrow> gval" where
  "FileSystem_val x = GStruct [
     (unexported ''id'', GStr (fs_id x)),
     (tagged ''Format'' ''format,omitempty'' ''fsformat'' True '''' '''' ''fs'', GStr (fs_Format x)),
     (tagged ''Path'' ''path,omitempty'' ''fspath'' True '''' '''' ''fs'', GStr (fs_Path x)),
     (tagged ''WipeFileSystemP'' ''wipe_filesystem,omitempty'' ''fswipe'' True '''' ''WipeFileSystem'' ''fs'', GPtrBool (fs_WipeFileSystemP x)),
     (tagged ''Label'' ''label,omitempty'' '''' True '''' '''' '''', GStr (fs_Label x)),
     (tagged ''Uuid'' ''uuid,omitempty'' '''' True '''' '''' '''', GStr (fs_Uuid x)),
     (tagged ''Options'' ''options,omitempty'' '''' True '''' '''' '''', GStrs (fs_Options x)),
     (tagged ''MountOptions'' ''mount_options,omitempty'' '''' True '''' '''' '''', GStr (fs_MountOptions x))]"

definition val_FileSystem :: "gval \<Rightarrow> FileSystem" where
  "val_FileSystem v = \<lparr>
     fs_id = as_str (field_val ''id'' v),
     fs_Format = as_str (field_val ''Format'' v),
     fs_Path = as_str (field_val ''Path'' v),
     fs_WipeFileSystemP = as_pbool (field_val ''WipeFileSystemP'' v),
     fs_Label = as_str (field_val ''Label'' v),
     fs_Uuid = as_str (field_val ''Uuid'' v),
     fs_Options = as_strs (field_val ''Options'' v),
     fs_MountOptions = as_str (field_val ''MountOptions'' v)\<rparr>"

definition Profile_val :: "Profile \<Rightarrow> gval" where
  "Profile_val x = GStruct [
     (unexported ''id'', GStr (pf_id x)),
     (tagged ''Profiles'' ''profiles,omitempty'' ''profile'' True '''' '''' '''', GStrs (pf_Profiles x)),
     (tagged ''Groups'' ''groups,omitempty'' ''groups'' True '''' '''' '''', GStrs (pf_Groups x)),
     (tagged ''Comment'' ''comment,omitempty'' ''comment'' True '''' '''' '''', GStr (pf_Comment x)),
     (tagged ''ClusterName'' ''cluster name,omitempty'' ''cluster'' True '''' '''' '''', GStr (pf_ClusterName x)),
     (tagged ''ImageName'' ''image name,omitempty'' ''image'' True '''' '''' '''', GStr (pf_ImageName x)),
     (tagged ''Ipxe'' ''ipxe template,omitempty'' ''ipxe'' True '''' '''' '''', GStr (pf_Ipxe x)),
     (tagged ''RuntimeOverlay'' ''runtime overlay,omitempty'' ''runtime-overlays'' True '''' '''' '''', GStrs (pf_RuntimeOverlay x)),
     (tagged ''SystemOverlay'' ''system overlay,omitempty'' ''system-overlays'' True '''' '''' '''', GStrs (pf_SystemOverlay x)),
     (tagged ''Kernel'' ''kernel,omitempty'' '''' False '''' '''' '''', GPtr (KernelConf_val zero_KernelConf) (map_option KernelConf_val (pf_Kernel x))),
     (tagged ''Ipmi'' ''ipmi,omitempty'' '''' False '''' '''' '''', GPtr (IpmiConf_val zero_IpmiConf) (map_option IpmiConf_val (pf_Ipmi x))),
     (tagged ''Init'' ''init,omitempty'' ''init'' True '''' '''' '''', GStr (pf_Init x)),
     (tagged ''Root'' ''root,omitempty'' ''root'' True '''' '''' '''', GStr (pf_Root x)),
     (tagged ''NetDevs'' ''network devices,omitempty'' '''' False '''' '''' '''', GMapPtr (NetDev_val zero_NetDev) (gm_map NetDev_val (pf_NetDevs x))),
     (tagged ''Tags'' ''tags,omitempty'' '''' False '''' '''' '''', GMapStr (pf_Tags x)),
     (tagged ''PrimaryNetDev'' ''primary network,omitempty'' ''primarynet'' True '''' '''' '''', GStr (pf_PrimaryNetDev x)),
     (tagged ''Disks'' ''disks,omitempty'' '''' False '''' '''' '''', GMapPtr (Disk_val zero_Disk) (gm_map Disk_val (pf_Disks x))),
     (tagged ''FileSystems'' ''filesystems,omitempty'' '''' False '''' '''' '''', GMapPtr (FileSystem_val zero_FileSystem) (gm_map FileSystem_val (pf_FileSystems x))),
     (tagged ''Resources'' ''resources,omitempty'' '''' False '''' '''' '''', GMapAny (pf_Resources x))]"

definition val_Profile :: "gval \<Rightarrow> Profile" where
  "val_Profile v = \<lparr>
     pf_id = as_str (field_val ''id'' v),
     pf_Profiles = as_strs (field_val ''Profiles'' v),
     pf_Groups = as_strs (field_val ''Groups'' v),
     pf_Comment = as_str (field_val ''Comment'' v),
     pf_ClusterName = as_str (field_val ''ClusterName'' v),
     pf_ImageName = as_str (field_val ''ImageName'' v),
     pf_Ipxe = as_str (field_val ''Ipxe'' v),
     pf_RuntimeOverlay = as_strs (field_val ''RuntimeOverlay'' v),
     pf_SystemOverlay = as_strs (field_val ''SystemOverlay'' v),
     pf_Kernel = map_option val_KernelConf (as_ptr (field_val ''Kernel'' v)),
     pf_Ipmi = map_option val_IpmiConf (as_ptr (field_val ''Ipmi'' v)),
     pf_Init = as_str (field_val ''Init'' v),
     pf_Root = as_str (field_val ''Root'' v),
     pf_NetDevs = gm_map val_NetDev (as_mapptr (field_val ''NetDevs'' v)),
     pf_Tags = as_mapstr (field_val ''Tags'' v),
     pf_PrimaryNetDev = as_str (field_val ''PrimaryNetDev'' v),
     pf_Disks = gm_map val_Disk (as_mapptr (field_val ''Disks'' v)),
     pf_FileSystems = gm_map val_FileSystem (as_mapptr (field_val ''FileSystems'' v)),
     pf_Resources = as_mapany (field_val ''Resources'' v)\<rparr>"

definition Node_val :: "Node \<Rightarrow> gval" where
  "Node_val x = GStruct [
     (unexported ''id'', GStr (nd_id x)),
     (unexported ''valid'', GBool (nd_valid x)),
     (tagged ''Discoverable'' ''discoverable,omitempty'' ''discoverable'' True '''' '''' '''', GWWbool (nd_Discoverable x)),
     (tagged ''AssetKey'' ''asset key,omitempty'' ''asset'' True '''' '''' '''', GStr (nd_AssetKey x)),
     (embedded ''Profile'', Profile_val (nd_Profile x))]"

definition val_Node :: "gval \<Rightarrow> Node" where
  "val_Node v = \<lparr>
     nd_id = as_str (field_val ''id'' v),
     nd_valid = as_bool (field_val ''valid'' v),
     nd_Discoverable = as_str (field_val ''Discoverable'' v),
     nd_AssetKey = as_str (field_val ''AssetKey'' v),
     nd_Profile = val_Profile (field_val ''Profile'' v)\<rparr>"

section \<open>Reading a reflected struct back\<close>

lemma gm_map_gm_map [simp]: "gm_map f (gm_map g m) = gm_map (\<lambda>x. f (g x)) m"
  by (cases m) (auto simp: gm_map_def)

lemma gm_map_id [simp]: "gm_map (\<lambda>x. x) m = m"
  by (cases m) (auto simp: gm_map_def map_prod_def)

lemma val_IpmiConf_val [simp]: "val_IpmiConf (IpmiConf_val x) = x"
  by (cases x) (simp add: IpmiConf_val_def val_IpmiConf_def)

lemma val_KernelConf_val [simp]: "val_KernelConf (KernelConf_val x) = x"
  by (cases x) (simp add: KernelConf_val_def val_KernelConf_def)

lemma val_NetDev_val [simp]: "val_NetDev (NetDev_val x) = x"
  by (cases x) (simp add: NetDev_val_def val_NetDev_def)

lemma val_Partition_val [simp]: "val_Partition (Partition_val x) = x"
  by (cases x) (simp add: Partition_val_def val_Partition_def)

lemma val_Disk_val [simp]: "val_Disk (Disk_val x) = x"
  by (cases x) (simp add: Disk_val_def val_Disk_def)

lemma val_FileSystem_val [simp]: "val_FileSystem (FileSystem_val x) = x"
  by (cases x) (simp add: FileSystem_val_def val_FileSystem_def)

lemma val_Profile_val [simp]: "val_Profile (Profile_val x) = x"
  by (cases x) (simp add: Profile_val_def val_Profile_def option.map_comp comp_def option.map_ident)

lemma val_Node_val [simp]: "val_Node (Node_val x) = x"
  by (cases x) (simp add: Node_val_def val_Node_def)

section \<open>Values of the same type\<close>

text \<open>
  \<open>same_type z v\<close>: the value \<open>v\<close> has the type of \<open>z\<close>. The functions that walk a struct keep its type,
  so their result is the image of a record again.
\<close>

fun same_type :: "gval \<Rightarrow> gval \<Rightarrow> bool" where
  "same_type (GStr _) v = (\<exists>s. v = GStr s)"
| "same_type (GWWbool _) v = (\<exists>s. v = GWWbool s)"
| "same_type (GBool _) v = (\<exists>b. v = GBool b)"
| "same_type (GIP _) v = (\<exists>i. v = GIP i)"
| "same_type (GStrs _) v = (\<exists>ss. v = GStrs ss)"
| "same_type (GPtrBool _) v = (\<exists>p. v = GPtrBool p)"
| "same_type (GAny _) v = (\<exists>r. v = GAny r)"
| "same_type (GMapStr _) v = (\<exists>m. v = GMapStr m)"
| "same_type (GMapAny _) v = (\<exists>m. v = GMapAny m)"
| "same_type (GPtr t _) v = (\<exists>p. v = GPtr t p \<and> (\<forall>w. p = Some w \<longrightarrow> same_type t w))"
| "same_type (GMapPtr t _) v = (\<exists>m. v = GMapPtr t m \<and> (\<forall>es. m = Some es \<longrightarrow> (\<forall>(k, w)\<in>set es. same_type t w)))"
| "same_type (GStruct fs) v = (\<exists>gs. v = GStruct gs \<and>
     list_all2 (\<lambda>(f, x) (g, y). f = g \<and> same_type x y) fs gs)"

lemma same_type_IpmiConf: "same_type (IpmiConf_val z) v \<Longrightarrow> IpmiConf_val (val_IpmiConf v) = v"
  by (auto simp: IpmiConf_val_def val_IpmiConf_def list_all2_Cons1)

lemma same_type_KernelConf: "same_type (KernelConf_val z) v \<Longrightarrow> KernelConf_val (val_KernelConf v) = v"
  by (auto simp: KernelConf_val_def val_KernelConf_def list_all2_Cons1)

lemma same_type_NetDev: "same_type (NetDev_val z) v \<Longrightarrow> NetDev_val (val_NetDev v) = v"
  by (auto simp: NetDev_val_def val_NetDev_def list_all2_Cons1)

lemma same_type_Partition: "same_type (Partition_val z) v \<Longrightarrow> Partition_val (val_Partition v) = v"
  by (auto simp: Partition_val_def val_Partition_def list_all2_Cons1)

lemma same_type_FileSystem: "same_type (FileSystem_val z) v \<Longrightarrow> FileSystem_val (val_FileSystem v) = v"
  by (auto simp: FileSystem_val_def val_FileSystem_def list_all2_Cons1)

lemma gm_map_same: "(\<And>es. m = Some es \<Longrightarrow> \<forall>(k, w)\<in>set es. f w = w) \<Longrightarrow> gm_map f m = m"
  by (cases m) (auto simp: gm_map_def intro!: map_idI)

lemma map_option_same: "(\<And>w. p = Some w \<Longrightarrow> f w = w) \<Longrightarrow> map_option f p = p"
  by (cases p) auto

lemma same_type_Disk: "same_type (Disk_val z) v \<Longrightarrow> Disk_val (val_Disk v) = v"
  by (auto simp: Disk_val_def val_Disk_def list_all2_Cons1 intro!: gm_map_same) (blast intro: same_type_Partition)

lemma same_type_ptr:
  "(\<And>w. same_type t w \<Longrightarrow> f (g w) = w) \<Longrightarrow> \<forall>w. p = Some w \<longrightarrow> same_type t w \<Longrightarrow> \<exists>q. p = map_option f q"
  by (rule exI [of _ "map_option g p"]) (cases p; simp)

lemma same_type_map:
  "(\<And>w. same_type t w \<Longrightarrow> f (g w) = w) \<Longrightarrow>
     \<forall>es. m = Some es \<longrightarrow> (\<forall>(k, w)\<in>set es. same_type t w) \<Longrightarrow> \<exists>q. m = gm_map f q"
proof (rule exI [of _ "gm_map g m"])
  assume "\<And>w. same_type t w \<Longrightarrow> f (g w) = w" "\<forall>es. m = Some es \<longrightarrow> (\<forall>(k, w)\<in>set es. same_type t w)"
  then show "m = gm_map f (gm_map g m)" by (auto intro!: gm_map_same [symmetric]) blast
qed

lemmas Profile_val_make =
  Profile_val_def [of "Profile.make i ps gs c cn im ix ro so k ip ini root ds t pn dk fs r"
    for i ps gs c cn im ix ro so k ip ini root ds t pn dk fs r, unfolded Profile.defs, simplified Profile.simps]

lemma same_type_parts:
  "\<forall>w. p = Some w \<longrightarrow> same_type (IpmiConf_val zIpmiConf) w \<Longrightarrow> \<exists>q. p = map_option IpmiConf_val q"
  "\<forall>w. p = Some w \<longrightarrow> same_type (KernelConf_val zKernelConf) w \<Longrightarrow> \<exists>q. p = map_option KernelConf_val q"
  "\<forall>es. m = Some es \<longrightarrow> (\<forall>(k, w)\<in>set es. same_type (NetDev_val zNetDev) w) \<Longrightarrow> \<exists>q. m = gm_map NetDev_val q"
  "\<forall>es. m = Some es \<longrightarrow> (\<forall>(k, w)\<in>set es. same_type (Disk_val zDisk) w) \<Longrightarrow> \<exists>q. m = gm_map Disk_val q"
  "\<forall>es. m = Some es \<longrightarrow> (\<forall>(k, w)\<in>set es. same_type (FileSystem_val zFileSystem) w) \<Longrightarrow> \<exists>q. m = gm_map FileSystem_val q"
  by (erule same_type_ptr [where g = val_IpmiConf, rotated], erule same_type_IpmiConf)
     (erule same_type_ptr [where g = val_KernelConf, rotated], erule same_type_KernelConf,
      erule same_type_map [where g = val_NetDev, rotated], erule same_type_NetDev,
      erule same_type_map [where g = val_Disk, rotated], erule same_type_Disk,
      erule same_type_map [where g = val_FileSystem, rotated], erule same_type_FileSystem)

lemma same_type_Profile_ex: "same_type (Profile_val z) v \<Longrightarrow> \<exists>x. v = Profile_val x"
  apply (simp only: Profile_val_def [of z] same_type.simps list_all2_Cons1 list_all2_Nil ex_simps simp_thms)
  apply (elim exE conjE)
  apply (simp only: split_paired_all prod.case same_type.simps)
  apply (elim exE conjE)
  apply hypsubst_thin
  apply (drule same_type_parts)+
  apply (elim exE)
  apply hypsubst_thin
  apply (rule exI, rule Profile_val_make [symmetric])
  done

lemma same_type_Profile: "same_type (Profile_val z) v \<Longrightarrow> Profile_val (val_Profile v) = v"
  by (metis same_type_Profile_ex val_Profile_val)

lemma same_type_Node: "same_type (Node_val z) v \<Longrightarrow> Node_val (val_Node v) = v"
  by (auto simp: Node_val_def val_Node_def list_all2_Cons1 intro: same_type_Profile)

end
