(* ===== verification/Go_Net.thy ===== *)
theory Go_Net
  imports Node_Data
begin

text \<open>
  The parts of the Go package \<open>net\<close> that the node registry and the daemon rely on: \<open>IP.To4\<close>,
  \<open>IP.Equal\<close>, \<open>IP.IsUnspecified\<close>, \<open>IP.String\<close>, \<open>ParseIP\<close>, \<open>ParseMAC\<close> and the CIDR notation of
  \<open>IPNet.String\<close>, and on top of them \<open>IpCIDR\<close> and \<open>IpCIDR6\<close> of \<open>node/methods.go\<close>.
\<close>

section \<open>Addresses\<close>

definition v4InV6Prefix :: IP where
  "v4InV6Prefix = [0, 0, 0, 0, 0, 0, 0, 0, 0, 0, 255, 255]"

definition To4 :: "IP \<Rightarrow> IP option" where
  "To4 ip = (if length ip = 4 then Some ip
             else if length ip = 16 \<and> take 12 ip = v4InV6Prefix then Some (drop 12 ip)
             else None)"

definition To16 :: "IP \<Rightarrow> IP option" where
  "To16 ip = (if length ip = 4 then Some (v4InV6Prefix @ ip) else if length ip = 16 then Some ip else None)"

definition IPv4 :: "8 word \<Rightarrow> 8 word \<Rightarrow> 8 word \<Rightarrow> 8 word \<Rightarrow> IP" where
  "IPv4 a b c d = v4InV6Prefix @ [a, b, c, d]"

definition IP_Equal :: "IP \<Rightarrow> IP \<Rightarrow> bool" where
  "IP_Equal ip x =
     (if length ip = length x then ip = x
      else if length ip = 4 \<and> length x = 16 then take 12 x = v4InV6Prefix \<and> ip = drop 12 x
      else if length ip = 16 \<and> length x = 4 then take 12 ip = v4InV6Prefix \<and> drop 12 ip = x
      else False)"

definition IsUnspecified :: "IP \<Rightarrow> bool" where
  "IsUnspecified ip = (IP_Equal ip (IPv4 0 0 0 0) \<or> IP_Equal ip (replicate 16 0))"

definition hexDigit :: "nat \<Rightarrow> char" where
  "hexDigit n = (if n < 10 then digit_char n else char_of (87 + n))"

fun show_hex :: "nat \<Rightarrow> string" where
  "show_hex n = (if n < 16 then [hexDigit n] else show_hex (n div 16) @ [hexDigit (n mod 16)])"

declare show_hex.simps [simp del]

definition show_ip4 :: "IP \<Rightarrow> string" where
  "show_ip4 ip = Join (map (\<lambda>b. show_nat (unat b)) ip) ''.''"

text \<open>The eight 16-bit groups of a 16-byte address.\<close>

fun ip6_groups :: "IP \<Rightarrow> nat list" where
  "ip6_groups (a # b # rest) = (256 * unat a + unat b) # ip6_groups rest"
| "ip6_groups _ = []"

definition zero_run :: "nat list \<Rightarrow> nat \<Rightarrow> nat" where
  "zero_run gs i = length (takeWhile (\<lambda>g. g = 0) (drop i gs))"

text \<open>The first longest run of at least two zero groups is printed as \<open>::\<close>.\<close>

definition best_run :: "nat list \<Rightarrow> nat \<times> nat" where
  "best_run gs = foldl (\<lambda>(i, n) j. let m = zero_run gs j in if m > n \<and> m \<ge> 2 then (j, m) else (i, n))
     (length gs, 0) [0..<length gs]"

definition show_ip6 :: "IP \<Rightarrow> string" where
  "show_ip6 ip = (let gs = ip6_groups ip; (i, n) = best_run gs; sh = (\<lambda>xs. Join (map show_hex xs) '':'') in
     if n = 0 then sh gs else sh (take i gs) @ ''::'' @ sh (drop (i + n) gs))"

definition hexString :: "8 word list \<Rightarrow> string" where
  "hexString bs = concat (map (\<lambda>b. [hexDigit (unat b div 16), hexDigit (unat b mod 16)]) bs)"

definition IP_String :: "IP \<Rightarrow> string" where
  "IP_String ip =
     (if ip = [] then ''<nil>''
      else case To4 ip of
          Some v4 \<Rightarrow> show_ip4 v4
        | None \<Rightarrow> if length ip = 16 then show_ip6 ip else ''?'' @ hexString ip)"

section \<open>Parsing\<close>

text \<open>A field of a dotted address: at most three digits, no leading zero, at most 255.\<close>

definition parse_octet :: "string \<Rightarrow> 8 word option" where
  "parse_octet s =
     (if s = [] \<or> length s > 3 \<or> \<not> list_all is_digit s \<or> (length s > 1 \<and> hd s = CHR ''0'') \<or> dec_val s > 255
      then None else Some (of_nat (dec_val s)))"

fun all_some :: "'a option list \<Rightarrow> 'a list option" where
  "all_some [] = Some []"
| "all_some (x # xs) = (case x of None \<Rightarrow> None | Some y \<Rightarrow> map_option (Cons y) (all_some xs))"

definition parse_ip4 :: "string \<Rightarrow> IP option" where
  "parse_ip4 s = (let fs = Split s (CHR ''.'') in
     if length fs \<noteq> 4 then None else all_some (map parse_octet fs))"

definition hex_digit_val :: "char \<Rightarrow> nat option" where
  "hex_digit_val c = (let n = (of_char c :: nat) in
     if 48 \<le> n \<and> n \<le> 57 then Some (n - 48)
     else if 97 \<le> n \<and> n \<le> 102 then Some (n - 87)
     else if 65 \<le> n \<and> n \<le> 70 then Some (n - 55) else None)"

definition hex_val :: "string \<Rightarrow> nat option" where
  "hex_val s = (case all_some (map hex_digit_val s) of
      None \<Rightarrow> None | Some ds \<Rightarrow> Some (foldl (\<lambda>n d. 16 * n + d) 0 ds))"

definition parse_group :: "string \<Rightarrow> IP option" where
  "parse_group s = (if s = [] \<or> length s > 4 then None
     else map_option (\<lambda>n. [of_nat (n div 256), of_nat (n mod 256)]) (hex_val s))"

text \<open>A colon-separated list of groups; the last one may be a dotted address.\<close>

fun parse_groups :: "string list \<Rightarrow> IP option" where
  "parse_groups [] = Some []"
| "parse_groups [s] = (if CHR ''.'' \<in> set s then parse_ip4 s else parse_group s)"
| "parse_groups (s # t # ss) =
     (case parse_group s of None \<Rightarrow> None | Some g \<Rightarrow> map_option (append g) (parse_groups (t # ss)))"

text \<open>Cuts at the first occurrence of \<open>::\<close>.\<close>

fun cut_ellipsis :: "string \<Rightarrow> (string \<times> string) option" where
  "cut_ellipsis (a # b # s) =
     (if a = CHR '':'' \<and> b = CHR '':'' then Some ([], s)
      else map_option (\<lambda>(l, r). (a # l, r)) (cut_ellipsis (b # s)))"
| "cut_ellipsis _ = None"

definition parse_side :: "string \<Rightarrow> IP option" where
  "parse_side s = (if s = [] then Some [] else parse_groups (Split s (CHR '':'')))"

definition parse_ip6 :: "string \<Rightarrow> IP option" where
  "parse_ip6 s = (case cut_ellipsis s of
      None \<Rightarrow> (case parse_side s of Some bs \<Rightarrow> if length bs = 16 then Some bs else None | None \<Rightarrow> None)
    | Some (l, r) \<Rightarrow>
        (case (if CHR ''.'' \<in> set l then None else parse_side l, parse_side r) of
           (Some bl, Some br) \<Rightarrow>
             if length bl + length br < 16 then Some (bl @ replicate (16 - length bl - length br) 0 @ br) else None
         | _ \<Rightarrow> None))"

text \<open>
  \<open>net.ParseIP\<close>: the first dot or colon decides the family; the result has 16 bytes and the nil
  result is \<open>None\<close>. An address with a zone (\<open>%\<close>) is refused.
\<close>

definition ParseIP :: "string \<Rightarrow> IP option" where
  "ParseIP s = (case dropWhile (\<lambda>c. c \<noteq> CHR ''.'' \<and> c \<noteq> CHR '':'' \<and> c \<noteq> CHR ''%'') s of
      [] \<Rightarrow> None
    | c # _ \<Rightarrow>
        if c = CHR ''.'' then map_option (append v4InV6Prefix) (parse_ip4 s)
        else if c = CHR '':'' then parse_ip6 s
        else None)"

text \<open>
  \<open>net.ParseMAC\<close> as far as its callers look at it: whether the text is a hardware address of 6, 8
  or 20 bytes, written as hex pairs separated by \<open>:\<close> or \<open>-\<close> or as hex quads separated by \<open>.\<close>.
\<close>

definition hex_field :: "nat \<Rightarrow> string \<Rightarrow> bool" where
  "hex_field n s = (length s = n \<and> list_all (\<lambda>c. hex_digit_val c \<noteq> None) s)"

definition ParseMAC :: "string \<Rightarrow> bool" where
  "ParseMAC s =
     ((if length s < 14 then False
       else if s ! 2 = CHR '':'' \<or> s ! 2 = CHR ''-'' then
         (let fs = Split s (s ! 2) in length fs \<in> {6, 8, 20} \<and> list_all (hex_field 2) fs)
       else if s ! 4 = CHR ''.'' then
         (let fs = Split s (CHR ''.'') in length fs \<in> {3, 4, 10} \<and> list_all (hex_field 4) fs)
       else False))"

section \<open>CIDR notation\<close>

fun leading_ones :: "bool list \<Rightarrow> nat option" where
  "leading_ones [] = Some 0"
| "leading_ones (b # bs) =
     (if b then map_option Suc (leading_ones bs) else if list_all Not bs then Some 0 else None)"

definition mask_bits :: "IP \<Rightarrow> bool list" where
  "mask_bits m = concat (map (\<lambda>b. map (\<lambda>i. bit b (7 - i)) [0..<8]) m)"

text \<open>\<open>simpleMaskLength\<close>: the number of leading ones, or \<open>None\<close> if other ones follow.\<close>

definition simpleMaskLength :: "IP \<Rightarrow> nat option" where
  "simpleMaskLength m = leading_ones (mask_bits m)"

text \<open>\<open>IPNet.String\<close> with the normalisation of \<open>networkNumberAndMask\<close>.\<close>

definition networkNumberAndMask :: "IP \<Rightarrow> IP \<Rightarrow> (IP \<times> IP) option" where
  "networkNumberAndMask ip m =
     (case (case To4 ip of Some v4 \<Rightarrow> Some v4 | None \<Rightarrow> if length ip = 16 then Some ip else None) of
        None \<Rightarrow> None
      | Some i \<Rightarrow>
          if length m = 4 then (if length i = 4 then Some (i, m) else None)
          else if length m = 16 then (if length i = 4 then Some (i, drop 12 m) else Some (i, m))
          else None)"

definition IPNet_String :: "IP \<Rightarrow> IP \<Rightarrow> string" where
  "IPNet_String ip m = (case networkNumberAndMask ip m of
      None \<Rightarrow> ''<nil>''
    | Some (nn, mm) \<Rightarrow>
        (case simpleMaskLength mm of
           None \<Rightarrow> IP_String nn @ ''/'' @ hexString mm
         | Some l \<Rightarrow> IP_String nn @ ''/'' @ show_nat l))"

definition bits_byte :: "bool list \<Rightarrow> 8 word" where
  "bits_byte bs = of_nat (foldl (\<lambda>n b. 2 * n + (if b then 1 else 0)) 0 bs)"

definition CIDRMask :: "nat \<Rightarrow> nat \<Rightarrow> IP" where
  "CIDRMask ones bits =
     map (\<lambda>i. bits_byte (map (\<lambda>j. 8 * i + j < ones) [0..<8])) [0..<bits div 8]"

definition IpCIDR :: "NetDev \<Rightarrow> string" where
  "IpCIDR netdev =
     (if dev_Ipaddr netdev = [] \<or> IsUnspecified (dev_Ipaddr netdev) \<or>
         dev_Netmask netdev = [] \<or> IsUnspecified (dev_Netmask netdev) then ''''
      else IPNet_String (dev_Ipaddr netdev) (dev_Netmask netdev))"

definition IpCIDR6 :: "NetDev \<Rightarrow> string" where
  "IpCIDR6 netdev =
     (if dev_Ipaddr6 netdev = [] \<or> IsUnspecified (dev_Ipaddr6 netdev) \<or> dev_PrefixLen6 netdev = '''' then ''''
      else if To4 (dev_Ipaddr6 netdev) \<noteq> None then ''''
      else (case Atoi (dev_PrefixLen6 netdev) of (plen, e) \<Rightarrow>
        if e \<noteq> None \<or> plen < 0 \<or> plen > 128 then ''''
        else IPNet_String (dev_Ipaddr6 netdev) (CIDRMask (nat plen) 128)))"

section \<open>The printed network of a device\<close>

lemma bits_byte_mask:
  assumes "n \<le> 8"
  shows "map (\<lambda>i. bit (bits_byte (map (\<lambda>j. j < n) [0..<8])) (7 - i)) [0..<8] = map (\<lambda>j. j < n) [0..<8]"
proof -
  have "n \<in> {0, 1, 2, 3, 4, 5, 6, 7, 8}" using assms by auto
  then show ?thesis by (auto simp: bits_byte_def upt_rec [of 0] upt_rec bit_simps)
qed

lemma leading_ones_less: "n \<le> m \<Longrightarrow> leading_ones (map (\<lambda>i. i < n) [k..<m]) = Some (n - k)"
proof (induction "m - k" arbitrary: k)
  case (Suc d)
  then have "leading_ones (map (\<lambda>i. i < n) [Suc k..<m]) = Some (n - Suc k)" by simp
  moreover have "[k..<m] = k # [Suc k..<m]" using Suc(2) by (simp add: upt_conv_Cons)
  moreover have "\<not> k < n \<Longrightarrow> list_all Not (map (\<lambda>i. i < n) [Suc k..<m])" by (auto simp: list_all_iff)
  ultimately show ?case by (cases "k < n") auto
qed simp

lemma concat_blocks: "concat (map (\<lambda>i. map (\<lambda>j. f (8 * i + j)) [0..<8]) [0..<b]) = map f [0..<8 * b]"
proof (induction b)
  case (Suc b)
  have "[0..<8 * Suc b] = [0..<8 * b] @ [8 * b..<8 * b + 8]" using upt_add_eq_append [of 0 "8 * b" 8] by (simp add: add.commute)
  moreover have "map f [8 * b..<8 * b + 8] = map (\<lambda>j. f (8 * b + j)) [0..<8]"
    by (rule nth_equalityI) auto
  ultimately show ?case using Suc by simp
qed simp

lemma mask_bits_CIDRMask: "mask_bits (CIDRMask n (8 * b)) = map (\<lambda>i. i < n) [0..<8 * b]"
proof -
  have "map (\<lambda>l. bit (bits_byte (map (\<lambda>j. 8 * i + j < n) [0..<8])) (7 - l)) [0..<8] = map (\<lambda>j. 8 * i + j < n) [0..<8]" for i
  proof -
    have "map (\<lambda>j. 8 * i + j < n) [0..<8] = map (\<lambda>j. j < min 8 (n - 8 * i)) [0..<8]" by auto
    then show ?thesis using bits_byte_mask [of "min 8 (n - 8 * i)"] by (simp only: min.cobounded1)
  qed
  then show ?thesis
    using concat_blocks [of "\<lambda>i. i < n" b] by (simp only: mask_bits_def CIDRMask_def map_map comp_def) simp
qed

lemma simpleMaskLength_CIDRMask: "n \<le> 128 \<Longrightarrow> simpleMaskLength (CIDRMask n 128) = Some n"
  using mask_bits_CIDRMask [of n 16] leading_ones_less [of n 128 0] by (simp add: simpleMaskLength_def)

lemma length_CIDRMask: "length (CIDRMask n bits) = bits div 8"
  by (simp add: CIDRMask_def)

text \<open>
  A device with an IPv6 address (16 bytes, not mapped from IPv4, not \<open>::\<close>) and a prefix length
  of 0 to 128 is printed as that address, a slash and the prefix length without leading zeros.
\<close>

theorem IpCIDR6_prints:
  assumes "length (dev_Ipaddr6 d) = 16" "take 12 (dev_Ipaddr6 d) \<noteq> v4InV6Prefix" "dev_Ipaddr6 d \<noteq> replicate 16 0"
    and "dev_PrefixLen6 d \<noteq> []" "list_all is_digit (dev_PrefixLen6 d)" "dec_val (dev_PrefixLen6 d) \<le> 128"
  shows "IpCIDR6 d = show_ip6 (dev_Ipaddr6 d) @ ''/'' @ show_nat (dec_val (dev_PrefixLen6 d))"
proof -
  have to4: "To4 (dev_Ipaddr6 d) = None" using assms by (simp add: To4_def)
  have "\<not> IsUnspecified (dev_Ipaddr6 d)"
    using assms by (auto simp: IsUnspecified_def IP_Equal_def IPv4_def v4InV6Prefix_def)
  moreover have "Atoi (dev_PrefixLen6 d) = (int (dec_val (dev_PrefixLen6 d)), None)"
    using Atoi_digits [OF assms(5,4)] assms(6) by (simp add: MaxInt_def)
  ultimately show ?thesis
    using assms to4
    by (auto simp: IpCIDR6_def IPNet_String_def networkNumberAndMask_def simpleMaskLength_CIDRMask
        length_CIDRMask IP_String_def)
qed

theorem IpCIDR6_prints_witness:
  "IpCIDR6 (zero_NetDev\<lparr>dev_Ipaddr6 := 254 # 128 # replicate 13 0 @ [1], dev_PrefixLen6 := ''064''\<rparr>) =
   show_ip6 (254 # 128 # replicate 13 0 @ [1]) @ ''/64''"
proof -
  let ?d = "zero_NetDev\<lparr>dev_Ipaddr6 := 254 # 128 # replicate 13 0 @ [1], dev_PrefixLen6 := ''064''\<rparr>"
  have "IpCIDR6 ?d = show_ip6 (dev_Ipaddr6 ?d) @ ''/'' @ show_nat (dec_val (dev_PrefixLen6 ?d))"
    by (rule IpCIDR6_prints) code_simp+
  moreover have "show_nat (dec_val ''064'') = ''64''" by code_simp
  ultimately show ?thesis by simp
qed

end
