(* ===== verification/Node_Fields.thy ===== *)
theory Node_Fields
  imports Reflect Go_Net
begin

text \<open>
  \<open>node/fields.go\<close>: the flat list of dotted field names of a node or profile (\<open>listFields\<close>), the
  lookup of such a name (\<open>getNestedFieldValue\<close>), the text of a value (\<open>valueStr\<close>) and the map that
  records where a merged value came from (\<open>fieldMap\<close>). A lookup returns \<open>err + gval option\<close>: \<open>None\<close> is
  the invalid \<open>reflect.Value\<close>.
\<close>

section \<open>The record of sources\<close>

record Field =
  fl_Field :: string
  fl_Source :: string
  fl_Value :: string

definition Field_Set :: "Field \<Rightarrow> string \<Rightarrow> string \<Rightarrow> Field" where
  "Field_Set f src val =
     (if val = [] then f
      else f\<lparr>fl_Value := val,
             fl_Source := (if fl_Source f \<noteq> [] \<and> src = [] then ''SUPERSEDED'' else src)\<rparr>)"

type_synonym fieldMap = "(string \<times> Field) list"

definition fieldMap_Set :: "fieldMap \<Rightarrow> string \<Rightarrow> string \<Rightarrow> string \<Rightarrow> fieldMap" where
  "fieldMap_Set fm name source value =
     (let f = (case map_of fm name of None \<Rightarrow> \<lparr>fl_Field = name, fl_Source = [], fl_Value = []\<rparr> | Some f \<Rightarrow> f)
      in al_update name (Field_Set f source value) fm)"

definition fieldMap_Source :: "fieldMap \<Rightarrow> string \<Rightarrow> string" where
  "fieldMap_Source fm name = (case map_of fm name of Some f \<Rightarrow> fl_Source f | None \<Rightarrow> [])"

definition fieldMap_Value :: "fieldMap \<Rightarrow> string \<Rightarrow> string" where
  "fieldMap_Value fm name = (case map_of fm name of Some f \<Rightarrow> fl_Value f | None \<Rightarrow> [])"

section \<open>Field names\<close>

fun split_field_name :: "string \<Rightarrow> string \<Rightarrow> bool \<Rightarrow> string list" where
  "split_field_name [] current inBracket = (if current = [] then [] else [current])"
| "split_field_name (r # s) current inBracket =
     (if r = CHR ''['' then split_field_name s (current @ [r]) True
      else if r = CHR '']'' then split_field_name s (current @ [r]) False
      else if r = CHR ''.'' then
        (if inBracket then split_field_name s (current @ [r]) inBracket
         else current # split_field_name s [] inBracket)
      else split_field_name s (current @ [r]) inBracket)"

definition splitFieldName :: "string \<Rightarrow> string list" where
  "splitFieldName s = split_field_name s [] False"

text \<open>The regular expression matches a non-empty name, \<open>[\<close>, a non-empty key without \<open>]\<close>, and \<open>]\<close>.\<close>

definition parseMapField :: "string \<Rightarrow> string \<times> string" where
  "parseMapField name =
     (let pre = takeWhile (\<lambda>c. c \<noteq> CHR ''['') name;
          rest = drop (length pre) name;
          key = butlast (drop 1 rest)
      in if pre \<noteq> [] \<and> length rest \<ge> 3 \<and> last rest = CHR '']'' \<and> CHR '']'' \<notin> set key then (pre, key)
         else (name, []))"

definition getFieldDisplayName :: "sfield \<Rightarrow> string" where
  "getFieldDisplayName f = (if sf_name f \<noteq> [] then sf_name f else sf_Name f)"

text \<open>\<open>reflect.VisibleFields\<close>: an embedded struct is followed by its own fields.\<close>

fun visibleFields :: "(sfield \<times> gval) list \<Rightarrow> (sfield \<times> gval) list" where
  "visibleFields [] = []"
| "visibleFields ((f, GStruct gs) # fs) =
     (if sf_Anonymous f then (f, GStruct gs) # visibleFields gs @ visibleFields fs
      else (f, GStruct gs) # visibleFields fs)"
| "visibleFields ((f, v) # fs) = (f, v) # visibleFields fs"

fun find_display :: "(sfield \<times> gval) list \<Rightarrow> string \<Rightarrow> string" where
  "find_display [] displayName = displayName"
| "find_display ((f, v) # fs) displayName =
     (if \<not> sf_exported f \<or> sf_Anonymous f then find_display fs displayName
      else if getFieldDisplayName f = displayName then sf_Name f
      else find_display fs displayName)"

definition findActualFieldName :: "gval \<Rightarrow> string \<Rightarrow> string" where
  "findActualFieldName v displayName = (case v of
      GStruct fs \<Rightarrow> find_display (visibleFields fs) displayName
    | _ \<Rightarrow> displayName)"

text \<open>
  \<open>Value.FieldByName\<close>: the fields of the struct itself come before those of an embedded one; a name
  that is not there gives the invalid value.
\<close>

definition FieldByName :: "gval \<Rightarrow> string \<Rightarrow> err + gval option" where
  "FieldByName v name = (case v of
      GStruct fs \<Rightarrow> Inr (case map_of (map (\<lambda>(f, x). (sf_Name f, x)) fs) name of
          Some x \<Rightarrow> Some x
        | None \<Rightarrow> map_of (map (\<lambda>(f, x). (sf_Name f, x)) (visibleFields fs)) name)
    | _ \<Rightarrow> Inl ErrPanic)"

text \<open>\<open>Value.MapIndex\<close>; on a value that is no map it panics.\<close>

definition MapIndex :: "gval option \<Rightarrow> string \<Rightarrow> err + gval option" where
  "MapIndex v key = (case v of
      Some (GMapStr m) \<Rightarrow> Inr (map_option GStr (gm_get m key))
    | Some (GMapAny m) \<Rightarrow> Inr (map_option GAny (gm_get m key))
    | Some (GMapPtr t m) \<Rightarrow> Inr (map_option (\<lambda>x. GPtr t (Some x)) (gm_get m key))
    | _ \<Rightarrow> Inl ErrPanic)"

definition no_value :: "string \<Rightarrow> err" where
  "no_value name = ErrMsg (''no value: '' @ name)"

text \<open>One step of the loop: the pointer is followed before the field is read.\<close>

definition follow :: "string \<Rightarrow> gval option \<Rightarrow> err + gval" where
  "follow name value = (case value of
      None \<Rightarrow> Inl (no_value name)
    | Some (GPtr t p) \<Rightarrow> (case p of None \<Rightarrow> Inl (no_value name) | Some v \<Rightarrow> Inr v)
    | Some (GPtrBool p) \<Rightarrow> (case p of None \<Rightarrow> Inl (no_value name) | Some b \<Rightarrow> Inr (GBool b))
    | Some v \<Rightarrow> Inr v)"

fun nested_value :: "string \<Rightarrow> string list \<Rightarrow> gval option \<Rightarrow> err + gval option" where
  "nested_value name [] value = Inr value"
| "nested_value name (part # parts) value =
     (let (fieldName, key) = parseMapField part in
      case follow name value of
        Inl e \<Rightarrow> Inl e
      | Inr v \<Rightarrow>
          (case FieldByName v (findActualFieldName v fieldName) of
             Inl e \<Rightarrow> Inl e
           | Inr field \<Rightarrow>
               if key = [] then nested_value name parts field
               else (case MapIndex field key of
                   Inl e \<Rightarrow> Inl e
                 | Inr None \<Rightarrow> Inl (no_value name)
                 | Inr (Some x) \<Rightarrow> nested_value name parts (Some x))))"

definition getNestedFieldValue :: "gval \<Rightarrow> string \<Rightarrow> err + gval option" where
  "getNestedFieldValue obj name = nested_value name (splitFieldName name) (Some obj)"

text \<open>
  \<open>listReflectedFields\<close>: a nil pointer is walked by its type alone, in which every map is empty.
\<close>

fun listReflectedFields :: "string \<Rightarrow> (sfield \<times> gval) list \<Rightarrow> string list"
  and list_field :: "string \<Rightarrow> string \<Rightarrow> bool \<Rightarrow> gval \<Rightarrow> string list"
  and list_struct :: "string \<Rightarrow> gval \<Rightarrow> string list" where
  "listReflectedFields pre [] = []"
| "listReflectedFields pre ((f, v) # fs) =
     (if \<not> sf_exported f then [] else list_field pre (getFieldDisplayName f) (sf_Anonymous f) v)
     @ listReflectedFields pre fs"
| "list_field pre display anon (GStruct gs) =
     (if anon then listReflectedFields pre gs else listReflectedFields (pre @ display @ ''.'') gs)"
| "list_field pre display anon (GPtr t p) =
     (case p of
        None \<Rightarrow> list_struct (pre @ display @ ''.'') t
      | Some v \<Rightarrow> list_struct (pre @ display @ ''.'') v)"
| "list_field pre display anon (GMapStr m) = map (\<lambda>k. pre @ display @ ''['' @ k @ '']'') (sort (gm_keys m))"
| "list_field pre display anon (GMapAny m) = map (\<lambda>k. pre @ display @ ''['' @ k @ '']'') (sort (gm_keys m))"
| "list_field pre display anon (GMapPtr t m) =
     (case m of
        None \<Rightarrow> []
      | Some es \<Rightarrow> concat (map snd (sort_key fst
          (map (\<lambda>(k, v). (k, list_struct (pre @ display @ ''['' @ k @ ''].'') v)) es))))"
| "list_field pre display anon v = [pre @ display]"
| "list_struct pre (GStruct fs) = listReflectedFields pre fs"
| "list_struct pre v = []"

definition listFields :: "gval \<Rightarrow> string list" where
  "listFields obj = list_struct [] obj"

section \<open>The text of a value\<close>

text \<open>\<open>encoding/json\<close> for the values a resource can hold.\<close>

definition json_char :: "char \<Rightarrow> string" where
  "json_char c = (let n = (of_char c :: nat) in
     if c = CHR 0x22 then [CHR 0x5C, CHR 0x22]
     else if c = CHR 0x5C then [CHR 0x5C, CHR 0x5C]
     else if n = 8 then [CHR 0x5C] @ ''b''
     else if n = 12 then [CHR 0x5C] @ ''f''
     else if n = 10 then [CHR 0x5C] @ ''n''
     else if n = 13 then [CHR 0x5C] @ ''r''
     else if n = 9 then [CHR 0x5C] @ ''t''
     else if n < 32 \<or> c = CHR ''<'' \<or> c = CHR ''>'' \<or> c = CHR ''&'' then
       [CHR 0x5C] @ ''u00'' @ [hexDigit (n div 16), hexDigit (n mod 16)]
     else [c])"

definition json_string :: "string \<Rightarrow> string" where
  "json_string s = [CHR 0x22] @ concat (map json_char s) @ [CHR 0x22]"

fun json_resource :: "resource \<Rightarrow> string" where
  "json_resource RNil = ''null''"
| "json_resource (RStr s) = json_string s"
| "json_resource (RInt i) = Itoa i"
| "json_resource (RBool b) = FormatBool b"
| "json_resource (RList rs) = ''['' @ Join (map json_resource rs) '','' @ '']''"
| "json_resource (RMap kvs) =
     ''{'' @ Join (map snd (sort_key fst (map (\<lambda>(k, r). (k, json_string k @ '':'' @ json_resource r)) kvs))) '','' @ ''}''"

text \<open>
  \<open>valueStr\<close> on the kinds of value that a listed field can have. The text of a whole struct or map,
  which no listed field is, is left empty.
\<close>

fun valueStr :: "gval option \<Rightarrow> string" where
  "valueStr None = []"
| "valueStr (Some (GStr s)) = s"
| "valueStr (Some (GWWbool s)) = s"
| "valueStr (Some (GBool b)) = FormatBool b"
| "valueStr (Some (GPtrBool p)) = (case p of None \<Rightarrow> [] | Some b \<Rightarrow> FormatBool b)"
| "valueStr (Some (GIP i)) = (if i = [] then [] else IP_String i)"
| "valueStr (Some (GStrs ss)) = Join ss '',''"
| "valueStr (Some (GAny r)) = (if r = RNil then [] else json_resource r)"
| "valueStr (Some _) = []"

definition getNestedFieldString :: "gval \<Rightarrow> string \<Rightarrow> err + string" where
  "getNestedFieldString obj name = map_sum id valueStr (getNestedFieldValue obj name)"

definition fieldMap_List :: "fieldMap \<Rightarrow> gval \<Rightarrow> Field list" where
  "fieldMap_List fm obj = List.map_filter (map_of fm) (listFields obj)"

definition GetFieldList :: "gval \<Rightarrow> Field list" where
  "GetFieldList obj = List.map_filter
     (\<lambda>name. case getNestedFieldString obj name of
        Inr value \<Rightarrow> Some \<lparr>fl_Field = name, fl_Source = [], fl_Value = value\<rparr>
      | Inl _ \<Rightarrow> None) (listFields obj)"

end
