(* ===== verification/Node_Merge.thy ===== *)
theory Node_Merge
  imports Profile_Lists Node_Fields
begin

text \<open>
  \<open>MergeNode\<close> of \<open>node/mergo.go\<close> with the constructors of \<open>node/constructors.go\<close> it uses: the profiles
  of a node are merged in order into an empty node, the node's own values come last, and a
  \<open>fieldMap\<close> records the source of every value.

  The libraries \<open>mergo\<close> and \<open>deepcopy\<close> are not part of the repository; they are the fields of the
  record \<open>merge_lib\<close>, an argument of the definitions. \<open>mergo_Profile dest src\<close> and \<open>mergo_Node dest src\<close>
  stand for \<open>mergo.Merge\<close> with the options the code passes (\<open>WithAppendSlice\<close>, \<open>WithOverride\<close> and the
  \<open>Transformer\<close>). What the properties use of them is their documented behaviour, \<open>merge_lib_ok\<close>. An
  error of \<open>MergeNode\<close> carries no node: the callers drop the partly merged one.
\<close>

record merge_lib =
  mergo_Profile :: "Profile \<Rightarrow> Profile \<Rightarrow> err + Profile"
  mergo_Node :: "Node \<Rightarrow> Node \<Rightarrow> err + Node"
  deepcopy_Profile :: "Profile \<Rightarrow> Profile"

section \<open>Lookups\<close>

definition GetNodeOnly :: "NodesYaml \<Rightarrow> string \<Rightarrow> err + Node" where
  "GetNodeOnly config i = (case gm_get (Nodes config) i of Some found \<Rightarrow> Inr found | None \<Rightarrow> Inl ErrNotFound)"

definition GetNodeOnlyPtr :: "NodesYaml \<Rightarrow> string \<Rightarrow> err + Node" where
  "GetNodeOnlyPtr config i = (case gm_get (Nodes config) i of Some found \<Rightarrow> Inr found | None \<Rightarrow> Inl ErrNotFound)"

definition GetProfile :: "NodesYaml \<Rightarrow> string \<Rightarrow> err + Profile" where
  "GetProfile config i = (case gm_get (NodeProfiles config) i of
      Some found \<Rightarrow> Inr (found\<lparr>pf_id := i\<rparr>) | None \<Rightarrow> Inl ErrNotFound)"

definition GetProfilePtr :: "NodesYaml \<Rightarrow> string \<Rightarrow> err + Profile" where
  "GetProfilePtr config i = (case gm_get (NodeProfiles config) i of
      Some found \<Rightarrow> Inr (found\<lparr>pf_id := i\<rparr>) | None \<Rightarrow> Inl ErrNotFound)"

section \<open>Finishing a merged node\<close>

definition gm_map_key :: "(string \<Rightarrow> 'v \<Rightarrow> 'w) \<Rightarrow> 'v gomap \<Rightarrow> 'w gomap" where
  "gm_map_key f m = map_option (map (\<lambda>(k, v). (k, f k v))) m"

definition setIds :: "Node \<Rightarrow> string \<Rightarrow> Node" where
  "setIds node i = node\<lparr>nd_id := i, nd_Profile := (nd_Profile node)\<lparr>
     pf_Disks := gm_map_key (\<lambda>diskId disk. disk\<lparr>dk_id := diskId,
       dk_Partitions := gm_map_key (\<lambda>partitionId p. p\<lparr>pt_id := partitionId\<rparr>) (dk_Partitions disk)\<rparr>)
       (pf_Disks (nd_Profile node)),
     pf_FileSystems := gm_map_key (\<lambda>fsId fs. fs\<lparr>fs_id := fsId\<rparr>) (pf_FileSystems (nd_Profile node))\<rparr>\<rparr>"

definition set_primary :: "string \<Rightarrow> NetDev gomap \<Rightarrow> NetDev gomap" where
  "set_primary name m = gm_map_key (\<lambda>k d. if k = name then d\<lparr>dev_primary := True\<rparr> else d) m"

definition updatePrimaryNetDev :: "Profile \<Rightarrow> Profile" where
  "updatePrimaryNetDev p =
     (if gm_get (pf_NetDevs p) (pf_PrimaryNetDev p) \<noteq> None then
        p\<lparr>pf_NetDevs := set_primary (pf_PrimaryNetDev p) (pf_NetDevs p)\<rparr>
      else (case sort (gm_keys (pf_NetDevs p)) of
          [] \<Rightarrow> p
        | k # _ \<Rightarrow> p\<lparr>pf_NetDevs := set_primary k (pf_NetDevs p), pf_PrimaryNetDev := k\<rparr>))"

section \<open>Merging\<close>

text \<open>The loop of \<open>merge\<close> that records sources; \<open>src\<close> and \<open>dest\<close> are seen through \<open>reflect\<close>.\<close>

definition track_field :: "gval \<Rightarrow> gval \<Rightarrow> string \<Rightarrow> string \<Rightarrow> fieldMap \<Rightarrow> string \<Rightarrow> fieldMap" where
  "track_field src dest srcName multipleSrcName fm fieldName =
     (case getNestedFieldValue src fieldName of
        Inl _ \<Rightarrow> fm
      | Inr value \<Rightarrow>
          if valueStr value = [] then fm
          else
            let prevSource = fieldMap_Source fm fieldName;
                multi = (case value of
                    Some (GStrs _) \<Rightarrow> True
                  | Some (GAny (RList _)) \<Rightarrow> True
                  | _ \<Rightarrow> False);
                source = (if prevSource \<noteq> [] \<and> multi then Join [prevSource, multipleSrcName] '','' else srcName)
            in (case getNestedFieldString dest fieldName of
                  Inl _ \<Rightarrow> fm
                | Inr text \<Rightarrow> fieldMap_Set fm fieldName source text))"

definition track_fields :: "gval \<Rightarrow> gval \<Rightarrow> string \<Rightarrow> string \<Rightarrow> fieldMap \<Rightarrow> fieldMap" where
  "track_fields src dest srcName multipleSrcName fm =
     foldl (track_field src dest srcName multipleSrcName) fm (listFields src)"

definition merge_profile ::
  "merge_lib \<Rightarrow> Profile \<Rightarrow> Profile \<Rightarrow> fieldMap \<Rightarrow> string \<Rightarrow> string \<Rightarrow> err + Profile \<times> fieldMap" where
  "merge_profile lib dest src fm srcName multipleSrcName =
     (case mergo_Profile lib dest src of
        Inl e \<Rightarrow> Inl e
      | Inr dest' \<Rightarrow> Inr (dest', track_fields (Profile_val src) (Profile_val dest') srcName multipleSrcName fm))"

definition merge_node ::
  "merge_lib \<Rightarrow> Node \<Rightarrow> Node \<Rightarrow> fieldMap \<Rightarrow> string \<Rightarrow> string \<Rightarrow> err + Node \<times> fieldMap" where
  "merge_node lib dest src fm srcName multipleSrcName =
     (case mergo_Node lib dest src of
        Inl e \<Rightarrow> Inl e
      | Inr dest' \<Rightarrow> Inr (dest', track_fields (Node_val src) (Node_val dest') srcName multipleSrcName fm))"

text \<open>The loop over the profiles of the node; a profile that is not configured is skipped.\<close>

fun merge_profiles ::
  "merge_lib \<Rightarrow> NodesYaml \<Rightarrow> string list \<Rightarrow> Profile \<Rightarrow> fieldMap \<Rightarrow> err + Profile \<times> fieldMap" where
  "merge_profiles lib config [] dest fm = Inr (dest, fm)"
| "merge_profiles lib config (profileID # ids) dest fm =
     (case GetProfile config profileID of
        Inl _ \<Rightarrow> merge_profiles lib config ids dest fm
      | Inr profile \<Rightarrow>
          (case merge_profile lib dest (deepcopy_Profile lib profile) fm profileID profileID of
             Inl e \<Rightarrow> Inl e
           | Inr (dest', fm') \<Rightarrow> merge_profiles lib config ids dest' fm'))"

text \<open>\<open>fields.Set(name, "", value)\<close> followed by clearing the source, or the removal of the entry.\<close>

definition own_field :: "string \<Rightarrow> string \<Rightarrow> bool \<Rightarrow> fieldMap \<Rightarrow> fieldMap" where
  "own_field name value present fm =
     (if present then
        (let fm' = fieldMap_Set fm name [] value in
         map (\<lambda>(k, f). if k = name then (k, f\<lparr>fl_Source := []\<rparr>) else (k, f)) fm')
      else filter (\<lambda>(k, f). k \<noteq> name) fm)"

definition MergeNode :: "merge_lib \<Rightarrow> NodesYaml \<Rightarrow> string \<Rightarrow> err + Node \<times> fieldMap" where
  "MergeNode lib config i =
     (case GetNodeOnly config i of
        Inl e \<Rightarrow> Inl e
      | Inr originalNode \<Rightarrow>
          (case merge_profiles lib config (getNodeProfiles config i) zero_Profile [] of
             Inl e \<Rightarrow> Inl e
           | Inr (merged, fm) \<Rightarrow>
               (case merge_node lib (zero_Node\<lparr>nd_Profile := merged\<rparr>) originalNode fm [] i of
                  Inl e \<Rightarrow> Inl e
                | Inr (node, fm) \<Rightarrow>
                    let own = nd_Profile originalNode;
                        fm = own_field ''Profiles'' (Join (pf_Profiles own) '','') (pf_Profiles own \<noteq> []) fm;
                        fm = own_field ''Comment'' (pf_Comment own) (pf_Comment own \<noteq> []) fm;
                        node = node\<lparr>nd_Profile := (nd_Profile node)\<lparr>pf_Profiles := pf_Profiles own,
                                                                     pf_Comment := pf_Comment own\<rparr>\<rparr>;
                        node = (setIds node i)\<lparr>nd_valid := True\<rparr>;
                        node = node\<lparr>nd_Profile := cleanLists (updatePrimaryNetDev (nd_Profile node))\<rparr>
                    in Inr (node, fm))))"

definition GetNode :: "merge_lib \<Rightarrow> NodesYaml \<Rightarrow> string \<Rightarrow> err + Node" where
  "GetNode lib config i = map_sum id fst (MergeNode lib config i)"

section \<open>What the libraries promise\<close>

text \<open>The string fields and the string lists of a profile that merging handles in the same way.\<close>

definition scalar_fields :: "(Profile \<Rightarrow> string) list" where
  "scalar_fields = [pf_ClusterName, pf_ImageName, pf_Ipxe, pf_Init, pf_Root, pf_PrimaryNetDev]"

definition list_fields :: "(Profile \<Rightarrow> string list) list" where
  "list_fields = [pf_Groups, pf_RuntimeOverlay, pf_SystemOverlay]"

text \<open>
  \<open>WithOverride\<close>: an attribute of the source that is not empty replaces that of the destination;
  \<open>WithAppendSlice\<close>: slices are appended. Merging values of the same type does not fail.
\<close>

definition merges :: "Profile \<Rightarrow> Profile \<Rightarrow> Profile \<Rightarrow> bool" where
  "merges d s r \<longleftrightarrow>
     (\<forall>f\<in>set scalar_fields. f r = (if f s = [] then f d else f s)) \<and>
     (\<forall>f\<in>set list_fields. f r = f d @ f s)"

definition merge_lib_ok :: "merge_lib \<Rightarrow> bool" where
  "merge_lib_ok lib \<longleftrightarrow>
     (\<forall>d s. \<exists>r. mergo_Profile lib d s = Inr r \<and> merges d s r) \<and>
     (\<forall>d s. \<exists>r. mergo_Node lib d s = Inr r \<and> merges (nd_Profile d) (nd_Profile s) (nd_Profile r)) \<and>
     (\<forall>p. \<forall>f\<in>set scalar_fields. f (deepcopy_Profile lib p) = f p) \<and>
     (\<forall>p. \<forall>f\<in>set list_fields. f (deepcopy_Profile lib p) = f p)"

section \<open>The merged node\<close>

text \<open>The configured profiles of a node, in merge order, and the last value that is set in a list.\<close>

definition merged_from :: "NodesYaml \<Rightarrow> string \<Rightarrow> Profile list" where
  "merged_from config i = List.map_filter (gm_get (NodeProfiles config)) (getNodeProfiles config i)"

definition last_set :: "string list \<Rightarrow> string" where
  "last_set xs = foldl (\<lambda>d s. if s = [] then d else s) [] xs"

lemma last_set_snoc: "last_set (xs @ [x]) = (if x = [] then last_set xs else x)"
  by (simp add: last_set_def)

lemma id_irrelevant:
  "f \<in> set scalar_fields \<Longrightarrow> f (p\<lparr>pf_id := i\<rparr>) = f p" "g \<in> set list_fields \<Longrightarrow> g (p\<lparr>pf_id := i\<rparr>) = g p"
  by (auto simp: scalar_fields_def list_fields_def)

lemma merge_lib_ok_copy:
  "merge_lib_ok lib \<Longrightarrow> f \<in> set scalar_fields \<Longrightarrow> f (deepcopy_Profile lib (p\<lparr>pf_id := i\<rparr>)) = f p"
  "merge_lib_ok lib \<Longrightarrow> g \<in> set list_fields \<Longrightarrow> g (deepcopy_Profile lib (p\<lparr>pf_id := i\<rparr>)) = g p"
  using id_irrelevant unfolding merge_lib_ok_def by metis+

lemma mergesD:
  "merges d s r \<Longrightarrow> f \<in> set scalar_fields \<Longrightarrow> f r = (if f s = [] then f d else f s)"
  "merges d s r \<Longrightarrow> g \<in> set list_fields \<Longrightarrow> g r = g d @ g s"
  unfolding merges_def by blast+

lemma merge_lib_okD:
  assumes "merge_lib_ok lib"
  obtains r where "mergo_Profile lib d s = Inr r" "merges d s r"
  using assms unfolding merge_lib_ok_def by blast

lemma merge_lib_ok_nodeD:
  assumes "merge_lib_ok lib"
  obtains r where "mergo_Node lib d s = Inr r" "merges (nd_Profile d) (nd_Profile s) (nd_Profile r)"
  using assms unfolding merge_lib_ok_def by blast

lemma merge_profiles_ok:
  assumes "merge_lib_ok lib"
  shows "\<exists>r fm'. merge_profiles lib config ids d fm = Inr (r, fm') \<and>
    (\<forall>f\<in>set scalar_fields. f r = foldl (\<lambda>d s. if s = [] then d else s) (f d)
       (map f (List.map_filter (gm_get (NodeProfiles config)) ids))) \<and>
    (\<forall>f\<in>set list_fields. f r = f d @ concat (map f (List.map_filter (gm_get (NodeProfiles config)) ids)))"
proof (induction ids arbitrary: d fm)
  case Nil
  then show ?case by (simp add: map_filter_simps)
next
  case (Cons i ids)
  show ?case
  proof (cases "gm_get (NodeProfiles config) i")
    case None
    with Cons show ?thesis by (simp add: map_filter_simps GetProfile_def)
  next
    case (Some p)
    let ?p = "deepcopy_Profile lib (p\<lparr>pf_id := i\<rparr>)"
    obtain r where r: "mergo_Profile lib d ?p = Inr r" "merges d ?p r" by (rule merge_lib_okD [OF assms])
    have f: "f r = (if f p = [] then f d else f p)" if "f \<in> set scalar_fields" for f
      using mergesD(1) [OF r(2) that] merge_lib_ok_copy(1) [OF assms that] by simp
    have g: "g r = g d @ g p" if "g \<in> set list_fields" for g
      using mergesD(2) [OF r(2) that] merge_lib_ok_copy(2) [OF assms that] by simp
    from Cons.IH [of r "track_fields (Profile_val ?p) (Profile_val r) i i fm"] obtain r' fm' where
      "merge_profiles lib config (i # ids) d fm = Inr (r', fm')"
      "\<forall>f\<in>set scalar_fields. f r' = foldl (\<lambda>d s. if s = [] then d else s) (f r)
         (map f (List.map_filter (gm_get (NodeProfiles config)) ids))"
      "\<forall>f\<in>set list_fields. f r' = f r @ concat (map f (List.map_filter (gm_get (NodeProfiles config)) ids))"
      using Some r(1) by (auto simp: GetProfile_def merge_profile_def)
    then show ?thesis using Some f g by (auto simp: map_filter_simps)
  qed
qed

lemma finish_scalar:
  "f \<in> set scalar_fields \<Longrightarrow> f (nd_Profile (setIds n i)) = f (nd_Profile n)"
  "f \<in> set scalar_fields \<Longrightarrow> f (cleanLists p) = f p"
  "f \<in> set scalar_fields \<Longrightarrow> f (p\<lparr>pf_Profiles := ps, pf_Comment := c\<rparr>) = f p"
  by (auto simp: scalar_fields_def setIds_def cleanLists_def)

lemma finish_list:
  "g \<in> set list_fields \<Longrightarrow> g (nd_Profile (setIds n i)) = g (nd_Profile n)"
  "g \<in> set list_fields \<Longrightarrow> g (cleanLists p) = cleanList (g p)"
  "g \<in> set list_fields \<Longrightarrow> g (p\<lparr>pf_Profiles := ps, pf_Comment := c\<rparr>) = g p"
  "g \<in> set list_fields \<Longrightarrow> g (updatePrimaryNetDev p) = g p"
  by (auto simp: list_fields_def setIds_def cleanLists_def updatePrimaryNetDev_def split: list.splits)

lemma finish_own:
  "pf_Profiles (cleanLists p) = cleanList (pf_Profiles p)" "pf_Comment (cleanLists p) = pf_Comment p"
  "pf_Profiles (updatePrimaryNetDev p) = pf_Profiles p" "pf_Comment (updatePrimaryNetDev p) = pf_Comment p"
  "pf_Profiles (nd_Profile (setIds n i)) = pf_Profiles (nd_Profile n)"
  "pf_Comment (nd_Profile (setIds n i)) = pf_Comment (nd_Profile n)"
  "nd_id (setIds n i) = i"
  by (auto simp: cleanLists_def updatePrimaryNetDev_def setIds_def split: list.splits)

lemma primary_keeps_scalar:
  "f \<in> {pf_ClusterName, pf_ImageName, pf_Ipxe, pf_Init, pf_Root} \<Longrightarrow>
     f \<in> set scalar_fields \<and> f (updatePrimaryNetDev p) = f p"
  by (auto simp: scalar_fields_def updatePrimaryNetDev_def split: list.splits)

text \<open>What \<open>MergeNode\<close> makes of the node that the merges give.\<close>

lemma MergeNode_result:
  assumes "merge_lib_ok lib" "gm_get (Nodes config) i = Some n"
  obtains m node fm where "MergeNode lib config i = Inr (node, fm)"
    and "\<forall>f\<in>set scalar_fields. f m = last_set (map f (merged_from config i @ [nd_Profile n]))"
    and "\<forall>g\<in>set list_fields. g m = concat (map g (merged_from config i @ [nd_Profile n]))"
    and "nd_Profile node = cleanLists (updatePrimaryNetDev (nd_Profile (setIds (zero_Node\<lparr>nd_Profile :=
           m\<lparr>pf_Profiles := pf_Profiles (nd_Profile n), pf_Comment := pf_Comment (nd_Profile n)\<rparr>\<rparr>) i)))"
    and "nd_id node = i" "nd_valid node"
proof -
  obtain r fm where r: "merge_profiles lib config (getNodeProfiles config i) zero_Profile [] = Inr (r, fm)"
    and rs: "\<forall>f\<in>set scalar_fields. f r = foldl (\<lambda>d s. if s = [] then d else s) (f zero_Profile) (map f (merged_from config i))"
    and rl: "\<forall>g\<in>set list_fields. g r = g zero_Profile @ concat (map g (merged_from config i))"
    using merge_profiles_ok [OF assms(1), of config "getNodeProfiles config i" zero_Profile "[]"]
    unfolding merged_from_def by blast
  obtain q where q: "mergo_Node lib (zero_Node\<lparr>nd_Profile := r\<rparr>) n = Inr q"
    "merges (nd_Profile (zero_Node\<lparr>nd_Profile := r\<rparr>)) (nd_Profile n) (nd_Profile q)"
    by (rule merge_lib_ok_nodeD [OF assms(1)])
  then have m: "merges r (nd_Profile n) (nd_Profile q)" by simp
  have zero: "\<forall>f\<in>set scalar_fields. f zero_Profile = []" "\<forall>g\<in>set list_fields. g zero_Profile = []"
    by (auto simp: scalar_fields_def list_fields_def zero_Profile_def)
  show ?thesis
  proof (rule that [of _ _ "nd_Profile q"])
    show "\<forall>f\<in>set scalar_fields. f (nd_Profile q) = last_set (map f (merged_from config i @ [nd_Profile n]))"
    proof
      fix f assume f: "f \<in> set scalar_fields"
      show "f (nd_Profile q) = last_set (map f (merged_from config i @ [nd_Profile n]))"
        using mergesD(1) [OF m f] rs [rule_format, OF f] zero(1) [rule_format, OF f] by (simp add: last_set_def)
    qed
    show "\<forall>g\<in>set list_fields. g (nd_Profile q) = concat (map g (merged_from config i @ [nd_Profile n]))"
    proof
      fix g assume g: "g \<in> set list_fields"
      show "g (nd_Profile q) = concat (map g (merged_from config i @ [nd_Profile n]))"
        using mergesD(2) [OF m g] rl [rule_format, OF g] zero(2) [rule_format, OF g] by simp
    qed
    show "MergeNode lib config i = Inr ((setIds (q\<lparr>nd_Profile := (nd_Profile q)\<lparr>pf_Profiles := pf_Profiles (nd_Profile n),
         pf_Comment := pf_Comment (nd_Profile n)\<rparr>\<rparr>) i)\<lparr>nd_valid := True, nd_Profile := cleanLists (updatePrimaryNetDev
           (nd_Profile (setIds (q\<lparr>nd_Profile := (nd_Profile q)\<lparr>pf_Profiles := pf_Profiles (nd_Profile n),
              pf_Comment := pf_Comment (nd_Profile n)\<rparr>\<rparr>) i)))\<rparr>,
         own_field ''Comment'' (pf_Comment (nd_Profile n)) (pf_Comment (nd_Profile n) \<noteq> [])
           (own_field ''Profiles'' (Join (pf_Profiles (nd_Profile n)) '','') (pf_Profiles (nd_Profile n) \<noteq> [])
             (track_fields (Node_val n) (Node_val q) [] i fm)))"
      using assms(2) r q(1) by (simp add: MergeNode_def GetNodeOnly_def merge_node_def Let_def)
  qed (simp_all add: setIds_def)
qed


text \<open>A library that behaves as documented on the fields above.\<close>

definition sample_merge :: "Profile \<Rightarrow> Profile \<Rightarrow> Profile" where
  "sample_merge d s =
     (let pick = (\<lambda>f. if f s = [] then f d else f s) in
      d\<lparr>pf_Profiles := pf_Profiles d @ pf_Profiles s, pf_Groups := pf_Groups d @ pf_Groups s,
        pf_Comment := pick pf_Comment, pf_ClusterName := pick pf_ClusterName,
        pf_ImageName := pick pf_ImageName, pf_Ipxe := pick pf_Ipxe,
        pf_RuntimeOverlay := pf_RuntimeOverlay d @ pf_RuntimeOverlay s,
        pf_SystemOverlay := pf_SystemOverlay d @ pf_SystemOverlay s,
        pf_Init := pick pf_Init, pf_Root := pick pf_Root, pf_PrimaryNetDev := pick pf_PrimaryNetDev,
        pf_NetDevs := (case pf_NetDevs s of None \<Rightarrow> pf_NetDevs d
          | Some ds \<Rightarrow> (case put_all gm_put (make_if_nil (pf_NetDevs d)) ds of Inr m \<Rightarrow> m | Inl _ \<Rightarrow> pf_NetDevs d))\<rparr>)"

definition sample_lib :: merge_lib where
  "sample_lib = \<lparr>
     mergo_Profile = (\<lambda>d s. Inr (sample_merge d s)),
     mergo_Node = (\<lambda>d s. Inr (d\<lparr>
       nd_Discoverable := (if nd_Discoverable s = [] then nd_Discoverable d else nd_Discoverable s),
       nd_AssetKey := (if nd_AssetKey s = [] then nd_AssetKey d else nd_AssetKey s),
       nd_Profile := sample_merge (nd_Profile d) (nd_Profile s)\<rparr>)),
     deepcopy_Profile = (\<lambda>p. p\<lparr>pf_id := []\<rparr>)\<rparr>"

lemma sample_lib_ok: "merge_lib_ok sample_lib"
  by (simp add: merge_lib_ok_def merges_def sample_lib_def sample_merge_def scalar_fields_def list_fields_def)

definition sample_cluster :: NodesYaml where
  "sample_cluster = \<lparr>
     NodeProfiles = Some [
       (''default'', zero_Profile\<lparr>pf_ImageName := ''rocky'', pf_RuntimeOverlay := [''hosts'', ''motd''],
          pf_Groups := [''compute'']\<rparr>),
       (''gpu'', zero_Profile\<lparr>pf_Profiles := [''default''], pf_ImageName := ''rocky-gpu'', pf_Init := ''/sbin/init''\<rparr>)],
     Nodes = Some [
       (''n1'', zero_Node\<lparr>nd_Profile := zero_Profile\<lparr>pf_Profiles := [''gpu''],
          pf_RuntimeOverlay := [''~motd'', ''fstab''], pf_Comment := ''first''\<rparr>\<rparr>),
       (''n2'', zero_Node\<lparr>nd_Profile := zero_Profile\<lparr>pf_Groups := [''login''], pf_ImageName := ''alma''\<rparr>\<rparr>)]\<rparr>"


section \<open>The primary network device\<close>

lemma gm_get_map_key [gomap_simps]: "gm_get (gm_map_key f m) k = map_option (f k) (gm_get m k)"
proof -
  have "map_of (map (\<lambda>(k, v). (k, f k v)) kvs) k = map_option (f k) (map_of kvs k)" for kvs
    by (induction kvs) auto
  then show ?thesis by (cases m) (simp_all add: gm_get_def gm_entries_def gm_map_key_def)
qed

lemma gm_get_in_keys: "k \<in> set (gm_keys m) \<Longrightarrow> \<exists>v. gm_get m k = Some v"
  by (auto simp: gm_get_def gm_keys_def) (metis map_of_eq_None_iff not_None_eq fst_conv image_eqI)

lemma set_primary_marks:
  assumes "\<forall>k d. gm_get m k = Some d \<longrightarrow> \<not> dev_primary d" "gm_get (set_primary name m) k = Some d"
  shows "dev_primary d \<longleftrightarrow> k = name"
proof -
  from assms(2) obtain d0 where "gm_get m k = Some d0" "d = (if k = name then d0\<lparr>dev_primary := True\<rparr> else d0)"
    by (auto simp: set_primary_def gm_get_map_key)
  with assms(1) show ?thesis by simp
qed

text \<open>
  A node with at least one network device has exactly one primary device after
  \<open>updatePrimaryNetDev\<close> ran on devices none of which was marked before: the configured one if it
  exists, the first in alphabetical order otherwise, and \<open>PrimaryNetDev\<close> names it.
\<close>

theorem updatePrimaryNetDev_unique:
  assumes "gm_keys (pf_NetDevs p) \<noteq> []" "\<forall>k d. gm_get (pf_NetDevs p) k = Some d \<longrightarrow> \<not> dev_primary d"
  defines "q \<equiv> updatePrimaryNetDev p"
  shows "(\<forall>k d. gm_get (pf_NetDevs q) k = Some d \<longrightarrow> (dev_primary d \<longleftrightarrow> k = pf_PrimaryNetDev q)) \<and>
    pf_PrimaryNetDev q \<in> set (gm_keys (pf_NetDevs p)) \<and>
    (if pf_PrimaryNetDev p \<in> set (gm_keys (pf_NetDevs p)) then pf_PrimaryNetDev q = pf_PrimaryNetDev p
     else \<forall>k\<in>set (gm_keys (pf_NetDevs p)). pf_PrimaryNetDev q \<le> k)"
proof (cases "pf_PrimaryNetDev p \<in> set (gm_keys (pf_NetDevs p))")
  case True
  then have "gm_get (pf_NetDevs p) (pf_PrimaryNetDev p) \<noteq> None" using gm_get_in_keys by fastforce
  then have q: "pf_NetDevs q = set_primary (pf_PrimaryNetDev p) (pf_NetDevs p)" "pf_PrimaryNetDev q = pf_PrimaryNetDev p"
    by (simp_all add: q_def updatePrimaryNetDev_def)
  show ?thesis unfolding q using set_primary_marks [OF assms(2)] True by (simp only: if_True) blast
next
  case False
  then have none: "gm_get (pf_NetDevs p) (pf_PrimaryNetDev p) = None" using gm_get_key by fastforce
  obtain k ks where ks: "sort (gm_keys (pf_NetDevs p)) = k # ks"
    using assms(1) by (metis length_0_conv length_sort list.exhaust)
  then have srt: "sorted (k # ks)" "set (k # ks) = set (gm_keys (pf_NetDevs p))" by (metis sorted_sort, metis set_sort)
  then have min: "k \<in> set (gm_keys (pf_NetDevs p))" "\<forall>j\<in>set (gm_keys (pf_NetDevs p)). k \<le> j"
    by (metis list.set_intros(1)) (use srt in force)
  have q: "pf_NetDevs q = set_primary k (pf_NetDevs p)" "pf_PrimaryNetDev q = k"
    using none ks by (simp_all add: q_def updatePrimaryNetDev_def)
  show ?thesis unfolding q using set_primary_marks [OF assms(2)] False min by (simp only: if_False) blast
qed

theorem updatePrimaryNetDev_unique_witness:
  "pf_PrimaryNetDev (updatePrimaryNetDev (zero_Profile\<lparr>pf_NetDevs :=
     Some [(''ib0'', zero_NetDev), (''eth1'', zero_NetDev)], pf_PrimaryNetDev := ''gone''\<rparr>)) \<le> ''eth1''"
proof -
  let ?p = "zero_Profile\<lparr>pf_NetDevs := Some [(''ib0'', zero_NetDev), (''eth1'', zero_NetDev)], pf_PrimaryNetDev := ''gone''\<rparr>"
  have keys: "gm_keys (pf_NetDevs ?p) = [''ib0'', ''eth1'']" by code_simp
  have prim: "pf_PrimaryNetDev ?p = ''gone''" by simp
  have marks: "\<forall>k d. gm_get (pf_NetDevs ?p) k = Some d \<longrightarrow> \<not> dev_primary d"
    by (simp add: gm_get_def gm_entries_def zero_NetDev_def)
  have "gm_keys (pf_NetDevs ?p) \<noteq> []" unfolding keys by simp
  from updatePrimaryNetDev_unique [OF this marks] show ?thesis unfolding keys prim by simp
qed

end
