(* ===== verification/Node_Flatten.thy ===== *)
theory Node_Flatten
  imports Reflect
begin

text \<open>
  \<open>recursiveFlatten\<close> of \<open>node/methods.go\<close>, which prepares nodes and profiles for being written: fields
  set to an unset verb are emptied and structs without content are dropped. The function mutates its
  argument and reports whether it has content, so the model returns both.
\<close>

definition node_unsetValues :: "string list" where
  "node_unsetValues = [''UNSET'', ''UNDEF'']"

definition node_isUnsetValue :: "string \<Rightarrow> bool" where
  "node_isUnsetValue value = (value \<in> set node_unsetValues)"

text \<open>
  \<open>flatten_fields\<close> is the loop over the fields of a struct with \<open>hasContent\<close> as its first argument,
  \<open>flatten_field\<close> the switch on the kind of a field, and \<open>flatten_entries\<close> the loop over a map of
  pointers. A \<open>net.IP\<close> is of the kind slice, so its case is the one for slices.
\<close>

fun flatten_fields :: "bool \<Rightarrow> (sfield \<times> gval) list \<Rightarrow> bool \<times> (sfield \<times> gval) list"
  and flatten_field :: "bool \<Rightarrow> gval \<Rightarrow> bool \<times> gval"
  and flatten_entries :: "bool \<Rightarrow> (string \<times> gval) list \<Rightarrow> bool \<times> (string \<times> gval) list"
  and recursiveFlatten :: "gval \<Rightarrow> bool \<times> gval" where
  "flatten_fields hasContent [] = (hasContent, [])"
| "flatten_fields hasContent ((f, v) # fs) =
     (if \<not> sf_exported f then
        (let (h, fs') = flatten_fields hasContent fs in (h, (f, v) # fs'))
      else
        (let (h1, v1) = flatten_field hasContent v;
             (h, fs') = flatten_fields h1 fs
         in (h, (f, if h1 then v1 else gzero v1) # fs')))"
| "flatten_field hasContent (GMapPtr t m) =
     (case m of
        None \<Rightarrow> (hasContent, GMapPtr t None)
      | Some es \<Rightarrow> (let (h, es') = flatten_entries hasContent es in (h, GMapPtr t (Some es'))))"
| "flatten_field hasContent (GMapStr m) =
     (hasContent \<or> (\<exists>(k, s)\<in>set (gm_entries m). s \<noteq> []), GMapStr m)"
| "flatten_field hasContent (GMapAny m) =
     (hasContent \<or> (\<exists>(k, r)\<in>set (gm_entries m). r \<noteq> RNil), GMapAny m)"
| "flatten_field hasContent (GPtrBool p) = (p \<noteq> None \<or> hasContent, GPtrBool p)"
| "flatten_field hasContent (GPtr t p) =
     (case p of
        None \<Rightarrow> (hasContent, GPtr t None)
      | Some v \<Rightarrow> (let (ret, v') = recursiveFlatten v in (ret \<or> hasContent, GPtr t (if ret then Some v' else None))))"
| "flatten_field hasContent (GStruct fs) =
     (let (ret, fs') = flatten_fields False fs in (ret \<or> hasContent, GStruct fs'))"
| "flatten_field hasContent (GStrs ss) =
     (let ss' = (if list_ex node_isUnsetValue ss then [] else ss) in (ss' \<noteq> [] \<or> hasContent, GStrs ss'))"
| "flatten_field hasContent (GIP i) = (i \<noteq> [] \<or> hasContent, GIP i)"
| "flatten_field hasContent (GStr s) =
     (let s' = (if node_isUnsetValue s then [] else s) in (s' \<noteq> [] \<or> hasContent, GStr s'))"
| "flatten_field hasContent (GWWbool s) =
     (let s' = (if node_isUnsetValue s then [] else s) in (s' \<noteq> [] \<or> hasContent, GWWbool s'))"
| "flatten_field hasContent (GBool b) = (hasContent \<or> b, GBool b)"
| "flatten_field hasContent (GAny r) = (hasContent, GAny r)"
| "flatten_entries hasContent [] = (hasContent, [])"
| "flatten_entries hasContent ((k, v) # es) =
     (let (ret, v') = recursiveFlatten v;
          (h, es') = flatten_entries (ret \<or> hasContent) es
      in (h, (k, v') # es'))"
| "recursiveFlatten (GStruct fs) = (let (h, fs') = flatten_fields False fs in (h, GStruct fs'))"
| "recursiveFlatten v = (False, v)"

definition Profile_Flatten :: "Profile \<Rightarrow> Profile" where
  "Profile_Flatten info = val_Profile (snd (recursiveFlatten (Profile_val info)))"

definition Node_Flatten :: "Node \<Rightarrow> Node" where
  "Node_Flatten info = val_Node (snd (recursiveFlatten (Node_val info)))"

section \<open>The set values of a struct\<close>

text \<open>
  The specification: every exported field that carries a value, with the path to it. Empty strings
  and lists, unset verbs, nil pointers and nil resources are no values.
\<close>

fun contents :: "gval \<Rightarrow> (string list \<times> gval) list"
  and field_contents :: "(sfield \<times> gval) list \<Rightarrow> (string list \<times> gval) list"
  and entry_contents :: "(string \<times> gval) list \<Rightarrow> (string list \<times> gval) list"
  and struct_contents :: "gval \<Rightarrow> (string list \<times> gval) list" where
  "contents (GStr s) = (if s = [] \<or> node_isUnsetValue s then [] else [([], GStr s)])"
| "contents (GWWbool s) = (if s = [] \<or> node_isUnsetValue s then [] else [([], GWWbool s)])"
| "contents (GBool b) = (if b then [([], GBool b)] else [])"
| "contents (GIP i) = (if i = [] then [] else [([], GIP i)])"
| "contents (GStrs ss) = (if ss = [] \<or> list_ex node_isUnsetValue ss then [] else [([], GStrs ss)])"
| "contents (GPtrBool p) = (if p = None then [] else [([], GPtrBool p)])"
| "contents (GAny r) = []"
| "contents (GPtr t p) = (case p of None \<Rightarrow> [] | Some v \<Rightarrow> struct_contents v)"
| "contents (GMapStr m) = map (\<lambda>(k, s). ([k], GStr s)) (filter (\<lambda>(k, s). s \<noteq> []) (gm_entries m))"
| "contents (GMapAny m) = map (\<lambda>(k, r). ([k], GAny r)) (filter (\<lambda>(k, r). r \<noteq> RNil) (gm_entries m))"
| "contents (GMapPtr t m) = (case m of None \<Rightarrow> [] | Some es \<Rightarrow> entry_contents es)"
| "contents (GStruct fs) = field_contents fs"
| "field_contents [] = []"
| "field_contents ((f, v) # fs) =
     (if sf_exported f then map (\<lambda>(p, x). (sf_Name f # p, x)) (contents v) else []) @ field_contents fs"
| "entry_contents [] = []"
| "entry_contents ((k, v) # es) =
     map (\<lambda>(p, x). (k # p, x)) (struct_contents v) @ entry_contents es"
| "struct_contents (GStruct fs) = field_contents fs"
| "struct_contents _ = []"

lemma not_unset_empty [simp]: "\<not> node_isUnsetValue []"
  by (simp add: node_isUnsetValue_def node_unsetValues_def)

lemma field_contents_zero:
  "\<forall>(f, v)\<in>set fs. contents (gzero v) = [] \<Longrightarrow> field_contents (map (\<lambda>(f, v). (f, gzero v)) fs) = []"
  by (induction fs) auto

lemma contents_gzero [simp]: "contents (gzero v) = []"
  by (induction v rule: gzero.induct) (auto simp: gm_nil_def gm_entries_def intro!: field_contents_zero)

lemma gzero_gzero [simp]: "gzero (gzero v) = gzero v"
  by (induction v rule: gzero.induct) auto

lemma flatten_contents:
  "flatten_fields h fs = (h', fs') \<Longrightarrow> field_contents fs' = field_contents fs \<and> (h' \<longleftrightarrow> h \<or> field_contents fs \<noteq> [])"
  "flatten_field h v = (h', v') \<Longrightarrow> contents v' = contents v \<and> (h' \<longleftrightarrow> h \<or> contents v \<noteq> [])"
  "flatten_entries h es = (h', es') \<Longrightarrow> entry_contents es' = entry_contents es \<and> (h' \<longleftrightarrow> h \<or> entry_contents es \<noteq> [])"
  "recursiveFlatten v = (h', v') \<Longrightarrow> struct_contents v' = struct_contents v \<and> (h' \<longleftrightarrow> struct_contents v \<noteq> [])"
proof (induction h fs and h v and h es and v arbitrary: h' fs' and h' v' and h' es' and h' v'
    rule: flatten_fields_flatten_field_flatten_entries_recursiveFlatten.induct)
  case (2 h f v fs)
  show ?case
  proof (cases "sf_exported f")
    case True
    obtain h1 v1 where field: "flatten_field h v = (h1, v1)" by fastforce
    obtain fs1 where rest: "flatten_fields h1 fs = (h', fs1)" and fs': "fs' = (f, if h1 then v1 else gzero v1) # fs1"
      using 2(4) True field by (auto split: prod.splits)
    have "contents (if h1 then v1 else gzero v1) = contents v" "h1 \<longleftrightarrow> h \<or> contents v \<noteq> []"
      using 2(2) [OF _ field] True by auto
    moreover have "field_contents fs1 = field_contents fs" "h' \<longleftrightarrow> h1 \<or> field_contents fs \<noteq> []"
      using 2(3) [OF _ field [symmetric] _ rest] True by auto
    ultimately show ?thesis using True by (auto simp: fs')
  next
    case False
    with 2(1,4) show ?thesis by (auto split: prod.splits)
  qed
next
  case (7 h t p)
  then show ?case by (cases p) (fastforce split: prod.splits if_splits)+
qed (auto simp: gm_entries_def filter_empty_conv Let_def split: prod.splits option.splits if_splits)

lemma flatten_field_gzero: "flatten_field False (gzero v) = (False, gzero v)"
proof (induction v rule: gzero.induct)
  case (12 fs)
  have "\<forall>(f, v)\<in>set fs. flatten_field False (gzero v) = (False, gzero v) \<Longrightarrow>
     flatten_fields False (map (\<lambda>(f, v). (f, gzero v)) fs) = (False, map (\<lambda>(f, v). (f, gzero v)) fs)"
    by (induction fs) auto
  moreover have "\<forall>(f, v)\<in>set fs. flatten_field False (gzero v) = (False, gzero v)" using 12 by auto
  ultimately show ?case by simp
qed (auto simp: gm_nil_def gm_entries_def)

lemma flatten_idem:
  "flatten_fields h fs = (h', fs') \<Longrightarrow> flatten_fields h fs' = (h', fs')"
  "flatten_field h v = (h', v') \<Longrightarrow> flatten_field h v' = (h', v')"
  "flatten_entries h es = (h', es') \<Longrightarrow> flatten_entries h es' = (h', es')"
  "recursiveFlatten v = (h', v') \<Longrightarrow> recursiveFlatten v' = (h', v')"
proof (induction h fs and h v and h es and v arbitrary: h' fs' and h' v' and h' es' and h' v'
    rule: flatten_fields_flatten_field_flatten_entries_recursiveFlatten.induct)
  case (2 h f v fs)
  show ?case
  proof (cases "sf_exported f")
    case True
    obtain h1 v1 where field: "flatten_field h v = (h1, v1)" by fastforce
    obtain fs1 where rest: "flatten_fields h1 fs = (h', fs1)" and fs': "fs' = (f, if h1 then v1 else gzero v1) # fs1"
      using 2(4) True field by (auto split: prod.splits)
    have "flatten_field h v1 = (h1, v1)" using 2(2) [OF _ field] True by auto
    moreover have "\<not> h1 \<Longrightarrow> \<not> h" using flatten_contents(2) [OF field] by auto
    ultimately have "flatten_field h (if h1 then v1 else gzero v1) = (h1, if h1 then v1 else gzero v1)"
      by (auto simp: flatten_field_gzero)
    moreover have "flatten_fields h1 fs1 = (h', fs1)" using 2(3) [OF _ field [symmetric] _ rest] True by simp
    ultimately show ?thesis using True by (cases h1) (simp_all add: fs')
  next
    case False
    then obtain fs1 where rest: "flatten_fields h fs = (h', fs1)" and fs': "fs' = (f, v) # fs1"
      using 2(4) by (auto split: prod.splits)
    have "flatten_fields h fs1 = (h', fs1)" using 2(1) [OF _ rest] False by simp
    with False show ?thesis by (simp add: fs')
  qed
next
  case (3 h t m)
  show ?case
  proof (cases m)
    case (Some es)
    obtain es' where "flatten_entries h es = (h', es')" "v' = GMapPtr t (Some es')"
      using 3(2) Some by (auto split: prod.splits)
    with 3(1) [OF Some this(1)] show ?thesis by simp
  qed (use 3(2) in auto)
next
  case (7 h t p)
  show ?case
  proof (cases p)
    case (Some w)
    obtain r w' where w: "recursiveFlatten w = (r, w')" by fastforce
    with 7(1) [OF Some w] 7(2) Some show ?thesis by (cases r) auto
  qed (use 7(2) in auto)
next
  case (8 h fs)
  obtain r fs' where fs: "flatten_fields False fs = (r, fs')" by fastforce
  with 8(1) [OF fs] 8(2) show ?case by auto
next
  case (16 h k v es)
  obtain r v1 where v: "recursiveFlatten v = (r, v1)" by fastforce
  obtain es1 where es: "flatten_entries (r \<or> h) es = (h', es1)" and es': "es' = (k, v1) # es1"
    using 16(3) v by (auto split: prod.splits)
  from 16(1) [OF v] 16(2) [OF v [symmetric] _ es] show ?case by (simp add: es')
next
  case (17 fs)
  obtain fs' where fs: "flatten_fields False fs = (h', fs')" "v' = GStruct fs'"
    using 17(2) by (auto split: prod.splits)
  with 17(1) [OF fs(1)] show ?case by simp
qed (simp_all add: Let_def split: if_splits)

section \<open>Flattening nodes and profiles\<close>

lemma same_type_gzero: "same_type z v \<Longrightarrow> same_type z (gzero v)"
proof (induction z arbitrary: v)
  case (GStruct fs)
  then obtain gs where v: "v = GStruct gs" and gs: "list_all2 (\<lambda>(f, x) (g, y). f = g \<and> same_type x y) fs gs" by auto
  have "list_all2 (\<lambda>(f, x) (g, y). f = g \<and> same_type x y) fs (map (\<lambda>(f, v). (f, gzero v)) gs)"
    unfolding list_all2_map2 by (rule list.rel_mono_strong [OF gs]) (use GStruct.IH in fastforce)
  with v show ?case by simp
qed (auto simp: gm_nil_def)

lemma flatten_same_type:
  "list_all2 (\<lambda>(f, x) (g, y). f = g \<and> same_type x y) zs fs \<Longrightarrow>
     list_all2 (\<lambda>(f, x) (g, y). f = g \<and> same_type x y) zs (snd (flatten_fields h fs))"
  "same_type z v \<Longrightarrow> same_type z (snd (flatten_field h v))"
  "\<forall>(k, w)\<in>set es. same_type z w \<Longrightarrow> \<forall>(k, w)\<in>set (snd (flatten_entries h es)). same_type z w"
  "same_type z v \<Longrightarrow> same_type z (snd (recursiveFlatten v))"
proof (induction h fs and h v and h es and v arbitrary: zs and z and z and z
    rule: flatten_fields_flatten_field_flatten_entries_recursiveFlatten.induct)
  case (2 h f v fs)
  obtain x zs' where zs: "zs = (f, x) # zs'" "same_type x v"
    "list_all2 (\<lambda>(f, x) (g, y). f = g \<and> same_type x y) zs' fs"
    using 2(4) by (auto simp: list_all2_Cons2)
  show ?case
  proof (cases "sf_exported f")
    case True
    obtain h1 v1 where field: "flatten_field h v = (h1, v1)" by fastforce
    have "same_type x v1" using 2(2) [of x] True zs field by simp
    moreover have "list_all2 (\<lambda>(f, x) (g, y). f = g \<and> same_type x y) zs' (snd (flatten_fields h1 fs))"
      using 2(3) [OF _ field [symmetric] _ zs(3)] True by simp
    ultimately show ?thesis
      using True field by (cases h1; cases "flatten_fields h1 fs") (simp_all add: zs same_type_gzero)
  next
    case False
    with 2(1) [OF _ zs(3)] zs(2) show ?thesis by (cases "flatten_fields h fs") (simp add: zs)
  qed
next
  case (3 h t m)
  then show ?case by (cases z; cases m) (auto simp: split_beta)
next
  case (7 h t p)
  then show ?case by (cases z; cases p) (auto simp: split_beta)
next
  case (8 h fs)
  then show ?case by (cases z; cases "flatten_fields False fs") auto
next
  case (16 h k v es)
  obtain r v1 where v: "recursiveFlatten v = (r, v1)" by fastforce
  have "same_type z v1" using 16(1) [of z] 16(3) v by simp
  moreover have "\<forall>(k, w)\<in>set (snd (flatten_entries (r \<or> h) es)). same_type z w"
    using 16(2) [OF v [symmetric] refl] 16(3) by simp
  ultimately show ?case by (simp add: v split_beta)
next
  case (17 fs)
  then show ?case by (cases z; cases "flatten_fields False fs") auto
next
  case (9 h ss)
  then show ?case by (cases z) (auto simp: Let_def)
next
  case (11 h s)
  then show ?case by (cases z) (auto simp: Let_def)
next
  case (12 h s)
  then show ?case by (cases z) (auto simp: Let_def)
qed simp_all

lemma same_type_val:
  "same_type (IpmiConf_val z1) (IpmiConf_val i)" "same_type (KernelConf_val z2) (KernelConf_val k)"
  "same_type (NetDev_val z3) (NetDev_val d)" "same_type (Partition_val z4) (Partition_val pt)"
  "same_type (FileSystem_val z5) (FileSystem_val f)"
  by (simp_all add: IpmiConf_val_def KernelConf_val_def NetDev_val_def Partition_val_def FileSystem_val_def)

lemma gm_map_SomeD: "gm_map f m = Some es \<Longrightarrow> (k, w) \<in> set es \<Longrightarrow> \<exists>x. w = f x"
  by (cases m) (auto simp: gm_map_def)

lemma same_type_Disk_val: "same_type (Disk_val z) (Disk_val d)"
  by (auto simp: Disk_val_def dest!: gm_map_SomeD intro: same_type_val)

lemma same_type_Profile_val: "same_type (Profile_val z) (Profile_val p)"
  by (auto simp: Profile_val_def dest!: gm_map_SomeD intro: same_type_val same_type_Disk_val)

lemma same_type_Node_val: "same_type (Node_val z) (Node_val n)"
  by (simp add: Node_val_def same_type_Profile_val)

lemma Profile_val_Flatten: "Profile_val (Profile_Flatten p) = snd (recursiveFlatten (Profile_val p))"
  unfolding Profile_Flatten_def
  by (rule same_type_Profile [OF flatten_same_type(4) [OF same_type_Profile_val]])

lemma Node_val_Flatten: "Node_val (Node_Flatten n) = snd (recursiveFlatten (Node_val n))"
  unfolding Node_Flatten_def
  by (rule same_type_Node [OF flatten_same_type(4) [OF same_type_Node_val]])

lemma Profile_val_struct: "\<exists>fs. Profile_val p = GStruct fs"
  by (simp add: Profile_val_def)

lemma Node_val_struct: "\<exists>fs. Node_val n = GStruct fs"
  by (simp add: Node_val_def)

lemma struct_flatten:
  assumes "v = GStruct fs" "recursiveFlatten v = (h, v')"
  shows "contents v' = contents v \<and> h = (contents v \<noteq> []) \<and> recursiveFlatten v' = (h, v')"
  using flatten_contents(4) [OF assms(2)] flatten_idem(4) [OF assms(2)] assms by (auto split: prod.splits)

lemma Node_Flatten_idem: "Node_Flatten (Node_Flatten n) = Node_Flatten n"
proof -
  have "Node_val (Node_Flatten (Node_Flatten n)) = Node_val (Node_Flatten n)"
    by (cases "recursiveFlatten (Node_val n)") (simp add: Node_val_Flatten flatten_idem)
  then show ?thesis by (metis val_Node_val)
qed

lemma Profile_Flatten_idem: "Profile_Flatten (Profile_Flatten n) = Profile_Flatten n"
proof -
  have "Profile_val (Profile_Flatten (Profile_Flatten n)) = Profile_val (Profile_Flatten n)"
    by (cases "recursiveFlatten (Profile_val n)") (simp add: Profile_val_Flatten flatten_idem)
  then show ?thesis by (metis val_Profile_val)
qed


end
