(* ===== verification/Go_Gob.thy ===== *)
theory Go_Gob
  imports Reflect
begin

text \<open>
  \<open>encoding/gob\<close> as \<open>SetNode\<close> and \<open>SetProfile\<close> of \<open>node/modifiers.go\<close> use it: a struct is encoded and
  decoded into an existing one of the same type. The encoder sends no field that holds its zero value
  (so neither a pointer to \<open>false\<close>), and the decoder leaves a field that was not sent as it is. A map
  is sent unless it is nil and its entries are added to those of the destination; a pointer to a
  struct is decoded into the struct that is there. Unexported fields are not touched.
\<close>

fun gob_decode :: "gval \<Rightarrow> gval \<Rightarrow> gval"
  and gob_fields :: "(sfield \<times> gval) list \<Rightarrow> (sfield \<times> gval) list \<Rightarrow> (sfield \<times> gval) list" where
  "gob_decode d (GStr s) = (if s = [] then d else GStr s)"
| "gob_decode d (GWWbool s) = (if s = [] then d else GWWbool s)"
| "gob_decode d (GBool b) = (if b then GBool b else d)"
| "gob_decode d (GIP i) = (if i = [] then d else GIP i)"
| "gob_decode d (GStrs ss) = (if ss = [] then d else GStrs ss)"
| "gob_decode d (GPtrBool p) = (if p = Some True then GPtrBool p else d)"
| "gob_decode d (GAny r) = (if r = RNil then d else GAny r)"
| "gob_decode d (GPtr t p) = (case p of
      None \<Rightarrow> d
    | Some s \<Rightarrow> GPtr t (Some (gob_decode (case d of GPtr _ (Some x) \<Rightarrow> x | _ \<Rightarrow> t) s)))"
| "gob_decode d (GMapStr m) = (case m of
      None \<Rightarrow> d
    | Some es \<Rightarrow> GMapStr (Some (foldl (\<lambda>m (k, v). al_update k v m) (case d of GMapStr (Some m') \<Rightarrow> m' | _ \<Rightarrow> []) es)))"
| "gob_decode d (GMapAny m) = (case m of
      None \<Rightarrow> d
    | Some es \<Rightarrow> GMapAny (Some (foldl (\<lambda>m (k, v). al_update k v m) (case d of GMapAny (Some m') \<Rightarrow> m' | _ \<Rightarrow> []) es)))"
| "gob_decode d (GMapPtr t m) = (case m of
      None \<Rightarrow> d
    | Some es \<Rightarrow> GMapPtr t (Some (foldl (\<lambda>m (k, v). al_update k v m) (case d of GMapPtr _ (Some m') \<Rightarrow> m' | _ \<Rightarrow> [])
        (map (\<lambda>(k, v). (k, gob_decode t v)) es))))"
| "gob_decode d (GStruct ss) = (case d of GStruct ds \<Rightarrow> GStruct (gob_fields ds ss) | _ \<Rightarrow> d)"
| "gob_fields ((f, d) # ds) ((g, s) # ss) =
     (if sf_exported f then (f, gob_decode d s) else (f, d)) # gob_fields ds ss"
| "gob_fields ds _ = ds"

section \<open>What a field holds afterwards\<close>

lemma gob_fields_Nil [simp]: "gob_fields [] ss = []"
  by (cases ss) auto

lemma foldl_al_update_get:
  "map_of (foldl (\<lambda>m (k, v). al_update k v m) m es) k = (case map_of (rev es) k of Some v \<Rightarrow> Some v | None \<Rightarrow> map_of m k)"
  by (induction es arbitrary: m) (auto simp: map_of_al_update map_add_def split: option.splits)

end
