(* ===== verification/Node_Registry.thy ===== *)
theory Node_Registry
  imports Node_Merge Node_Flatten Go_Gob Hostlist "HOL-Library.Product_Lexorder"
begin

text \<open>
  The operations on the node registry \<open>NodesYaml\<close>: adding, deleting and setting nodes and profiles
  (\<open>node/modifiers.go\<close>), queries (\<open>node/queries.go\<close>), groups (\<open>node/groups.go\<close>), searches
  (\<open>node/constructors.go\<close>, \<open>node/util.go\<close>), name filters (\<open>node/methods.go\<close>) and tag changes
  (\<open>node/tags.go\<close>). An operation that mutates the registry returns the new one. \<open>MergeNode\<close> is
  reached through its library argument \<open>lib\<close>.
\<close>

section \<open>Modifiers\<close>

definition AddNode :: "NodesYaml \<Rightarrow> string \<Rightarrow> err + NodesYaml \<times> Node" where
  "AddNode config nodeID =
     (let newNode = NewNode nodeID in
      if gm_get (Nodes config) nodeID \<noteq> None then Inl (ErrMsg (''nodename already exists: '' @ nodeID))
      else (case gm_put (Nodes config) nodeID newNode of
          Inl e \<Rightarrow> Inl e
        | Inr m \<Rightarrow> Inr (config\<lparr>Nodes := m\<rparr>, newNode)))"

definition DelNode :: "NodesYaml \<Rightarrow> string \<Rightarrow> err + NodesYaml" where
  "DelNode config nodeID =
     (if gm_get (Nodes config) nodeID = None then Inl (ErrMsg (''nodename does not exist: '' @ nodeID))
      else Inr (config\<lparr>Nodes := gm_delete (Nodes config) nodeID\<rparr>))"

text \<open>The pointer in the map is decoded into, so the entry changes in place.\<close>

definition SetNode :: "NodesYaml \<Rightarrow> string \<Rightarrow> Node \<Rightarrow> err + NodesYaml" where
  "SetNode config nodeID vals = (case gm_get (Nodes config) nodeID of
      None \<Rightarrow> Inl ErrNotFound
    | Some node \<Rightarrow>
        (case gm_put (Nodes config) nodeID (val_Node (gob_decode (Node_val node) (Node_val vals))) of
           Inl e \<Rightarrow> Inl e
         | Inr m \<Rightarrow> Inr (config\<lparr>Nodes := m\<rparr>)))"

definition SetProfile :: "NodesYaml \<Rightarrow> string \<Rightarrow> Profile \<Rightarrow> err + NodesYaml" where
  "SetProfile config profileId vals = (case gm_get (NodeProfiles config) profileId of
      None \<Rightarrow> Inl ErrNotFound
    | Some profile \<Rightarrow>
        (case gm_put (NodeProfiles config) profileId (val_Profile (gob_decode (Profile_val profile) (Profile_val vals))) of
           Inl e \<Rightarrow> Inl e
         | Inr m \<Rightarrow> Inr (config\<lparr>NodeProfiles := m\<rparr>)))"

definition AddProfile :: "NodesYaml \<Rightarrow> string \<Rightarrow> err + NodesYaml \<times> Profile" where
  "AddProfile config profileId =
     (let profile = EmptyProfile in
      if gm_get (NodeProfiles config) profileId \<noteq> None then Inl (ErrMsg (''profile already exists: '' @ profileId))
      else (case gm_put (NodeProfiles config) profileId profile of
          Inl e \<Rightarrow> Inl e
        | Inr m \<Rightarrow> Inr (config\<lparr>NodeProfiles := m\<rparr>, profile)))"

definition DelProfile :: "NodesYaml \<Rightarrow> string \<Rightarrow> err + NodesYaml" where
  "DelProfile config profileID =
     (if gm_get (NodeProfiles config) profileID = None then Inl (ErrMsg (''profile does not exist: '' @ profileID))
      else Inr (config\<lparr>NodeProfiles := gm_delete (NodeProfiles config) profileID\<rparr>))"

text \<open>\<open>Dump\<close> flattens every profile and node before it encodes; the YAML encoder is an argument.\<close>

definition flatten_all :: "NodesYaml \<Rightarrow> NodesYaml" where
  "flatten_all config = config\<lparr>NodeProfiles := gm_map Profile_Flatten (NodeProfiles config),
                               Nodes := gm_map Node_Flatten (Nodes config)\<rparr>"

definition Dump :: "(NodesYaml \<Rightarrow> err + string) \<Rightarrow> NodesYaml \<Rightarrow> (err + string) \<times> NodesYaml" where
  "Dump encode config = (let config' = flatten_all config in (encode config', config'))"

text \<open>\<open>Parse\<close>: the YAML decoder is an argument; nil maps are allocated.\<close>

definition Parse :: "(string \<Rightarrow> err + NodesYaml) \<Rightarrow> string \<Rightarrow> err + NodesYaml" where
  "Parse decode data = (case decode data of
      Inl e \<Rightarrow> Inl e
    | Inr nodeList \<Rightarrow> Inr (nodeList\<lparr>Nodes := make_if_nil (Nodes nodeList),
                                    NodeProfiles := make_if_nil (NodeProfiles nodeList)\<rparr>))"

section \<open>Queries\<close>

definition ListAllNodes :: "NodesYaml \<Rightarrow> string list" where
  "ListAllNodes config = sort (gm_keys (Nodes config))"

definition ListAllProfiles :: "NodesYaml \<Rightarrow> string list" where
  "ListAllProfiles config = sort (gm_keys (NodeProfiles config))"

definition nodes_where :: "NodesYaml \<Rightarrow> (Profile \<Rightarrow> bool) \<Rightarrow> string list" where
  "nodes_where config P = sort (map fst (filter (\<lambda>(k, n). P (nd_Profile n)) (gm_entries (Nodes config))))"

definition profiles_where :: "NodesYaml \<Rightarrow> (Profile \<Rightarrow> bool) \<Rightarrow> string list" where
  "profiles_where config P = sort (map fst (filter (\<lambda>(k, p). P p) (gm_entries (NodeProfiles config))))"

definition ListNodesUsingProfile :: "NodesYaml \<Rightarrow> string \<Rightarrow> string list" where
  "ListNodesUsingProfile config profileID = nodes_where config (\<lambda>p. profileID \<in> set (pf_Profiles p))"

definition ListProfilesUsingProfile :: "NodesYaml \<Rightarrow> string \<Rightarrow> string list" where
  "ListProfilesUsingProfile config profileID = profiles_where config (\<lambda>p. profileID \<in> set (pf_Profiles p))"

definition ListNodesUsingImage :: "NodesYaml \<Rightarrow> string \<Rightarrow> string list" where
  "ListNodesUsingImage config img = nodes_where config (\<lambda>p. pf_ImageName p = img)"

definition ListProfilesUsingImage :: "NodesYaml \<Rightarrow> string \<Rightarrow> string list" where
  "ListProfilesUsingImage config img = profiles_where config (\<lambda>p. pf_ImageName p = img)"

definition ListNodesUsingOverlay :: "NodesYaml \<Rightarrow> string \<Rightarrow> string list" where
  "ListNodesUsingOverlay config overlay =
     nodes_where config (\<lambda>p. overlay \<in> set (pf_RuntimeOverlay p) \<or> overlay \<in> set (pf_SystemOverlay p))"

definition ListProfilesUsingOverlay :: "NodesYaml \<Rightarrow> string \<Rightarrow> string list" where
  "ListProfilesUsingOverlay config overlay =
     profiles_where config (\<lambda>p. overlay \<in> set (pf_RuntimeOverlay p) \<or> overlay \<in> set (pf_SystemOverlay p))"

section \<open>Searches\<close>

text \<open>\<open>FindAllNodes\<close> returns what it has so far beside the error.\<close>

fun get_nodes :: "merge_lib \<Rightarrow> NodesYaml \<Rightarrow> string list \<Rightarrow> Node list \<Rightarrow> Node list \<times> err option" where
  "get_nodes lib config [] nodeList = (nodeList, None)"
| "get_nodes lib config (nodeId # ids) nodeList =
     (case GetNode lib config nodeId of
        Inl e \<Rightarrow> (nodeList, Some e)
      | Inr node \<Rightarrow> get_nodes lib config ids (nodeList @ [node]))"

definition FindAllNodes :: "merge_lib \<Rightarrow> NodesYaml \<Rightarrow> string list \<Rightarrow> Node list \<times> err option" where
  "FindAllNodes lib config nodes =
     (let nodes = (if nodes = [] then gm_keys (Nodes config) else nodes) in
      case get_nodes lib config nodes [] of
        (nodeList, Some e) \<Rightarrow> (nodeList, Some e)
      | (nodeList, None) \<Rightarrow> (sort_key (\<lambda>n. (pf_ClusterName (nd_Profile n), nd_id n)) nodeList, None))"

fun get_profiles :: "NodesYaml \<Rightarrow> string list \<Rightarrow> Profile list \<Rightarrow> Profile list \<times> err option" where
  "get_profiles config [] profileList = (profileList, None)"
| "get_profiles config (profileId # ids) profileList =
     (case GetProfile config profileId of
        Inl e \<Rightarrow> (profileList, Some e)
      | Inr p \<Rightarrow> get_profiles config ids (profileList @ [p]))"

definition FindAllProfiles :: "NodesYaml \<Rightarrow> string list \<Rightarrow> Profile list \<times> err option" where
  "FindAllProfiles config nodes =
     (let nodes = (if nodes = [] then gm_keys (NodeProfiles config) else nodes) in
      case get_profiles config nodes [] of
        (profileList, Some e) \<Rightarrow> (profileList, Some e)
      | (profileList, None) \<Rightarrow> (sort_key (\<lambda>p. (pf_ClusterName p, pf_id p)) profileList, None))"

fun discoverable_in :: "Node list \<Rightarrow> err + Node \<times> string" where
  "discoverable_in [] = Inl ErrNoUnconfigured"
| "discoverable_in (node # nodes) =
     (let p = nd_Profile node in
      if \<not> WWbool_Bool (nd_Discoverable node) then discoverable_in nodes
      else if gm_get (pf_NetDevs p) (pf_PrimaryNetDev p) \<noteq> None then Inr (node, pf_PrimaryNetDev p)
      else (case filter (\<lambda>(k, dev). dev_Hwaddr dev \<noteq> []) (gm_entries (pf_NetDevs p)) of
          (netdev, _) # _ \<Rightarrow> Inr (node, netdev)
        | [] \<Rightarrow> discoverable_in nodes))"

definition FindDiscoverableNode :: "merge_lib \<Rightarrow> NodesYaml \<Rightarrow> err + Node \<times> string" where
  "FindDiscoverableNode lib config = discoverable_in (fst (FindAllNodes lib config []))"

definition first_node :: "(NetDev \<Rightarrow> bool) \<Rightarrow> Node list \<Rightarrow> Node option" where
  "first_node P nodes = find (\<lambda>n. \<exists>(k, d)\<in>set (gm_entries (pf_NetDevs (nd_Profile n))). P d) nodes"

definition FindByHwaddr :: "merge_lib \<Rightarrow> NodesYaml \<Rightarrow> string \<Rightarrow> err + Node" where
  "FindByHwaddr lib config hwa =
     (if \<not> ParseMAC hwa then Inl (ErrMsg (''invalid hardware address: '' @ hwa))
      else (case first_node (\<lambda>dev. EqualFold (dev_Hwaddr dev) hwa) (fst (FindAllNodes lib config [])) of
          Some node \<Rightarrow> Inr node
        | None \<Rightarrow> Inl ErrNotFound))"

definition FindByIpaddr :: "merge_lib \<Rightarrow> NodesYaml \<Rightarrow> string \<Rightarrow> err + Node" where
  "FindByIpaddr lib config ipaddr = (case ParseIP ipaddr of
      None \<Rightarrow> Inl (ErrMsg (''invalid IP:'' @ ipaddr))
    | Some addr \<Rightarrow>
        (case FindAllNodes lib config [] of
           (_, Some e) \<Rightarrow> Inl e
         | (nodeList, None) \<Rightarrow>
             (case first_node (\<lambda>dev. IP_Equal (dev_Ipaddr dev) addr) nodeList of
                Some node \<Rightarrow> Inr node
              | None \<Rightarrow> Inl ErrNotFound)))"

section \<open>Groups\<close>

definition AllGroup :: string where "AllGroup = ''all''"

definition hasLiteralGroup :: "NodesYaml \<Rightarrow> string \<Rightarrow> string \<Rightarrow> bool" where
  "hasLiteralGroup config nodeID token \<longleftrightarrow>
     (case gm_get (Nodes config) nodeID of Some n \<Rightarrow> token \<in> set (pf_Groups (nd_Profile n)) | None \<Rightarrow> False) \<or>
     (\<exists>profileID\<in>set (getNodeProfiles config nodeID). \<not> HasPrefix profileID ''~'' \<and>
        (case GetProfile config profileID of Inr profile \<Rightarrow> token \<in> set (pf_Groups profile) | Inl _ \<Rightarrow> False))"

definition GroupMembers :: "merge_lib \<Rightarrow> NodesYaml \<Rightarrow> string \<Rightarrow> string list" where
  "GroupMembers lib config name =
     (if name = AllGroup then
        filter (\<lambda>i. \<not> hasLiteralGroup config i (''~'' @ AllGroup)) (ListAllNodes config)
      else sort (remdups (filter
        (\<lambda>i. case GetNode lib config i of Inl _ \<Rightarrow> False | Inr merged \<Rightarrow> name \<in> set (pf_Groups (nd_Profile merged)))
        (gm_keys (Nodes config)))))"

definition ListNodesUsingGroup :: "merge_lib \<Rightarrow> NodesYaml \<Rightarrow> string \<Rightarrow> Node list \<times> err option" where
  "ListNodesUsingGroup lib config name =
     (let members = GroupMembers lib config name in
      if members = [] then ([], None) else FindAllNodes lib config members)"

definition ListAllGroups :: "NodesYaml \<Rightarrow> string list" where
  "ListAllGroups config = sort (remdups (filter (\<lambda>g. \<not> HasPrefix g ''~'')
     (concat (map (\<lambda>(k, n). pf_Groups (nd_Profile n)) (gm_entries (Nodes config))) @
      concat (map (\<lambda>(k, p). pf_Groups p) (gm_entries (NodeProfiles config))))))"

section \<open>Filters\<close>

text \<open>The map \<open>unique\<close> keeps the last entry with an id; the result is sorted by id.\<close>

definition unique_entries :: "('a \<Rightarrow> string) \<Rightarrow> 'a list \<Rightarrow> string list \<Rightarrow> (string \<times> 'a) list" where
  "unique_entries ident entries searchList =
     foldl (\<lambda>u search. foldl (\<lambda>u e. if ident e = search then al_update (ident e) e u else u) u entries) [] searchList"

definition FilterNodeListByName :: "Node list \<Rightarrow> string list \<Rightarrow> Node list" where
  "FilterNodeListByName nodes searchList =
     sort_key nd_id (if searchList \<noteq> [] then map snd (unique_entries nd_id nodes searchList) else nodes)"

definition FilterProfileListByName :: "Profile list \<Rightarrow> string list \<Rightarrow> Profile list" where
  "FilterProfileListByName profiles searchList =
     sort_key pf_id (if searchList \<noteq> [] then map snd (unique_entries pf_id profiles searchList) else profiles)"

section \<open>Tags\<close>

record NodeConfDel =
  del_TagsDel :: "string list"
  del_IpmiTagsDel :: "string list"
  del_NetTagsDel :: "string list"
  del_NetDel :: string
  del_DiskDel :: string
  del_PartDel :: string
  del_FsDel :: string

record NodeConfAdd =
  add_TagsAdd :: "string gomap"
  add_IpmiTagsAdd :: "string gomap"
  add_NetTagsAdd :: "string gomap"
  add_Net :: string
  add_DiskName :: string
  add_PartName :: string
  add_FsName :: string

text \<open>Deletions, the allocation of a nil map if something is added, and the additions.\<close>

definition change_tags :: "string list \<Rightarrow> string gomap \<Rightarrow> string gomap \<Rightarrow> err + string gomap" where
  "change_tags dels adds tags =
     (let tags = del_all gm_delete tags dels;
          tags = (if gm_len adds > 0 then make_if_nil tags else tags)
      in put_all gm_put tags (gm_entries adds))"

text \<open>The part of \<open>ApplyTagChanges\<close> for the tags of the IPMI interface.\<close>

definition change_ipmi :: "string list \<Rightarrow> string gomap \<Rightarrow> IpmiConf option \<Rightarrow> err + IpmiConf option" where
  "change_ipmi dels adds ipmi =
     (let ipmi = map_option (\<lambda>i. i\<lparr>ip_Tags := del_all gm_delete (ip_Tags i) dels\<rparr>) ipmi;
          ipmi = (if gm_len adds > 0
                  then (let i = (case ipmi of None \<Rightarrow> zero_IpmiConf | Some i \<Rightarrow> i)
                        in Some (i\<lparr>ip_Tags := make_if_nil (ip_Tags i)\<rparr>))
                  else ipmi)
      in case ipmi of
           None \<Rightarrow> (if gm_entries adds = [] then Inr None else Inl ErrPanic)
         | Some i \<Rightarrow>
             (case put_all gm_put (ip_Tags i) (gm_entries adds) of
                Inl e \<Rightarrow> Inl e
              | Inr m \<Rightarrow> Inr (Some (i\<lparr>ip_Tags := m\<rparr>))))"

definition ApplyTagChanges :: "Profile \<Rightarrow> NodeConfAdd \<Rightarrow> NodeConfDel \<Rightarrow> err + Profile" where
  "ApplyTagChanges p add del =
     (case change_tags (del_TagsDel del) (add_TagsAdd add) (pf_Tags p) of
        Inl e \<Rightarrow> Inl e
      | Inr tags \<Rightarrow>
          (case change_ipmi (del_IpmiTagsDel del) (add_IpmiTagsAdd add) (pf_Ipmi p) of
             Inl e \<Rightarrow> Inl e
           | Inr ipmi \<Rightarrow>
               let p = p\<lparr>pf_Tags := tags, pf_Ipmi := ipmi\<rparr> in
               (case gm_get (pf_NetDevs p) (add_Net add) of
                  None \<Rightarrow> Inr p
                | Some netDev \<Rightarrow>
                    (case change_tags (del_NetTagsDel del) (add_NetTagsAdd add) (dev_Tags netDev) of
                       Inl e \<Rightarrow> Inl e
                     | Inr netTags \<Rightarrow>
                         (case gm_put (pf_NetDevs p) (add_Net add) (netDev\<lparr>dev_Tags := netTags\<rparr>) of
                            Inl e \<Rightarrow> Inl e
                          | Inr m \<Rightarrow> Inr (p\<lparr>pf_NetDevs := m\<rparr>))))))"

section \<open>Well-formed registries\<close>

text \<open>The maps are allocated and have distinct keys, as \<open>Parse\<close> leaves them.\<close>

definition registry_ok :: "NodesYaml \<Rightarrow> bool" where
  "registry_ok config \<longleftrightarrow> Nodes config \<noteq> None \<and> NodeProfiles config \<noteq> None \<and>
     gm_ok (Nodes config) \<and> gm_ok (NodeProfiles config)"

text \<open>The operations that change a registry, as steps.\<close>

inductive registry_step :: "NodesYaml \<Rightarrow> NodesYaml \<Rightarrow> bool" where
  add_node: "AddNode config i = Inr (config', n) \<Longrightarrow> registry_step config config'"
| del_node: "DelNode config i = Inr config' \<Longrightarrow> registry_step config config'"
| set_node: "SetNode config i n = Inr config' \<Longrightarrow> registry_step config config'"
| add_profile: "AddProfile config i = Inr (config', p) \<Longrightarrow> registry_step config config'"
| del_profile: "DelProfile config i = Inr config' \<Longrightarrow> registry_step config config'"
| set_profile: "SetProfile config i p = Inr config' \<Longrightarrow> registry_step config config'"
| dump: "Dump encode config = (r, config') \<Longrightarrow> registry_step config config'"

lemma gm_put_Some: "gm_put (Some kvs) k v = Inr (Some (al_update k v kvs))"
  by (simp add: gm_put_def)

lemma gm_put_not_None: "gm_put m k v = Inr m' \<Longrightarrow> m' \<noteq> None"
  by (cases m) (auto simp: gm_put_def)

lemma gm_delete_None_iff: "gm_delete m k = None \<longleftrightarrow> m = None"
  by (cases m) (auto simp: gm_delete_def)

lemma gm_ok_gm_map: "gm_ok (gm_map f m) = gm_ok m"
  by (simp add: gm_ok_def)

lemma gm_map_None_iff: "gm_map f m = None \<longleftrightarrow> m = None"
  by (simp add: gm_map_def)

lemma gm_map_Some_ex [simp]: "\<exists>y. gm_map f (Some m) = Some y"
  by (simp add: gm_map_def)

lemma gm_delete_Some_ex [simp]: "\<exists>y. gm_delete (Some m) i = Some y"
  by (simp add: gm_delete_def)

lemmas registry_defs = AddNode_def DelNode_def SetNode_def AddProfile_def DelProfile_def SetProfile_def

lemma registry_step_ok: "registry_step config config' \<Longrightarrow> registry_ok config \<Longrightarrow> registry_ok config'"
proof (induction rule: registry_step.induct)
  case (dump encode config r config')
  then show ?case by (auto simp: Dump_def flatten_all_def registry_ok_def gm_ok_gm_map gm_map_None_iff Let_def)
qed (auto simp: registry_defs registry_ok_def Let_def gm_delete_None_iff
      split: if_splits option.splits sum.splits dest: gm_put_not_None intro: gm_ok_put gm_ok_delete)



section \<open>Adding, deleting and setting\<close>

text \<open>
  Adding a node succeeds exactly when its id is free and then changes only that entry; deleting
  it again gives back every lookup; deleting fails exactly when the node is not there.
\<close>

theorem AddNode_DelNode:
  assumes "registry_ok config"
  shows "((\<exists>r. AddNode config i = Inr r) \<longleftrightarrow> GetNodeOnly config i = Inl ErrNotFound) \<and>
    ((\<exists>r. DelNode config i = Inr r) \<longleftrightarrow> GetNodeOnly config i \<noteq> Inl ErrNotFound) \<and>
    (\<forall>config' n. AddNode config i = Inr (config', n) \<longrightarrow>
      (\<forall>j. GetNodeOnly config' j = (if j = i then Inr (NewNode i) else GetNodeOnly config j)) \<and>
      (\<exists>config''. DelNode config' i = Inr config'' \<and> (\<forall>j. GetNodeOnly config'' j = GetNodeOnly config j)))"
proof -
  obtain kvs where kvs: "Nodes config = Some kvs" using assms by (auto simp: registry_ok_def)
  have "(\<exists>r. AddNode config i = Inr r) \<longleftrightarrow> GetNodeOnly config i = Inl ErrNotFound"
    by (auto simp: AddNode_def GetNodeOnly_def kvs gm_put_Some Let_def split: option.splits)
  moreover have "(\<exists>r. DelNode config i = Inr r) \<longleftrightarrow> GetNodeOnly config i \<noteq> Inl ErrNotFound"
    by (auto simp: DelNode_def GetNodeOnly_def split: option.splits)
  moreover have "(\<forall>j. GetNodeOnly config' j = (if j = i then Inr (NewNode i) else GetNodeOnly config j)) \<and>
      (\<exists>config''. DelNode config' i = Inr config'' \<and> (\<forall>j. GetNodeOnly config'' j = GetNodeOnly config j))"
    if add: "AddNode config i = Inr (config', n)" for config' n
  proof -
    from add have new: "gm_get (Nodes config) i = None" "gm_put (Nodes config) i (NewNode i) = Inr (Nodes config')"
      by (auto simp: AddNode_def Let_def split: if_splits sum.splits)
    from gm_get_put [OF new(2)]
    have get: "gm_get (Nodes config') j = (if j = i then Some (NewNode i) else gm_get (Nodes config) j)" for j .
    then show ?thesis using new(1) by (simp add: GetNodeOnly_def DelNode_def gm_get_delete)
  qed
  ultimately show ?thesis by blast
qed

lemma sample_cluster_ok: "registry_ok sample_cluster"
  by (simp add: registry_ok_def sample_cluster_def gm_ok_def gm_keys_def gm_entries_def)

theorem AddNode_DelNode_witness:
  "(\<exists>r. AddNode sample_cluster ''n3'' = Inr r) \<and> \<not> (\<exists>r. AddNode sample_cluster ''n1'' = Inr r) \<and>
   \<not> (\<exists>r. DelNode sample_cluster ''n3'' = Inr r)"
proof -
  have "GetNodeOnly sample_cluster ''n3'' = Inl ErrNotFound" "GetNodeOnly sample_cluster ''n1'' \<noteq> Inl ErrNotFound"
    by (simp_all add: GetNodeOnly_def sample_cluster_def gm_get_def gm_entries_def)
  then show ?thesis
    using AddNode_DelNode [OF sample_cluster_ok, of "''n3''"] AddNode_DelNode [OF sample_cluster_ok, of "''n1''"] by simp
qed

section \<open>Groups\<close>

lemma GroupMembers_sorted_distinct:
  "registry_ok config \<Longrightarrow> sorted (GroupMembers lib config g) \<and> distinct (GroupMembers lib config g)"
  by (auto simp: GroupMembers_def ListAllNodes_def registry_ok_def gm_ok_def sorted_filter [of "\<lambda>x. x", simplified])

text \<open>
  The registry as the group resolver of host patterns. A registry whose keys are not distinct does
  not arise; the guard makes the resolver total.
\<close>

definition registry_resolver :: "merge_lib \<Rightarrow> NodesYaml \<Rightarrow> GroupResolver" where
  "registry_resolver lib config = (if registry_ok config then GroupMembers lib config else nopResolver)"

interpretation registry_groups: group_resolver "registry_resolver lib config"
  by unfold_locales
     (use GroupMembers_sorted_distinct in \<open>auto simp: registry_resolver_def nopResolver_def\<close>)

lemma GetNode_ok:
  assumes "merge_lib_ok lib" "i \<in> set (gm_keys (Nodes config))"
  obtains n where "GetNode lib config i = Inr n" "nd_id n = i"
    "pf_Groups (nd_Profile n) = cleanList (concat (map pf_Groups (merged_from config i @ [nd_Profile (the (gm_get (Nodes config) i))])))"
proof -
  obtain n0 where n0: "gm_get (Nodes config) i = Some n0" using gm_get_in_keys [OF assms(2)] by blast
  obtain m node fm where node: "MergeNode lib config i = Inr (node, fm)" "nd_id node = i" "nd_valid node"
    and s: "\<forall>f\<in>set scalar_fields. f m = last_set (map f (merged_from config i @ [nd_Profile n0]))"
    and l: "\<forall>g\<in>set list_fields. g m = concat (map g (merged_from config i @ [nd_Profile n0]))"
    and prof: "nd_Profile node = cleanLists (updatePrimaryNetDev (nd_Profile (setIds (zero_Node\<lparr>nd_Profile :=
           m\<lparr>pf_Profiles := pf_Profiles (nd_Profile n0), pf_Comment := pf_Comment (nd_Profile n0)\<rparr>\<rparr>) i)))"
    by (rule MergeNode_result [OF assms(1) n0])
  have g: "pf_Groups \<in> set list_fields" by (simp add: list_fields_def)
  have "pf_Groups (nd_Profile node) = cleanList (pf_Groups m)"
    using finish_list [OF g] by (simp add: prof)
  then show thesis using that [of node] node l [rule_format, OF g] n0 by (simp add: GetNode_def)
qed



end
