(* ===== verification/Node_Registry_Facts.thy ===== *)
theory Node_Registry_Facts
  imports Node_Registry "HOL-Library.Multiset"
begin

text \<open>
  Further properties of the registry: the order and completeness of \<open>FindAllNodes\<close>, the searches by
  address, the effect of \<open>SetNode\<close>, and tag changes.
\<close>

section \<open>All nodes\<close>

lemma get_nodes_ok:
  assumes "merge_lib_ok lib" "set ids \<subseteq> set (gm_keys (Nodes config))"
  shows "get_nodes lib config ids acc = (acc @ map (\<lambda>i. projr (GetNode lib config i)) ids, None)"
  using assms(2)
proof (induction ids arbitrary: acc)
  case (Cons i ids)
  then obtain n where "GetNode lib config i = Inr n" using GetNode_ok [OF assms(1), of i config] by (metis list.set_intros(1) subsetD)
  with Cons show ?case by simp
qed simp

lemma GetNode_id: "merge_lib_ok lib \<Longrightarrow> i \<in> set (gm_keys (Nodes config)) \<Longrightarrow> nd_id (projr (GetNode lib config i)) = i"
  using GetNode_ok [of lib i config] by (metis sum.sel(2))

lemma FindAllNodes_all:
  assumes "merge_lib_ok lib"
  shows "FindAllNodes lib config [] =
    (sort_key (\<lambda>n. (pf_ClusterName (nd_Profile n), nd_id n)) (map (\<lambda>i. projr (GetNode lib config i)) (gm_keys (Nodes config))), None)"
  using get_nodes_ok [OF assms, of "gm_keys (Nodes config)" config "[]"] by (simp add: FindAllNodes_def)

text \<open>
  Listing all nodes succeeds and returns every configured node exactly once, merged, ordered by
  cluster name and then by id; the result does not depend on the order in which the map is iterated.
\<close>

theorem FindAllNodes_complete:
  assumes "merge_lib_ok lib" "registry_ok config"
  shows "\<exists>ns. FindAllNodes lib config [] = (ns, None) \<and>
    sorted (map (\<lambda>n. (pf_ClusterName (nd_Profile n), nd_id n)) ns) \<and>
    distinct (map nd_id ns) \<and> set (map nd_id ns) = set (gm_keys (Nodes config)) \<and>
    (\<forall>n\<in>set ns. GetNode lib config (nd_id n) = Inr n)"
proof -
  let ?keys = "gm_keys (Nodes config)"
  let ?get = "\<lambda>i. projr (GetNode lib config i)"
  let ?ns = "sort_key (\<lambda>n. (pf_ClusterName (nd_Profile n), nd_id n)) (map ?get ?keys)"
  have ids: "\<forall>i\<in>set ?keys. nd_id (?get i) = i" using GetNode_id [OF assms(1)] by blast
  have dist: "distinct ?keys" using assms(2) by (simp add: registry_ok_def gm_ok_def)
  have perm: "mset (map nd_id ?ns) = mset (map nd_id (map ?get ?keys))"
    by (simp add: multiset.map_comp comp_def)
  also have "map nd_id (map ?get ?keys) = ?keys" using ids by (simp add: map_idI)
  finally have m: "mset (map nd_id ?ns) = mset ?keys" .
  have "GetNode lib config (nd_id n) = Inr n" if "n \<in> set ?ns" for n
    using that GetNode_ok [OF assms(1)] by (auto simp: image_iff) (metis sum.sel(2))
  then show ?thesis
    using FindAllNodes_all [OF assms(1), of config] mset_eq_imp_distinct_iff [OF m] mset_eq_setD [OF m] dist
    by (intro exI [of _ ?ns]) (simp del: set_map)
qed

theorem FindAllNodes_complete_witness:
  "\<exists>ns. FindAllNodes sample_lib sample_cluster [] = (ns, None) \<and> set (map nd_id ns) = {''n1'', ''n2''}"
proof -
  have k: "gm_keys (Nodes sample_cluster) = [''n1'', ''n2'']" by code_simp
  show ?thesis using FindAllNodes_complete [OF sample_lib_ok sample_cluster_ok] unfolding k by auto
qed

section \<open>Searching by address\<close>

lemma first_node_Some:
  "first_node P ns = Some n \<Longrightarrow> n \<in> set ns \<and> (\<exists>(k, d)\<in>set (gm_entries (pf_NetDevs (nd_Profile n))). P d)"
  unfolding first_node_def by (auto simp: find_Some_iff)

lemma first_node_None:
  "first_node P ns = None \<Longrightarrow> n \<in> set ns \<Longrightarrow> (k, d) \<in> set (gm_entries (pf_NetDevs (nd_Profile n))) \<Longrightarrow> \<not> P d"
  unfolding first_node_def by (auto simp: find_None_iff)

text \<open>
  A search by hardware address refuses a text that is no hardware address; otherwise it returns
  a configured node, merged, with a device that has this address up to the case of its letters, and
  reports \<open>ErrNotFound\<close> exactly when no merged node has one.
\<close>

theorem FindByHwaddr_correct:
  assumes "merge_lib_ok lib"
  defines "owns \<equiv> \<lambda>n hwa. \<exists>(k, d)\<in>set (gm_entries (pf_NetDevs (nd_Profile n))). ToLower (dev_Hwaddr d) = ToLower hwa"
  shows "case FindByHwaddr lib config hwa of
      Inr n \<Rightarrow> ParseMAC hwa \<and> (\<exists>i\<in>set (gm_keys (Nodes config)). GetNode lib config i = Inr n) \<and> owns n hwa
    | Inl e \<Rightarrow>
        if ParseMAC hwa
        then e = ErrNotFound \<and> (\<forall>i n. i \<in> set (gm_keys (Nodes config)) \<longrightarrow> GetNode lib config i = Inr n \<longrightarrow> \<not> owns n hwa)
        else e = ErrMsg (''invalid hardware address: '' @ hwa)"
proof (cases "ParseMAC hwa")
  case mac: True
  let ?ns = "fst (FindAllNodes lib config [])"
  have ns: "set ?ns = (\<lambda>i. projr (GetNode lib config i)) ` set (gm_keys (Nodes config))"
    by (simp add: FindAllNodes_all [OF assms(1)])
  have get: "i \<in> set (gm_keys (Nodes config)) \<Longrightarrow> GetNode lib config i = Inr (projr (GetNode lib config i))" for i
    using GetNode_ok [OF assms(1), of i config] by (metis sum.sel(2))
  show ?thesis
  proof (cases "first_node (\<lambda>dev. EqualFold (dev_Hwaddr dev) hwa) ?ns")
    case None
    with mac ns first_node_None [OF None] show ?thesis
      by (fastforce simp: FindByHwaddr_def owns_def EqualFold_def)
  next
    case (Some n)
    from first_node_Some [OF Some] ns get have "\<exists>i\<in>set (gm_keys (Nodes config)). GetNode lib config i = Inr n" by auto
    with mac Some first_node_Some [OF Some] show ?thesis
      by (simp add: FindByHwaddr_def owns_def EqualFold_def)
  qed
qed (simp add: FindByHwaddr_def)

theorem FindByHwaddr_correct_witness:
  "FindByHwaddr sample_lib \<lparr>NodeProfiles = Some [], Nodes = Some []\<rparr> ''AA:BB:CC:DD:EE:FF'' = Inl ErrNotFound"
proof -
  have mac: "ParseMAC ''AA:BB:CC:DD:EE:FF''" by code_simp
  have keys: "gm_keys (Nodes \<lparr>NodeProfiles = Some [], Nodes = Some []\<rparr>) = []" by code_simp
  show ?thesis
    using FindByHwaddr_correct [OF sample_lib_ok, where config = "\<lparr>NodeProfiles = Some [], Nodes = Some []\<rparr>"
        and hwa = "''AA:BB:CC:DD:EE:FF''"] mac unfolding keys by (simp split: sum.splits)
qed

section \<open>Setting a node\<close>

lemma gob_node_fields:
  fixes d v :: Node
  defines "r \<equiv> val_Node (gob_decode (Node_val d) (Node_val v))"
  shows "nd_id r = nd_id d" "nd_valid r = nd_valid d"
    "nd_Discoverable r = (if nd_Discoverable v = [] then nd_Discoverable d else nd_Discoverable v)"
    "nd_AssetKey r = (if nd_AssetKey v = [] then nd_AssetKey d else nd_AssetKey v)"
    "nd_Profile r = val_Profile (gob_decode (Profile_val (nd_Profile d)) (Profile_val (nd_Profile v)))"
proof -
  obtain ds vs where "Profile_val (nd_Profile d) = GStruct ds" "Profile_val (nd_Profile v) = GStruct vs"
    using Profile_val_struct by metis
  then show "nd_id r = nd_id d" "nd_valid r = nd_valid d"
    "nd_Discoverable r = (if nd_Discoverable v = [] then nd_Discoverable d else nd_Discoverable v)"
    "nd_AssetKey r = (if nd_AssetKey v = [] then nd_AssetKey d else nd_AssetKey v)"
    "nd_Profile r = val_Profile (gob_decode (Profile_val (nd_Profile d)) (Profile_val (nd_Profile v)))"
    by (simp_all add: r_def Node_val_def val_Node_def)
qed

fun exported_in :: "string \<Rightarrow> (sfield \<times> gval) list \<Rightarrow> bool" where
  "exported_in n [] = False"
| "exported_in n ((f, v) # fs) = (if sf_Name f = n then sf_exported f else exported_in n fs)"

lemma field_of_gob_fields:
  "map fst ds = map fst vs \<Longrightarrow> exported_in n ds \<Longrightarrow>
     field_of n (gob_fields ds vs) = gob_decode (field_of n ds) (field_of n vs)"
  by (induction ds vs rule: list_induct2') (auto split: if_splits)

lemma Profile_val_tags:
  assumes "Profile_val d = GStruct ds" "Profile_val v = GStruct vs"
  shows "map fst ds = map fst vs"
  using assms by (auto simp: Profile_val_def)

lemma field_val_gob:
  assumes "case Profile_val d of GStruct ds \<Rightarrow> exported_in n ds | _ \<Rightarrow> False"
  shows "field_val n (gob_decode (Profile_val d) (Profile_val v)) = gob_decode (field_val n (Profile_val d)) (field_val n (Profile_val v))"
proof -
  obtain ds vs where ds: "Profile_val d = GStruct ds" "Profile_val v = GStruct vs" using Profile_val_struct by metis
  show ?thesis using field_of_gob_fields [OF Profile_val_tags [OF ds]] assms ds by simp
qed

lemma exported_profile_fields:
  "n \<in> {''ImageName'', ''Profiles'', ''Groups'', ''NetDevs'', ''RuntimeOverlay'', ''SystemOverlay'', ''Comment''} \<Longrightarrow>
     case Profile_val d of GStruct ds \<Rightarrow> exported_in n ds | _ \<Rightarrow> False"
  by (elim insertE emptyE; simp add: Profile_val_def)

lemma gob_profile_fields:
  fixes d v :: Profile
  defines "r \<equiv> val_Profile (gob_decode (Profile_val d) (Profile_val v))"
  shows "pf_ImageName r = (if pf_ImageName v = [] then pf_ImageName d else pf_ImageName v)"
    "pf_Comment r = (if pf_Comment v = [] then pf_Comment d else pf_Comment v)"
    "pf_Profiles r = (if pf_Profiles v = [] then pf_Profiles d else pf_Profiles v)"
    "pf_Groups r = (if pf_Groups v = [] then pf_Groups d else pf_Groups v)"
    "pf_RuntimeOverlay r = (if pf_RuntimeOverlay v = [] then pf_RuntimeOverlay d else pf_RuntimeOverlay v)"
    "pf_SystemOverlay r = (if pf_SystemOverlay v = [] then pf_SystemOverlay d else pf_SystemOverlay v)"
    "pf_NetDevs r = gm_map val_NetDev (as_mapptr (gob_decode (GMapPtr (NetDev_val zero_NetDev) (gm_map NetDev_val (pf_NetDevs d)))
                                                         (GMapPtr (NetDev_val zero_NetDev) (gm_map NetDev_val (pf_NetDevs v)))))"
proof -
  have fv: "field_val ''ImageName'' (Profile_val p) = GStr (pf_ImageName p)" "field_val ''Comment'' (Profile_val p) = GStr (pf_Comment p)"
    "field_val ''Profiles'' (Profile_val p) = GStrs (pf_Profiles p)" "field_val ''Groups'' (Profile_val p) = GStrs (pf_Groups p)"
    "field_val ''RuntimeOverlay'' (Profile_val p) = GStrs (pf_RuntimeOverlay p)"
    "field_val ''SystemOverlay'' (Profile_val p) = GStrs (pf_SystemOverlay p)"
    "field_val ''NetDevs'' (Profile_val p) = GMapPtr (NetDev_val zero_NetDev) (gm_map NetDev_val (pf_NetDevs p))" for p
    by (simp_all add: Profile_val_def)
  note gob = field_val_gob [OF exported_profile_fields, of _ d v]
  show "pf_ImageName r = (if pf_ImageName v = [] then pf_ImageName d else pf_ImageName v)"
    "pf_Comment r = (if pf_Comment v = [] then pf_Comment d else pf_Comment v)"
    "pf_Profiles r = (if pf_Profiles v = [] then pf_Profiles d else pf_Profiles v)"
    "pf_Groups r = (if pf_Groups v = [] then pf_Groups d else pf_Groups v)"
    "pf_RuntimeOverlay r = (if pf_RuntimeOverlay v = [] then pf_RuntimeOverlay d else pf_RuntimeOverlay v)"
    "pf_SystemOverlay r = (if pf_SystemOverlay v = [] then pf_SystemOverlay d else pf_SystemOverlay v)"
    "pf_NetDevs r = gm_map val_NetDev (as_mapptr (gob_decode (GMapPtr (NetDev_val zero_NetDev) (gm_map NetDev_val (pf_NetDevs d)))
                                                         (GMapPtr (NetDev_val zero_NetDev) (gm_map NetDev_val (pf_NetDevs v)))))"
    by (simp_all add: r_def val_Profile_def gob fv)
qed

text \<open>The fresh copy of a device that decoding puts into the map: unexported fields are zero.\<close>

definition gob_copy :: "NetDev \<Rightarrow> NetDev" where
  "gob_copy d = val_NetDev (gob_decode (NetDev_val zero_NetDev) (NetDev_val d))"

lemma gob_copy_Hwaddr: "dev_Hwaddr (gob_copy d) = dev_Hwaddr d"
  by (simp add: gob_copy_def NetDev_val_def val_NetDev_def zero_NetDev_def)

lemma map_of_rev_distinct: "distinct (map fst es) \<Longrightarrow> map_of (rev es) k = map_of es k"
  by (metis distinct_map distinct_rev map_of_inject_set rev_map set_rev)

lemma map_of_map_snd: "map_of (map (\<lambda>x. (fst x, f (snd x))) es) k = map_option f (map_of es k)"
  by (induction es) auto

lemma gob_devices_get:
  assumes "gm_ok new"
  shows "gm_get (gm_map val_NetDev (as_mapptr (gob_decode (GMapPtr (NetDev_val zero_NetDev) (gm_map NetDev_val old))
       (GMapPtr (NetDev_val zero_NetDev) (gm_map NetDev_val new))))) k =
     (case gm_get new k of Some d \<Rightarrow> Some (gob_copy d) | None \<Rightarrow> gm_get old k)"
proof (cases new)
  case None
  then have "gm_map NetDev_val new = None" "gm_get new k = None"
    by (simp_all add: gm_map_def gm_get_def gm_entries_def)
  then show ?thesis by simp
next
  case (Some es)
  have dist: "distinct (map fst es)" using assms Some by (simp add: gm_ok_def gm_keys_def gm_entries_def)
  have "map_of (rev (map (\<lambda>(k, v). (k, gob_decode (NetDev_val zero_NetDev) v)) (map (map_prod id NetDev_val) es))) k =
      map_option (\<lambda>d. gob_decode (NetDev_val zero_NetDev) (NetDev_val d)) (map_of es k)"
    using dist by (subst map_of_rev_distinct) (auto simp: map_prod_def comp_def case_prod_unfold
        map_of_map_snd [of "\<lambda>d. gob_decode (NetDev_val zero_NetDev) (NetDev_val d)"])
  then show ?thesis using Some
    by (cases old; cases "map_of es k")
       (auto simp: gm_map_def gm_get_def gm_entries_def foldl_al_update_get map_prod_def map_of_map gob_copy_def option.map_comp comp_def option.map_ident)
qed



section \<open>Tag changes\<close>

lemma change_tags_get:
  assumes "gm_ok adds" "gm_ok tags"
  shows "\<exists>m. change_tags dels adds tags = Inr m \<and> gm_ok m \<and>
    (\<forall>k. gm_get m k = (case gm_get adds k of Some v \<Rightarrow> Some v
       | None \<Rightarrow> if k \<in> set dels then None else gm_get tags k))"
proof -
  define t where "t = del_all gm_delete tags dels"
  have t: "gm_get t k = (if k \<in> set dels then None else gm_get tags k)" "gm_ok t" for k
    unfolding t_def by (simp add: gm.get_del_all) (rule gm.invar_del_all [OF assms(2)])
  show ?thesis
  proof (cases "gm_entries adds = []")
    case True
    then have "change_tags dels adds tags = Inr t" "gm_get adds k = None" for k
      by (simp_all add: change_tags_def t_def gm_len_def gm_get_def)
    with t show ?thesis by auto
  next
    case False
    obtain kvs where kvs: "make_if_nil t = Some kvs" using make_if_nil_Some by blast
    obtain m where m: "put_all gm_put (make_if_nil t) (gm_entries adds) = Inr m"
      using gm_put_all_total [of kvs "gm_entries adds"] kvs by auto
    have dist: "distinct (map fst (gm_entries adds))" using assms(1) by (simp add: gm_ok_def gm_keys_def)
    have "gm_ok (make_if_nil t)" using t(2) by (simp add: gm_ok_def)
    then have ok: "gm_ok m" by (rule gm.invar_put_all [OF m])
    have "change_tags dels adds tags = Inr m" using m False by (simp add: change_tags_def t_def gm_len_def Let_def)
    moreover have "gm_get m k = (case gm_get adds k of Some v \<Rightarrow> Some v
       | None \<Rightarrow> if k \<in> set dels then None else gm_get tags k)" for k
      using gm.get_put_all [OF m dist, of k] t(1) [of k] by (simp add: gm_get_make_if_nil gm_get_def [of adds] split: option.split)
    ultimately show ?thesis using ok by blast
  qed
qed

lemma change_ipmi_get:
  assumes "gm_ok adds" "\<forall>i. ipmi = Some i \<longrightarrow> gm_ok (ip_Tags i)"
  shows "\<exists>r. change_ipmi dels adds ipmi = Inr r \<and>
    (\<forall>k. gm_get (case r of Some i \<Rightarrow> ip_Tags i | None \<Rightarrow> None) k = (case gm_get adds k of Some v \<Rightarrow> Some v
       | None \<Rightarrow> if k \<in> set dels then None else gm_get (case ipmi of Some i \<Rightarrow> ip_Tags i | None \<Rightarrow> None) k))"
proof -
  define old where "old = (case ipmi of Some i \<Rightarrow> ip_Tags i | None \<Rightarrow> None)"
  have "gm_ok old" using assms(2) by (auto simp: old_def gm_ok_def gm_keys_def gm_entries_def split: option.splits)
  from change_tags_get [OF assms(1) this, of dels] obtain m where
    m: "change_tags dels adds old = Inr m" "\<forall>k. gm_get m k = (case gm_get adds k of Some v \<Rightarrow> Some v
       | None \<Rightarrow> if k \<in> set dels then None else gm_get old k)" by blast
  have nil: "del_all gm_delete None ks = (None :: string gomap)" for ks
    by (induction ks) (simp_all add: gm_delete_def)
  have zero: "ip_Tags zero_IpmiConf = None" by (simp add: zero_IpmiConf_def gm_nil_def)
  show ?thesis
  proof (cases "ipmi = None \<and> gm_entries adds = []")
    case True
    then show ?thesis by (auto simp: change_ipmi_def gm_len_def gm_get_def gm_entries_def)
  next
    case False
    have "\<exists>i. change_ipmi dels adds ipmi = Inr (Some i) \<and> ip_Tags i = m"
      using False m(1) unfolding change_ipmi_def change_tags_def old_def
      by (cases ipmi; cases "gm_entries adds = []") (auto simp: Let_def gm_len_def nil zero split: sum.splits)
    then obtain i where i: "change_ipmi dels adds ipmi = Inr (Some i)" "ip_Tags i = m" by blast
    have "\<forall>k. gm_get (case Some i of Some i \<Rightarrow> ip_Tags i | None \<Rightarrow> None) k = (case gm_get adds k of Some v \<Rightarrow> Some v
       | None \<Rightarrow> if k \<in> set dels then None else gm_get old k)"
      using m(2) unfolding option.case i(2) .
    with i(1) show ?thesis unfolding old_def by blast
  qed
qed

text \<open>The keys of every tag map of a profile are distinct.\<close>

definition tags_ok :: "Profile \<Rightarrow> bool" where
  "tags_ok p \<longleftrightarrow> gm_ok (pf_Tags p) \<and> (\<forall>i. pf_Ipmi p = Some i \<longrightarrow> gm_ok (ip_Tags i)) \<and>
     (\<forall>k d. gm_get (pf_NetDevs p) k = Some d \<longrightarrow> gm_ok (dev_Tags d))"

abbreviation ipmi_tags :: "Profile \<Rightarrow> string gomap" where
  "ipmi_tags p \<equiv> (case pf_Ipmi p of Some i \<Rightarrow> ip_Tags i | None \<Rightarrow> None)"

text \<open>
  Tag changes never panic, on whatever maps are nil. Afterwards every added tag has its new
  value, every deleted tag that was not added again is gone, and every other tag is as before; this
  holds for the tags of the profile, of its IPMI interface, and of the network device that is named,
  if the profile has it. No other device changes.
\<close>

theorem ApplyTagChanges_correct:
  assumes "tags_ok p" "gm_ok (add_TagsAdd add)" "gm_ok (add_IpmiTagsAdd add)" "gm_ok (add_NetTagsAdd add)"
  defines "after \<equiv> \<lambda>adds dels tags k. case gm_get adds k of Some v \<Rightarrow> Some v
       | None \<Rightarrow> if k \<in> set dels then None else gm_get tags k"
  shows "\<exists>q. ApplyTagChanges p add del = Inr q \<and>
    (\<forall>k. gm_get (pf_Tags q) k = after (add_TagsAdd add) (del_TagsDel del) (pf_Tags p) k) \<and>
    (\<forall>k. gm_get (ipmi_tags q) k = after (add_IpmiTagsAdd add) (del_IpmiTagsDel del) (ipmi_tags p) k) \<and>
    (\<forall>n. (case gm_get (pf_NetDevs p) n of
        None \<Rightarrow> gm_get (pf_NetDevs q) n = None
      | Some d \<Rightarrow> \<exists>t. gm_get (pf_NetDevs q) n = Some (d\<lparr>dev_Tags := t\<rparr>) \<and>
          (if n = add_Net add then \<forall>k. gm_get t k = after (add_NetTagsAdd add) (del_NetTagsDel del) (dev_Tags d) k
           else t = dev_Tags d)))"
proof -
  obtain tags where tags: "change_tags (del_TagsDel del) (add_TagsAdd add) (pf_Tags p) = Inr tags"
    "\<forall>k. gm_get tags k = after (add_TagsAdd add) (del_TagsDel del) (pf_Tags p) k"
    using change_tags_get [OF assms(2), of "pf_Tags p" "del_TagsDel del"] assms(1) unfolding tags_ok_def after_def by blast
  obtain ipmi where ipmi: "change_ipmi (del_IpmiTagsDel del) (add_IpmiTagsAdd add) (pf_Ipmi p) = Inr ipmi"
    "\<forall>k. gm_get (case ipmi of Some i \<Rightarrow> ip_Tags i | None \<Rightarrow> None) k = after (add_IpmiTagsAdd add) (del_IpmiTagsDel del) (ipmi_tags p) k"
    using change_ipmi_get [OF assms(3), of "pf_Ipmi p" "del_IpmiTagsDel del"] assms(1) unfolding tags_ok_def after_def by blast
  let ?p = "p\<lparr>pf_Tags := tags, pf_Ipmi := ipmi\<rparr>"
  show ?thesis
  proof (cases "gm_get (pf_NetDevs p) (add_Net add)")
    case None
    then have q: "ApplyTagChanges p add del = Inr ?p" by (simp add: ApplyTagChanges_def tags(1) ipmi(1))
    have "case gm_get (pf_NetDevs p) n of None \<Rightarrow> gm_get (pf_NetDevs ?p) n = None
      | Some d \<Rightarrow> \<exists>t. gm_get (pf_NetDevs ?p) n = Some (d\<lparr>dev_Tags := t\<rparr>) \<and>
          (if n = add_Net add then \<forall>k. gm_get t k = after (add_NetTagsAdd add) (del_NetTagsDel del) (dev_Tags d) k
           else t = dev_Tags d)" for n
      using None by (auto split: option.splits intro!: exI [of _ "dev_Tags _"])
    with q tags(2) ipmi(2) show ?thesis by (intro exI [of _ ?p]) simp
  next
    case (Some d)
    have "gm_ok (dev_Tags d)" using assms(1) Some by (auto simp: tags_ok_def)
    then obtain t where t: "change_tags (del_NetTagsDel del) (add_NetTagsAdd add) (dev_Tags d) = Inr t"
      "\<forall>k. gm_get t k = after (add_NetTagsAdd add) (del_NetTagsDel del) (dev_Tags d) k"
      using change_tags_get [OF assms(4), of "dev_Tags d" "del_NetTagsDel del"] unfolding after_def by blast
    obtain m where m: "gm_put (pf_NetDevs p) (add_Net add) (d\<lparr>dev_Tags := t\<rparr>) = Inr m"
      using Some by (cases "pf_NetDevs p") (auto simp: gm_put_def gm_get_def gm_entries_def)
    have "ApplyTagChanges p add del = Inr (?p\<lparr>pf_NetDevs := m\<rparr>)"
      using Some by (simp add: ApplyTagChanges_def tags(1) ipmi(1) t(1) m)
    moreover define q where "q = ?p\<lparr>pf_NetDevs := m\<rparr>"
    ultimately have q: "ApplyTagChanges p add del = Inr q" "tags = pf_Tags q" "ipmi = pf_Ipmi q" "m = pf_NetDevs q"
      by simp_all
    have dev: "case gm_get (pf_NetDevs p) n of None \<Rightarrow> gm_get m n = None
      | Some d \<Rightarrow> \<exists>t. gm_get m n = Some (d\<lparr>dev_Tags := t\<rparr>) \<and>
          (if n = add_Net add then \<forall>k. gm_get t k = after (add_NetTagsAdd add) (del_NetTagsDel del) (dev_Tags d) k
           else t = dev_Tags d)" for n
    proof (cases "n = add_Net add")
      case True
      then show ?thesis using gm_get_put [OF m, of n] Some t(2) by auto
    next
      case False
      then show ?thesis
        using gm_get_put [OF m, of n] by (auto split: option.splits intro!: exI [of _ "dev_Tags _"])
    qed
    show ?thesis using q(1) tags(2) ipmi(2) dev unfolding q(2-4) by blast
  qed
qed

theorem ApplyTagChanges_correct_witness:
  "\<exists>q. ApplyTagChanges zero_Profile
     \<lparr>add_TagsAdd = Some [(''rack'', ''r1'')], add_IpmiTagsAdd = Some [(''vlan'', ''7'')], add_NetTagsAdd = None,
      add_Net = ''default'', add_DiskName = [], add_PartName = [], add_FsName = []\<rparr>
     \<lparr>del_TagsDel = [''rack'', ''old''], del_IpmiTagsDel = [], del_NetTagsDel = [], del_NetDel = [],
      del_DiskDel = [], del_PartDel = [], del_FsDel = []\<rparr> = Inr q \<and>
     gm_get (pf_Tags q) ''rack'' = Some ''r1'' \<and> gm_get (pf_Tags q) ''old'' = None \<and>
     gm_get (ipmi_tags q) ''vlan'' = Some ''7''"
proof -
  let ?a = "\<lparr>add_TagsAdd = Some [(''rack'', ''r1'')], add_IpmiTagsAdd = Some [(''vlan'', ''7'')], add_NetTagsAdd = None,
      add_Net = ''default'', add_DiskName = [], add_PartName = [], add_FsName = []\<rparr>"
  let ?d = "\<lparr>del_TagsDel = [''rack'', ''old''], del_IpmiTagsDel = [], del_NetTagsDel = [], del_NetDel = [],
      del_DiskDel = [], del_PartDel = [], del_FsDel = []\<rparr>"
  have p: "tags_ok zero_Profile"
    by (simp add: tags_ok_def zero_Profile_def gm_nil_def gm_ok_def gm_keys_def gm_entries_def gm_get_def)
  have a: "gm_ok (add_TagsAdd ?a)" "gm_ok (add_IpmiTagsAdd ?a)" "gm_ok (add_NetTagsAdd ?a)"
    by (simp_all add: gm_ok_def gm_keys_def gm_entries_def)
  from ApplyTagChanges_correct [OF p a, of ?d] obtain q where "ApplyTagChanges zero_Profile ?a ?d = Inr q"
    "\<forall>k. gm_get (pf_Tags q) k = (case gm_get (add_TagsAdd ?a) k of Some v \<Rightarrow> Some v
       | None \<Rightarrow> if k \<in> set (del_TagsDel ?d) then None else gm_get (pf_Tags zero_Profile) k)"
    "\<forall>k. gm_get (ipmi_tags q) k = (case gm_get (add_IpmiTagsAdd ?a) k of Some v \<Rightarrow> Some v
       | None \<Rightarrow> if k \<in> set (del_IpmiTagsDel ?d) then None else gm_get (ipmi_tags zero_Profile) k)" by blast
  then show ?thesis by (intro exI [of _ q]) (simp add: gm_get_def gm_entries_def)
qed

end
