(* ===== verification/Go_Path.thy ===== *)
theory Go_Path
  imports Go_Prelude
begin

text \<open>
  The functions of \<open>path\<close> and \<open>path/filepath\<close> (on Unix) that the daemon and the overlay tools use,
  over the components of a path.
\<close>

definition rooted :: "string \<Rightarrow> bool" where
  "rooted p = HasPrefix p ''/''"

text \<open>\<open>Clean\<close> works through the components with the ones kept so far as a stack.\<close>

fun clean_comps :: "bool \<Rightarrow> string list \<Rightarrow> string list \<Rightarrow> string list" where
  "clean_comps r [] out = rev out"
| "clean_comps r (c # cs) out =
     (if c = [] \<or> c = ''.'' then clean_comps r cs out
      else if c = ''..'' then
        (case out of
           [] \<Rightarrow> if r then clean_comps r cs [] else clean_comps r cs [c]
         | o1 # os \<Rightarrow> if o1 = ''..'' then clean_comps r cs (c # out) else clean_comps r cs os)
      else clean_comps r cs (c # out))"

definition comps :: "string \<Rightarrow> string list" where
  "comps p = clean_comps (rooted p) (Split p (CHR ''/'')) []"

definition path_of :: "bool \<Rightarrow> string list \<Rightarrow> string" where
  "path_of r cs = (if r then ''/'' @ Join cs ''/'' else if cs = [] then ''.'' else Join cs ''/'')"

definition Clean :: "string \<Rightarrow> string" where
  "Clean p = path_of (rooted p) (comps p)"

text \<open>\<open>Join\<close> drops empty elements; without any it is the empty string.\<close>

definition path_Join :: "string list \<Rightarrow> string" where
  "path_Join es = (let es = filter (\<lambda>e. e \<noteq> []) es in if es = [] then [] else Clean (Join es ''/''))"

definition path_Base :: "string \<Rightarrow> string" where
  "path_Base p = (if p = [] then ''.'' else
     (case filter (\<lambda>c. c \<noteq> []) (Split p (CHR ''/'')) of [] \<Rightarrow> ''/'' | cs \<Rightarrow> last cs))"

fun strip_common :: "string list \<Rightarrow> string list \<Rightarrow> string list \<times> string list" where
  "strip_common (b # bs) (t # ts) = (if b = t then strip_common bs ts else (b # bs, t # ts))"
| "strip_common bs ts = (bs, ts)"

text \<open>\<open>Rel\<close>: \<open>None\<close> is the error.\<close>

definition Rel :: "string \<Rightarrow> string \<Rightarrow> string option" where
  "Rel base targ =
     (if rooted base \<noteq> rooted targ then None
      else (case strip_common (comps base) (comps targ) of
        (bs, ts) \<Rightarrow>
          if bs \<noteq> [] \<and> hd bs = ''..'' then None
          else Some (path_of False (replicate (length bs) ''..'' @ ts))))"

section \<open>Clean paths\<close>

definition proper :: "string \<Rightarrow> bool" where
  "proper c \<longleftrightarrow> c \<noteq> [] \<and> c \<noteq> ''.'' \<and> c \<noteq> ''..'' \<and> CHR ''/'' \<notin> set c"

lemma clean_comps_rooted:
  "list_all (\<lambda>c. CHR ''/'' \<notin> set c) cs \<Longrightarrow> list_all proper out \<Longrightarrow> list_all proper (clean_comps True cs out)"
proof (induction cs arbitrary: out)
  case (Cons c cs)
  show ?case
  proof (cases "c = [] \<or> c = ''.'' \<or> c = ''..''")
    case True
    with Cons show ?thesis by (cases out) (auto simp: proper_def)
  next
    case False
    with Cons.prems have "proper c" by (simp add: proper_def)
    with False Cons show ?thesis by simp
  qed
qed (simp add: list_all_rev)

lemma comps_rooted: "rooted p \<Longrightarrow> \<forall>c\<in>set (comps p). proper c"
  unfolding comps_def using clean_comps_rooted [of "Split p (CHR ''/'')" "[]"] Split_parts_no_sep [of _ p "CHR ''/''"]
  by (simp add: list_all_iff)

lemma clean_comps_proper: "\<forall>c\<in>set cs. proper c \<Longrightarrow> clean_comps r cs out = rev out @ cs"
  by (induction cs arbitrary: out) (auto simp: proper_def)

lemma Split_path: "\<forall>c\<in>set cs. proper c \<Longrightarrow> Split (''/'' @ Join cs ''/'') (CHR ''/'') = [] # (if cs = [] then [[]] else cs)"
  using Split_Join [of cs "CHR ''/''"] by (auto simp: proper_def)

lemma comps_path_of: "\<forall>c\<in>set cs. proper c \<Longrightarrow> comps (path_of True cs) = cs"
  unfolding comps_def path_of_def using Split_path [of cs] clean_comps_proper [of cs True "[]"]
  by (auto simp: rooted_def)

lemma rooted_Clean: "rooted (Clean p) = rooted p \<or> \<not> rooted p"
  by (auto simp: rooted_def Clean_def path_of_def)

lemma rooted_Clean_rooted [simp]: "rooted p \<Longrightarrow> rooted (Clean p)"
  by (simp add: Clean_def path_of_def) (simp add: rooted_def)

lemma comps_Clean: "rooted p \<Longrightarrow> comps (Clean p) = comps p"
  unfolding Clean_def using comps_path_of [OF comps_rooted] by simp

lemma Clean_Clean: "rooted p \<Longrightarrow> Clean (Clean p) = Clean p"
  by (simp add: Clean_def [of "Clean p"] comps_Clean) (simp add: Clean_def)

lemma strip_common_parts:
  "strip_common bs ts = (bs', ts') \<Longrightarrow> \<exists>cs. bs = cs @ bs' \<and> ts = cs @ ts'"
proof (induction bs ts rule: strip_common.induct)
  case (1 b bs t ts)
  show ?case
  proof (cases "b = t")
    case True
    with 1 obtain cs where "bs = cs @ bs'" "ts = cs @ ts'" by auto
    with True show ?thesis by (intro exI [of _ "b # cs"]) simp
  qed (use 1 in simp)
qed auto

lemma Join_dots: "HasPrefix (Join (''..'' # cs) ''/'') ''..''"
  by (cases cs) auto

text \<open>A relative path that does not start with \<open>..\<close> leads below the base.\<close>

lemma Rel_below:
  assumes "rooted base" "Rel base targ = Some rel" "\<not> HasPrefix rel ''..''"
  shows "\<exists>cs. comps targ = comps base @ cs"
proof -
  obtain bs ts where st: "strip_common (comps base) (comps targ) = (bs, ts)" by fastforce
  have rel: "rel = path_of False (replicate (length bs) ''..'' @ ts)"
    using assms(1,2) st by (auto simp: Rel_def split: if_splits)
  have "bs = []"
  proof (rule ccontr)
    assume "bs \<noteq> []"
    then obtain n where "length bs = Suc n" by (cases bs) auto
    then show False using assms(3) Join_dots [of "replicate n ''..'' @ ts"] by (simp add: rel path_of_def)
  qed
  with strip_common_parts [OF st] show ?thesis by auto
qed

section \<open>Joined paths\<close>

lemma Split_append_sep: "Split (a @ c # b) c = Split a c @ Split b c"
  by (induction a) (auto split: list.splits)

lemma clean_comps_append: "clean_comps r (xs @ ys) out = clean_comps r ys (rev (clean_comps r xs out))"
  by (induction r xs out rule: clean_comps.induct) (auto split: list.splits)

lemma comps_below:
  assumes "rooted d" "\<forall>c\<in>set cs. proper c" "cs \<noteq> []"
  shows "comps (d @ ''/'' @ Join cs ''/'') = comps d @ cs"
proof -
  have r: "rooted (d @ ''/'' @ Join cs ''/'')" using assms(1) by (cases d) (auto simp: rooted_def)
  have "Split (Join cs ''/'') (CHR ''/'') = cs"
    using Split_Join [of cs "CHR ''/''"] assms(2,3) by (auto simp: proper_def)
  with r assms(1) show ?thesis
    by (simp add: comps_def Split_append_sep clean_comps_append clean_comps_proper [OF assms(2)])
qed

lemma strip_common_prefix: "strip_common xs (xs @ ys) = ([], ys)"
  by (induction xs) auto

lemma rooted_append [simp]: "rooted d \<Longrightarrow> rooted (d @ s)"
  by (cases d) (auto simp: rooted_def)

lemma rooted_ne: "rooted d \<Longrightarrow> d \<noteq> []"
  by (auto simp: rooted_def)

lemma rooted_Join: "rooted d \<Longrightarrow> rooted (path_Join (d # es))"
proof -
  assume r: "rooted d"
  then have "rooted (Join (d # filter (\<lambda>e. e \<noteq> []) es) ''/'')"
    by (cases "filter (\<lambda>e. e \<noteq> []) es") simp_all
  with r show ?thesis by (simp add: path_Join_def rooted_ne)
qed

lemma path_of_rooted: "rooted p \<Longrightarrow> Clean p = path_of True (comps p)"
  by (simp add: Clean_def)

lemma rooted_path_of [simp]: "rooted (path_of True cs)"
  by (simp add: path_of_def rooted_def)

text \<open>Joining anything to the root gives a clean path without dots.\<close>

lemma Join_root: "\<exists>cs. path_Join [''/'', x] = path_of True cs \<and> (\<forall>c\<in>set cs. proper c)"
proof -
  let ?p = "if x = [] then ''/'' else ''//'' @ x"
  have r: "rooted ?p" by (simp add: rooted_def)
  have "path_Join [''/'', x] = Clean ?p" by (simp add: path_Join_def)
  with r comps_rooted [OF r] show ?thesis unfolding path_of_rooted [OF r] by auto
qed

text \<open>Joining such a path to a directory leads below the directory.\<close>

lemma Join_below:
  assumes "rooted d" "\<forall>c\<in>set cs. proper c"
  shows "path_Join [d, path_of True cs] = path_of True (comps d @ cs)"
proof -
  let ?p = "d @ CHR ''/'' # path_of True cs"
  have p: "path_of True cs = ''/'' @ Join cs ''/''" by (simp add: path_of_def)
  have "comps ?p = clean_comps True (Split d (CHR ''/'') @ Split (path_of True cs) (CHR ''/'')) []"
    unfolding comps_def using assms(1) by (simp add: Split_append_sep)
  also have "\<dots> = clean_comps True (if cs = [] then [[]] else cs) (rev (comps d))"
    using Split_path [OF assms(2)] assms(1) unfolding p by (simp add: clean_comps_append comps_def)
  also have "\<dots> = comps d @ cs" using clean_comps_proper [OF assms(2)] by simp
  finally have "comps ?p = comps d @ cs" .
  moreover have "path_Join [d, path_of True cs] = Clean ?p"
    using rooted_ne [OF assms(1)] by (simp add: path_Join_def p)
  ultimately show ?thesis using assms(1) by (simp add: path_of_rooted)
qed

end
