(* ===== verification/Boot_Files.thy ===== *)
theory Boot_Files
  imports Node_Data Go_Path
begin

text \<open>
  Where the boot files of a node are: the directories of images (\<open>image/config.go\<close>), versions in file
  names (\<open>util/version.go\<close>), kernels (\<open>kernel/kernel.go\<close>), initramfs images (\<open>image/initramfs.go\<close>),
  boot loaders (\<open>image/shimgrub.go\<close>) and overlay images (\<open>overlay/config.go\<close>).

  The file system is the list of the paths that are files and of those that are directories.
  The library \<open>go-version\<close> is a parameter: a version is represented by the text its \<open>String\<close> method
  returns, which determines the comparison.
\<close>

record fsys =
  fy_files :: "string list"
  fy_dirs :: "string list"

definition IsFile :: "fsys \<Rightarrow> string \<Rightarrow> bool" where
  "IsFile fy p = (p \<noteq> [] \<and> p \<in> set (fy_files fy))"

definition IsDir :: "fsys \<Rightarrow> string \<Rightarrow> bool" where
  "IsDir fy p = (p \<noteq> [] \<and> p \<in> set (fy_dirs fy))"

text \<open>\<open>os.Stat\<close> without an error.\<close>

definition path_exists :: "fsys \<Rightarrow> string \<Rightarrow> bool" where
  "path_exists fy p = (p \<in> set (fy_files fy) \<or> p \<in> set (fy_dirs fy))"

record version_lib =
  vl_New :: "string \<Rightarrow> string option"
  vl_Less :: "string \<Rightarrow> string \<Rightarrow> bool"

section \<open>Directories\<close>

definition SourceDir :: "string \<Rightarrow> string \<Rightarrow> string" where
  "SourceDir chrootdir name = path_Join [chrootdir, name]"

definition RootFsDir :: "string \<Rightarrow> string \<Rightarrow> string" where
  "RootFsDir chrootdir name = path_Join [SourceDir chrootdir name, ''rootfs'']"

definition RunDir :: "string \<Rightarrow> string \<Rightarrow> string" where
  "RunDir chrootdir name = path_Join [SourceDir chrootdir name, ''run'']"

definition ImageParentDir :: "string \<Rightarrow> string" where
  "ImageParentDir provisiondir = path_Join [provisiondir, ''images'']"

definition ImageFile :: "string \<Rightarrow> string \<Rightarrow> string" where
  "ImageFile provisiondir name = path_Join [ImageParentDir provisiondir, name @ ''.img'']"

definition CompressedImageFile :: "string \<Rightarrow> string \<Rightarrow> string" where
  "CompressedImageFile provisiondir name = ImageFile provisiondir name @ ''.gz''"

section \<open>Patterns\<close>

text \<open>
  \<open>filepath.Match\<close> on one path component, for the pattern characters the program uses (star and
  question mark); and \<open>filepath.Glob\<close>: the existing paths that match component by component, in the
  order of their components. Character classes and escapes are not modelled.
\<close>

fun glob_match :: "string \<Rightarrow> string \<Rightarrow> bool" where
  "glob_match [] s = (s = [])"
| "glob_match (p # ps) [] = (p = CHR ''*'' \<and> glob_match ps [])"
| "glob_match (p # ps) (c # cs) =
     (if p = CHR ''*'' then glob_match ps (c # cs) \<or> glob_match (p # ps) cs
      else (p = CHR ''?'' \<or> p = c) \<and> glob_match ps cs)"

definition Glob :: "fsys \<Rightarrow> string \<Rightarrow> string list" where
  "Glob fy pat = sort_key comps (filter (\<lambda>p. rooted p = rooted pat \<and> list_all2 glob_match (comps pat) (comps p))
     (fy_files fy @ fy_dirs fy))"

section \<open>Versions\<close>

definition digits :: "string \<Rightarrow> string" where
  "digits s = takeWhile is_digit s"

text \<open>
  The pattern \<open>\d+\.\d+\.\d+(-[\d\.]+|)\<close> at the beginning of a string. A run of digits is taken whole,
  since a dot has to follow it; the suffix is taken when at least one character follows the hyphen.
\<close>

definition dotted :: "string \<Rightarrow> (string \<times> string) option" where
  "dotted s = (let d = digits s; r = drop (length d) s in
     if d \<noteq> [] \<and> r \<noteq> [] \<and> hd r = CHR ''.'' then Some (d @ ''.'', tl r) else None)"

definition match_version :: "string \<Rightarrow> string option" where
  "match_version s = (case dotted s of
      None \<Rightarrow> None
    | Some (a, r) \<Rightarrow>
        (case dotted r of
           None \<Rightarrow> None
         | Some (b, r) \<Rightarrow>
             let c = digits r; r = drop (length c) r;
                 suffix = (case r of
                     CHR ''-'' # t \<Rightarrow> takeWhile (\<lambda>x. is_digit x \<or> x = CHR ''.'') t
                   | _ \<Rightarrow> [])
             in if c = [] then None
                else Some (a @ b @ c @ (if suffix = [] then [] else ''-'' @ suffix))))"

text \<open>\<open>FindAllString\<close>: the matches that do not overlap, from left to right.\<close>

function version_matches :: "string \<Rightarrow> string list" where
  "version_matches [] = []"
| "version_matches (c # s) = (case match_version (c # s) of
      None \<Rightarrow> version_matches s
    | Some m \<Rightarrow> m # version_matches (drop (max 1 (length m)) (c # s)))"
  by pat_completeness auto

termination version_matches
  by (relation "measure length") auto

definition trim_dot :: "string \<Rightarrow> string" where
  "trim_dot s = (if HasSuffix s ''.'' then butlast s else s)"

definition ParseVersion :: "version_lib \<Rightarrow> string \<Rightarrow> string option" where
  "ParseVersion vl s = (case List.map_filter (\<lambda>m. vl_New vl (trim_dot m)) (version_matches s) of
      [] \<Rightarrow> None | v # _ \<Rightarrow> Some v)"

section \<open>Kernels\<close>

record Kernel =
  krn_Path :: string
  krn_ImageName :: string

definition kernelSearchPaths :: "string list" where
  "kernelSearchPaths = [''/boot/Image-*'', ''/boot/vmlinuz-linux*'', ''/boot/vmlinuz-*'',
     ''/lib/modules/*/vmlinuz'', ''/lib/modules/*/vmlinuz.gz'']"

definition Kernel_version :: "version_lib \<Rightarrow> Kernel \<Rightarrow> string option" where
  "Kernel_version vl k = ParseVersion vl (krn_Path k)"

definition Kernel_Version :: "version_lib \<Rightarrow> Kernel \<Rightarrow> string" where
  "Kernel_Version vl k = (case Kernel_version vl k of None \<Rightarrow> [] | Some v \<Rightarrow> v)"

definition IsDebug :: "Kernel \<Rightarrow> bool" where
  "IsDebug k = Contains (krn_Path k) ''+debug''"

definition IsRescue :: "Kernel \<Rightarrow> bool" where
  "IsRescue k = Contains (krn_Path k) ''-rescue''"

definition Kernel_FullPath :: "string \<Rightarrow> Kernel \<Rightarrow> string" where
  "Kernel_FullPath chrootdir k = path_Join [RootFsDir chrootdir (krn_ImageName k), krn_Path k]"

definition collection_Less :: "version_lib \<Rightarrow> Kernel \<Rightarrow> Kernel \<Rightarrow> bool" where
  "collection_Less vl i j = (case (Kernel_version vl i, Kernel_version vl j) of
      (None, Some _) \<Rightarrow> True
    | (Some iv, Some jv) \<Rightarrow> vl_Less vl iv jv
    | _ \<Rightarrow> False)"

text \<open>
  \<open>sort.Sort\<close> as the insertion sort that it is for at most twelve elements: the sorted part is kept
  reversed and a new element moves left while it is less.
\<close>

fun sift :: "('a \<Rightarrow> 'a \<Rightarrow> bool) \<Rightarrow> 'a \<Rightarrow> 'a list \<Rightarrow> 'a list" where
  "sift lt x [] = [x]"
| "sift lt x (y # ys) = (if lt x y then y # sift lt x ys else x # y # ys)"

definition sort_Sort :: "('a \<Rightarrow> 'a \<Rightarrow> bool) \<Rightarrow> 'a list \<Rightarrow> 'a list" where
  "sort_Sort lt xs = rev (foldl (\<lambda>acc x. sift lt x acc) [] xs)"

definition collection_Default :: "version_lib \<Rightarrow> Kernel list \<Rightarrow> Kernel option" where
  "collection_Default vl k =
     find (\<lambda>k. \<not> IsDebug k \<and> \<not> IsRescue k) (sort_Sort (\<lambda>i j. collection_Less vl j i) k)"

definition collection_Version :: "version_lib \<Rightarrow> Kernel list \<Rightarrow> string \<Rightarrow> Kernel option" where
  "collection_Version vl ks version =
     find (\<lambda>k. \<not> (IsDebug k \<or> IsRescue k) \<and> HasPrefix (Kernel_Version vl k) version) ks"

text \<open>The paths below the root of an image that match a pattern, as absolute paths inside the image.\<close>

definition glob_image :: "fsys \<Rightarrow> string \<Rightarrow> string \<Rightarrow> string list" where
  "glob_image fy root pat =
     map (\<lambda>rel. path_Join [''/'', rel]) (List.map_filter (Rel root) (Glob fy (path_Join [root, pat])))"

definition FindKernelsFromPattern :: "fsys \<Rightarrow> string \<Rightarrow> string \<Rightarrow> string \<Rightarrow> Kernel list" where
  "FindKernelsFromPattern fy chrootdir imageName pat =
     map (\<lambda>p. \<lparr>krn_Path = p, krn_ImageName = imageName\<rparr>) (glob_image fy (RootFsDir chrootdir imageName) pat)"

definition FindKernels :: "fsys \<Rightarrow> string \<Rightarrow> string \<Rightarrow> Kernel list" where
  "FindKernels fy chrootdir imageName = concat (map (FindKernelsFromPattern fy chrootdir imageName) kernelSearchPaths)"

definition FromNode :: "fsys \<Rightarrow> version_lib \<Rightarrow> string \<Rightarrow> Node \<Rightarrow> Kernel option" where
  "FromNode fy vl chrootdir n =
     (let img = pf_ImageName (nd_Profile n);
          version = (case pf_Kernel (nd_Profile n) of None \<Rightarrow> [] | Some k \<Rightarrow> kn_Version k)
      in if img = [] then None
         else if version \<noteq> [] then
           (let k = \<lparr>krn_Path = path_Join [''/'', version], krn_ImageName = img\<rparr> in
            if IsFile fy (Kernel_FullPath chrootdir k) then Some k
            else collection_Version vl (FindKernels fy chrootdir img) version)
         else collection_Default vl (FindKernels fy chrootdir img))"

section \<open>Initramfs images\<close>

definition initramfsSearchPaths :: "string list" where
  "initramfsSearchPaths = [''/boot/initramfs-*'', ''/boot/initrd-*'', ''/boot/initrd.img-*'']"

text \<open>Here the last match counts.\<close>

definition Initramfs_Version :: "version_lib \<Rightarrow> string \<Rightarrow> string" where
  "Initramfs_Version vl path = (case rev (List.map_filter (\<lambda>m. vl_New vl (trim_dot m)) (version_matches path)) of
      [] \<Rightarrow> [] | v # _ \<Rightarrow> v)"

definition FindInitramfsFromPattern :: "fsys \<Rightarrow> version_lib \<Rightarrow> string \<Rightarrow> string \<Rightarrow> string \<Rightarrow> string \<Rightarrow> string option" where
  "FindInitramfsFromPattern fy vl chrootdir imageName version pat =
     find (\<lambda>p. HasPrefix (Initramfs_Version vl p) version) (glob_image fy (RootFsDir chrootdir imageName) pat)"

text \<open>The result with its full path.\<close>

definition FindInitramfs :: "fsys \<Rightarrow> version_lib \<Rightarrow> string \<Rightarrow> string \<Rightarrow> string \<Rightarrow> string option" where
  "FindInitramfs fy vl chrootdir imageName version =
     (case List.map_filter (FindInitramfsFromPattern fy vl chrootdir imageName version) initramfsSearchPaths of
        [] \<Rightarrow> None
      | p # _ \<Rightarrow> Some (path_Join [RootFsDir chrootdir imageName, p]))"

section \<open>Boot loaders\<close>

definition shimDirs :: "string list" where
  "shimDirs = [''/usr/share/efi/*/'', ''/usr/lib64/efi/'', ''/boot/efi/EFI/*/'']"

definition shimNames :: "string list" where
  "shimNames = [''shim.efi'', ''shim-sles.efi'', ''shimx64.efi'', ''shim-susesigned.efi'']"

definition grubDirs :: "string list" where
  "grubDirs = [''/usr/lib64/efi/'', ''/usr/share/grub2/*-efi/'', ''/usr/share/efi/*/'', ''/boot/efi/EFI/*/'']"

definition grubNames :: "string list" where
  "grubNames = [''grub-tpm.efi'', ''grub.efi'', ''grubx64.efi'', ''grubia32.efi'', ''grubaa64.efi'', ''grubarm.efi'']"

definition BootLoaderFindPath :: "fsys \<Rightarrow> string \<Rightarrow> string list \<Rightarrow> string list \<Rightarrow> string" where
  "BootLoaderFindPath fy cpath names dirs =
     (case find (path_exists fy) (concat (map (\<lambda>bdir. concat (map (\<lambda>bname. Glob fy (path_Join [cpath, bdir, bname])) names)) dirs)) of
        None \<Rightarrow> [] | Some p \<Rightarrow> p)"

definition image_path :: "string \<Rightarrow> string \<Rightarrow> string" where
  "image_path chrootdir img = (if img \<noteq> [] then RootFsDir chrootdir img else ''/'')"

definition ShimFind :: "fsys \<Rightarrow> string \<Rightarrow> string \<Rightarrow> string" where
  "ShimFind fy chrootdir img = BootLoaderFindPath fy (image_path chrootdir img) shimNames shimDirs"

definition GrubFind :: "fsys \<Rightarrow> string \<Rightarrow> string \<Rightarrow> string" where
  "GrubFind fy chrootdir img = BootLoaderFindPath fy (image_path chrootdir img) grubNames grubDirs"

section \<open>Overlay images\<close>

definition is_word :: "char \<Rightarrow> bool" where
  "is_word c = (let n = (of_char c :: nat) in
     (48 \<le> n \<and> n \<le> 57) \<or> (65 \<le> n \<and> n \<le> 90) \<or> (97 \<le> n \<and> n \<le> 122) \<or> n = 95)"

definition ToUpper :: "string \<Rightarrow> string" where
  "ToUpper s = map (\<lambda>c. let n = (of_char c :: nat) in if 97 \<le> n \<and> n \<le> 122 then char_of (n - 32) else c) s"

definition ValidateName :: "string \<Rightarrow> err option" where
  "ValidateName name =
     (if name = [] then Some (ErrMsg ''overlay name must not be empty'')
      else if \<not> list_all (\<lambda>c. is_word c \<or> c \<in> set ''-.:'') name then Some (ErrMsg ''overlay name contains illegal characters'')
      else None)"

definition overlay_Image :: "string \<Rightarrow> string \<Rightarrow> string \<Rightarrow> string list \<Rightarrow> string" where
  "overlay_Image overlaydir nodeName ctxt overlayNames =
     (if \<exists>o1\<in>set overlayNames. ValidateName o1 \<noteq> None then []
      else if ctxt \<noteq> [] then path_Join [overlaydir, nodeName, ''__'' @ ToUpper ctxt @ ''__.img'']
      else if overlayNames \<noteq> [] then path_Join [overlaydir, nodeName, Join overlayNames ''-'' @ ''.img'']
      else [])"

text \<open>\<open>RemoveImage\<close> when \<open>os.Remove\<close> succeeds, also on the compressed file.\<close>

definition RemoveImage :: "string \<Rightarrow> string \<Rightarrow> string \<Rightarrow> string list \<Rightarrow> fsys \<Rightarrow> fsys" where
  "RemoveImage overlaydir nodeName ctxt overlayNames fy =
     (let p = overlay_Image overlaydir nodeName ctxt overlayNames in
      fy\<lparr>fy_files := filter (\<lambda>f. f \<noteq> p \<and> f \<noteq> p @ ''.gz'') (fy_files fy)\<rparr>)"

section \<open>The kernel of a node\<close>

lemma rooted_RootFsDir: "rooted chrootdir \<Longrightarrow> rooted (RootFsDir chrootdir img)"
  by (simp add: RootFsDir_def SourceDir_def rooted_Join)

lemma FindKernels_kernel:
  assumes "k \<in> set (FindKernels fy chrootdir img)"
  shows "krn_ImageName k = img \<and> (\<exists>cs. krn_Path k = path_of True cs \<and> (\<forall>c\<in>set cs. proper c))"
  using assms Join_root unfolding FindKernels_def FindKernelsFromPattern_def glob_image_def
  by (auto simp: List.map_filter_def)

lemma sort_Sort_set: "set (sort_Sort lt xs) = set xs"
proof -
  have s: "set (sift lt x ys) = insert x (set ys)" for x ys by (induction ys) auto
  have "set (foldl (\<lambda>acc x. sift lt x acc) acc xs) = set acc \<union> set xs" for acc
    by (induction xs arbitrary: acc) (auto simp: s)
  then show ?thesis by (simp add: sort_Sort_def)
qed

lemma find_set: "find P xs = Some x \<Longrightarrow> x \<in> set xs \<and> P x"
  by (auto simp: find_Some_iff)

text \<open>
  The kernel of a node lies inside its image, whatever the configured version says: its path is
  clean, and the file sent for it is this path below the root of the image. It is the configured file
  if that exists, and otherwise one found by the search, neither a debug nor a rescue kernel, whose
  version starts with the configured one.
\<close>

lemma FromNode_inside:
  assumes "rooted chrootdir" "FromNode fy vl chrootdir n = Some k"
  defines "img \<equiv> pf_ImageName (nd_Profile n)"
    and "version \<equiv> (case pf_Kernel (nd_Profile n) of None \<Rightarrow> [] | Some k \<Rightarrow> kn_Version k)"
  shows "krn_ImageName k = img \<and>
    (\<exists>cs. (\<forall>c\<in>set cs. proper c) \<and> krn_Path k = path_of True cs \<and>
       Kernel_FullPath chrootdir k = path_of True (comps (RootFsDir chrootdir img) @ cs)) \<and>
    (version \<noteq> [] \<and> krn_Path k = path_Join [''/'', version] \<and> IsFile fy (Kernel_FullPath chrootdir k) \<or>
     k \<in> set (FindKernels fy chrootdir img) \<and> \<not> IsDebug k \<and> \<not> IsRescue k \<and> HasPrefix (Kernel_Version vl k) version)"
proof -
  have src: "version \<noteq> [] \<and> krn_Path k = path_Join [''/'', version] \<and> krn_ImageName k = img \<and> IsFile fy (Kernel_FullPath chrootdir k) \<or>
     k \<in> set (FindKernels fy chrootdir img) \<and> \<not> IsDebug k \<and> \<not> IsRescue k \<and> HasPrefix (Kernel_Version vl k) version"
    using assms(2) unfolding FromNode_def Let_def img_def [symmetric] version_def [symmetric]
    by (auto simp: collection_Version_def collection_Default_def sort_Sort_set split: if_splits dest!: find_set)
  then have "krn_ImageName k = img \<and> (\<exists>cs. krn_Path k = path_of True cs \<and> (\<forall>c\<in>set cs. proper c))"
  proof
    assume "version \<noteq> [] \<and> krn_Path k = path_Join [''/'', version] \<and> krn_ImageName k = img \<and> IsFile fy (Kernel_FullPath chrootdir k)"
    then show ?thesis using Join_root [of version] by simp
  qed (blast dest: FindKernels_kernel)
  then obtain cs where cs: "krn_ImageName k = img" "krn_Path k = path_of True cs" "\<forall>c\<in>set cs. proper c" by blast
  moreover have "Kernel_FullPath chrootdir k = path_of True (comps (RootFsDir chrootdir img) @ cs)"
    using Join_below [OF rooted_RootFsDir [OF assms(1)] cs(3)] cs(1,2) by (simp add: Kernel_FullPath_def)
  ultimately show ?thesis using src by auto
qed

definition sample_versions :: version_lib where
  "sample_versions = \<lparr>vl_New = Some, vl_Less = (<)\<rparr>"

text \<open>What is known of \<open>Version.LessThan\<close>: it is the strict part of a total preorder.\<close>

definition version_lib_ok :: "version_lib \<Rightarrow> bool" where
  "version_lib_ok vl \<longleftrightarrow> (\<forall>a b. vl_Less vl a b \<longrightarrow> \<not> vl_Less vl b a) \<and>
     (\<forall>a b c. \<not> vl_Less vl a b \<longrightarrow> \<not> vl_Less vl b c \<longrightarrow> \<not> vl_Less vl a c)"

lemma sift_sorted:
  assumes "\<And>a b. lt a b \<Longrightarrow> \<not> lt b a" "\<And>a b c. \<not> lt a b \<Longrightarrow> \<not> lt b c \<Longrightarrow> \<not> lt a c"
  shows "sorted_wrt (\<lambda>a b. \<not> lt a b) ys \<Longrightarrow> sorted_wrt (\<lambda>a b. \<not> lt a b) (sift lt x ys)"
proof (induction ys)
  case (Cons y ys)
  have s: "set (sift lt x zs) = insert x (set zs)" for zs by (induction zs) auto
  show ?case
  proof (cases "lt x y")
    case True
    then show ?thesis using Cons assms(1) by (auto simp: s)
  next
    case False
    then show ?thesis using Cons assms(2) by auto
  qed
qed simp

lemma sort_Sort_sorted:
  assumes "\<And>a b. lt a b \<Longrightarrow> \<not> lt b a" "\<And>a b c. \<not> lt a b \<Longrightarrow> \<not> lt b c \<Longrightarrow> \<not> lt a c"
  shows "sorted_wrt (\<lambda>a b. \<not> lt b a) (sort_Sort lt xs)"
proof -
  have "sorted_wrt (\<lambda>a b. \<not> lt a b) acc \<Longrightarrow> sorted_wrt (\<lambda>a b. \<not> lt a b) (foldl (\<lambda>acc x. sift lt x acc) acc xs)" for acc
    using sift_sorted [of lt, OF assms] by (induction xs arbitrary: acc) auto
  then show ?thesis by (simp add: sort_Sort_def sorted_wrt_rev)
qed

lemma find_first: "find P xs = Some x \<Longrightarrow> sorted_wrt R xs \<Longrightarrow> y \<in> set xs \<Longrightarrow> P y \<Longrightarrow> y = x \<or> R x y"
  by (induction xs) (auto split: if_splits)

lemma collection_Less_order:
  assumes "version_lib_ok vl"
  shows "collection_Less vl a b \<Longrightarrow> \<not> collection_Less vl b a"
    and "\<not> collection_Less vl a b \<Longrightarrow> \<not> collection_Less vl b c \<Longrightarrow> \<not> collection_Less vl a c"
proof -
  have o: "vl_Less vl x y \<Longrightarrow> \<not> vl_Less vl y x" "\<not> vl_Less vl x y \<Longrightarrow> \<not> vl_Less vl y z \<Longrightarrow> \<not> vl_Less vl x z" for x y z
    using assms unfolding version_lib_ok_def by blast+
  show "collection_Less vl a b \<Longrightarrow> \<not> collection_Less vl b a"
    using o(1) by (cases "Kernel_version vl a"; cases "Kernel_version vl b") (simp_all add: collection_Less_def)
  show "\<not> collection_Less vl a b \<Longrightarrow> \<not> collection_Less vl b c \<Longrightarrow> \<not> collection_Less vl a c"
    using o(2) by (cases "Kernel_version vl a"; cases "Kernel_version vl b"; cases "Kernel_version vl c")
      (simp_all add: collection_Less_def)
qed

text \<open>
  (C35) Without a configured version, the kernel is the latest one: no other kernel of the image that
  is neither a debug nor a rescue kernel has a greater version, and there is none only if all kernels
  are of those kinds.
\<close>

theorem collection_Default_latest:
  assumes "version_lib_ok vl"
  shows "case collection_Default vl ks of
      None \<Rightarrow> \<forall>k\<in>set ks. IsDebug k \<or> IsRescue k
    | Some k \<Rightarrow> k \<in> set ks \<and> \<not> IsDebug k \<and> \<not> IsRescue k \<and>
        (\<forall>k'\<in>set ks. \<not> IsDebug k' \<and> \<not> IsRescue k' \<longrightarrow> \<not> collection_Less vl k k')"
proof -
  let ?lt = "\<lambda>i j. collection_Less vl j i" and ?P = "\<lambda>k. \<not> IsDebug k \<and> \<not> IsRescue k"
  have sorted: "sorted_wrt (\<lambda>a b. \<not> ?lt b a) (sort_Sort ?lt ks)"
    by (rule sort_Sort_sorted) (use collection_Less_order [OF assms] in blast)+
  show ?thesis
  proof (cases "find ?P (sort_Sort ?lt ks)")
    case None
    then have "\<forall>k\<in>set ks. IsDebug k \<or> IsRescue k" by (auto simp: find_None_iff sort_Sort_set)
    with None show ?thesis by (simp add: collection_Default_def)
  next
    case (Some k)
    then have "k \<in> set ks" "?P k" using find_set sort_Sort_set by fastforce+
    moreover have "\<not> collection_Less vl k k'" if "k' \<in> set ks" "?P k'" for k'
      using find_first [OF Some sorted _ that(2)] that(1) collection_Less_order(1) [OF assms, of k k] by (auto simp: sort_Sort_set)
    ultimately show ?thesis using Some by (auto simp: collection_Default_def)
  qed
qed

lemma sample_versions_ok: "version_lib_ok sample_versions"
  by (auto simp: version_lib_ok_def sample_versions_def)

theorem collection_Default_latest_witness:
  "case collection_Default sample_versions [\<lparr>krn_Path = ''/boot/vmlinuz-5.14.0'', krn_ImageName = ''rocky''\<rparr>,
        \<lparr>krn_Path = ''/lib/modules/6.1.2/vmlinuz'', krn_ImageName = ''rocky''\<rparr>] of
     None \<Rightarrow> False
   | Some k \<Rightarrow> \<not> collection_Less sample_versions k \<lparr>krn_Path = ''/lib/modules/6.1.2/vmlinuz'', krn_ImageName = ''rocky''\<rparr>"
proof -
  let ?a = "\<lparr>krn_Path = ''/boot/vmlinuz-5.14.0'', krn_ImageName = ''rocky''\<rparr>"
  let ?b = "\<lparr>krn_Path = ''/lib/modules/6.1.2/vmlinuz'', krn_ImageName = ''rocky''\<rparr>"
  have "\<not> IsDebug ?a" "\<not> IsRescue ?a" "\<not> IsDebug ?b" "\<not> IsRescue ?b" by code_simp+
  with collection_Default_latest [OF sample_versions_ok, of "[?a, ?b]"] show ?thesis
    by (auto split: option.splits)
qed

end
