(* ===== verification/Wwd_State.thy ===== *)
theory Wwd_State
  imports Node_Registry_Facts Boot_Files
begin

text \<open>
  The state of the provisioning daemon (\<open>internal/pkg/warewulfd\<close>): the node database with its index
  by hardware address and the discovery of new nodes (\<open>nodedb.go\<close>), the status database
  (\<open>status.go\<close>) and the lookup in the ARP cache (\<open>util.go\<close>).

  The daemon's global variables and the files it touches are one record \<open>world\<close>; an operation
  returns the new world. Handlers run one after the other here: the locks of the code are not
  modelled. Code of other packages and libraries, the configuration and the ARP file are fields of
  the record \<open>env\<close>, an argument of the operations.
\<close>

record NodeStatus =
  ns_NodeName :: string
  ns_Stage :: string
  ns_Sent :: string
  ns_Ipaddr :: string
  ns_Lastseen :: int

record world =
  w_NodeInfo :: "(string \<times> string) list"
  w_yml :: NodesYaml
  w_disk :: "string option"
  w_status :: "(string \<times> NodeStatus) list"
  w_fs :: fsys

record conf =
  c_Secure :: bool
  c_SecureFiles :: bool
  c_AutobuildOverlays :: bool
  c_TLSEnabled :: bool
  c_Ipaddr :: string
  c_Ipaddr6 :: string
  c_Port :: int
  c_Sysconfdir :: string
  c_WWFilesdir :: string
  c_OverlayProvisiondir :: string
  c_WWChrootdir :: string
  c_WWProvisiondir :: string

record templateVars =
  t_Id :: string
  t_Cluster :: string
  t_Fqdn :: string
  t_Ipaddr :: string
  t_Ipaddr6 :: string
  t_Port :: string
  t_TLS :: bool
  t_Authority :: string
  t_Hostname :: string
  t_Hwaddr :: string
  t_ImageName :: string
  t_Ipxe :: string
  t_KernelArgs :: string
  t_KernelVersion :: string
  t_Root :: string
  t_NetDevs :: "NetDev gomap"
  t_Tags :: "string gomap"

text \<open>
  \<open>e_decode\<close>, \<open>e_encode\<close>: YAML. \<open>e_versions\<close>: the library \<open>go-version\<close>. \<open>e_buildOverlay\<close>: \<open>BuildOverlay\<close> of
  package \<open>overlay\<close>, which renders templates and packs an archive. \<open>e_stale\<close>: \<open>util.PathIsNewer\<close> against
  \<open>nodes.conf\<close>, a comparison of file times. \<open>e_open\<close>: whether \<open>os.Root\<close> opens a relative path below a
  directory. \<open>e_template\<close>: reading, parsing and executing a template file; \<open>e_overlayTemplate\<close>:
  \<open>overlay.InitStruct\<close> and \<open>RenderTemplateFile\<close>. \<open>e_persist\<close>: whether \<open>nodes.conf\<close> can be written.
  \<open>e_now\<close>: the clock.
\<close>

record env =
  e_conf :: conf
  e_lib :: merge_lib
  e_decode :: "string \<Rightarrow> err + NodesYaml"
  e_encode :: "NodesYaml \<Rightarrow> err + string"
  e_arp :: "string list option"
  e_versions :: version_lib
  e_buildOverlay :: "Node \<Rightarrow> string \<Rightarrow> err option"
  e_stale :: "string \<Rightarrow> bool"
  e_open :: "string \<Rightarrow> string \<Rightarrow> bool"
  e_template :: "string \<Rightarrow> templateVars \<Rightarrow> err + string"
  e_overlayTemplate :: "string \<Rightarrow> Node \<Rightarrow> Node list \<Rightarrow> err + string"
  e_persist :: bool
  e_now :: int

text \<open>The path of the overlay image of a node for a context.\<close>

abbreviation overlayImage :: "env \<Rightarrow> string \<Rightarrow> string \<Rightarrow> string" where
  "overlayImage e i ctxt \<equiv> overlay_Image (c_OverlayProvisiondir (e_conf e)) i ctxt []"

section \<open>The node database\<close>

text \<open>\<open>node.New\<close>: read and parse \<open>nodes.conf\<close>.\<close>

definition node_New :: "env \<Rightarrow> world \<Rightarrow> err + NodesYaml" where
  "node_New e w = (case w_disk w of None \<Rightarrow> Inl ErrIO | Some data \<Rightarrow> Parse (e_decode e) data)"

text \<open>The index: every device of a node that is not discoverable, in lower case; later entries win.\<close>

definition index_node :: "(string \<times> string) list \<Rightarrow> Node \<Rightarrow> (string \<times> string) list" where
  "index_node m n = (if WWbool_Bool (nd_Discoverable n) then m
     else foldl (\<lambda>m (k, netdev). al_update (ToLower (dev_Hwaddr netdev)) (Node_Id n) m) m
            (gm_entries (pf_NetDevs (nd_Profile n))))"

definition zero_NodesYaml :: NodesYaml where
  "zero_NodesYaml = \<lparr>NodeProfiles = gm_nil, Nodes = gm_nil\<rparr>"

text \<open>
  \<open>loadNodeDB\<close> assigns \<open>db.yml\<close> before it looks at the error, so a failed read leaves an empty
  registry there; the index is only replaced on success.
\<close>

definition loadNodeDB :: "env \<Rightarrow> world \<Rightarrow> err option \<times> world" where
  "loadNodeDB e w = (case node_New e w of
      Inl err \<Rightarrow> (Some err, w\<lparr>w_yml := zero_NodesYaml\<rparr>)
    | Inr yml \<Rightarrow>
        let w = w\<lparr>w_yml := yml\<rparr> in
        (case FindAllNodes (e_lib e) yml [] of
           (_, Some err) \<Rightarrow> (Some err, w)
         | (nodes, None) \<Rightarrow> (None, w\<lparr>w_NodeInfo := foldl index_node [] nodes\<rparr>)))"

definition LoadNodeDB :: "env \<Rightarrow> world \<Rightarrow> err option \<times> world" where
  "LoadNodeDB e w = loadNodeDB e w"

definition wwd_GetNode :: "env \<Rightarrow> world \<Rightarrow> string \<Rightarrow> err + Node" where
  "wwd_GetNode e w hwaddr = (case map_of (w_NodeInfo w) hwaddr of
      None \<Rightarrow> Inl (ErrMsg (''no node configured for hwaddr '' @ hwaddr))
    | Some nId \<Rightarrow> GetNode (e_lib e) (w_yml w) nId)"

text \<open>\<open>Persist\<close>: the registry is flattened in place and written.\<close>

definition Persist :: "env \<Rightarrow> world \<Rightarrow> err option \<times> world" where
  "Persist e w = (case Dump (e_encode e) (w_yml w) of
      (Inl err, yml) \<Rightarrow> (Some err, w\<lparr>w_yml := yml\<rparr>)
    | (Inr out, yml) \<Rightarrow>
        if e_persist e then (None, w\<lparr>w_yml := yml, w_disk := Some out\<rparr>) else (Some ErrIO, w\<lparr>w_yml := yml\<rparr>))"

text \<open>The values that discovery sets: the address on the chosen device, and the node as configured.\<close>

definition discovered :: "Node \<Rightarrow> string \<Rightarrow> string \<Rightarrow> Node" where
  "discovered nodeChanges netdev hwaddr =
     (let p = nd_Profile nodeChanges;
          devs = (case gm_get (pf_NetDevs p) netdev of
              Some d \<Rightarrow> gm_map_key (\<lambda>k x. if k = netdev then x\<lparr>dev_Hwaddr := hwaddr\<rparr> else x) (pf_NetDevs p)
            | None \<Rightarrow> Some [(netdev, zero_NetDev\<lparr>dev_Hwaddr := hwaddr\<rparr>)])
      in nodeChanges\<lparr>nd_Discoverable := ''UNDEF'', nd_Profile := p\<lparr>pf_NetDevs := devs\<rparr>\<rparr>)"

text \<open>\<open>overlay.RemoveImage\<close> for the two images of a node; errors are only logged.\<close>

definition remove_images :: "env \<Rightarrow> string \<Rightarrow> world \<Rightarrow> world" where
  "remove_images e i w = (let dir = c_OverlayProvisiondir (e_conf e) in
     w\<lparr>w_fs := RemoveImage dir i ''runtime'' [] (RemoveImage dir i ''system'' [] (w_fs w))\<rparr>)"

text \<open>The steps of \<open>GetOrDiscoverNode\<close> after a discoverable node was found.\<close>

definition discover :: "env \<Rightarrow> world \<Rightarrow> string \<Rightarrow> bool \<Rightarrow> Node \<Rightarrow> string \<Rightarrow> (err + Node) \<times> world" where
  "discover e w hwaddr autobuildOverlays nodeFound netdev =
     (let nodeChanges = (case GetNodeOnly (w_yml w) (nd_id nodeFound) of Inr n \<Rightarrow> n | Inl _ \<Rightarrow> EmptyNode) in
      case SetNode (w_yml w) (nd_id nodeFound) (discovered nodeChanges netdev hwaddr) of
        Inl err \<Rightarrow> (Inl err, w)
      | Inr yml \<Rightarrow>
          (case Persist e (w\<lparr>w_yml := yml\<rparr>) of
             (Some err, w1) \<Rightarrow> (Inl err, w1)
           | (None, w1) \<Rightarrow>
               (case loadNodeDB e w1 of
                  (Some err, w2) \<Rightarrow> (Inl err, w2)
                | (None, w2) \<Rightarrow>
                    let w3 = (if autobuildOverlays then remove_images e (nd_id nodeFound) w2 else w2)
                    in (GetNode (e_lib e) (w_yml w3) (nd_id nodeFound), w3))))"

text \<open>
  \<open>GetOrDiscoverNode\<close>. The error \<open>ErrNoUnconfigured\<close> comes with an empty node, which the callers use.
\<close>

definition GetOrDiscoverNode :: "env \<Rightarrow> world \<Rightarrow> string \<Rightarrow> bool \<Rightarrow> (err + Node) \<times> world" where
  "GetOrDiscoverNode e w hwaddr autobuildOverlays = (case map_of (w_NodeInfo w) hwaddr of
      Some nId \<Rightarrow> (GetNode (e_lib e) (w_yml w) nId, w)
    | None \<Rightarrow>
        if \<not> ParseMAC hwaddr then (Inl ErrNoUnconfigured, w)
        else (case FindDiscoverableNode (e_lib e) (w_yml w) of
            Inl err \<Rightarrow> (Inl err, w)
          | Inr (nodeFound, netdev) \<Rightarrow> discover e w hwaddr autobuildOverlays nodeFound netdev))"

section \<open>The status database\<close>

definition fresh_status :: "string \<Rightarrow> NodeStatus" where
  "fresh_status i = \<lparr>ns_NodeName = i, ns_Stage = [], ns_Sent = [], ns_Ipaddr = [], ns_Lastseen = 0\<rparr>"

definition LoadNodeStatus :: "env \<Rightarrow> world \<Rightarrow> err option \<times> world" where
  "LoadNodeStatus e w = (case node_New e w of
      Inl err \<Rightarrow> (Some err, w)
    | Inr DB \<Rightarrow>
        (case FindAllNodes (e_lib e) DB [] of
           (_, Some err) \<Rightarrow> (Some err, w)
         | (nodes, None) \<Rightarrow>
             (None, w\<lparr>w_status := foldl (\<lambda>newDB n. al_update (Node_Id n)
                (case map_of (w_status w) (Node_Id n) of None \<Rightarrow> fresh_status (Node_Id n) | Some s \<Rightarrow> s) newDB) [] nodes\<rparr>)))"

definition updateStatus :: "env \<Rightarrow> string \<Rightarrow> string \<Rightarrow> string \<Rightarrow> string \<Rightarrow> world \<Rightarrow> world" where
  "updateStatus e nodeID stage sent ipaddr w = w\<lparr>w_status := al_update nodeID
     \<lparr>ns_NodeName = nodeID, ns_Stage = stage, ns_Sent = sent, ns_Ipaddr = ipaddr, ns_Lastseen = e_now e\<rparr> (w_status w)\<rparr>"

definition Reload :: "env \<Rightarrow> world \<Rightarrow> world" where
  "Reload e w = snd (LoadNodeStatus e (snd (LoadNodeDB e w)))"

section \<open>The ARP cache\<close>

text \<open>The first line is a header. A line with too few fields makes the index expression panic.\<close>

fun arp_lines :: "string list \<Rightarrow> string \<Rightarrow> err + string" where
  "arp_lines [] ip = Inr []"
| "arp_lines (l # ls) ip =
     (case Fields l of
        [] \<Rightarrow> Inl ErrPanic
      | f0 # fs \<Rightarrow>
          if EqualFold f0 ip then (if length fs \<ge> 3 then Inr (fs ! 2) else Inl ErrPanic)
          else arp_lines ls ip)"

definition ArpFind :: "env \<Rightarrow> string \<Rightarrow> err + string" where
  "ArpFind e ip = (case e_arp e of None \<Rightarrow> Inr [] | Some ls \<Rightarrow> arp_lines (drop 1 ls) ip)"

section \<open>The index by hardware address\<close>

definition listens_on :: "Node \<Rightarrow> string \<Rightarrow> bool" where
  "listens_on n h \<longleftrightarrow> \<not> WWbool_Bool (nd_Discoverable n) \<and>
     (\<exists>(k, d)\<in>set (gm_entries (pf_NetDevs (nd_Profile n))). ToLower (dev_Hwaddr d) = h)"

lemma find_append: "find P (xs @ ys) = (case find P xs of Some x \<Rightarrow> Some x | None \<Rightarrow> find P ys)"
  by (induction xs) auto

lemma foldl_index_devices:
  "map_of (foldl (\<lambda>m (k, netdev). al_update (ToLower (dev_Hwaddr netdev)) i m) m ds) h =
     (if \<exists>(k, d)\<in>set ds. ToLower (dev_Hwaddr d) = h then Some i else map_of m h)"
  by (induction ds arbitrary: m) (auto simp: map_of_al_update)

lemma index_node_get: "map_of (index_node m n) h = (if listens_on n h then Some (nd_id n) else map_of m h)"
  by (auto simp: index_node_def listens_on_def foldl_index_devices Node_Id_def)

lemma foldl_index_node:
  "map_of (foldl index_node m ns) h =
     (case find (\<lambda>n. listens_on n h) (rev ns) of Some n \<Rightarrow> Some (nd_id n) | None \<Rightarrow> map_of m h)"
proof (induction ns arbitrary: m)
  case (Cons n ns)
  show ?case by (auto simp: find_append Cons index_node_get split: option.split)
qed simp

text \<open>
  After the database was loaded, a hardware address leads to a node exactly when some configured
  node that is not discoverable has a device with this address (in lower case), and then to such a
  node: of several, the last in the order by cluster name and id. An address of a discoverable node
  alone leads nowhere.
\<close>

theorem loadNodeDB_index:
  assumes "loadNodeDB e w = (None, w')"
  shows "\<exists>yml ns. node_New e w = Inr yml \<and> w_yml w' = yml \<and> FindAllNodes (e_lib e) yml [] = (ns, None) \<and>
    (\<forall>h. map_of (w_NodeInfo w') h =
       (case filter (\<lambda>n. listens_on n h) ns of [] \<Rightarrow> None | ms \<Rightarrow> Some (nd_id (last ms))))"
proof -
  obtain yml where yml: "node_New e w = Inr yml" using assms by (auto simp: loadNodeDB_def split: sum.splits)
  obtain ns where ns: "FindAllNodes (e_lib e) yml [] = (ns, None)"
    using assms yml by (auto simp: loadNodeDB_def Let_def split: prod.splits option.splits)
  have w': "w' = w\<lparr>w_yml := yml, w_NodeInfo := foldl index_node [] ns\<rparr>"
    using assms yml ns by (simp add: loadNodeDB_def Let_def)
  have "find P (rev xs) = (case filter P xs of [] \<Rightarrow> None | ms \<Rightarrow> Some (last ms))" for P and xs :: "Node list"
    by (induction xs rule: rev_induct) (auto split: list.splits)
  then have "map_of (w_NodeInfo w') h =
      (case filter (\<lambda>n. listens_on n h) ns of [] \<Rightarrow> None | ms \<Rightarrow> Some (nd_id (last ms)))" for h
    by (auto simp: w' foldl_index_node split: list.split)
  with yml ns w' show ?thesis by auto
qed

definition sample_env :: env where
  "sample_env = \<lparr>
     e_conf = \<lparr>c_Secure = True, c_SecureFiles = True, c_AutobuildOverlays = True, c_TLSEnabled = False,
       c_Ipaddr = ''10.0.0.1'', c_Ipaddr6 = '''', c_Port = 9873, c_Sysconfdir = ''/etc'',
       c_WWFilesdir = ''/srv/files'', c_OverlayProvisiondir = ''/srv/overlays'', c_WWChrootdir = ''/srv/chroots'', c_WWProvisiondir = ''/srv''\<rparr>,
     e_lib = sample_lib,
     e_decode = (\<lambda>_. Inr sample_cluster), e_encode = (\<lambda>_. Inr ''nodes''),
     e_arp = Some [''IP address'', ''10.0.0.7 0x1 0x2 aa:bb:cc:dd:ee:ff * eth0''],
     e_versions = sample_versions,
     e_buildOverlay = (\<lambda>_ _. None), e_stale = (\<lambda>_. False), e_open = (\<lambda>_ _. True),
     e_template = (\<lambda>f _. Inr f), e_overlayTemplate = (\<lambda>f _ _. Inr f), e_persist = True, e_now = 0\<rparr>"

definition sample_world :: world where
  "sample_world = \<lparr>w_NodeInfo = [], w_yml = zero_NodesYaml, w_disk = Some ''nodes'', w_status = [], w_fs = \<lparr>fy_files = [], fy_dirs = []\<rparr>\<rparr>"

lemma sample_loads: "\<exists>w'. loadNodeDB sample_env sample_world = (None, w')"
proof -
  have "node_New sample_env sample_world = Inr sample_cluster"
    by (simp add: node_New_def Parse_def sample_env_def sample_world_def sample_cluster_def)
  then show ?thesis
    by (simp add: loadNodeDB_def Let_def FindAllNodes_all [OF sample_lib_ok] sample_env_def)
qed

theorem loadNodeDB_index_witness:
  "\<exists>w' ns. loadNodeDB sample_env sample_world = (None, w') \<and>
     (\<forall>h. map_of (w_NodeInfo w') h =
       (case filter (\<lambda>n. listens_on n h) ns of [] \<Rightarrow> None | ms \<Rightarrow> Some (nd_id (last ms))))"
  using sample_loads loadNodeDB_index by blast

section \<open>The status of the nodes\<close>

lemma foldl_status:
  fixes ns :: "Node list"
  shows "map_of (foldl (\<lambda>db n. al_update (nd_id n) (f n) db) db ns) i =
     (case find (\<lambda>n. nd_id n = i) (rev ns) of Some n \<Rightarrow> Some (f n) | None \<Rightarrow> map_of db i)"
proof (induction ns arbitrary: db)
  case (Cons n ns)
  show ?case by (auto simp: find_append Cons map_of_al_update split: option.split)
qed simp

text \<open>
  Reloading the status keeps the entry of every node that is still configured, gives a node
  without an entry a fresh one, and drops the entries of nodes that are gone. An update replaces the
  entry of one node and no other.
\<close>

theorem LoadNodeStatus_correct:
  assumes "LoadNodeStatus e w = (None, w')" "merge_lib_ok (e_lib e)"
  shows "\<exists>DB. node_New e w = Inr DB \<and>
    (\<forall>i. map_of (w_status w') i =
       (if i \<in> set (gm_keys (Nodes DB))
        then Some (case map_of (w_status w) i of Some s \<Rightarrow> s | None \<Rightarrow> fresh_status i) else None)) \<and>
    (\<forall>i j stage sent ip. map_of (w_status (updateStatus e j stage sent ip w')) i =
       (if i = j then Some \<lparr>ns_NodeName = j, ns_Stage = stage, ns_Sent = sent, ns_Ipaddr = ip, ns_Lastseen = e_now e\<rparr>
        else map_of (w_status w') i))"
proof -
  obtain DB where DB: "node_New e w = Inr DB" using assms by (auto simp: LoadNodeStatus_def split: sum.splits)
  define ns where "ns = fst (FindAllNodes (e_lib e) DB [])"
  have all: "FindAllNodes (e_lib e) DB [] = (ns, None)" unfolding ns_def by (simp add: FindAllNodes_all [OF assms(2)])
  have ids: "nd_id ` set ns = set (gm_keys (Nodes DB))"
    unfolding ns_def by (auto simp: FindAllNodes_all [OF assms(2)] GetNode_id [OF assms(2)] image_iff)
  define f where "f = (\<lambda>n :: Node. case map_of (w_status w) (nd_id n) of None \<Rightarrow> fresh_status (nd_id n) | Some s \<Rightarrow> s)"
  have w': "w_status w' = foldl (\<lambda>db n. al_update (nd_id n) (f n) db) [] ns"
    using assms(1) DB all unfolding LoadNodeStatus_def f_def Node_Id_def by auto
  have "map_of (w_status w') i = (if i \<in> set (gm_keys (Nodes DB))
        then Some (case map_of (w_status w) i of Some s \<Rightarrow> s | None \<Rightarrow> fresh_status i) else None)" for i
  proof (cases "find (\<lambda>n. nd_id n = i) (rev ns)")
    case None
    then have "i \<notin> nd_id ` set ns" by (auto simp: find_None_iff)
    then show ?thesis by (simp add: w' foldl_status None ids)
  next
    case (Some n)
    then have "nd_id n = i" "n \<in> set ns" by (auto simp: find_Some_iff) (metis nth_mem set_rev length_rev)
    then have "i \<in> set (gm_keys (Nodes DB))" using ids by auto
    with Some \<open>nd_id n = i\<close> show ?thesis by (auto simp: w' foldl_status f_def split: option.split)
  qed
  then show ?thesis using DB by (simp add: updateStatus_def map_of_al_update)
qed

theorem LoadNodeStatus_correct_witness:
  "\<exists>w'. LoadNodeStatus sample_env sample_world = (None, w') \<and> map_of (w_status w') ''n1'' = Some (fresh_status ''n1'') \<and>
     map_of (w_status w') ''gone'' = None"
proof -
  have lib: "merge_lib_ok (e_lib sample_env)" by (simp add: sample_env_def sample_lib_ok)
  have new: "node_New sample_env sample_world = Inr sample_cluster"
    by (simp add: node_New_def Parse_def sample_env_def sample_world_def sample_cluster_def)
  obtain w' where w': "LoadNodeStatus sample_env sample_world = (None, w')"
    by (simp add: LoadNodeStatus_def new FindAllNodes_all [OF lib])
  have keys: "gm_keys (Nodes sample_cluster) = [''n1'', ''n2'']" by code_simp
  have st: "w_status sample_world = []" by (simp add: sample_world_def)
  from LoadNodeStatus_correct [OF w' lib] new keys st have "\<forall>i. map_of (w_status w') i =
      (if i \<in> {''n1'', ''n2''} then Some (fresh_status i) else None)" by auto
  with w' show ?thesis by auto
qed

end
