(* ===== verification/Wwd_Handlers.thy ===== *)
theory Wwd_Handlers
  imports Wwd_State
begin

text \<open>
  The HTTP side of the provisioning daemon: request parsing and the common checks (\<open>parser.go\<close>),
  responses (\<open>helpers.go\<close>, \<open>util.go\<close>), one handler per stage (\<open>ipxe.go\<close>, \<open>kernel.go\<close>, \<open>image.go\<close>,
  \<open>initramfs.go\<close>, \<open>overlay.go\<close>, \<open>grub.go\<close>, \<open>efi.go\<close>), their dispatch (\<open>provision.go\<close>,
  \<open>server/server.go\<close>) and the file server (\<open>files.go\<close>).

  A handler maps the environment, the world and a request to a response and the new world. A
  response has a status code and a body: a file, a rendered template, what the static file server
  of the library sends for a path, the status database, or nothing. Range and conditional requests, which
  \<open>http.ServeContent\<close> answers itself, are not distinguished. A panic of a handler, which the HTTP
  server turns into an aborted connection, is the code 0.
\<close>

datatype body = NoBody | FileBody string | Rendered string | StaticFile string
  | StatusJSON "(string \<times> NodeStatus) list"

record response =
  rs_code :: nat
  rs_body :: body

abbreviation http :: "nat \<Rightarrow> response" where
  "http code \<equiv> \<lparr>rs_code = code, rs_body = NoBody\<rparr>"

abbreviation http_ok :: "body \<Rightarrow> response" where
  "http_ok b \<equiv> \<lparr>rs_code = 200, rs_body = b\<rparr>"

text \<open>\<open>rq_RemoteAddr\<close> is the address and the port that \<open>netip.ParseAddrPort\<close> reads, or its failure.\<close>

record request =
  rq_Path :: string
  rq_Query :: "(string \<times> string list) list"
  rq_RemoteAddr :: "(string \<times> int) option"
  rq_TLS :: bool

definition query :: "request \<Rightarrow> string \<Rightarrow> string option" where
  "query req k = (case map_of (rq_Query req) k of Some (v # vs) \<Rightarrow> Some v | _ \<Rightarrow> None)"

section \<open>Parsing\<close>

record parsedRequest =
  hwaddr :: string
  ipaddr :: string
  remoteport :: int
  assetkey :: string
  uuid :: string
  stage :: string
  efifile :: string
  compress :: string

definition parseHwaddr :: "string \<Rightarrow> string" where
  "parseHwaddr h = ToLower (ReplaceByte h (CHR ''-'') (CHR '':''))"

definition canonical_stage :: "string \<Rightarrow> string" where
  "canonical_stage s =
     (if s = ''provision'' then ''ipxe''
      else if s = ''container'' then ''image''
      else if s = ''overlay-system'' then ''system''
      else if s = ''overlay-runtime'' then ''runtime''
      else s)"

definition request_stage :: "request \<Rightarrow> string list \<Rightarrow> string" where
  "request_stage req path_parts =
     (let s = path_parts ! 1 in
      canonical_stage (if s = ''provision'' then (case query req ''stage'' of Some v \<Rightarrow> v | None \<Rightarrow> s) else s))"

text \<open>The hardware address: from the path, else from \<open>wwid\<close>, else from the ARP cache.\<close>

definition find_hwaddr :: "env \<Rightarrow> request \<Rightarrow> string \<Rightarrow> string \<Rightarrow> err + string" where
  "find_hwaddr e req h ip =
     (let h = (if h = [] then (case query req ''wwid'' of Some v \<Rightarrow> parseHwaddr v | None \<Rightarrow> []) else h) in
      if h \<noteq> [] then Inr h else map_sum id parseHwaddr (ArpFind e ip))"

definition parseRequest :: "env \<Rightarrow> request \<Rightarrow> err + parsedRequest" where
  "parseRequest e req =
     (let path_parts = Split (rq_Path req) (CHR ''/'') in
      if length path_parts < 2 then Inl (ErrMsg ''path missing initial stage'')
      else let s = request_stage req path_parts in
      if s = [] then Inl (ErrMsg ''no stage specified'')
      else
        let efi = (if length path_parts > 2 \<and> s = ''efiboot'' then Join (drop 2 path_parts) ''/'' else []);
            h = (if length path_parts > 2 \<and> s \<noteq> ''efiboot'' then parseHwaddr (path_parts ! 2) else [])
        in (case rq_RemoteAddr req of
              None \<Rightarrow> Inl (ErrMsg ''could not parse remote address'')
            | Some (ip, port) \<Rightarrow>
                if ip = [] then Inl (ErrMsg ''could not obtain ipaddr from HTTP request'')
                else if port = 0 then Inl (ErrMsg ''could not obtain remote port from HTTP request'')
                else (case find_hwaddr e req h ip of
                    Inl err \<Rightarrow> Inl err
                  | Inr h \<Rightarrow>
                      if h = [] then Inl (ErrMsg ''unable to determine wwid'')
                      else
                        let comp = (case query req ''compress'' of Some v \<Rightarrow> v | None \<Rightarrow> []);
                            efi = (if efi = [] then (case query req ''file'' of Some v \<Rightarrow> v | None \<Rightarrow> []) else efi)
                        in if comp \<noteq> [] \<and> comp \<noteq> ''gz'' then Inl (ErrMsg ''unsupported compression'')
                           else Inr \<lparr>hwaddr = h, ipaddr = ip, remoteport = port,
                             assetkey = (case query req ''assetkey'' of Some v \<Rightarrow> v | None \<Rightarrow> []),
                             uuid = (case query req ''uuid'' of Some v \<Rightarrow> v | None \<Rightarrow> []),
                             stage = s, efifile = efi, compress = comp\<rparr>)))"

record requestContext =
  rinfo :: parsedRequest
  remoteNode :: Node

definition initHandleRequest :: "env \<Rightarrow> world \<Rightarrow> request \<Rightarrow> (response + requestContext) \<times> world" where
  "initHandleRequest e w req = (case parseRequest e req of
      Inl err \<Rightarrow> (Inl (http (if err = ErrPanic then 0 else 400)), w)
    | Inr ri \<Rightarrow>
        if stage ri = ''runtime'' \<and> c_Secure (e_conf e) \<and> remoteport ri \<ge> 1024 then (Inl (http 401), w)
        else (case GetOrDiscoverNode e w (hwaddr ri) (c_AutobuildOverlays (e_conf e)) of
            (r, w') \<Rightarrow>
              (case (case r of Inr n \<Rightarrow> Some n | Inl err \<Rightarrow> if err = ErrNoUnconfigured then Some EmptyNode else None) of
                 None \<Rightarrow> (Inl (http 503), w')
               | Some n \<Rightarrow>
                   if nd_AssetKey n \<noteq> [] \<and> nd_AssetKey n \<noteq> assetkey ri
                   then (Inl (http 401), updateStatus e (Node_Id n) (stage ri) ''BAD_ASSET'' (ipaddr ri) w')
                   else (Inr \<lparr>rinfo = ri, remoteNode = n\<rparr>, w'))))"

section \<open>Responses\<close>

definition ValidName :: "string \<Rightarrow> bool" where
  "ValidName name = (name \<noteq> ''.'' \<and> name \<noteq> ''..'' \<and> name \<noteq> [] \<and>
     list_all (\<lambda>c. is_word c \<or> c \<in> set ''-.:'') name)"

definition imageRootFs :: "env \<Rightarrow> string \<Rightarrow> string" where
  "imageRootFs e name = (if name = [] \<or> \<not> ValidName name then [] else RootFsDir (c_WWChrootdir (e_conf e)) name)"

definition openInDir :: "env \<Rightarrow> string \<Rightarrow> string \<Rightarrow> bool" where
  "openInDir e dir file = (dir \<noteq> [] \<and> (case Rel dir file of None \<Rightarrow> False | Some rel \<Rightarrow> e_open e dir rel))"

definition sendFile :: "env \<Rightarrow> string \<Rightarrow> string \<Rightarrow> response" where
  "sendFile e dir filename = (if openInDir e dir filename then http_ok (FileBody filename) else http 500)"

definition sendResponse ::
  "env \<Rightarrow> world \<Rightarrow> string \<Rightarrow> string \<Rightarrow> templateVars option \<Rightarrow> requestContext \<Rightarrow> response \<times> world" where
  "sendResponse e w dir stageFile tmplData ctx =
     (let ri = rinfo ctx;
          record_sent = (\<lambda>sent. updateStatus e (Node_Id (remoteNode ctx)) (stage ri) sent (ipaddr ri) w)
      in if IsFile (w_fs w) stageFile then
           (case tmplData of
              Some vars \<Rightarrow>
                if compress ri \<noteq> [] then (http 404, w)
                else if \<not> openInDir e dir stageFile then (http 500, w)
                else (case e_template e stageFile vars of
                    Inl _ \<Rightarrow> (http 500, w)
                  | Inr text \<Rightarrow> (http_ok (Rendered text), record_sent (path_Base stageFile)))
            | None \<Rightarrow>
                let file = (if compress ri = ''gz'' then stageFile @ ''.gz'' else stageFile) in
                if compress ri = ''gz'' \<and> \<not> IsFile (w_fs w) file then (http 404, w)
                else if compress ri \<noteq> ''gz'' \<and> compress ri \<noteq> [] then (http 404, w)
                else let r = sendFile e dir file in
                  if rs_code r = 200 then (r, record_sent (path_Base file)) else (r, w))
         else if stageFile = [] then (http 400, record_sent ''BAD_REQUEST'')
         else (http 404, record_sent ''NOT_FOUND''))"

text \<open>
  \<open>netip.ParseAddr\<close> with the text of the parsed address and whether it is an IPv6 address. An IPv6
  address may carry a zone.
\<close>

definition netip_ParseAddr :: "string \<Rightarrow> (string \<times> bool) option" where
  "netip_ParseAddr s =
     (let a = takeWhile (\<lambda>c. c \<noteq> CHR ''%'') s; zone = drop (length a) s; is6 = CHR '':'' \<in> set a in
      if zone \<noteq> [] \<and> (\<not> is6 \<or> length zone < 2) then None
      else (case ParseIP a of
          None \<Rightarrow> None
        | Some bs \<Rightarrow> Some ((if is6 then (if take 12 bs = v4InV6Prefix then ''::ffff:'' @ show_ip4 (drop 12 bs) else show_ip6 bs)
                            else show_ip4 (drop 12 bs)) @ zone, is6)))"

abbreviation node_kernel :: "env \<Rightarrow> world \<Rightarrow> Node \<Rightarrow> Kernel option" where
  "node_kernel e w n \<equiv> FromNode (w_fs w) (e_versions e) (c_WWChrootdir (e_conf e)) n"

definition buildTemplateVars :: "env \<Rightarrow> world \<Rightarrow> parsedRequest \<Rightarrow> Node \<Rightarrow> templateVars" where
  "buildTemplateVars e w ri n =
     (let conf = e_conf e; p = nd_Profile n;
          kernelArgs = (case pf_Kernel p of Some k \<Rightarrow> Join (kn_Args k) '' '' | None \<Rightarrow> []);
          kernelVersion = (case pf_Kernel p of Some k \<Rightarrow> kn_Version k | None \<Rightarrow> []);
          kernelVersion = (if kernelVersion = [] then (case node_kernel e w n of Some k \<Rightarrow> Kernel_Version (e_versions e) k | None \<Rightarrow> []) else kernelVersion);
          ip6 = (case netip_ParseAddr (c_Ipaddr6 conf) of Some (s, _) \<Rightarrow> s | None \<Rightarrow> []);
          authority = (case netip_ParseAddr (ipaddr ri) of
              Some (_, True) \<Rightarrow>
                if ip6 \<noteq> [] then ''['' @ ip6 @ '']:'' @ Itoa (c_Port conf) else c_Ipaddr conf @ '':'' @ Itoa (c_Port conf)
            | _ \<Rightarrow> c_Ipaddr conf @ '':'' @ Itoa (c_Port conf))
      in \<lparr>t_Id = Node_Id n, t_Cluster = pf_ClusterName p, t_Fqdn = Node_Id n, t_Ipaddr = c_Ipaddr conf,
          t_Ipaddr6 = ip6, t_Port = Itoa (c_Port conf), t_TLS = c_TLSEnabled conf, t_Authority = authority,
          t_Hostname = Node_Id n, t_Hwaddr = hwaddr ri, t_ImageName = pf_ImageName p, t_Ipxe = pf_Ipxe p,
          t_KernelArgs = kernelArgs, t_KernelVersion = kernelVersion, t_Root = pf_Root p,
          t_NetDevs = pf_NetDevs p, t_Tags = pf_Tags p\<rparr>)"

definition empty_vars :: templateVars where
  "empty_vars = \<lparr>t_Id = [], t_Cluster = [], t_Fqdn = [], t_Ipaddr = [], t_Ipaddr6 = [], t_Port = [], t_TLS = False,
     t_Authority = [], t_Hostname = [], t_Hwaddr = [], t_ImageName = [], t_Ipxe = [], t_KernelArgs = [],
     t_KernelVersion = [], t_Root = [], t_NetDevs = None, t_Tags = None\<rparr>"

text \<open>
  \<open>getOverlayFile\<close>. The error of \<open>BuildAllOverlays\<close> is assigned to a variable of the inner block, so
  it is logged and not returned. \<open>BuildAllOverlays\<close> builds the system and the runtime image; each
  that succeeds is there afterwards, also compressed.
\<close>

definition getOverlayFile :: "env \<Rightarrow> world \<Rightarrow> Node \<Rightarrow> string \<Rightarrow> bool \<Rightarrow> (err + string) \<times> world" where
  "getOverlayFile e w n context autobuild =
     (let stage_file = overlayImage e (Node_Id n) context;
          build = (\<not> IsFile (w_fs w) stage_file \<or> (autobuild \<and> e_stale e stage_file))
      in if \<not> build then (Inr stage_file, w)
         else (case node_New e w of
             Inl err \<Rightarrow> (Inl err, w)
           | Inr registry \<Rightarrow>
               (case FindAllNodes (e_lib e) registry [] of
                  (_, Some err) \<Rightarrow> (Inl err, w)
                | (_, None) \<Rightarrow>
                    (Inr stage_file,
                     w\<lparr>w_fs := (w_fs w)\<lparr>fy_files := fy_files (w_fs w) @ concat (map
                        (\<lambda>c. [overlayImage e (Node_Id n) c, overlayImage e (Node_Id n) c @ ''.gz''])
                        (filter (\<lambda>c. e_buildOverlay e n c = None) [''system'', ''runtime'']))\<rparr>\<rparr>))))"

section \<open>Handlers\<close>

type_synonym handler = "env \<Rightarrow> world \<Rightarrow> request \<Rightarrow> response \<times> world"

text \<open>The common beginning of the handlers.\<close>

definition with_request :: "(env \<Rightarrow> world \<Rightarrow> requestContext \<Rightarrow> response \<times> world) \<Rightarrow> handler" where
  "with_request k e w req = (case initHandleRequest e w req of
      (Inl r, w') \<Rightarrow> (r, w')
    | (Inr ctx, w') \<Rightarrow> k e w' ctx)"

definition send_ipxe :: "env \<Rightarrow> world \<Rightarrow> requestContext \<Rightarrow> response \<times> world" where
  "send_ipxe e w ctx = (
     let ipxeDir = path_Join [c_Sysconfdir (e_conf e), ''warewulf/ipxe'']; n = remoteNode ctx in
     if \<not> Node_Valid n then
       sendResponse e w ipxeDir (path_Join [ipxeDir, ''unconfigured.ipxe'']) (Some (empty_vars\<lparr>t_Hwaddr := hwaddr (rinfo ctx)\<rparr>)) ctx
     else
       let template = (if pf_Ipxe (nd_Profile n) = [] then ''default'' else pf_Ipxe (nd_Profile n)) in
       sendResponse e w ipxeDir (path_Join [ipxeDir, template @ ''.ipxe'']) (Some (buildTemplateVars e w (rinfo ctx) n)) ctx)"

definition HandleIpxe :: handler where
  "HandleIpxe = with_request send_ipxe"

definition send_kernel :: "env \<Rightarrow> world \<Rightarrow> requestContext \<Rightarrow> response \<times> world" where
  "send_kernel e w ctx = (
     let n = remoteNode ctx;
         stageFile = (if \<not> Node_Valid n then [] else (case node_kernel e w n of None \<Rightarrow> [] | Some k \<Rightarrow> Kernel_FullPath (c_WWChrootdir (e_conf e)) k))
     in sendResponse e w (imageRootFs e (pf_ImageName (nd_Profile n))) stageFile None ctx)"

definition HandleKernel :: handler where
  "HandleKernel = with_request send_kernel"

definition send_image :: "env \<Rightarrow> world \<Rightarrow> requestContext \<Rightarrow> response \<times> world" where
  "send_image e w ctx = (
     let n = remoteNode ctx; img = pf_ImageName (nd_Profile n);
         stageFile = (if \<not> Node_Valid n then [] else if img \<noteq> [] then ImageFile (c_WWProvisiondir (e_conf e)) img else [])
     in sendResponse e w (ImageParentDir (c_WWProvisiondir (e_conf e))) stageFile None ctx)"

definition HandleImage :: handler where
  "HandleImage = with_request send_image"

definition send_initramfs :: "env \<Rightarrow> world \<Rightarrow> requestContext \<Rightarrow> response \<times> world" where
  "send_initramfs e w ctx = (
     let n = remoteNode ctx; img = pf_ImageName (nd_Profile n);
         stageFile = (if \<not> Node_Valid n then []
           else (case node_kernel e w n of
               None \<Rightarrow> []
             | Some k \<Rightarrow>
                 let kver = Kernel_Version (e_versions e) k in
                 if kver = [] then []
                 else (case FindInitramfs (w_fs w) (e_versions e) (c_WWChrootdir (e_conf e)) img kver of None \<Rightarrow> [] | Some p \<Rightarrow> p)))
     in sendResponse e w (imageRootFs e img) stageFile None ctx)"

definition HandleInitramfs :: handler where
  "HandleInitramfs = with_request send_initramfs"

definition send_grub :: "env \<Rightarrow> world \<Rightarrow> requestContext \<Rightarrow> response \<times> world" where
  "send_grub e w ctx = (
     let n = remoteNode ctx in
     if \<not> Node_Valid n then (http 404, w)
     else
       let grubDir = path_Join [c_Sysconfdir (e_conf e), ''warewulf/grub''] in
       sendResponse e w grubDir (path_Join [grubDir, ''grub.cfg.ww'']) (Some (buildTemplateVars e w (rinfo ctx) n)) ctx)"

definition HandleGrub :: handler where
  "HandleGrub = with_request send_grub"

definition send_overlay :: "string \<Rightarrow> env \<Rightarrow> world \<Rightarrow> requestContext \<Rightarrow> response \<times> world" where
  "send_overlay context e w ctx =
     (let n = remoteNode ctx in
      if \<not> Node_Valid n then sendResponse e w [] [] None ctx
      else (case getOverlayFile e w n context (c_AutobuildOverlays (e_conf e)) of
          (Inl err, w') \<Rightarrow> (http (if err = ErrDoesNotExist then 404 else 500), w')
        | (Inr stageFile, w') \<Rightarrow> sendResponse e w' (c_OverlayProvisiondir (e_conf e)) stageFile None ctx))"

definition HandleSystemOverlay :: handler where
  "HandleSystemOverlay = with_request (send_overlay ''system'')"

definition HandleRuntimeOverlay :: handler where
  "HandleRuntimeOverlay e w req =
     (if c_TLSEnabled (e_conf e) \<and> \<not> rq_TLS req then (http 403, w)
      else with_request (send_overlay ''runtime'') e w req)"

definition send_efi :: "env \<Rightarrow> world \<Rightarrow> requestContext \<Rightarrow> response \<times> world" where
  "send_efi e w ctx = (
     let n = remoteNode ctx; imageName = pf_ImageName (nd_Profile n); file = efifile (rinfo ctx) in
     if \<not> Node_Valid n then sendResponse e w [] [] None ctx
     else
       let imageDir = (if imageName \<noteq> [] then imageRootFs e imageName else ''/'') in
       if file = ''shim.efi'' then
         (let f = ShimFind (w_fs w) (c_WWChrootdir (e_conf e)) imageName in
          if f = [] then (http 404, w) else sendResponse e w imageDir f None ctx)
       else if file \<in> set [''grub.efi'', ''grub-tpm.efi'', ''grubx64.efi'', ''grubia32.efi'', ''grubaa64.efi'', ''grubarm.efi''] then
         (let f = GrubFind (w_fs w) (c_WWChrootdir (e_conf e)) imageName in
          if f = [] then (http 404, w) else sendResponse e w imageDir f None ctx)
       else if file = ''grub.cfg'' then
         (let dir = path_Join [c_Sysconfdir (e_conf e), ''warewulf/grub'']; stageFile = path_Join [dir, ''grub.cfg.ww''] in
          if \<not> IsFile (w_fs w) stageFile then (http 404, w)
          else sendResponse e w dir stageFile (Some (buildTemplateVars e w (rinfo ctx) n)) ctx)
       else (http 404, w))"

definition HandleEfiBoot :: handler where
  "HandleEfiBoot = with_request send_efi"

text \<open>\<open>HandleProvision\<close> parses the request to choose the handler, which parses it again.\<close>

definition stage_handler :: "string \<Rightarrow> handler option" where
  "stage_handler s =
     (if s = ''ipxe'' then Some HandleIpxe
      else if s = ''kernel'' then Some HandleKernel
      else if s = ''image'' then Some HandleImage
      else if s = ''system'' then Some HandleSystemOverlay
      else if s = ''runtime'' then Some HandleRuntimeOverlay
      else if s = ''grub'' then Some HandleGrub
      else if s = ''initramfs'' then Some HandleInitramfs
      else None)"

definition HandleProvision :: handler where
  "HandleProvision e w req = (case parseRequest e req of
      Inl err \<Rightarrow> (http (if err = ErrPanic then 0 else 400), w)
    | Inr ri \<Rightarrow> (case stage_handler (stage ri) of Some h \<Rightarrow> h e w req | None \<Rightarrow> (http 400, w)))"

section \<open>The file server\<close>

definition resolveFilesPath :: "string \<Rightarrow> string \<Rightarrow> string" where
  "resolveFilesPath filesDir reqPath =
     (let relPath = TrimPrefix reqPath ''/files/'' in
      if relPath = [] then []
      else
        let cleanPath = Clean (path_Join [filesDir, relPath]); cleanDir = Clean filesDir in
        (case Rel cleanDir cleanPath of
           None \<Rightarrow> []
         | Some rel \<Rightarrow> if HasPrefix rel ''..'' then [] else cleanPath))"

definition authenticateNode :: "env \<Rightarrow> world \<Rightarrow> request \<Rightarrow> response + Node" where
  "authenticateNode e w req = (case rq_RemoteAddr req of
      None \<Rightarrow> Inl (http 500)
    | Some (ip, port) \<Rightarrow>
        (case find_hwaddr e req [] ip of
           Inl _ \<Rightarrow> Inl (http 0)
         | Inr h \<Rightarrow>
             if h = [] then Inl (http 401)
             else (case wwd_GetNode e w h of
                 Inl _ \<Rightarrow> Inl (http 401)
               | Inr n \<Rightarrow>
                   if c_SecureFiles (e_conf e) \<and> port \<ge> 1024 then Inl (http 403)
                   else if nd_AssetKey n = [] then Inr n
                   else
                     let key = (case query req ''assetkey'' of Some v \<Rightarrow> v | None \<Rightarrow> []) in
                     if key = [] then Inl (http 401)
                     else if key \<noteq> nd_AssetKey n then Inl (http 403)
                     else Inr n)))"

definition render_file :: "env \<Rightarrow> world \<Rightarrow> Node \<Rightarrow> string \<Rightarrow> response" where
  "render_file e w n filePath = (case node_New e w of
      Inl _ \<Rightarrow> http 500
    | Inr registry \<Rightarrow>
        (case FindAllNodes (e_lib e) registry [] of
           (_, Some _) \<Rightarrow> http 500
         | (allNodes, None) \<Rightarrow>
             (case e_overlayTemplate e filePath n allNodes of
                Inl _ \<Rightarrow> http 500
              | Inr text \<Rightarrow> http_ok (Rendered text))))"

definition HandleFiles :: handler where
  "HandleFiles e w req = (case authenticateNode e w req of
      Inl r \<Rightarrow> (r, w)
    | Inr n \<Rightarrow>
        if map_of (rq_Query req) ''render'' \<noteq> None then
          (let name = (case query req ''render'' of Some v \<Rightarrow> v | None \<Rightarrow> []);
               filePath = resolveFilesPath (c_WWFilesdir (e_conf e)) (rq_Path req)
           in if name \<noteq> [] \<and> name \<noteq> Node_Id n then (http 400, w)
              else if filePath = [] then (http 404, w)
              else if \<not> HasSuffix filePath ''.ww'' then
                (if path_exists (w_fs w) (filePath @ ''.ww'') then (render_file e w n (filePath @ ''.ww''), w)
                 else if path_exists (w_fs w) filePath then (http 400, w)
                 else (http 404, w))
              else if \<not> path_exists (w_fs w) filePath then (http 404, w)
              else (render_file e w n filePath, w))
        else (http_ok (StaticFile (TrimPrefix (rq_Path req) ''/files/'')), w))"

section \<open>Routes\<close>

text \<open>\<open>slashFix\<close> replaces every \<open>//\<close> by \<open>/\<close>, in one pass.\<close>

fun slash_fix :: "string \<Rightarrow> string" where
  "slash_fix (a # b # s) =
     (if a = CHR ''/'' \<and> b = CHR ''/'' then CHR ''/'' # slash_fix s else a # slash_fix (b # s))"
| "slash_fix s = s"

text \<open>
  The subtree patterns that \<open>configureRootHandler\<close> registers; \<open>/status\<close> matches this path only, and
  \<open>/api/\<close> leads to the handler of the management API, a parameter here. \<open>http.ServeMux\<close> redirects a
  path that is not clean and one that lacks only the last slash of a pattern, and answers one that no
  pattern matches with 404.
\<close>

definition HandleStatus :: handler where
  "HandleStatus e w req = (http_ok (StatusJSON (w_status w)), w)"

definition routes :: "(string \<times> handler) list" where
  "routes = [
     (''/provision/'', HandleProvision), (''/ipxe/'', HandleIpxe), (''/efiboot/'', HandleEfiBoot),
     (''/grub/'', HandleGrub), (''/kernel/'', HandleKernel), (''/image/'', HandleImage),
     (''/initramfs/'', HandleInitramfs), (''/system/'', HandleSystemOverlay), (''/runtime/'', HandleRuntimeOverlay),
     (''/files/'', HandleFiles), (''/container/'', HandleImage), (''/overlay-system/'', HandleSystemOverlay),
     (''/overlay-runtime/'', HandleRuntimeOverlay)]"

definition requireTLS :: "handler \<Rightarrow> handler" where
  "requireTLS next_handler e w req = (if \<not> rq_TLS req then (http 403, w) else next_handler e w req)"

definition mux_clean :: "string \<Rightarrow> bool" where
  "mux_clean p = (rooted p \<and> (p = Clean p \<or> Clean p \<noteq> ''/'' \<and> p = Clean p @ ''/''))"

definition serve :: "handler option \<Rightarrow> handler" where
  "serve api e w req =
     (let req = req\<lparr>rq_Path := slash_fix (rq_Path req)\<rparr>; p = rq_Path req;
          table = routes @ (case api of Some h \<Rightarrow> [(''/api/'', h)] | None \<Rightarrow> [])
      in if \<not> mux_clean p then (http 301, w)
         else if p = ''/status'' then HandleStatus e w req
         else (case find (\<lambda>(pat, h). HasPrefix p pat) table of
             Some (_, h) \<Rightarrow> h e w req
           | None \<Rightarrow> (http (if p @ ''/'' \<in> set (map fst table) then 301 else 404), w)))"

section \<open>Who is served\<close>

definition served :: "response \<Rightarrow> bool" where
  "served r \<longleftrightarrow> rs_body r \<noteq> NoBody"

text \<open>
  What has been established about a request before a provisioning handler sends anything: it parses,
  the node was found or discovered by its hardware address (or none is configured and the empty node
  stands in), the asset key is the node's, and a secured runtime overlay is asked for from a
  privileged port.
\<close>

definition authorised :: "env \<Rightarrow> world \<Rightarrow> request \<Rightarrow> requestContext \<Rightarrow> world \<Rightarrow> bool" where
  "authorised e w req ctx w' \<longleftrightarrow>
     parseRequest e req = Inr (rinfo ctx) \<and>
     (GetOrDiscoverNode e w (hwaddr (rinfo ctx)) (c_AutobuildOverlays (e_conf e)) = (Inr (remoteNode ctx), w') \<or>
      GetOrDiscoverNode e w (hwaddr (rinfo ctx)) (c_AutobuildOverlays (e_conf e)) = (Inl ErrNoUnconfigured, w') \<and>
      remoteNode ctx = EmptyNode) \<and>
     (nd_AssetKey (remoteNode ctx) \<noteq> [] \<longrightarrow> nd_AssetKey (remoteNode ctx) = assetkey (rinfo ctx)) \<and>
     (stage (rinfo ctx) = ''runtime'' \<longrightarrow> c_Secure (e_conf e) \<longrightarrow> remoteport (rinfo ctx) < 1024)"

lemma initHandleRequest_Inr:
  "initHandleRequest e w req = (Inr ctx, w') \<Longrightarrow> authorised e w req ctx w'"
  by (auto simp: initHandleRequest_def authorised_def split: sum.splits if_splits prod.splits)

lemma initHandleRequest_Inl: "initHandleRequest e w req = (Inl r, w') \<Longrightarrow> \<not> served r"
  by (auto simp: initHandleRequest_def served_def split: sum.splits if_splits prod.splits option.splits)

lemma with_request_served:
  assumes "served (fst (with_request k e w req))"
  shows "\<exists>ctx w'. authorised e w req ctx w' \<and> with_request k e w req = k e w' ctx"
proof (cases "initHandleRequest e w req")
  case (Pair r w')
  show ?thesis
  proof (cases r)
    case (Inl x)
    then show ?thesis using assms Pair initHandleRequest_Inl [of e w req x w'] by (simp add: with_request_def)
  next
    case (Inr ctx)
    with Pair have "authorised e w req ctx w'" by (simp add: initHandleRequest_Inr)
    with Inr Pair show ?thesis by (auto simp: with_request_def)
  qed
qed

lemma sendResponse_empty [simp]: "\<not> served (fst (sendResponse e w dir [] t ctx))"
  by (simp add: sendResponse_def Let_def IsFile_def served_def)

lemma sendResponse_served:
  assumes "served (fst (sendResponse e w dir f None ctx))"
  shows "IsFile (w_fs w) f \<and> rs_body (fst (sendResponse e w dir f None ctx)) = FileBody (if compress (rinfo ctx) = ''gz'' then f @ ''.gz'' else f)"
  using assms by (auto simp: sendResponse_def sendFile_def served_def Let_def split: if_splits)

lemma sendResponse_dir: "served (fst (sendResponse e w dir f t ctx)) \<Longrightarrow> dir \<noteq> []"
  by (auto simp: sendResponse_def sendFile_def openInDir_def served_def Let_def split: if_splits option.splits sum.splits)

lemma served_http [simp]: "\<not> served (http c)"
  by (simp add: served_def)

text \<open>
  The contract of the handlers that send to configured nodes only: the part after the common
  beginning sends nothing for a node that is not valid.
\<close>

locale node_handler =
  fixes send :: "env \<Rightarrow> world \<Rightarrow> requestContext \<Rightarrow> response \<times> world"
  assumes send_valid: "served (fst (send e w ctx)) \<Longrightarrow> Node_Valid (remoteNode ctx)"
begin

lemma guarded:
  assumes "served (fst (with_request send e w req))"
  shows "\<exists>ctx w'. authorised e w req ctx w' \<and> Node_Valid (remoteNode ctx) \<and>
    with_request send e w req = send e w' ctx"
  using with_request_served [OF assms] assms send_valid by metis

end

interpretation kernel: node_handler send_kernel
  by unfold_locales (auto simp: send_kernel_def Let_def split: if_splits)

interpretation image: node_handler send_image
  by unfold_locales (auto simp: send_image_def Let_def split: if_splits)

interpretation initramfs: node_handler send_initramfs
  by unfold_locales (auto simp: send_initramfs_def Let_def split: if_splits)

interpretation grub: node_handler send_grub
  by unfold_locales (auto simp: send_grub_def Let_def split: if_splits)

interpretation efi: node_handler send_efi
  by unfold_locales (auto simp: send_efi_def Let_def split: if_splits)

interpretation overlay: node_handler "send_overlay context"
  by unfold_locales (auto simp: send_overlay_def Let_def split: if_splits)

end
