(* ===== verification/Wwd_Safety.thy ===== *)
theory Wwd_Safety
  imports Wwd_Handlers
begin

text \<open>
  What the provisioning server guarantees for every request: nothing is sent without the checks of
  \<open>initHandleRequest\<close> (or of \<open>authenticateNode\<close> for files), a runtime overlay only over the
  connections the configuration asks for, and a file only from below the configured directory.
\<close>

lemma authorised_parse: "authorised e w req ctx w' \<Longrightarrow> parseRequest e req = Inr (rinfo ctx)"
  by (simp add: authorised_def)

section \<open>The stage of a request\<close>

lemma Split_first:
  assumes "HasPrefix p (CHR ''/'' # s @ ''/'')" "CHR ''/'' \<notin> set s"
  shows "\<exists>rest. Split p (CHR ''/'') = [] # s # rest"
proof -
  obtain t where "p = CHR ''/'' # s @ CHR ''/'' # t"
    using assms(1) append_take_drop_id [of "length (CHR ''/'' # s @ ''/'')" p] unfolding HasPrefix_def
    by (metis append.assoc append_Cons append_Nil)
  with assms(2) show ?thesis by (simp add: Split_append)
qed

lemma if_Inr: "(if b then Inl x else y) = Inr z \<Longrightarrow> (y = Inr z \<Longrightarrow> P) \<Longrightarrow> P"
  by (cases b) auto

lemma option_Inr: "(case m of None \<Rightarrow> Inl x | Some y \<Rightarrow> f y) = Inr z \<Longrightarrow> (\<And>y. f y = Inr z \<Longrightarrow> P) \<Longrightarrow> P"
  by (cases m) auto

lemma sum_Inr: "(case m of Inl x \<Rightarrow> Inl x | Inr y \<Rightarrow> f y) = Inr z \<Longrightarrow> (\<And>y. f y = Inr z \<Longrightarrow> P) \<Longrightarrow> P"
  by (cases m) auto

lemma prod_Inr: "(case m of (x, y) \<Rightarrow> f x y) = Inr z \<Longrightarrow> (\<And>x y. f x y = Inr z \<Longrightarrow> P) \<Longrightarrow> P"
  by (cases m) auto

lemma parse_stage: "parseRequest e req = Inr ri \<Longrightarrow> stage ri = request_stage req (Split (rq_Path req) (CHR ''/''))"
  unfolding parseRequest_def Let_def
  by (erule if_Inr; erule if_Inr; erule option_Inr; elim prod_Inr; erule if_Inr; erule if_Inr; erule sum_Inr; erule if_Inr; erule if_Inr) auto

lemma path_stage:
  assumes "parseRequest e req = Inr ri" "HasPrefix (rq_Path req) (CHR ''/'' # s @ ''/'')" "CHR ''/'' \<notin> set s"
  shows "s \<noteq> ''provision'' \<Longrightarrow> stage ri = canonical_stage s"
  using parse_stage [OF assms(1)] Split_first [OF assms(2,3)] by (auto simp: request_stage_def)

lemmas route_stage =
  path_stage [where s = "''ipxe''", simplified] path_stage [where s = "''efiboot''", simplified]
  path_stage [where s = "''grub''", simplified] path_stage [where s = "''kernel''", simplified]
  path_stage [where s = "''image''", simplified] path_stage [where s = "''initramfs''", simplified]
  path_stage [where s = "''system''", simplified] path_stage [where s = "''runtime''", simplified]
  path_stage [where s = "''files''", simplified] path_stage [where s = "''container''", simplified]
  path_stage [where s = "''overlay-system''", simplified] path_stage [where s = "''overlay-runtime''", simplified]
  path_stage [where s = "''api''", simplified]

text \<open>What \<open>serve\<close> may do with a request for which it sends something.\<close>

lemma serve_cases:
  fixes req :: request
  defines "req' \<equiv> req\<lparr>rq_Path := slash_fix (rq_Path req)\<rparr>"
  assumes "served (fst (serve api e w req))"
  obtains "rq_Path req' = ''/status''"
  | pat h where "(pat, h) \<in> set routes" "HasPrefix (rq_Path req') pat" "serve api e w req = h e w req'"
  | h where "api = Some h" "HasPrefix (rq_Path req') ''/api/''"
proof (cases "rq_Path req' = ''/status''")
  case False
  define table where "table = routes @ (case api of Some h \<Rightarrow> [(''/api/'', h)] | None \<Rightarrow> [])"
  have s: "serve api e w req = (if \<not> mux_clean (rq_Path req') then (http 301, w) else
      (case find (\<lambda>(pat, h). HasPrefix (rq_Path req') pat) table of
         Some (_, h) \<Rightarrow> h e w req'
       | None \<Rightarrow> (http (if rq_Path req' @ ''/'' \<in> set (map fst table) then 301 else 404), w)))"
    using False unfolding serve_def Let_def table_def req'_def by simp
  obtain pat h where f: "find (\<lambda>(pat, h). HasPrefix (rq_Path req') pat) table = Some (pat, h)"
    using assms(2) s by (cases "find (\<lambda>(pat, h). HasPrefix (rq_Path req') pat) table") (auto split: if_splits)
  then have m: "(pat, h) \<in> set table" "HasPrefix (rq_Path req') pat"
    by (auto simp: find_Some_iff) (metis nth_mem)
  have r: "serve api e w req = h e w req'" using s f assms(2) by (auto split: if_splits)
  from m(1) consider "(pat, h) \<in> set routes" | "api = Some h" "pat = ''/api/''"
    by (auto simp: table_def split: option.splits)
  then show thesis using m(2) r that(2,3) by cases auto
qed (rule that(1))

section \<open>Safety of the provisioning server\<close>

lemma stage_handler_served:
  assumes "served (fst (HandleProvision e w req))"
  shows "\<exists>ri h. parseRequest e req = Inr ri \<and> stage_handler (stage ri) = Some h \<and> HandleProvision e w req = h e w req"
  using assms by (auto simp: HandleProvision_def split: sum.splits option.splits)

lemma HandleRuntimeOverlay_served:
  "served (fst (HandleRuntimeOverlay e w req)) \<Longrightarrow>
     HandleRuntimeOverlay e w req = with_request (send_overlay ''runtime'') e w req \<and>
     (c_TLSEnabled (e_conf e) \<longrightarrow> rq_TLS req)"
  by (auto simp: HandleRuntimeOverlay_def split: if_splits)

definition for_configured :: "handler \<Rightarrow> bool" where
  "for_configured h \<longleftrightarrow> (\<forall>e w req. served (fst (h e w req)) \<longrightarrow>
     (\<exists>ctx w'. authorised e w req ctx w' \<and> Node_Valid (remoteNode ctx)))"

lemma for_configuredD:
  "for_configured h \<Longrightarrow> served (fst (h e w req)) \<Longrightarrow> \<exists>ctx w'. authorised e w req ctx w' \<and> Node_Valid (remoteNode ctx)"
  by (simp add: for_configured_def)

lemma for_configured_handlers:
  "for_configured HandleKernel" "for_configured HandleImage" "for_configured HandleInitramfs"
  "for_configured HandleGrub" "for_configured HandleEfiBoot" "for_configured HandleSystemOverlay"
  "for_configured HandleRuntimeOverlay"
  unfolding for_configured_def
  using kernel.guarded image.guarded initramfs.guarded grub.guarded efi.guarded overlay.guarded
    HandleRuntimeOverlay_served
  by (metis HandleKernel_def HandleImage_def HandleInitramfs_def HandleGrub_def HandleEfiBoot_def
      HandleSystemOverlay_def)+

lemma stage_handler_for_configured:
  assumes "stage_handler s = Some h"
  shows "for_configured h \<or> s = ''ipxe'' \<and> h = HandleIpxe"
  using assms for_configured_handlers by (simp add: stage_handler_def split: if_splits)

lemma provision_authorised:
  assumes "served (fst (HandleProvision e w req))"
  shows "\<exists>ctx w'. authorised e w req ctx w' \<and> (Node_Valid (remoteNode ctx) \<or> stage (rinfo ctx) = ''ipxe'')"
proof -
  from stage_handler_served [OF assms] obtain ri h
    where ri: "parseRequest e req = Inr ri" and h: "stage_handler (stage ri) = Some h" "HandleProvision e w req = h e w req"
    by blast
  with assms have s: "served (fst (h e w req))" by simp
  from stage_handler_for_configured [OF h(1)] show ?thesis
  proof
    assume "for_configured h"
    with s show ?thesis using for_configuredD by blast
  next
    assume i: "stage ri = ''ipxe'' \<and> h = HandleIpxe"
    with s obtain ctx w' where "authorised e w req ctx w'" using with_request_served by (metis HandleIpxe_def)
    with ri i show ?thesis by (auto simp: authorised_def)
  qed
qed

text \<open>
  (C3) Whatever the server sends for a path other than the status page, the file server and the
  management API goes to a request that was authorised: it names a node by its hardware address,
  carries the asset key of that node if it has one, and comes from a privileged port if it asks for a
  secured runtime overlay. Only the iPXE script is ever sent when no node is configured.
\<close>

theorem serve_authorised:
  fixes req :: request
  defines "req' \<equiv> req\<lparr>rq_Path := slash_fix (rq_Path req)\<rparr>"
  assumes "served (fst (serve api e w req))"
    and "rq_Path req' \<noteq> ''/status''" "\<not> HasPrefix (rq_Path req') ''/files/''" "\<not> HasPrefix (rq_Path req') ''/api/''"
  shows "\<exists>ctx w'. authorised e w req' ctx w' \<and> (Node_Valid (remoteNode ctx) \<or> stage (rinfo ctx) = ''ipxe'')"
  using assms(2)
proof (cases rule: serve_cases)
  case (2 pat h)
  note p = 2 [folded req'_def]
  with assms(2) have s: "served (fst (h e w req'))" by simp
  from p(1,2) assms(4) consider "h = HandleProvision" | "h = HandleIpxe" "HasPrefix (rq_Path req') ''/ipxe/''" | "for_configured h"
    using for_configured_handlers unfolding routes_def by auto
  then show ?thesis
  proof cases
    case 1
    with s show ?thesis using provision_authorised by blast
  next
    case 2
    with s obtain ctx w' where a: "authorised e w req' ctx w'" using with_request_served by (metis HandleIpxe_def)
    then have "stage (rinfo ctx) = ''ipxe''"
      using route_stage(1) [of e req' "rinfo ctx"] 2(2) by (simp add: authorised_def canonical_stage_def)
    with a show ?thesis by blast
  next
    case 3
    with s show ?thesis using for_configuredD by blast
  qed
qed (use assms(3,5) in \<open>auto simp: req'_def\<close>)

definition sample_req :: "string \<Rightarrow> string \<Rightarrow> request" where
  "sample_req p key = \<lparr>rq_Path = p, rq_Query = [(''assetkey'', [key])], rq_RemoteAddr = Some (''10.0.0.7'', 987), rq_TLS = False\<rparr>"

definition busy_world :: world where
  "busy_world = \<lparr>w_NodeInfo = [(''aa:bb:cc:dd:ee:ff'', ''n1'')], w_yml = sample_cluster, w_disk = Some ''nodes'',
     w_status = [], w_fs = \<lparr>fy_files = [''/srv/overlays/n1/__RUNTIME__.img'', ''/srv/files/motd''], fy_dirs = []\<rparr>\<rparr>"

lemma sample_env_simps:
  "e_lib sample_env = sample_lib" "c_Secure (e_conf sample_env)" "c_SecureFiles (e_conf sample_env)"
  "c_AutobuildOverlays (e_conf sample_env)" "\<not> c_TLSEnabled (e_conf sample_env)"
  "c_OverlayProvisiondir (e_conf sample_env) = ''/srv/overlays''" "c_WWFilesdir (e_conf sample_env) = ''/srv/files''"
  "e_stale sample_env = (\<lambda>_. False)"
  "e_open sample_env = (\<lambda>_ _. True)"
  by (simp_all add: sample_env_def)

lemma busy_world_simps:
  "w_NodeInfo busy_world = [(''aa:bb:cc:dd:ee:ff'', ''n1'')]" "w_yml busy_world = sample_cluster"
  "w_fs busy_world = \<lparr>fy_files = [''/srv/overlays/n1/__RUNTIME__.img'', ''/srv/files/motd''], fy_dirs = []\<rparr>"
  by (simp_all add: busy_world_def)

lemmas sample_simps = sample_env_simps busy_world_simps

lemma sample_parse:
  "parseRequest sample_env (sample_req ''/runtime/AA-bb-cc-dd-ee-ff'' key) = Inr
     \<lparr>hwaddr = ''aa:bb:cc:dd:ee:ff'', ipaddr = ''10.0.0.7'', remoteport = 987, assetkey = key, uuid = [],
      stage = ''runtime'', efifile = [], compress = []\<rparr>"
proof -
  have "Split ''/runtime/AA-bb-cc-dd-ee-ff'' (CHR ''/'') = ['''', ''runtime'', ''AA-bb-cc-dd-ee-ff'']" by code_simp
  moreover have "parseHwaddr ''AA-bb-cc-dd-ee-ff'' = ''aa:bb:cc:dd:ee:ff''" by code_simp
  ultimately show ?thesis
    by (simp add: parseRequest_def sample_req_def query_def request_stage_def canonical_stage_def find_hwaddr_def)
qed

lemma sample_node:
  obtains n where "GetNode sample_lib sample_cluster ''n1'' = Inr n" "nd_id n = ''n1''" "nd_valid n"
proof -
  have "gm_get (Nodes sample_cluster) ''n1'' \<noteq> None" by code_simp
  then obtain n0 where "gm_get (Nodes sample_cluster) ''n1'' = Some n0" by blast
  then obtain m node fm where "MergeNode sample_lib sample_cluster ''n1'' = Inr (node, fm)" "nd_id node = ''n1''" "nd_valid node"
    by (rule MergeNode_result [OF sample_lib_ok])
  then show thesis by (intro that [of node]) (simp_all add: GetNode_def)
qed

lemma sample_serves:
  "\<exists>key. serve None sample_env busy_world (sample_req ''/runtime/AA-bb-cc-dd-ee-ff'' key) =
     (http_ok (FileBody ''/srv/overlays/n1/__RUNTIME__.img''),
      updateStatus sample_env ''n1'' ''runtime'' ''__RUNTIME__.img'' ''10.0.0.7'' busy_world)"
proof -
  let ?p = "''/runtime/AA-bb-cc-dd-ee-ff''"
  obtain n where n: "GetNode sample_lib sample_cluster ''n1'' = Inr n" "nd_id n = ''n1''" "nd_valid n"
    by (rule sample_node)
  let ?req = "sample_req ?p (nd_AssetKey n)"
  have path: "slash_fix ?p = ?p" "mux_clean ?p" by code_simp+
  have "find (\<lambda>(pat, h). HasPrefix ?p pat) routes = Some (''/runtime/'', HandleRuntimeOverlay)"
    by (simp add: routes_def)
  then have s: "serve None sample_env busy_world ?req = HandleRuntimeOverlay sample_env busy_world ?req"
    using path by (simp add: serve_def Let_def sample_req_def)
  have base: "path_Base ''/srv/overlays/n1/__RUNTIME__.img'' = ''__RUNTIME__.img''"
    and dirs: "Rel ''/srv/overlays'' ''/srv/overlays/n1/__RUNTIME__.img'' = Some ''n1/__RUNTIME__.img''" by code_simp+
  have init: "initHandleRequest sample_env busy_world ?req = (Inr \<lparr>rinfo = \<lparr>hwaddr = ''aa:bb:cc:dd:ee:ff'', ipaddr = ''10.0.0.7'',
      remoteport = 987, assetkey = nd_AssetKey n, uuid = [], stage = ''runtime'', efifile = [], compress = []\<rparr>, remoteNode = n\<rparr>, busy_world)"
    using n by (simp add: initHandleRequest_def sample_parse GetOrDiscoverNode_def sample_simps)
  have img: "overlay_Image ''/srv/overlays'' ''n1'' ''runtime'' [] = ''/srv/overlays/n1/__RUNTIME__.img''" by code_simp
  have overlay_file: "getOverlayFile sample_env busy_world n ''runtime'' True = (Inr ''/srv/overlays/n1/__RUNTIME__.img'', busy_world)"
    using n(2) by (simp add: getOverlayFile_def IsFile_def sample_simps Node_Id_def img)
  show ?thesis
    by (intro exI [of _ "nd_AssetKey n"])
      (simp add: s HandleRuntimeOverlay_def with_request_def init send_overlay_def Node_Valid_def Node_Id_def n overlay_file
        sendResponse_def sendFile_def openInDir_def IsFile_def base dirs sample_simps)
qed

theorem serve_authorised_witness:
  "\<exists>req ctx w'. served (fst (serve None sample_env busy_world req)) \<and> authorised sample_env busy_world req ctx w' \<and>
     Node_Valid (remoteNode ctx)"
proof -
  let ?p = "''/runtime/AA-bb-cc-dd-ee-ff''"
  obtain key where s: "served (fst (serve None sample_env busy_world (sample_req ?p key)))"
    using sample_serves by (metis fst_conv served_def response.select_convs(2) body.distinct(1))
  have path: "slash_fix ?p = ?p" by code_simp
  have eq: "(sample_req ?p key)\<lparr>rq_Path := slash_fix (rq_Path (sample_req ?p key))\<rparr> = sample_req ?p key"
    using path by (simp add: sample_req_def)
  obtain ctx w' where a: "authorised sample_env busy_world (sample_req ?p key) ctx w'"
    "Node_Valid (remoteNode ctx) \<or> stage (rinfo ctx) = ''ipxe''"
    using serve_authorised [OF s, unfolded eq] by (auto simp: sample_req_def)
  then have "stage (rinfo ctx) = ''runtime''" 
    using authorised_parse [OF a(1)] unfolding sample_parse by (metis sum.inject(2) parsedRequest.select_convs(6))
  with a s show ?thesis by auto
qed

section \<open>The runtime overlay\<close>

lemma getOverlayFile_file:
  "getOverlayFile e w n ctxt b = (Inr f, w') \<Longrightarrow> f = overlayImage e (Node_Id n) ctxt"
  by (auto simp: getOverlayFile_def Let_def split: if_splits sum.splits prod.splits option.splits)

lemma send_overlay_served:
  assumes "served (fst (send_overlay ctxt e w ctx))"
  shows "rs_body (fst (send_overlay ctxt e w ctx)) =
    FileBody (overlayImage e (Node_Id (remoteNode ctx)) ctxt @ (if compress (rinfo ctx) = ''gz'' then ''.gz'' else ''''))"
proof -
  obtain r w' where g: "getOverlayFile e w (remoteNode ctx) ctxt (c_AutobuildOverlays (e_conf e)) = (r, w')" by fastforce
  have "Node_Valid (remoteNode ctx)" using assms by (rule overlay.send_valid)
  with assms g obtain f where f: "r = Inr f"
    and s: "send_overlay ctxt e w ctx = sendResponse e w' (c_OverlayProvisiondir (e_conf e)) f None ctx"
    by (cases r) (auto simp: send_overlay_def Let_def)
  show ?thesis using sendResponse_served [of e w' _ f ctx] assms getOverlayFile_file [of e w _ ctxt _ f w'] g f s by auto
qed

text \<open>A request whose stage is the runtime overlay reaches no other handler.\<close>

lemma runtime_route:
  fixes req :: request
  defines "req' \<equiv> req\<lparr>rq_Path := slash_fix (rq_Path req)\<rparr>"
  assumes "served (fst (serve api e w req))" "parseRequest e req' = Inr ri" "stage ri = ''runtime''"
  shows "serve api e w req = HandleRuntimeOverlay e w req'"
  using assms(2)
proof (cases rule: serve_cases)
  case 1
  then have "Split (rq_Path req') (CHR ''/'') = ['''', ''status'']" by (simp add: req'_def)
  then show ?thesis using parse_stage [OF assms(3)] assms(4) by (simp add: request_stage_def canonical_stage_def)
next
  case (2 pat h)
  note p = 2 [folded req'_def]
  consider "h = HandleRuntimeOverlay" | "h = HandleProvision" | s where "pat = CHR ''/'' # s @ ''/''"
      "CHR ''/'' \<notin> set s" "s \<noteq> ''provision''" "canonical_stage s \<noteq> ''runtime''"
  proof -
    have "h = HandleRuntimeOverlay \<or> h = HandleProvision \<or> (\<exists>s\<in>set [''ipxe'', ''efiboot'', ''grub'', ''kernel'',
        ''image'', ''initramfs'', ''system'', ''files'', ''container'', ''overlay-system'']. pat = CHR ''/'' # s @ ''/'')"
      using p(1) unfolding routes_def by auto
    then show thesis using that by (auto simp: canonical_stage_def)
  qed
  then show ?thesis
  proof cases
    case 2
    with assms(2) p(3) have "served (fst (HandleProvision e w req'))" by simp
    from stage_handler_served [OF this] assms(3,4) p(3) 2 show ?thesis by (auto simp: stage_handler_def)
  next
    case 3
    with path_stage [OF assms(3)] p(2) assms(4) show ?thesis by simp
  qed (use p(3) in simp)
next
  case 3
  with route_stage(13) [OF assms(3)] assms(4) show ?thesis by (simp add: req'_def canonical_stage_def)
qed

lemma EmptyNode_invalid: "\<not> Node_Valid EmptyNode"
  by (simp add: Node_Valid_def EmptyNode_def Node_Expand_def zero_Node_def)

text \<open>
  (C5) The runtime overlay, which may hold secrets: whatever path leads to it, it is sent only to a
  configured node that presented its asset key, over TLS if TLS is enabled, from a privileged port
  if the configuration is secure, and what is sent is the runtime overlay image of that node.
\<close>

theorem runtime_overlay_guarded:
  fixes req :: request
  defines "req' \<equiv> req\<lparr>rq_Path := slash_fix (rq_Path req)\<rparr>"
  assumes "served (fst (serve api e w req))" "parseRequest e req' = Inr ri" "stage ri = ''runtime''"
  shows "\<exists>n. fst (GetOrDiscoverNode e w (hwaddr ri) (c_AutobuildOverlays (e_conf e))) = Inr n \<and>
    Node_Valid n \<and> (nd_AssetKey n \<noteq> [] \<longrightarrow> nd_AssetKey n = assetkey ri) \<and>
    (c_TLSEnabled (e_conf e) \<longrightarrow> rq_TLS req) \<and> (c_Secure (e_conf e) \<longrightarrow> remoteport ri < 1024) \<and>
    rs_body (fst (serve api e w req)) =
      FileBody (overlayImage e (Node_Id n) ''runtime'' @ (if compress ri = ''gz'' then ''.gz'' else ''''))"
proof -
  have s: "serve api e w req = HandleRuntimeOverlay e w req'"
    unfolding req'_def using assms(2) assms(3,4) [unfolded req'_def] by (rule runtime_route)
  with assms(2) have r: "served (fst (HandleRuntimeOverlay e w req'))" by simp
  note HandleRuntimeOverlay_served [OF r]
  moreover from this r obtain ctx w' where a: "authorised e w req' ctx w'" "Node_Valid (remoteNode ctx)"
    and k: "with_request (send_overlay ''runtime'') e w req' = send_overlay ''runtime'' e w' ctx"
    using overlay.guarded by metis
  moreover have "rinfo ctx = ri" using a(1) assms(3) by (simp add: authorised_def)
  moreover have "rq_TLS req' = rq_TLS req" by (simp add: req'_def)
  moreover have "rs_body (fst (serve api e w req)) = FileBody (overlayImage e (Node_Id (remoteNode ctx)) ''runtime'' @
      (if compress (rinfo ctx) = ''gz'' then ''.gz'' else ''''))"
    using send_overlay_served [of "''runtime''" e w' ctx] r s calculation by simp
  moreover have "remoteNode ctx \<noteq> EmptyNode" using a(2) EmptyNode_invalid by metis
  ultimately show ?thesis
    using assms(4) by (intro exI [of _ "remoteNode ctx"]) (auto simp: authorised_def)
qed

theorem runtime_overlay_guarded_witness:
  "\<exists>key. rs_body (fst (serve None sample_env busy_world (sample_req ''/runtime/AA-bb-cc-dd-ee-ff'' key))) =
     FileBody ''/srv/overlays/n1/__RUNTIME__.img'' \<and>
     (\<exists>n. fst (GetOrDiscoverNode sample_env busy_world ''aa:bb:cc:dd:ee:ff'' True) = Inr n \<and> Node_Valid n \<and>
        (nd_AssetKey n \<noteq> [] \<longrightarrow> nd_AssetKey n = key))"
proof -
  let ?p = "''/runtime/AA-bb-cc-dd-ee-ff''"
  obtain key where b: "rs_body (fst (serve None sample_env busy_world (sample_req ?p key))) = FileBody ''/srv/overlays/n1/__RUNTIME__.img''"
    using sample_serves by (metis fst_conv response.select_convs(2))
  then have s: "served (fst (serve None sample_env busy_world (sample_req ?p key)))" by (simp add: served_def)
  have path: "slash_fix ?p = ?p" by code_simp
  have eq: "(sample_req ?p key)\<lparr>rq_Path := slash_fix (rq_Path (sample_req ?p key))\<rparr> = sample_req ?p key"
    using path by (simp add: sample_req_def)
  from runtime_overlay_guarded [OF s, unfolded eq, OF sample_parse] b show ?thesis by (auto simp: sample_simps)
qed

section \<open>The file server\<close>

lemma Join_dots_free:
  assumes "cs \<noteq> [] \<and> (\<forall>c\<in>set cs. proper c) \<and> \<not> HasPrefix (hd cs) ''..''"
  shows "Join cs ''/'' \<noteq> [] \<and> \<not> HasPrefix (Join cs ''/'') ''..''"
proof -
  obtain c cs' where c: "cs = c # cs'" using assms by (cases cs) auto
  with assms have p: "proper c" "\<not> HasPrefix c ''..''" by simp_all
  have "\<exists>t. Join cs ''/'' = c @ t \<and> (t = [] \<or> hd t = CHR ''/'')" by (cases cs') (auto simp: c)
  then obtain t where t: "Join cs ''/'' = c @ t" "t = [] \<or> hd t = CHR ''/''" by blast
  from p(1) obtain a c' where a: "c = a # c'" by (cases c) (auto simp: proper_def)
  show ?thesis
  proof (cases c')
    case Nil
    then show ?thesis using p t a by (cases t) (auto simp: proper_def)
  next
    case (Cons b c'')
    then show ?thesis using p t a by auto
  qed
qed



lemma authenticateNode_served: "authenticateNode e w req = Inl r \<Longrightarrow> \<not> served r"
  by (auto simp: authenticateNode_def served_def Let_def split: option.splits sum.splits if_splits)

lemma authenticateNode_node:
  assumes "authenticateNode e w req = Inr n"
  shows "\<exists>ip port h. rq_RemoteAddr req = Some (ip, port) \<and> find_hwaddr e req [] ip = Inr h \<and> wwd_GetNode e w h = Inr n \<and>
    (c_SecureFiles (e_conf e) \<longrightarrow> port < 1024) \<and> (nd_AssetKey n \<noteq> [] \<longrightarrow> query req ''assetkey'' = Some (nd_AssetKey n))"
  using assms by (auto simp: authenticateNode_def Let_def split: option.splits sum.splits if_splits)

lemma render_file_body:
  "served (render_file e w n f) \<Longrightarrow> \<exists>nodes t. e_overlayTemplate e f n nodes = Inr t \<and> render_file e w n f = http_ok (Rendered t)"
  by (auto simp: render_file_def served_def split: sum.splits prod.splits option.splits)

lemma HandleFiles_cases:
  assumes n: "authenticateNode e w req = Inr n" and "served (fst (HandleFiles e w req))"
  defines "p \<equiv> resolveFilesPath (c_WWFilesdir (e_conf e)) (rq_Path req)"
  shows "map_of (rq_Query req) ''render'' = None \<and>
         rs_body (fst (HandleFiles e w req)) = StaticFile (TrimPrefix (rq_Path req) ''/files/'') \<or>
       query req ''render'' \<in> {None, Some [], Some (Node_Id n)} \<and>
         (\<exists>f nodes t. f \<in> {p, p @ ''.ww''} \<and> path_exists (w_fs w) f \<and> HasSuffix f ''.ww'' \<and> e_overlayTemplate e f n nodes = Inr t \<and>
            rs_body (fst (HandleFiles e w req)) = Rendered t)"
proof (cases "map_of (rq_Query req) ''render'' = None")
  case True
  then show ?thesis by (simp add: HandleFiles_def n)
next
  case False
  have ww: "HasSuffix (f @ ''.ww'') ''.ww''" for f by (simp add: HasSuffix_def)
  define name where "name = (case query req ''render'' of Some v \<Rightarrow> v | None \<Rightarrow> [])"
  have eq: "fst (HandleFiles e w req) =
     (if name \<noteq> [] \<and> name \<noteq> Node_Id n then http 400
      else if p = [] then http 404
      else if \<not> HasSuffix p ''.ww'' then
        (if path_exists (w_fs w) (p @ ''.ww'') then render_file e w n (p @ ''.ww'') else if path_exists (w_fs w) p then http 400 else http 404)
      else if \<not> path_exists (w_fs w) p then http 404 else render_file e w n p)"
    using False by (simp add: HandleFiles_def n name_def p_def Let_def)
  have "query req ''render'' \<in> {None, Some [], Some (Node_Id n)}"
    using assms(2) unfolding eq by (auto simp: name_def split: option.splits if_splits)
  moreover obtain f where f: "f \<in> {p, p @ ''.ww''}" "path_exists (w_fs w) f" "HasSuffix f ''.ww''" "fst (HandleFiles e w req) = render_file e w n f"
    using assms(2) ww [of p] unfolding eq by (auto split: if_splits)
  moreover obtain nodes t where "e_overlayTemplate e f n nodes = Inr t" "render_file e w n f = http_ok (Rendered t)"
    using render_file_body [of e w n f] assms(2) f(4) by auto
  ultimately show ?thesis by (intro disjI2 conjI exI [of _ f] exI [of _ nodes] exI [of _ t]) simp_all
qed

text \<open>
  The file server sends something only to a node that is in the index under the hardware address
  of the request, that presented its asset key if it has one, and from a privileged port if files are
  secured. It renders a template for that node and no other, from a file at the resolved path.
\<close>

theorem HandleFiles_guarded:
  fixes e :: env and req :: request
  defines "p \<equiv> resolveFilesPath (c_WWFilesdir (e_conf e)) (rq_Path req)"
  assumes "served (fst (HandleFiles e w req))"
  shows "snd (HandleFiles e w req) = w \<and>
    (\<exists>ip port h n. rq_RemoteAddr req = Some (ip, port) \<and> find_hwaddr e req [] ip = Inr h \<and> wwd_GetNode e w h = Inr n \<and>
      (c_SecureFiles (e_conf e) \<longrightarrow> port < 1024) \<and> (nd_AssetKey n \<noteq> [] \<longrightarrow> query req ''assetkey'' = Some (nd_AssetKey n)) \<and>
      (map_of (rq_Query req) ''render'' = None \<and>
         rs_body (fst (HandleFiles e w req)) = StaticFile (TrimPrefix (rq_Path req) ''/files/'') \<or>
       query req ''render'' \<in> {None, Some [], Some (Node_Id n)} \<and>
         (\<exists>f nodes t. f \<in> {p, p @ ''.ww''} \<and>
            path_exists (w_fs w) f \<and> HasSuffix f ''.ww'' \<and> e_overlayTemplate e f n nodes = Inr t \<and>
            rs_body (fst (HandleFiles e w req)) = Rendered t)))"
proof -
  have "\<exists>n. authenticateNode e w req = Inr n"
    using assms(2) authenticateNode_served by (cases "authenticateNode e w req") (auto simp: HandleFiles_def)
  then obtain n where n: "authenticateNode e w req = Inr n" by blast
  have w: "snd (HandleFiles e w req) = w" by (simp add: HandleFiles_def n Let_def)
  note body = HandleFiles_cases [OF n assms(2), folded p_def]
  from authenticateNode_node [OF n] obtain ip port h where
    "rq_RemoteAddr req = Some (ip, port)" "find_hwaddr e req [] ip = Inr h" "wwd_GetNode e w h = Inr n"
    "c_SecureFiles (e_conf e) \<longrightarrow> port < 1024" "nd_AssetKey n \<noteq> [] \<longrightarrow> query req ''assetkey'' = Some (nd_AssetKey n)" by blast
  with body show ?thesis by (intro conjI w exI [of _ ip] exI [of _ port] exI [of _ h] exI [of _ n])
qed

theorem HandleFiles_guarded_witness:
  "\<exists>key n. rs_body (fst (HandleFiles sample_env busy_world (sample_req ''/files/motd'' key))) = StaticFile ''motd'' \<and>
     wwd_GetNode sample_env busy_world ''aa:bb:cc:dd:ee:ff'' = Inr n \<and> (nd_AssetKey n \<noteq> [] \<longrightarrow> nd_AssetKey n = key)"
proof -
  obtain n where n: "GetNode sample_lib sample_cluster ''n1'' = Inr n" "nd_id n = ''n1''" "nd_valid n"
    by (rule sample_node)
  let ?req = "sample_req ''/files/motd'' (nd_AssetKey n)"
  have arp: "ArpFind sample_env ''10.0.0.7'' = Inr ''aa:bb:cc:dd:ee:ff''"
    and hw: "parseHwaddr ''aa:bb:cc:dd:ee:ff'' = ''aa:bb:cc:dd:ee:ff''" by code_simp+
  have h: "find_hwaddr sample_env ?req [] ''10.0.0.7'' = Inr ''aa:bb:cc:dd:ee:ff''"
    by (simp add: find_hwaddr_def query_def sample_req_def arp hw)
  have g: "wwd_GetNode sample_env busy_world ''aa:bb:cc:dd:ee:ff'' = Inr n" using n by (simp add: wwd_GetNode_def sample_simps)
  have rq: "rq_RemoteAddr ?req = Some (''10.0.0.7'', 987)" "query ?req ''assetkey'' = Some (nd_AssetKey n)"
    "map_of (rq_Query ?req) ''render'' = None" "rq_Path ?req = ''/files/motd''"
    by (simp_all add: sample_req_def query_def)
  have "authenticateNode sample_env busy_world ?req = Inr n"
    unfolding authenticateNode_def using h g by (simp add: rq Let_def)
  then have f: "HandleFiles sample_env busy_world ?req = (http_ok (StaticFile ''motd''), busy_world)"
    by (simp add: HandleFiles_def rq TrimPrefix_def HasPrefix_def)
  then have "served (fst (HandleFiles sample_env busy_world ?req))" by (simp add: served_def)
  from HandleFiles_guarded [OF this] rq(1) h g have "nd_AssetKey n \<noteq> [] \<longrightarrow> query ?req ''assetkey'' = Some (nd_AssetKey n)"
    by auto
  with f g rq(2) show ?thesis by (intro exI [of _ "nd_AssetKey n"] exI [of _ n]) simp
qed

section \<open>The kernel\<close>

lemma send_kernel_served:
  assumes "served (fst (send_kernel e w ctx))"
  obtains k where "node_kernel e w (remoteNode ctx) = Some k"
    "imageRootFs e (pf_ImageName (nd_Profile (remoteNode ctx))) \<noteq> []"
    "rs_body (fst (send_kernel e w ctx)) =
       FileBody (Kernel_FullPath (c_WWChrootdir (e_conf e)) k @ (if compress (rinfo ctx) = ''gz'' then ''.gz'' else ''''))"
proof -
  let ?dir = "imageRootFs e (pf_ImageName (nd_Profile (remoteNode ctx)))"
  have v: "Node_Valid (remoteNode ctx)" using assms by (rule kernel.send_valid)
  show thesis
  proof (cases "node_kernel e w (remoteNode ctx)")
    case None
    with v assms show thesis by (simp add: send_kernel_def Let_def)
  next
    case (Some k)
    with v have s: "send_kernel e w ctx = sendResponse e w ?dir (Kernel_FullPath (c_WWChrootdir (e_conf e)) k) None ctx"
      by (simp add: send_kernel_def Let_def)
    from sendResponse_served [OF assms [unfolded s]] sendResponse_dir [OF assms [unfolded s]] Some show thesis
      by (intro that [of k]) (simp_all add: s)
  qed
qed

text \<open>
  (C34) A kernel is sent to configured nodes only, and only from inside the image of the node: the
  image has a valid name, and the path sent continues the root directory of the image with proper
  names, whatever kernel version is configured.
\<close>

theorem HandleKernel_inside:
  assumes "rooted (c_WWChrootdir (e_conf e))" "served (fst (HandleKernel e w req))"
  shows "\<exists>ctx w' cs. authorised e w req ctx w' \<and> Node_Valid (remoteNode ctx) \<and> (\<forall>c\<in>set cs. proper c) \<and>
    ValidName (pf_ImageName (nd_Profile (remoteNode ctx))) \<and>
    rs_body (fst (HandleKernel e w req)) =
      FileBody (path_of True (comps (RootFsDir (c_WWChrootdir (e_conf e)) (pf_ImageName (nd_Profile (remoteNode ctx)))) @ cs) @
        (if compress (rinfo ctx) = ''gz'' then ''.gz'' else ''''))"
proof -
  from kernel.guarded [OF assms(2) [unfolded HandleKernel_def]] obtain ctx w'
    where a: "authorised e w req ctx w'" "Node_Valid (remoteNode ctx)" and s: "HandleKernel e w req = send_kernel e w' ctx"
    unfolding HandleKernel_def by blast
  obtain k where k: "node_kernel e w' (remoteNode ctx) = Some k"
    and d: "imageRootFs e (pf_ImageName (nd_Profile (remoteNode ctx))) \<noteq> []"
    and b: "rs_body (fst (send_kernel e w' ctx)) =
       FileBody (Kernel_FullPath (c_WWChrootdir (e_conf e)) k @ (if compress (rinfo ctx) = ''gz'' then ''.gz'' else ''''))"
    using assms(2) [unfolded s] by (rule send_kernel_served)
  from FromNode_inside [OF assms(1) k] obtain cs where "\<forall>c\<in>set cs. proper c" "Kernel_FullPath (c_WWChrootdir (e_conf e)) k =
      path_of True (comps (RootFsDir (c_WWChrootdir (e_conf e)) (pf_ImageName (nd_Profile (remoteNode ctx)))) @ cs)" by blast
  moreover have "ValidName (pf_ImageName (nd_Profile (remoteNode ctx)))" using d by (auto simp: imageRootFs_def split: if_splits)
  ultimately show ?thesis using a b s by (intro exI [of _ ctx] exI [of _ w'] exI [of _ cs]) simp
qed

definition kernel_world :: world where
  "kernel_world = busy_world\<lparr>w_NodeInfo := [(''aa:bb:cc:dd:ee:ff'', ''n2'')],
     w_fs := \<lparr>fy_files = [''/srv/chroots/alma/rootfs/boot/vmlinuz-5.14.0''], fy_dirs = []\<rparr>\<rparr>"

lemma sample_node2:
  obtains n where "GetNode sample_lib sample_cluster ''n2'' = Inr n" "nd_valid n" "nd_AssetKey n = []"
    "pf_ImageName (nd_Profile n) = ''alma''" "pf_Kernel (nd_Profile n) = None"
proof -
  have ps: "getNodeProfiles sample_cluster ''n2'' = []"
    and n0: "GetNodeOnly sample_cluster ''n2'' = Inr (zero_Node\<lparr>nd_Profile := zero_Profile\<lparr>pf_Groups := [''login''], pf_ImageName := ''alma''\<rparr>\<rparr>)"
    by code_simp+
  have keep: "pf_ImageName (updatePrimaryNetDev p) = pf_ImageName p" "pf_Kernel (updatePrimaryNetDev p) = pf_Kernel p" for p
    by (auto simp: updatePrimaryNetDev_def split: list.splits)
  show thesis
    by (rule that [of "projr (GetNode sample_lib sample_cluster ''n2'')"])
      (simp_all add: GetNode_def MergeNode_def ps n0 merge_node_def sample_lib_def sample_merge_def Let_def setIds_def
        cleanLists_def keep zero_Node_def zero_Profile_def)
qed

theorem HandleKernel_inside_witness:
  "\<exists>req (ctx :: requestContext) cs. rs_body (fst (HandleKernel sample_env kernel_world req)) = FileBody ''/srv/chroots/alma/rootfs/boot/vmlinuz-5.14.0'' \<and>
     Node_Valid (remoteNode ctx) \<and> (\<forall>c\<in>set cs. proper c)"
proof -
  let ?req = "sample_req ''/kernel/AA-bb-cc-dd-ee-ff'' []" and ?k = "\<lparr>krn_Path = ''/boot/vmlinuz-5.14.0'', krn_ImageName = ''alma''\<rparr>"
  obtain n where n: "GetNode sample_lib sample_cluster ''n2'' = Inr n" "nd_valid n" "nd_AssetKey n = []"
    "pf_ImageName (nd_Profile n) = ''alma''" "pf_Kernel (nd_Profile n) = None" by (rule sample_node2)
  have split: "Split ''/kernel/AA-bb-cc-dd-ee-ff'' (CHR ''/'') = ['''', ''kernel'', ''AA-bb-cc-dd-ee-ff'']"
    and hw: "parseHwaddr ''AA-bb-cc-dd-ee-ff'' = ''aa:bb:cc:dd:ee:ff''"
    and found: "collection_Default sample_versions (FindKernels \<lparr>fy_files = [''/srv/chroots/alma/rootfs/boot/vmlinuz-5.14.0''], fy_dirs = []\<rparr>
        ''/srv/chroots'' ''alma'') = Some ?k"
    and full: "Kernel_FullPath ''/srv/chroots'' ?k = ''/srv/chroots/alma/rootfs/boot/vmlinuz-5.14.0''"
    and root: "RootFsDir ''/srv/chroots'' ''alma'' = ''/srv/chroots/alma/rootfs''"
    and valid: "ValidName ''alma''" and rooted: "rooted ''/srv/chroots''"
    and rel: "Rel ''/srv/chroots/alma/rootfs'' ''/srv/chroots/alma/rootfs/boot/vmlinuz-5.14.0'' = Some ''boot/vmlinuz-5.14.0''"
    by code_simp+
  have w: "w_NodeInfo kernel_world = [(''aa:bb:cc:dd:ee:ff'', ''n2'')]" "w_yml kernel_world = sample_cluster"
    "w_fs kernel_world = \<lparr>fy_files = [''/srv/chroots/alma/rootfs/boot/vmlinuz-5.14.0''], fy_dirs = []\<rparr>"
    by (simp_all add: kernel_world_def busy_world_def)
  have e: "e_versions sample_env = sample_versions" "c_WWChrootdir (e_conf sample_env) = ''/srv/chroots''"
    by (simp_all add: sample_env_def)
  have p: "parseRequest sample_env ?req = Inr \<lparr>hwaddr = ''aa:bb:cc:dd:ee:ff'', ipaddr = ''10.0.0.7'', remoteport = 987,
      assetkey = [], uuid = [], stage = ''kernel'', efifile = [], compress = []\<rparr>"
    using split hw
    by (simp add: parseRequest_def sample_req_def query_def request_stage_def canonical_stage_def find_hwaddr_def)
  have init: "initHandleRequest sample_env kernel_world ?req = (Inr \<lparr>rinfo = \<lparr>hwaddr = ''aa:bb:cc:dd:ee:ff'', ipaddr = ''10.0.0.7'',
      remoteport = 987, assetkey = [], uuid = [], stage = ''kernel'', efifile = [], compress = []\<rparr>, remoteNode = n\<rparr>, kernel_world)"
    using n by (simp add: initHandleRequest_def p GetOrDiscoverNode_def sample_simps w)
  have b: "rs_body (fst (HandleKernel sample_env kernel_world ?req)) = FileBody ''/srv/chroots/alma/rootfs/boot/vmlinuz-5.14.0''"
    by (simp add: HandleKernel_def with_request_def init send_kernel_def Let_def Node_Valid_def n FromNode_def e w found full
        sendResponse_def sendFile_def openInDir_def IsFile_def imageRootFs_def valid root rel sample_simps)
  then have "served (fst (HandleKernel sample_env kernel_world ?req))" by (simp add: served_def)
  from HandleKernel_inside [OF rooted [folded e(2)] this] obtain ctx :: requestContext and cs where "Node_Valid (remoteNode ctx)" "\<forall>c\<in>set cs. proper c"
    by blast
  with b show ?thesis by (intro exI [of _ ?req] exI [of _ ctx] exI [of _ cs]) simp
qed

end
