(* ===== verification/Go_Cidr.thy ===== *)
theory Go_Cidr
  imports Go_Net
begin

text \<open>\<open>net.ParseCIDR\<close> and the masks it makes, for the configuration files.\<close>

unbundle bit_operations_syntax

text \<open>\<open>net.CIDRMask\<close> and \<open>IP.Mask\<close>, which shortens an IPv4 address to four bytes for a mask of four bytes.\<close>

definition mask_byte :: "nat \<Rightarrow> 8 word" where
  "mask_byte n = of_nat (256 - 2 ^ (8 - min 8 n))"

definition CIDRMask :: "nat \<Rightarrow> nat \<Rightarrow> IP" where
  "CIDRMask ones bytes = map (\<lambda>i. mask_byte (ones - 8 * i)) [0..<bytes]"

definition IP_Mask :: "IP \<Rightarrow> IP \<Rightarrow> IP" where
  "IP_Mask ip msk =
     (let msk = (if length msk = 16 \<and> length ip = 4 \<and> take 12 msk = replicate 12 255 then drop 12 msk else msk);
          ip = (if length msk = 4 \<and> length ip = 16 \<and> take 12 ip = v4InV6Prefix then drop 12 ip else ip)
      in if length ip \<noteq> length msk then [] else map2 (AND) ip msk)"

text \<open>
  \<open>net.ParseCIDR\<close>: the address, the network address and the mask. The number of bits is written in
  decimal digits; an address with a colon is an IPv6 address.
\<close>

definition ParseCIDR :: "string \<Rightarrow> (IP \<times> IP \<times> IP) option" where
  "ParseCIDR s =
     (let a = takeWhile (\<lambda>c. c \<noteq> CHR ''/'') s; m = drop (Suc (length a)) s;
          bytes = (if CHR '':'' \<in> set a then 16 else 4)
      in if CHR ''/'' \<notin> set s \<or> m = [] \<or> \<not> list_all is_digit m \<or> dec_val m > 8 * bytes then None
         else (case ParseIP a of
             None \<Rightarrow> None
           | Some ip \<Rightarrow> let msk = CIDRMask (dec_val m) bytes in Some (ip, IP_Mask ip msk, msk)))"

end
