(* ===== verification/Upgrade_Nodes.thy ===== *)
theory Upgrade_Nodes
  imports Go_Cidr Boot_Files
begin

text \<open>
  The conversion of a \<open>nodes.conf\<close> of an older release (\<open>internal/pkg/upgrade/node.go\<close>,
  \<open>slices.go\<close>, \<open>util.go\<close>).

  The legacy structures are decoded from YAML: a map of pointers has a nil entry (\<open>None\<close>) for a key
  without a value, which the code dereferences; a value of type \<open>interface{}\<close> is a \<open>resource\<close> (without
  floating-point numbers). A dereferenced nil pointer and a failed type assertion are \<open>ErrPanic\<close>.
  Warnings that are only logged are not modelled.
\<close>

section \<open>Replacing overlays\<close>

fun indexOf :: "'a list \<Rightarrow> 'a \<Rightarrow> int" where
  "indexOf [] item = -1"
| "indexOf (v # vs) item = (if v = item then 0 else let i = indexOf vs item in if i = -1 then -1 else i + 1)"

definition replaceSliceElement :: "'a list \<Rightarrow> int \<Rightarrow> 'a list \<Rightarrow> 'a list" where
  "replaceSliceElement original index replacement =
     (if index < 0 \<or> index \<ge> int (length original) then original
      else take (nat index) original @ replacement @ drop (nat index + 1) original)"

definition replaceOverlay :: "string list \<Rightarrow> string \<Rightarrow> string list \<Rightarrow> string list" where
  "replaceOverlay originals toReplace replacements =
     (if indexOf originals toReplace = -1 then originals
      else replaceSliceElement originals (indexOf originals toReplace)
             (filter (\<lambda>v. v \<notin> set originals \<or> v = toReplace) replacements))"

definition wwinitSplitOverlays :: "string list" where
  "wwinitSplitOverlays = [''wwinit'', ''wwclient'', ''fstab'', ''hostname'', ''ssh.host_keys'', ''issue'', ''resolv'',
     ''udev.netname'', ''systemd.netname'', ''ifcfg'', ''ifupdown'', ''NetworkManager'', ''wicked'', ''ignition'']"

definition genericSplitOverlays :: "string list" where
  "genericSplitOverlays = [''hosts'', ''ssh.authorized_keys'', ''syncuser'']"

section \<open>Legacy kernels\<close>

text \<open>The files that the conversion looks at: which paths exist, and the content of a file.\<close>

record upgrade_env =
  ue_fs :: fsys
  ue_read :: "string \<Rightarrow> string option"
  ue_versions :: version_lib
  ue_chrootdir :: string
  ue_provisiondir :: string

definition legacyKernelImageDir :: "upgrade_env \<Rightarrow> string \<Rightarrow> string" where
  "legacyKernelImageDir ue name = path_Join [path_Join [ue_provisiondir ue, ''kernel''], name]"

definition legacyKernelVersionFile :: "upgrade_env \<Rightarrow> string \<Rightarrow> string" where
  "legacyKernelVersionFile ue kernelName =
     (if kernelName = [] then []
      else if \<not> list_all (\<lambda>c. is_word c \<or> c = CHR ''-'' \<or> c = CHR ''.'') kernelName then []
      else path_Join [legacyKernelImageDir ue kernelName, ''version''])"

definition legacyKernelVersion :: "upgrade_env \<Rightarrow> string \<Rightarrow> string" where
  "legacyKernelVersion ue kernelName =
     (if kernelName = [] then []
      else (let f = legacyKernelVersionFile ue kernelName in
            if f = [] then [] else (case ue_read ue f of None \<Rightarrow> [] | Some v \<Rightarrow> v)))"

record LKernelConf =
  lk_Args :: resource
  lk_Override :: string
  lk_Version :: string

text \<open>\<open>fmt.Sprintf("%v", arg)\<close> for a scalar; maps and lists are skipped.\<close>

fun scalar_text :: "resource \<Rightarrow> string option" where
  "scalar_text (RStr s) = Some s"
| "scalar_text (RInt n) = Some (Itoa n)"
| "scalar_text (RBool b) = Some (FormatBool b)"
| "scalar_text RNil = Some ''<nil>''"
| "scalar_text _ = None"

fun kernel_args :: "resource \<Rightarrow> string list" where
  "kernel_args (RList args) = List.map_filter scalar_text args"
| "kernel_args (RStr args) = (if args \<noteq> [] then Fields args else [])"
| "kernel_args _ = []"

text \<open>The kernel that an override names: the last kernel of the image with that version, or the file itself.\<close>

definition resolve_override :: "upgrade_env \<Rightarrow> string \<Rightarrow> string \<Rightarrow> string" where
  "resolve_override ue imageName override =
     (if override = [] then []
      else (case ParseVersion (ue_versions ue) (legacyKernelVersion ue override) of
          Some version \<Rightarrow>
            foldl (\<lambda>v k. if Kernel_Version (ue_versions ue) k = version then krn_Path k else v) []
              (FindKernels (ue_fs ue) (ue_chrootdir ue) imageName)
        | None \<Rightarrow>
            if IsFile (ue_fs ue) (Kernel_FullPath (ue_chrootdir ue) \<lparr>krn_Path = override, krn_ImageName = imageName\<rparr>)
            then override else []))"

definition LKernelConf_Upgrade :: "upgrade_env \<Rightarrow> string \<Rightarrow> LKernelConf \<Rightarrow> KernelConf" where
  "LKernelConf_Upgrade ue imageName legacy =
     (let v = resolve_override ue imageName (lk_Override legacy)
      in zero_KernelConf\<lparr>kn_Args := kernel_args (lk_Args legacy),
                         kn_Version := (if v = [] then lk_Version legacy else v)\<rparr>)"

section \<open>Small structures\<close>

text \<open>Copying the entries of maps into a new map, later ones over earlier ones, and deleting keys.\<close>

definition copy_maps :: "'v gomap list \<Rightarrow> string list \<Rightarrow> 'v gomap" where
  "copy_maps ms del = Some (filter (\<lambda>(k, v). k \<notin> set del)
     (foldl (\<lambda>acc (k, v). al_update k v acc) [] (concat (map gm_entries ms))))"

text \<open>Upgrading every entry of a map of pointers into a new map.\<close>

fun upgrade_entries :: "('a \<Rightarrow> err + 'b) \<Rightarrow> (string \<times> 'a option) list \<Rightarrow> (string \<times> 'b) list \<Rightarrow> err + (string \<times> 'b) list" where
  "upgrade_entries f [] acc = Inr acc"
| "upgrade_entries f ((k, x) # xs) acc = (case x of
      None \<Rightarrow> Inl ErrPanic
    | Some y \<Rightarrow> (case f y of Inl e \<Rightarrow> Inl e | Inr u \<Rightarrow> upgrade_entries f xs (al_update k u acc)))"

definition upgrade_map :: "('a \<Rightarrow> err + 'b) \<Rightarrow> 'a option gomap \<Rightarrow> err + 'b gomap" where
  "upgrade_map f m = map_sum id Some (upgrade_entries f (gm_entries m) [])"

text \<open>\<open>strconv.ParseBool\<close> into a pointer; what does not parse leaves it nil.\<close>

definition bool_pointer :: "string \<Rightarrow> bool option" where
  "bool_pointer s = (if s = [] then None else ParseBool s)"

text \<open>\<open>Set\<close> on a \<open>WWbool\<close> whose error is only logged.\<close>

definition set_wwbool :: "WWbool \<Rightarrow> string \<Rightarrow> WWbool" where
  "set_wwbool old s = (if s = [] then old else (case WWbool_Set s of Inr v \<Rightarrow> v | Inl _ \<Rightarrow> old))"

definition parse_ip :: "string \<Rightarrow> IP" where
  "parse_ip s = (case ParseIP s of None \<Rightarrow> [] | Some ip \<Rightarrow> ip)"

record LPartition =
  lp_Guid :: string
  lp_Number :: string
  lp_Resize :: string
  lp_ShouldExist :: string
  lp_SizeMiB :: string
  lp_StartMiB :: string
  lp_TypeGuid :: string
  lp_WipePartitionEntry :: string

definition LPartition_Upgrade :: "LPartition \<Rightarrow> Partition" where
  "LPartition_Upgrade legacy = zero_Partition\<lparr>pt_Guid := lp_Guid legacy, pt_Number := lp_Number legacy,
     pt_ResizeP := bool_pointer (lp_Resize legacy), pt_ShouldExistP := bool_pointer (lp_ShouldExist legacy),
     pt_SizeMiB := lp_SizeMiB legacy, pt_StartMiB := lp_StartMiB legacy, pt_TypeGuid := lp_TypeGuid legacy,
     pt_WipePartitionEntryP := bool_pointer (lp_WipePartitionEntry legacy)\<rparr>"

record LDisk =
  ld_Partitions :: "LPartition option gomap"
  ld_WipeTable :: string

definition LDisk_Upgrade :: "LDisk \<Rightarrow> err + Disk" where
  "LDisk_Upgrade legacy = (case upgrade_map (\<lambda>p. Inr (LPartition_Upgrade p)) (ld_Partitions legacy) of
      Inl e \<Rightarrow> Inl e
    | Inr ps \<Rightarrow> Inr (zero_Disk\<lparr>dk_Partitions := ps, dk_WipeTableP := bool_pointer (ld_WipeTable legacy)\<rparr>))"

record LFileSystem =
  lf_Format :: string
  lf_Label :: string
  lf_MountOptions :: resource
  lf_Options :: "string list"
  lf_Path :: string
  lf_Uuid :: string
  lf_WipeFileSystem :: string

text \<open>The type assertion \<open>x.(string)\<close> on every element of a list.\<close>

fun strings_of :: "resource list \<Rightarrow> err + string list" where
  "strings_of [] = Inr []"
| "strings_of (r # rs) = (case r of
      RStr s \<Rightarrow> (case strings_of rs of Inl e \<Rightarrow> Inl e | Inr ss \<Rightarrow> Inr (s # ss))
    | _ \<Rightarrow> Inl ErrPanic)"

fun mount_options :: "resource \<Rightarrow> err + string" where
  "mount_options (RStr s) = Inr s"
| "mount_options (RList rs) = map_sum id (\<lambda>ss. Join ss '' '') (strings_of rs)"
| "mount_options _ = Inr []"

definition LFileSystem_Upgrade :: "LFileSystem \<Rightarrow> err + FileSystem" where
  "LFileSystem_Upgrade legacy = (case mount_options (lf_MountOptions legacy) of
      Inl e \<Rightarrow> Inl e
    | Inr mo \<Rightarrow> Inr (zero_FileSystem\<lparr>fs_Format := lf_Format legacy, fs_Label := lf_Label legacy, fs_MountOptions := mo,
        fs_Options := lf_Options legacy, fs_Path := lf_Path legacy, fs_Uuid := lf_Uuid legacy,
        fs_WipeFileSystemP := bool_pointer (lf_WipeFileSystem legacy)\<rparr>))"

record LNetDev =
  ln_Default :: string
  ln_Device :: string
  ln_Gateway :: string
  ln_Gateway6 :: string
  ln_Hwaddr :: string
  ln_IpCIDR :: string
  ln_Ip6addr :: string
  ln_Ipaddr :: string
  ln_Ipaddr6 :: string
  ln_MTU :: string
  ln_Netmask :: string
  ln_OnBoot :: string
  ln_Prefix :: string
  ln_PrefixLen6 :: string
  ln_Primary :: string
  ln_Tags :: "string gomap"
  ln_TagsDel :: "string list"
  ln_Type :: string

definition LNetDev_Upgrade :: "bool \<Rightarrow> LNetDev \<Rightarrow> NetDev" where
  "LNetDev_Upgrade addDefaults legacy =
     (let ip = parse_ip (ln_Ipaddr legacy); msk = parse_ip (ln_Netmask legacy);
          (ip, msk) = (case (if ln_IpCIDR legacy = [] then None else ParseCIDR (ln_IpCIDR legacy)) of
              None \<Rightarrow> (ip, msk)
            | Some (cidrIP, _, cidrMask) \<Rightarrow> (if ip = [] then cidrIP else ip, if msk = [] then cidrMask else msk))
      in zero_NetDev\<lparr>dev_Tags := copy_maps [ln_Tags legacy] (ln_TagsDel legacy), dev_Device := ln_Device legacy,
           dev_Gateway := parse_ip (ln_Gateway legacy), dev_Gateway6 := parse_ip (ln_Gateway6 legacy),
           dev_Hwaddr := ln_Hwaddr legacy, dev_Ipaddr := ip,
           dev_Ipaddr6 := parse_ip (if ln_Ip6addr legacy \<noteq> [] then ln_Ip6addr legacy else ln_Ipaddr6 legacy),
           dev_MTU := ln_MTU legacy,
           dev_Netmask := (if addDefaults \<and> msk = [] then [255, 255, 255, 0] else msk),
           dev_OnBoot := set_wwbool [] (ln_OnBoot legacy), dev_PrefixLen6 := ln_PrefixLen6 legacy,
           dev_Type := (if addDefaults \<and> ln_Type legacy = [] then ''ethernet'' else ln_Type legacy)\<rparr>)"

record LIpmiConf =
  li_EscapeChar :: string
  li_Gateway :: string
  li_Interface :: string
  li_Ipaddr :: string
  li_Netmask :: string
  li_Password :: string
  li_Port :: string
  li_Tags :: "string gomap"
  li_TagsDel :: "string list"
  li_Template :: string
  li_UserName :: string
  li_Write :: string

definition LIpmiConf_Upgrade :: "LIpmiConf \<Rightarrow> IpmiConf" where
  "LIpmiConf_Upgrade legacy = zero_IpmiConf\<lparr>ip_Tags := copy_maps [li_Tags legacy] (li_TagsDel legacy),
     ip_EscapeChar := li_EscapeChar legacy, ip_Gateway := parse_ip (li_Gateway legacy), ip_Interface := li_Interface legacy,
     ip_Ipaddr := parse_ip (li_Ipaddr legacy), ip_Netmask := parse_ip (li_Netmask legacy), ip_Password := li_Password legacy,
     ip_Port := li_Port legacy, ip_Template := li_Template legacy, ip_UserName := li_UserName legacy,
     ip_Write := set_wwbool [] (li_Write legacy)\<rparr>"

section \<open>Profiles and nodes\<close>

record LProfile =
  l_AssetKey :: string
  l_ClusterName :: string
  l_Comment :: string
  l_ImageName :: string
  l_ContainerName :: string
  l_Disabled :: string
  l_Disks :: "LDisk option gomap"
  l_FileSystems :: "LFileSystem option gomap"
  l_Init :: string
  l_Ipmi :: "LIpmiConf option"
  l_IpmiEscapeChar :: string
  l_IpmiGateway :: string
  l_IpmiInterface :: string
  l_IpmiIpaddr :: string
  l_IpmiNetmask :: string
  l_IpmiPassword :: string
  l_IpmiPort :: string
  l_IpmiUserName :: string
  l_IpmiWrite :: string
  l_Ipxe :: string
  l_Kernel :: "LKernelConf option"
  l_KernelArgs :: string
  l_KernelOverride :: string
  l_KernelVersion :: string
  l_Keys :: "string gomap"
  l_NetDevs :: "LNetDev option gomap"
  l_PrimaryNetDev :: string
  l_Profiles :: "string list"
  l_Root :: string
  l_RuntimeOverlay :: resource
  l_SystemOverlay :: resource
  l_Tags :: "string gomap"
  l_TagsDel :: "string list"
  l_Resources :: "resource gomap"

record LNode =
  l_Discoverable :: string
  l_Profile :: LProfile

definition upgrade_image :: "LProfile \<Rightarrow> string" where
  "upgrade_image legacy = (if l_ImageName legacy = [] then l_ContainerName legacy else l_ImageName legacy)"

text \<open>The IPMI section, with the older flat fields where the section leaves something empty.\<close>

definition upgrade_ipmi :: "LProfile \<Rightarrow> IpmiConf" where
  "upgrade_ipmi legacy =
     (let i = (case l_Ipmi legacy of Some s \<Rightarrow> LIpmiConf_Upgrade s | None \<Rightarrow> zero_IpmiConf) in
      i\<lparr>ip_EscapeChar := (if ip_EscapeChar i = [] then l_IpmiEscapeChar legacy else ip_EscapeChar i),
        ip_Gateway := (if IP_Equal (ip_Gateway i) [] then parse_ip (l_IpmiGateway legacy) else ip_Gateway i),
        ip_Interface := (if ip_Interface i = [] then l_IpmiInterface legacy else ip_Interface i),
        ip_Ipaddr := (if IP_Equal (ip_Ipaddr i) [] then parse_ip (l_IpmiIpaddr legacy) else ip_Ipaddr i),
        ip_Netmask := (if IP_Equal (ip_Netmask i) [] then parse_ip (l_IpmiNetmask legacy) else ip_Netmask i),
        ip_Password := (if ip_Password i = [] then l_IpmiPassword legacy else ip_Password i),
        ip_Port := (if ip_Port i = [] then l_IpmiPort legacy else ip_Port i),
        ip_UserName := (if ip_UserName i = [] then l_IpmiUserName legacy else ip_UserName i),
        ip_Write := (if ip_Write i = [] then set_wwbool (ip_Write i) (l_IpmiWrite legacy) else ip_Write i)\<rparr>)"

text \<open>Tags with the older keys, and the iPXE template: \<open>dracut\<close> becomes a menu entry of the default template.\<close>

definition upgrade_tags :: "LProfile \<Rightarrow> string gomap" where
  "upgrade_tags legacy = copy_maps [l_Keys legacy, l_Tags legacy] (l_TagsDel legacy)"

definition upgrade_ipxe :: "LProfile \<Rightarrow> string \<times> string gomap" where
  "upgrade_ipxe legacy =
     (let tags = upgrade_tags legacy in
      if l_Ipxe legacy = ''dracut'' \<and> gm_get tags ''IPXEMenuEntry'' = None
      then (''default'', map_option (al_update ''IPXEMenuEntry'' ''dracut'') tags)
      else (l_Ipxe legacy, tags))"

definition upgrade_kernel :: "upgrade_env \<Rightarrow> LProfile \<Rightarrow> KernelConf" where
  "upgrade_kernel ue legacy =
     LKernelConf_Upgrade ue (upgrade_image legacy)
       (case l_Kernel legacy of
          Some k \<Rightarrow> k
        | None \<Rightarrow> \<lparr>lk_Args = RStr (l_KernelArgs legacy), lk_Override = l_KernelOverride legacy, lk_Version = l_KernelVersion legacy\<rparr>)"

definition upgrade_primary :: "LProfile \<Rightarrow> string" where
  "upgrade_primary legacy =
     (if l_PrimaryNetDev legacy \<noteq> [] then l_PrimaryNetDev legacy
      else (case find (\<lambda>(name, d). case d of
                None \<Rightarrow> False
              | Some netDev \<Rightarrow> ParseBool (ln_Primary netDev) = Some True \<or> ParseBool (ln_Default netDev) = Some True)
              (gm_entries (l_NetDevs legacy)) of
          None \<Rightarrow> [] | Some (name, _) \<Rightarrow> name))"

fun overlay_names :: "resource \<Rightarrow> err + string list" where
  "overlay_names (RStr s) = Inr (Split s (CHR '',''))"
| "overlay_names (RList rs) = strings_of rs"
| "overlay_names _ = Inr []"

text \<open>What the two functions have in common; \<open>netDefaults\<close> is passed to the network devices.\<close>

definition upgrade_profile :: "upgrade_env \<Rightarrow> bool \<Rightarrow> bool \<Rightarrow> LProfile \<Rightarrow> err + Profile" where
  "upgrade_profile ue netDefaults replaceOverlays legacy =
     (case upgrade_map LDisk_Upgrade (l_Disks legacy) of Inl e \<Rightarrow> Inl e | Inr disks \<Rightarrow>
     (case upgrade_map LFileSystem_Upgrade (l_FileSystems legacy) of Inl e \<Rightarrow> Inl e | Inr fss \<Rightarrow>
     (case upgrade_map (\<lambda>d. Inr (LNetDev_Upgrade netDefaults d)) (l_NetDevs legacy) of Inl e \<Rightarrow> Inl e | Inr devs \<Rightarrow>
     (case overlay_names (l_RuntimeOverlay legacy) of Inl e \<Rightarrow> Inl e | Inr runtime \<Rightarrow>
     (case overlay_names (l_SystemOverlay legacy) of Inl e \<Rightarrow> Inl e | Inr system \<Rightarrow>
       Inr (zero_Profile\<lparr>pf_ClusterName := l_ClusterName legacy, pf_Comment := l_Comment legacy,
         pf_ImageName := upgrade_image legacy, pf_Disks := disks, pf_FileSystems := fss, pf_Init := l_Init legacy,
         pf_Ipmi := Some (upgrade_ipmi legacy), pf_Tags := snd (upgrade_ipxe legacy), pf_Ipxe := fst (upgrade_ipxe legacy),
         pf_Kernel := Some (upgrade_kernel ue legacy), pf_NetDevs := devs, pf_PrimaryNetDev := upgrade_primary legacy,
         pf_Profiles := l_Profiles legacy, pf_Root := l_Root legacy,
         pf_RuntimeOverlay := (if replaceOverlays then replaceOverlay runtime ''generic'' genericSplitOverlays else runtime),
         pf_SystemOverlay := (if replaceOverlays then replaceOverlay system ''wwinit'' wwinitSplitOverlays else system),
         pf_Resources := copy_maps [l_Resources legacy] []\<rparr>))))))"

definition LProfile_Upgrade :: "upgrade_env \<Rightarrow> bool \<Rightarrow> bool \<Rightarrow> LProfile \<Rightarrow> err + Profile" where
  "LProfile_Upgrade ue addDefaults replaceOverlays legacy = upgrade_profile ue addDefaults replaceOverlays legacy"

definition LNode_Upgrade :: "upgrade_env \<Rightarrow> bool \<Rightarrow> bool \<Rightarrow> LNode \<Rightarrow> err + Node" where
  "LNode_Upgrade ue addDefaults replaceOverlays legacy =
     (case upgrade_profile ue False replaceOverlays (l_Profile legacy) of
        Inl e \<Rightarrow> Inl e
      | Inr p \<Rightarrow>
          Inr (zero_Node\<lparr>nd_AssetKey := l_AssetKey (l_Profile legacy),
            nd_Discoverable := set_wwbool [] (l_Discoverable legacy),
            nd_Profile := p\<lparr>pf_Profiles := (if addDefaults \<and> pf_Profiles p = [] then [''default''] else pf_Profiles p)\<rparr>\<rparr>))"

section \<open>The registry\<close>

record LNodesYaml =
  lr_WWInternal :: string
  lr_NodeProfiles :: "LProfile option gomap"
  lr_Nodes :: "LNode option gomap"

record LNFSExportConf =
  le_Path :: string
  le_ExportOptions :: string
  le_MountOptions :: string
  le_Mount :: "bool option"

record LNFSConf =
  lc_nfs_Enabled :: "bool option"
  lc_nfs_Exports :: "string list"
  lc_nfs_ExportsExtended :: "LNFSExportConf option list"
  lc_nfs_SystemdName :: string
  lc_nfs_Overlays :: "string list"

definition fstab_entry :: "string \<Rightarrow> string \<Rightarrow> resource" where
  "fstab_entry path opts = RMap ([(''spec'', RStr (''warewulf:'' @ path)), (''file'', RStr path), (''vfstype'', RStr ''nfs'')] @
     (if opts = [] then [] else [(''mntops'', RStr opts)]))"

fun extended_fstab :: "LNFSExportConf option list \<Rightarrow> err + resource list" where
  "extended_fstab [] = Inr []"
| "extended_fstab (x # xs) = (case x of
      None \<Rightarrow> Inl ErrPanic
    | Some ex \<Rightarrow> (case extended_fstab xs of
          Inl e \<Rightarrow> Inl e
        | Inr rs \<Rightarrow> Inr (if le_Mount ex = Some True then fstab_entry (le_Path ex) (le_MountOptions ex) # rs else rs)))"

definition nfs_fstab :: "LNFSConf option \<Rightarrow> err + resource list" where
  "nfs_fstab nfs = (case nfs of
      None \<Rightarrow> Inr []
    | Some c \<Rightarrow> map_sum id (\<lambda>rs. map (\<lambda>e. fstab_entry e []) (lc_nfs_Exports c) @ rs) (extended_fstab (lc_nfs_ExportsExtended c)))"

text \<open>
  The mounts of the legacy \<open>warewulf.conf\<close> become the resource \<open>fstab\<close> of the default profile. A value
  that was decoded from YAML is never a \<open>[]map[string]string\<close>, so an \<open>fstab\<close> that is there already stays.
\<close>

definition port_fstab :: "resource list \<Rightarrow> (string \<times> Profile) list \<Rightarrow> (string \<times> Profile) list" where
  "port_fstab fstab ps =
     (if fstab = [] then ps
      else
        let d = (case map_of ps ''default'' of Some p \<Rightarrow> p | None \<Rightarrow> zero_Profile);
            rs = make_if_nil (pf_Resources d);
            rs = (if gm_get rs ''fstab'' \<noteq> None then rs else map_option (al_update ''fstab'' (RList fstab)) rs)
        in al_update ''default'' (d\<lparr>pf_Resources := rs\<rparr>) ps)"

definition default_fstab :: resource where
  "default_fstab = RList [fstab_entry ''/home'' ''defaults,nofail'', fstab_entry ''/opt'' ''defaults,noauto,nofail,ro'']"

definition add_defaults :: "Profile \<Rightarrow> Profile" where
  "add_defaults p =
     (let k = (case pf_Kernel p of Some k \<Rightarrow> k | None \<Rightarrow> zero_KernelConf);
          i = (case pf_Ipmi p of Some i \<Rightarrow> i | None \<Rightarrow> zero_IpmiConf);
          dflt = (\<lambda>x d. if x = [] then d else x)
      in p\<lparr>pf_SystemOverlay := (if pf_SystemOverlay p = [] then wwinitSplitOverlays else pf_SystemOverlay p),
           pf_RuntimeOverlay := (if pf_RuntimeOverlay p = [] then genericSplitOverlays else pf_RuntimeOverlay p),
           pf_Kernel := Some (k\<lparr>kn_Args := (if kn_Args k = [] then [''quiet'', ''crashkernel=no'', ''net.ifnames=1''] else kn_Args k)\<rparr>),
           pf_Init := dflt (pf_Init p) ''/sbin/init'', pf_Root := dflt (pf_Root p) ''initramfs'', pf_Ipxe := dflt (pf_Ipxe p) ''default'',
           pf_Resources := (if gm_get (pf_Resources p) ''fstab'' = None
              then map_option (al_update ''fstab'' default_fstab) (make_if_nil (pf_Resources p)) else pf_Resources p),
           pf_Ipmi := Some (i\<lparr>ip_Template := dflt (ip_Template i) ''ipmitool.tmpl''\<rparr>)\<rparr>)"

definition LNodesYaml_Upgrade :: "upgrade_env \<Rightarrow> bool \<Rightarrow> bool \<Rightarrow> LNFSConf option \<Rightarrow> LNodesYaml \<Rightarrow> err + NodesYaml" where
  "LNodesYaml_Upgrade ue addDefaults replaceOverlays nfs legacy =
     (case upgrade_entries (LProfile_Upgrade ue addDefaults replaceOverlays) (gm_entries (lr_NodeProfiles legacy)) [] of
        Inl e \<Rightarrow> Inl e
      | Inr ps \<Rightarrow>
     (case upgrade_entries (LNode_Upgrade ue addDefaults replaceOverlays) (gm_entries (lr_Nodes legacy)) [] of
        Inl e \<Rightarrow> Inl e
      | Inr ns \<Rightarrow>
     (case nfs_fstab nfs of
        Inl e \<Rightarrow> Inl e
      | Inr fstab \<Rightarrow>
          let ps = port_fstab fstab ps;
              ps = (if addDefaults
                    then al_update ''default'' (add_defaults (case map_of ps ''default'' of
                           Some p \<Rightarrow> p | None \<Rightarrow> zero_Profile\<lparr>pf_Kernel := Some zero_KernelConf\<rparr>)) ps
                    else ps)
          in Inr \<lparr>NodeProfiles = Some ps, Nodes = Some ns\<rparr>)))"

end
