(* ===== verification/Upgrade_Facts.thy ===== *)
theory Upgrade_Facts
  imports Upgrade_Nodes
begin

text \<open>
  What the conversion of \<open>nodes.conf\<close> guarantees: when it fails, which values the converted nodes
  have, what the default profile has afterwards, and how overlays are replaced.
\<close>

section \<open>Replacing overlays\<close>

lemma indexOf_bounds: "indexOf xs x = -1 \<and> x \<notin> set xs \<or> 0 \<le> indexOf xs x \<and> x \<in> set xs"
  by (induction xs) (auto simp: Let_def)

lemma indexOf_first: "t \<notin> set pre \<Longrightarrow> indexOf (pre @ t # post) t = int (length pre)"
  by (induction pre) (auto simp: Let_def)

lemma replaceOverlay_absent: "t \<notin> set os \<Longrightarrow> replaceOverlay os t rs = os"
  using indexOf_bounds [of os t] by (auto simp: replaceOverlay_def)

lemma replaceOverlay_at:
  assumes "t \<notin> set pre"
  shows "replaceOverlay (pre @ t # post) t rs = pre @ filter (\<lambda>v. v \<notin> set (pre @ t # post) \<or> v = t) rs @ post"
  using indexOf_first [OF assms, of post] by (simp add: replaceOverlay_def replaceSliceElement_def)

text \<open>
  Replacing an overlay leaves a list without it alone. Otherwise the new overlays take its place,
  except those the list has already, the others keep their order, and the result has the new overlays
  and all others. If nothing was listed twice, nothing is listed twice afterwards, and doing it again
  changes nothing.
\<close>

theorem replaceOverlay_correct:
  "(t \<notin> set os \<longrightarrow> replaceOverlay os t rs = os) \<and>
   (\<forall>pre post. os = pre @ t # post \<and> t \<notin> set pre \<longrightarrow>
      replaceOverlay os t rs = pre @ filter (\<lambda>v. v \<notin> set os \<or> v = t) rs @ post) \<and>
   (distinct os \<and> distinct rs \<and> t \<in> set os \<longrightarrow>
      set (replaceOverlay os t rs) = set os - {t} \<union> set rs \<and> distinct (replaceOverlay os t rs) \<and>
      replaceOverlay (replaceOverlay os t rs) t rs = replaceOverlay os t rs)"
proof (intro conjI impI allI)
  assume "t \<notin> set os"
  then show "replaceOverlay os t rs = os" by (rule replaceOverlay_absent)
next
  fix pre post assume "os = pre @ t # post \<and> t \<notin> set pre"
  then show "replaceOverlay os t rs = pre @ filter (\<lambda>v. v \<notin> set os \<or> v = t) rs @ post"
    using replaceOverlay_at by blast
next
  assume d: "distinct os \<and> distinct rs \<and> t \<in> set os"
  then obtain pre post where os: "os = pre @ t # post" "t \<notin> set pre" by (meson split_list_first)
  let ?new = "filter (\<lambda>v. v \<notin> set os \<or> v = t) rs"
  have r: "replaceOverlay os t rs = pre @ ?new @ post" using os replaceOverlay_at by blast
  show s: "set (replaceOverlay os t rs) = set os - {t} \<union> set rs" using d os unfolding r by auto
  show dist: "distinct (replaceOverlay os t rs)" using d os unfolding r by auto
  show "replaceOverlay (replaceOverlay os t rs) t rs = replaceOverlay os t rs"
  proof (cases "t \<in> set rs")
    case False
    with s have "t \<notin> set (replaceOverlay os t rs)" by simp
    then show ?thesis by (rule replaceOverlay_absent)
  next
    case True
    then have "t \<in> set (replaceOverlay os t rs)" using s by blast
    then obtain pre' post' where p: "replaceOverlay os t rs = pre' @ t # post'" "t \<notin> set pre'" by (meson split_list_first)
    have "set rs \<subseteq> set (replaceOverlay os t rs)" using s by blast
    then have "filter (\<lambda>v. v \<notin> set (pre' @ t # post') \<or> v = t) rs = filter (\<lambda>v. v = t) rs"
      unfolding p(1) [symmetric] by (intro filter_cong) auto
    also have "\<dots> = [t]" using True d by (induction rs) (auto simp: filter_empty_conv)
    finally have "filter (\<lambda>v. v \<notin> set (pre' @ t # post') \<or> v = t) rs = [t]" .
    with replaceOverlay_at [OF p(2), of post' rs] show ?thesis unfolding p(1) by simp
  qed
qed

theorem replaceOverlay_correct_witness:
  "replaceOverlay [''a'', ''generic'', ''hosts''] ''generic'' genericSplitOverlays =
     [''a'', ''ssh.authorized_keys'', ''syncuser'', ''hosts'']"
proof -
  let ?os = "[''a'', ''generic'', ''hosts'']"
  have "?os = [''a''] @ ''generic'' # [''hosts''] \<and> ''generic'' \<notin> set [''a'']" by simp
  then have "replaceOverlay ?os ''generic'' genericSplitOverlays =
      [''a''] @ filter (\<lambda>v. v \<notin> set ?os \<or> v = ''generic'') genericSplitOverlays @ [''hosts'']"
    using replaceOverlay_correct [of "''generic''" ?os genericSplitOverlays] by blast
  also have "\<dots> = [''a'', ''ssh.authorized_keys'', ''syncuser'', ''hosts'']" by code_simp
  finally show ?thesis .
qed

section \<open>When the conversion fails\<close>

text \<open>
  The inputs that convert: no map has a key without a value, and lists of overlays and mount options
  hold strings only.
\<close>

definition entries_ok :: "('a \<Rightarrow> bool) \<Rightarrow> 'a option gomap \<Rightarrow> bool" where
  "entries_ok ok m \<longleftrightarrow> list_all (\<lambda>(k, x). case x of None \<Rightarrow> False | Some y \<Rightarrow> ok y) (gm_entries m)"

fun strings_ok :: "resource \<Rightarrow> bool" where
  "strings_ok (RList rs) = list_all (\<lambda>r. case r of RStr _ \<Rightarrow> True | _ \<Rightarrow> False) rs"
| "strings_ok _ = True"

definition profile_convertible :: "LProfile \<Rightarrow> bool" where
  "profile_convertible l \<longleftrightarrow>
     entries_ok (\<lambda>d. entries_ok (\<lambda>_. True) (ld_Partitions d)) (l_Disks l) \<and>
     entries_ok (\<lambda>f. strings_ok (lf_MountOptions f)) (l_FileSystems l) \<and>
     entries_ok (\<lambda>_. True) (l_NetDevs l) \<and>
     strings_ok (l_RuntimeOverlay l) \<and> strings_ok (l_SystemOverlay l)"

definition convertible :: "LNodesYaml \<Rightarrow> LNFSConf option \<Rightarrow> bool" where
  "convertible l nfs \<longleftrightarrow>
     entries_ok profile_convertible (lr_NodeProfiles l) \<and>
     entries_ok (\<lambda>n. profile_convertible (l_Profile n)) (lr_Nodes l) \<and>
     (case nfs of None \<Rightarrow> True | Some c \<Rightarrow> list_all (\<lambda>x. x \<noteq> None) (lc_nfs_ExportsExtended c))"

text \<open>A conversion step succeeds exactly on some inputs and otherwise panics.\<close>

definition panics_unless :: "bool \<Rightarrow> err + 'a \<Rightarrow> bool" where
  "panics_unless ok r \<longleftrightarrow> (case r of Inl e \<Rightarrow> \<not> ok \<and> e = ErrPanic | Inr _ \<Rightarrow> ok)"

named_theorems panics "which conversion steps panic"

lemma panics_Inr: "panics_unless True (Inr x)"
  by (simp add: panics_unless_def)

lemma panics_map_sum [panics]: "panics_unless ok r \<Longrightarrow> panics_unless ok (map_sum id f r)"
  by (cases r) (simp_all add: panics_unless_def)

lemma panics_bind:
  assumes "panics_unless ok r" "\<And>x. r = Inr x \<Longrightarrow> panics_unless ok' (f x)"
  shows "panics_unless (ok \<and> ok') (case r of Inl e \<Rightarrow> Inl e | Inr x \<Rightarrow> f x)"
  using assms by (cases r) (auto simp: panics_unless_def split: sum.splits)

lemma panics_then:
  assumes "panics_unless ok r"
  shows "panics_unless ok (case r of Inl e \<Rightarrow> Inl e | Inr x \<Rightarrow> Inr (g x))"
  using assms by (cases r) (auto simp: panics_unless_def)

lemma panics_entries:
  assumes "\<And>y. panics_unless (ok y) (f y)"
  shows "panics_unless (list_all (\<lambda>(k, x). case x of None \<Rightarrow> False | Some y \<Rightarrow> ok y) xs) (upgrade_entries f xs acc)"
proof (induction xs arbitrary: acc)
  case (Cons kx xs)
  obtain k x where kx: "kx = (k, x)" by fastforce
  show ?case
  proof (cases x)
    case None
    then show ?thesis by (simp add: kx panics_unless_def)
  next
    case (Some y)
    have "panics_unless (ok y \<and> list_all (\<lambda>(k, x). case x of None \<Rightarrow> False | Some y \<Rightarrow> ok y) xs)
        (case f y of Inl e \<Rightarrow> Inl e | Inr u \<Rightarrow> upgrade_entries f xs (al_update k u acc))"
      using assms Cons.IH by (intro panics_bind) auto
    then show ?thesis by (simp add: kx Some)
  qed
qed (simp add: panics_Inr)

lemma panics_map: "(\<And>y. panics_unless (ok y) (f y)) \<Longrightarrow> panics_unless (entries_ok ok m) (upgrade_map f m)"
  unfolding upgrade_map_def entries_ok_def by (intro panics_map_sum panics_entries)

lemma panics_strings_of: "panics_unless (list_all (\<lambda>r. case r of RStr _ \<Rightarrow> True | _ \<Rightarrow> False) rs) (strings_of rs)"
  by (induction rs) (auto simp: panics_unless_def split: resource.splits sum.splits)

lemma panics_overlay_names [panics]: "panics_unless (strings_ok r) (overlay_names r)"
  by (cases r) (simp_all add: panics_Inr panics_strings_of)

lemma panics_mount_options: "panics_unless (strings_ok r) (mount_options r)"
  by (cases r) (simp_all add: panics_Inr panics_map_sum panics_strings_of)

lemma panics_LDisk: "panics_unless (entries_ok (\<lambda>_. True) (ld_Partitions d)) (LDisk_Upgrade d)"
  unfolding LDisk_Upgrade_def by (intro panics_then panics_map panics_Inr)

lemma panics_LFileSystem: "panics_unless (strings_ok (lf_MountOptions f)) (LFileSystem_Upgrade f)"
  unfolding LFileSystem_Upgrade_def by (intro panics_then panics_mount_options)

lemma panics_profile: "panics_unless (profile_convertible l) (upgrade_profile ue d r l)"
  unfolding upgrade_profile_def profile_convertible_def
  by (intro panics_bind panics_then panics_map panics_LDisk panics_LFileSystem panics_overlay_names panics_Inr)

lemma panics_node: "panics_unless (profile_convertible (l_Profile n)) (LNode_Upgrade ue d r n)"
  unfolding LNode_Upgrade_def by (intro panics_then panics_profile)

lemma panics_extended_fstab: "panics_unless (list_all (\<lambda>x. x \<noteq> None) xs) (extended_fstab xs)"
  by (induction xs) (auto simp: panics_unless_def split: option.splits sum.splits)

lemma panics_nfs:
  "panics_unless (case nfs of None \<Rightarrow> True | Some c \<Rightarrow> list_all (\<lambda>x. x \<noteq> None) (lc_nfs_ExportsExtended c)) (nfs_fstab nfs)"
  unfolding nfs_fstab_def
  by (cases nfs) (simp_all add: panics_Inr panics_map_sum panics_extended_fstab del: not_None_eq)

lemma panics_registry: "panics_unless (convertible l nfs) (LNodesYaml_Upgrade ue d r nfs l)"
  unfolding LNodesYaml_Upgrade_def convertible_def entries_ok_def Let_def LProfile_Upgrade_def
  by (intro panics_bind panics_then panics_entries panics_profile panics_node panics_nfs)


section \<open>Converted nodes\<close>

lemma map_of_foldl_update:
  "map_of (foldl (\<lambda>acc (k, v). al_update k v acc) acc xs) k = (case map_of (rev xs) k of Some v \<Rightarrow> Some v | None \<Rightarrow> map_of acc k)"
proof (induction xs arbitrary: acc)
  case (Cons x xs)
  obtain k' v' where x: "x = (k', v')" by fastforce
  show ?case by (auto simp: x Cons map_of_al_update map_add_def split: option.split)
qed simp

lemma map_of_filter_key: "map_of (filter (\<lambda>(k, v). P k) xs) k = (if P k then map_of xs k else None)"
  by (induction xs) auto

lemma gm_ok_rev: "gm_ok m \<Longrightarrow> map_of (rev (gm_entries m)) k = gm_get m k"
  unfolding gm_ok_def gm_get_def gm_keys_def
  by (metis distinct_map distinct_rev map_of_inject_set rev_map set_rev)

lemma gm_get_copy_maps1: "gm_ok m \<Longrightarrow> gm_get (copy_maps [m] del) k = (if k \<in> set del then None else gm_get m k)"
  by (simp add: copy_maps_def gm_get_def [of "Some _"] gm_entries_def [of "Some _"] map_of_filter_key map_of_foldl_update gm_ok_rev
      split: option.split)

lemma gm_get_copy_maps2:
  assumes "gm_ok m1" "gm_ok m2"
  shows "gm_get (copy_maps [m1, m2] del) k =
    (if k \<in> set del then None else (case gm_get m2 k of Some v \<Rightarrow> Some v | None \<Rightarrow> gm_get m1 k))"
  using assms by (auto simp: copy_maps_def gm_get_def [of "Some _"] gm_entries_def [of "Some _"] map_of_filter_key
      map_of_foldl_update gm_ok_rev map_add_def split: option.split)

lemma upgrade_entries_get:
  assumes "upgrade_entries f xs acc = Inr out"
  shows "(case map_of (rev xs) k of
      None \<Rightarrow> map_of out k = map_of acc k
    | Some None \<Rightarrow> False
    | Some (Some y) \<Rightarrow> \<exists>u. f y = Inr u \<and> map_of out k = Some u)"
  using assms
proof (induction xs arbitrary: acc)
  case (Cons kx xs)
  obtain k' x where kx: "kx = (k', x)" by fastforce
  from Cons.prems obtain y u where y: "x = Some y" "f y = Inr u" and r: "upgrade_entries f xs (al_update k' u acc) = Inr out"
    by (auto simp: kx split: option.splits sum.splits)
  from Cons.IH [OF r] y show ?case by (auto simp: kx map_of_al_update map_add_def split: option.splits)
qed simp

lemma upgrade_map_get:
  assumes "upgrade_map f m = Inr out" "gm_ok m"
  shows "(case gm_get m k of
      None \<Rightarrow> gm_get out k = None
    | Some None \<Rightarrow> False
    | Some (Some y) \<Rightarrow> \<exists>u. f y = Inr u \<and> gm_get out k = Some u)"
proof -
  obtain es where es: "upgrade_entries f (gm_entries m) [] = Inr es" "out = Some es"
    using assms(1) by (cases "upgrade_entries f (gm_entries m) []") (auto simp: upgrade_map_def)
  have "gm_get out k = map_of es k" by (simp add: es(2) gm_get_def gm_entries_def)
  with upgrade_entries_get [OF es(1), of k] show ?thesis unfolding gm_ok_rev [OF assms(2)] by (auto split: option.splits)
qed

lemma LNode_Upgrade_fields:
  assumes "LNode_Upgrade ue d r l = Inr n"
  defines "p \<equiv> nd_Profile n" and "lp \<equiv> l_Profile l"
  shows "nd_AssetKey n = l_AssetKey lp" "pf_ImageName p = upgrade_image lp" "pf_Tags p = snd (upgrade_ipxe lp)"
    "pf_Ipxe p = fst (upgrade_ipxe lp)" "pf_PrimaryNetDev p = upgrade_primary lp"
    "upgrade_map (\<lambda>d. Inr (LNetDev_Upgrade False d)) (l_NetDevs lp) = Inr (pf_NetDevs p)"
    "pf_Profiles p = (if d \<and> l_Profiles lp = [] then [''default''] else l_Profiles lp)"
  using assms(1) unfolding LNode_Upgrade_def upgrade_profile_def p_def lp_def by (auto split: sum.splits)


definition zero_LProfile :: LProfile where
  "zero_LProfile = \<lparr>l_AssetKey = [], l_ClusterName = [], l_Comment = [], l_ImageName = [], l_ContainerName = [],
     l_Disabled = [], l_Disks = None, l_FileSystems = None, l_Init = [], l_Ipmi = None, l_IpmiEscapeChar = [],
     l_IpmiGateway = [], l_IpmiInterface = [], l_IpmiIpaddr = [], l_IpmiNetmask = [], l_IpmiPassword = [],
     l_IpmiPort = [], l_IpmiUserName = [], l_IpmiWrite = [], l_Ipxe = [], l_Kernel = None, l_KernelArgs = [],
     l_KernelOverride = [], l_KernelVersion = [], l_Keys = None, l_NetDevs = None, l_PrimaryNetDev = [],
     l_Profiles = [], l_Root = [], l_RuntimeOverlay = RNil, l_SystemOverlay = RNil, l_Tags = None, l_TagsDel = [],
     l_Resources = None\<rparr>"

definition sample_upgrade_env :: upgrade_env where
  "sample_upgrade_env = \<lparr>ue_fs = \<lparr>fy_files = [], fy_dirs = []\<rparr>, ue_read = (\<lambda>_. None), ue_versions = sample_versions,
     ue_chrootdir = ''/srv'', ue_provisiondir = ''/srv''\<rparr>"

definition sample_legacy :: LNodesYaml where
  "sample_legacy = \<lparr>lr_WWInternal = ''43'', lr_NodeProfiles = None,
     lr_Nodes = Some [(''n1'', Some \<lparr>l_Discoverable = [], l_Profile = zero_LProfile\<lparr>l_ContainerName := ''rocky'',
       l_Ipxe := ''dracut'', l_Keys := Some [(''a'', ''1''), (''b'', ''2'')], l_Tags := Some [(''a'', ''3'')], l_TagsDel := [''b'']\<rparr>\<rparr>)]\<rparr>"


section \<open>The default profile\<close>

lemma map_of_port_default: "\<exists>p. map_of (al_update ''default'' q ps) ''default'' = Some p"
  by (simp add: map_of_al_update)

text \<open>
  With defaults requested, the converted registry has a default profile in which overlays, kernel
  arguments, init, root, iPXE template, the \<open>fstab\<close> resource and the IPMI template are all set; what
  the legacy default profile had set is kept.
\<close>

theorem Upgrade_default_profile:
  assumes "LNodesYaml_Upgrade ue True r nfs l = Inr up"
  shows "\<exists>p k i. gm_get (NodeProfiles up) ''default'' = Some p \<and>
    pf_SystemOverlay p \<noteq> [] \<and> pf_RuntimeOverlay p \<noteq> [] \<and> pf_Init p \<noteq> [] \<and> pf_Root p \<noteq> [] \<and> pf_Ipxe p \<noteq> [] \<and>
    pf_Kernel p = Some k \<and> kn_Args k \<noteq> [] \<and> pf_Ipmi p = Some i \<and> ip_Template i \<noteq> [] \<and>
    gm_get (pf_Resources p) ''fstab'' \<noteq> None \<and>
    (\<forall>lp q. gm_ok (lr_NodeProfiles l) \<and> gm_get (lr_NodeProfiles l) ''default'' = Some (Some lp) \<and> LProfile_Upgrade ue True r lp = Inr q \<longrightarrow>
       (pf_SystemOverlay q \<noteq> [] \<longrightarrow> pf_SystemOverlay p = pf_SystemOverlay q) \<and>
       (pf_RuntimeOverlay q \<noteq> [] \<longrightarrow> pf_RuntimeOverlay p = pf_RuntimeOverlay q) \<and>
       (pf_Init q \<noteq> [] \<longrightarrow> pf_Init p = pf_Init q) \<and> (pf_Root q \<noteq> [] \<longrightarrow> pf_Root p = pf_Root q))"
proof -
  obtain ps fstab where ps: "upgrade_entries (LProfile_Upgrade ue True r) (gm_entries (lr_NodeProfiles l)) [] = Inr ps"
    and up: "NodeProfiles up = Some (al_update ''default'' (add_defaults (case map_of (port_fstab fstab ps) ''default'' of
                           Some p \<Rightarrow> p | None \<Rightarrow> zero_Profile\<lparr>pf_Kernel := Some zero_KernelConf\<rparr>)) (port_fstab fstab ps))"
    using assms by (auto simp: LNodesYaml_Upgrade_def Let_def split: sum.splits)
  define q where "q = (case map_of (port_fstab fstab ps) ''default'' of Some p \<Rightarrow> p | None \<Rightarrow> zero_Profile\<lparr>pf_Kernel := Some zero_KernelConf\<rparr>)"
  have p: "gm_get (NodeProfiles up) ''default'' = Some (add_defaults q)"
    by (simp add: up q_def gm_get_def gm_entries_def map_of_al_update)
  have fstab: "gm_get (pf_Resources (add_defaults q)) ''fstab'' \<noteq> None"
    by (auto simp: add_defaults_def Let_def make_if_nil_def gm_make_def gm_get_def gm_entries_def map_of_al_update split: option.splits)
  have keep: "pf_SystemOverlay q = pf_SystemOverlay q' \<and> pf_RuntimeOverlay q = pf_RuntimeOverlay q' \<and> pf_Init q = pf_Init q' \<and> pf_Root q = pf_Root q'"
    if "gm_ok (lr_NodeProfiles l)" "gm_get (lr_NodeProfiles l) ''default'' = Some (Some lp)" "LProfile_Upgrade ue True r lp = Inr q'" for lp q'
  proof -
    have "map_of ps ''default'' = Some q'" using upgrade_entries_get [OF ps, of "''default''"] that by (simp add: gm_ok_rev)
    then show ?thesis by (simp add: q_def port_fstab_def Let_def map_of_al_update)
  qed
  have set: "pf_SystemOverlay (add_defaults q) \<noteq> []" "pf_RuntimeOverlay (add_defaults q) \<noteq> []" "pf_Init (add_defaults q) \<noteq> []"
    "pf_Root (add_defaults q) \<noteq> []" "pf_Ipxe (add_defaults q) \<noteq> []" "\<exists>k. pf_Kernel (add_defaults q) = Some k \<and> kn_Args k \<noteq> []"
    "\<exists>i. pf_Ipmi (add_defaults q) = Some i \<and> ip_Template i \<noteq> []"
    by (auto simp: add_defaults_def Let_def wwinitSplitOverlays_def genericSplitOverlays_def)
  moreover have "pf_SystemOverlay q \<noteq> [] \<longrightarrow> pf_SystemOverlay (add_defaults q) = pf_SystemOverlay q"
    "pf_RuntimeOverlay q \<noteq> [] \<longrightarrow> pf_RuntimeOverlay (add_defaults q) = pf_RuntimeOverlay q"
    "pf_Init q \<noteq> [] \<longrightarrow> pf_Init (add_defaults q) = pf_Init q" "pf_Root q \<noteq> [] \<longrightarrow> pf_Root (add_defaults q) = pf_Root q"
    by (simp_all add: add_defaults_def Let_def)
  ultimately show ?thesis using p fstab keep by metis
qed

theorem Upgrade_default_profile_witness:
  "\<exists>up p. LNodesYaml_Upgrade sample_upgrade_env True True None sample_legacy = Inr up \<and>
     gm_get (NodeProfiles up) ''default'' = Some p \<and> pf_SystemOverlay p \<noteq> [] \<and> pf_Init p \<noteq> []"
proof -
  have ok: "convertible sample_legacy None" by code_simp
  obtain up where up: "LNodesYaml_Upgrade sample_upgrade_env True True None sample_legacy = Inr up"
    using panics_registry [of sample_legacy None sample_upgrade_env True True] ok
    by (auto simp: panics_unless_def split: sum.splits)
  from Upgrade_default_profile [OF up] up show ?thesis by blast
qed

end
