(* ===== verification/Ww_Config.thy ===== *)
theory Ww_Config
  imports Go_Cidr Go_Path
begin

text \<open>
  The configuration \<open>warewulf.conf\<close> (\<open>internal/pkg/config\<close>): its structure, the derived addresses
  (\<open>root.go\<close>), overlay lists (\<open>overlays.go\<close>), the networks of the API (\<open>api.go\<close>) and the users of the API
  (\<open>authentication.go\<close>).

  YAML and the library that sets defaults are parameters, as are the queries of the network
  interfaces (\<open>util.go\<close>) and \<open>bcrypt\<close>.
\<close>

section \<open>Structures\<close>

type_synonym OverlayList = "string list"

text \<open>A network: address and mask.\<close>

type_synonym IPNet = "IP \<times> IP"

record WarewulfConf =
  ww_Port :: int
  ww_TLSPort :: int
  ww_SecureP :: "bool option"
  ww_SecureFilesP :: "bool option"
  ww_TLSEnabledP :: "bool option"
  ww_UpdateInterval :: int
  ww_AutobuildOverlaysP :: "bool option"
  ww_EnableHostOverlayP :: "bool option"
  ww_GrubBootP :: "bool option"
  ww_SystemdName :: string

record APIConf =
  api_EnabledP :: "bool option"
  api_TLSEnabledP :: "bool option"
  api_AllowedNets :: "IPNet list"

record DHCPConf =
  dhcp_EnabledP :: "bool option"
  dhcp_Template :: string
  dhcp_RangeStart :: string
  dhcp_RangeEnd :: string
  dhcp_Range6Start :: string
  dhcp_Range6End :: string
  dhcp_SystemdName :: string
  dhcp_Overlays :: OverlayList

record TFTPConf =
  tftp_EnabledP :: "bool option"
  tftp_TftpRoot :: string
  tftp_SystemdName :: string
  tftp_Overlays :: OverlayList
  tftp_IpxeBinaries :: "string gomap"

record NFSExportConf =
  ex_Path :: string
  ex_ExportOptions :: string

record NFSConf =
  nfs_EnabledP :: "bool option"
  nfs_ExportsExtended :: "NFSExportConf list"
  nfs_SystemdName :: string
  nfs_Overlays :: OverlayList

record SSHConf =
  ssh_KeyTypes :: "string list"
  ssh_Overlays :: OverlayList

record HostfileConf =
  hf_Overlays :: OverlayList

record MountEntry =
  mt_Source :: string
  mt_Dest :: string
  mt_ReadOnlyP :: "bool option"
  mt_Options :: string
  mt_CopyP :: "bool option"

record BuildConfig =
  bc_Bindir :: string
  bc_Sysconfdir :: string
  bc_Localstatedir :: string
  bc_Cachedir :: string
  bc_Ipxesource :: string
  bc_Srvdir :: string
  bc_Firewallddir :: string
  bc_Systemddir :: string
  bc_Datadir :: string
  bc_WWOverlaydir :: string
  bc_WWChrootdir :: string
  bc_WWProvisiondir :: string
  bc_WWClientdir :: string
  bc_WWFilesdir :: string

record WarewulfYaml =
  y_Comment :: string
  y_Ipaddr :: string
  y_Netmask :: string
  y_Network :: string
  y_Fqdn :: string
  y_Ipaddr6 :: string
  y_PrefixLen6 :: string
  y_Warewulf :: "WarewulfConf option"
  y_API :: "APIConf option"
  y_DHCP :: "DHCPConf option"
  y_TFTP :: "TFTPConf option"
  y_NFS :: "NFSConf option"
  y_SSH :: "SSHConf option"
  y_Hostfile :: "HostfileConf option"
  y_MountsImage :: "MountEntry list"
  y_Paths :: "BuildConfig option"
  y_WWClient :: "int option"
  y_autodetected :: bool

definition DHCPConf_Enabled :: "DHCPConf \<Rightarrow> bool" where "DHCPConf_Enabled c = BoolP (dhcp_EnabledP c)"
definition NFSConf_Enabled :: "NFSConf \<Rightarrow> bool" where "NFSConf_Enabled c = BoolP (nfs_EnabledP c)"
definition APIConf_Enabled :: "APIConf \<Rightarrow> bool" where "APIConf_Enabled c = BoolP (api_EnabledP c)"
definition APIConf_TLSEnabled :: "APIConf \<Rightarrow> bool" where "APIConf_TLSEnabled c = BoolP (api_TLSEnabledP c)"
definition MountEntry_ReadOnly :: "MountEntry \<Rightarrow> bool" where "MountEntry_ReadOnly m = BoolP (mt_ReadOnlyP m)"
definition MountEntry_Copy :: "MountEntry \<Rightarrow> bool" where "MountEntry_Copy m = BoolP (mt_CopyP m)"

definition Secure :: "WarewulfConf \<Rightarrow> bool" where "Secure c = BoolP (ww_SecureP c)"

definition SecureFiles :: "WarewulfConf \<Rightarrow> bool" where
  "SecureFiles c = (case ww_SecureFilesP c of Some b \<Rightarrow> b | None \<Rightarrow> Secure c)"

section \<open>Parsing\<close>

record net_env =
  ne_outbound :: "IP option"
  ne_netFor :: "IP \<Rightarrow> IPNet option"

definition is_size :: "IP \<Rightarrow> nat" where
  "is_size m = (case simpleMaskLength m of Some n \<Rightarrow> n | None \<Rightarrow> 0)"

text \<open>The address in CIDR notation fills network and netmask where they are empty.\<close>

definition split_ipaddr :: "WarewulfYaml \<Rightarrow> WarewulfYaml" where
  "split_ipaddr c = (case ParseCIDR (y_Ipaddr c) of
      None \<Rightarrow> c
    | Some (ip, netip, msk) \<Rightarrow> c\<lparr>y_Ipaddr := IP_String ip,
        y_Network := (if y_Network c = [] then IP_String netip else y_Network c),
        y_Netmask := (if y_Netmask c = [] then IP_String msk else y_Netmask c)\<rparr>)"

definition detect_ipaddr :: "net_env \<Rightarrow> WarewulfYaml \<Rightarrow> WarewulfYaml" where
  "detect_ipaddr ne c = (if y_Ipaddr c \<noteq> [] then c
     else (case ne_outbound ne of None \<Rightarrow> c | Some ip \<Rightarrow> c\<lparr>y_Ipaddr := IP_String ip, y_autodetected := True\<rparr>))"

definition detect_netmask :: "net_env \<Rightarrow> WarewulfYaml \<Rightarrow> WarewulfYaml" where
  "detect_netmask ne c = (if y_Netmask c \<noteq> [] then c
     else (case ParseIP (y_Ipaddr c) of
         None \<Rightarrow> c
       | Some ip \<Rightarrow> (case ne_netFor ne ip of
             None \<Rightarrow> c
           | Some (_, msk) \<Rightarrow> c\<lparr>y_Netmask := IP_String msk, y_autodetected := True\<rparr>)))"

definition detect_network :: "WarewulfYaml \<Rightarrow> WarewulfYaml" where
  "detect_network c = (if y_Network c \<noteq> [] then c
     else (case (ParseIP (y_Ipaddr c), ParseIP (y_Netmask c)) of
         (Some ip, Some msk) \<Rightarrow> c\<lparr>y_Network := IP_String (IP_Mask ip msk), y_autodetected := True\<rparr>
       | _ \<Rightarrow> c))"

definition split_ipaddr6 :: "WarewulfYaml \<Rightarrow> WarewulfYaml" where
  "split_ipaddr6 c =
     (let c = (case (ParseIP (y_Ipaddr6 c), Atoi (y_PrefixLen6 c)) of
            (Some ip, (n, None)) \<Rightarrow> c\<lparr>y_Ipaddr6 := IP_String ip, y_PrefixLen6 := Itoa n\<rparr>
          | _ \<Rightarrow> c)
      in (case ParseCIDR (y_Ipaddr6 c) of
            None \<Rightarrow> c
          | Some (ip, _, msk) \<Rightarrow> c\<lparr>y_Ipaddr6 := IP_String ip, y_PrefixLen6 := show_nat (is_size msk)\<rparr>))"

text \<open>
  \<open>Parse\<close>: the map of iPXE binaries is emptied before decoding and restored when the file sets none.
  A file that sets the whole section to null makes the code dereference a nil pointer.
\<close>

definition config_Parse :: "net_env \<Rightarrow> (string \<Rightarrow> WarewulfYaml \<Rightarrow> err + WarewulfYaml) \<Rightarrow> WarewulfYaml \<Rightarrow> string \<Rightarrow> bool \<Rightarrow> err + WarewulfYaml" where
  "config_Parse ne decode conf data autodetect =
     (case y_TFTP conf of
        None \<Rightarrow> Inl ErrPanic
      | Some t \<Rightarrow>
          (case decode data (conf\<lparr>y_TFTP := Some (t\<lparr>tftp_IpxeBinaries := map_option (\<lambda>_. []) (tftp_IpxeBinaries t)\<rparr>)\<rparr>) of
             Inl e \<Rightarrow> Inl e
           | Inr c \<Rightarrow>
               (case y_TFTP c of
                  None \<Rightarrow> Inl ErrPanic
                | Some t' \<Rightarrow>
                    let t' = (if gm_entries (tftp_IpxeBinaries t') = []
                              then t'\<lparr>tftp_IpxeBinaries := Some (gm_entries (tftp_IpxeBinaries t))\<rparr> else t');
                        c = split_ipaddr (c\<lparr>y_TFTP := Some t'\<rparr>);
                        c = (if autodetect then detect_network (detect_netmask ne (detect_ipaddr ne c)) else c)
                    in Inr (split_ipaddr6 c))))"

section \<open>Derived addresses\<close>

definition cidr6_text :: "WarewulfYaml \<Rightarrow> string" where
  "cidr6_text c = y_Ipaddr6 c @ ''/'' @ y_PrefixLen6 c"

definition Network6 :: "WarewulfYaml \<Rightarrow> string" where
  "Network6 c = (case ParseCIDR (cidr6_text c) of None \<Rightarrow> [] | Some (_, netip, _) \<Rightarrow> IP_String netip)"

definition cidr_of :: "string \<Rightarrow> string \<Rightarrow> string" where
  "cidr_of ip msk = (if ip = [] \<or> msk = [] then []
     else (case (ParseIP ip, ParseIP msk) of (Some i, Some m) \<Rightarrow> IPNet_String i m | _ \<Rightarrow> []))"

definition NetworkCIDR :: "WarewulfYaml \<Rightarrow> string" where
  "NetworkCIDR c = cidr_of (y_Network c) (y_Netmask c)"

definition NetworkCIDR6 :: "WarewulfYaml \<Rightarrow> string" where
  "NetworkCIDR6 c = (case ParseCIDR (cidr6_text c) of None \<Rightarrow> [] | Some (_, netip, msk) \<Rightarrow> IPNet_String netip msk)"

definition config_IpCIDR :: "WarewulfYaml \<Rightarrow> string" where
  "config_IpCIDR c = cidr_of (y_Ipaddr c) (y_Netmask c)"

definition config_IpCIDR6 :: "WarewulfYaml \<Rightarrow> string" where
  "config_IpCIDR6 c = (case ParseCIDR (cidr6_text c) of
      None \<Rightarrow> []
    | Some (ip, _, _) \<Rightarrow> if To4 ip \<noteq> None then [] else cidr6_text c)"

section \<open>Overlay lists\<close>

text \<open>
  \<open>UnmarshalYAML\<close>: a string (here \<open>Inl\<close>) is split at commas, surrounding blanks are removed and empty
  names dropped; a sequence is taken as it is. \<open>MarshalYAML\<close> writes the string.
\<close>

definition TrimSpace :: "string \<Rightarrow> string" where
  "TrimSpace s = rev (dropWhile is_space (rev (dropWhile is_space s)))"

definition OverlayList_Unmarshal :: "string + string list \<Rightarrow> OverlayList" where
  "OverlayList_Unmarshal node = (case node of
      Inl s \<Rightarrow> filter (\<lambda>n. n \<noteq> []) (map TrimSpace (Split s (CHR '','')))
    | Inr names \<Rightarrow> names)"

definition OverlayList_Marshal :: "OverlayList \<Rightarrow> string" where
  "OverlayList_Marshal overlays = Join overlays '',''"

section \<open>Networks and users of the API\<close>

definition IPNet_MarshalText :: "IPNet \<Rightarrow> string" where
  "IPNet_MarshalText n = IPNet_String (fst n) (snd n)"

definition IPNet_UnmarshalText :: "string \<Rightarrow> err + IPNet" where
  "IPNet_UnmarshalText s = (case ParseCIDR s of None \<Rightarrow> Inl ErrSyntax | Some (_, netip, msk) \<Rightarrow> Inr (netip, msk))"

record User =
  us_Name :: string
  us_PasswordHash :: string

record Authentication =
  au_Users :: "User list"
  au_userMap :: "(string \<times> User) list"

definition NewAuthentication :: Authentication where
  "NewAuthentication = \<lparr>au_Users = [], au_userMap = []\<rparr>"

fun add_users :: "User list \<Rightarrow> (string \<times> User) list \<Rightarrow> err option \<times> (string \<times> User) list" where
  "add_users [] m = (None, m)"
| "add_users (u # us) m =
     (if map_of m (us_Name u) \<noteq> None then (Some (ErrMsg ''duplicated user names''), m)
      else add_users us (al_update (us_Name u) u m))"

definition ParseFromRaw :: "(string \<Rightarrow> err + User list) \<Rightarrow> string \<Rightarrow> Authentication \<Rightarrow> err option \<times> Authentication" where
  "ParseFromRaw decode data auth = (case decode data of
      Inl e \<Rightarrow> (Some e, auth)
    | Inr us \<Rightarrow>
        let auth = auth\<lparr>au_Users := us\<rparr> in
        if us = [] then (Some (ErrMsg ''no record users''), auth)
        else (case add_users us (au_userMap auth) of (e, m) \<Rightarrow> (e, auth\<lparr>au_userMap := m\<rparr>)))"

definition Authenticate :: "(string \<Rightarrow> string \<Rightarrow> bool) \<Rightarrow> Authentication \<Rightarrow> string \<Rightarrow> string \<Rightarrow> err + User" where
  "Authenticate bcrypt auth name pass = (case map_of (au_userMap auth) name of
      None \<Rightarrow> Inl (ErrMsg ''Unauthorized'')
    | Some u \<Rightarrow> if bcrypt (us_PasswordHash u) pass then Inr u else Inl (ErrMsg ''Unauthorized''))"

section \<open>Facts\<close>

lemma TrimSpace_id: "s \<noteq> [] \<Longrightarrow> \<not> is_space (hd s) \<Longrightarrow> \<not> is_space (last s) \<Longrightarrow> TrimSpace s = s"
proof -
  assume s: "s \<noteq> []" "\<not> is_space (hd s)" "\<not> is_space (last s)"
  then have "dropWhile is_space s = s" by (cases s) auto
  moreover from s have "dropWhile is_space (rev s) = rev s" by (cases "rev s") (auto simp: hd_rev [symmetric])
  ultimately show ?thesis by (simp add: TrimSpace_def)
qed

text \<open>
  Writing a list of overlay names and reading it back gives the list, for names that are not
  empty, have no comma and no blanks at their ends; reading any text gives such names only.
\<close>

theorem OverlayList_roundtrip:
  "(\<forall>names. (\<forall>n\<in>set names. n \<noteq> [] \<and> CHR '','' \<notin> set n \<and> \<not> is_space (hd n) \<and> \<not> is_space (last n)) \<longrightarrow>
      OverlayList_Unmarshal (Inl (OverlayList_Marshal names)) = names) \<and>
   (\<forall>s. \<forall>n\<in>set (OverlayList_Unmarshal (Inl s)). n \<noteq> [] \<and> CHR '','' \<notin> set n \<and> \<not> is_space (hd n) \<and> \<not> is_space (last n))"
proof (intro conjI allI impI ballI)
  fix names :: "string list"
  assume n: "\<forall>n\<in>set names. n \<noteq> [] \<and> CHR '','' \<notin> set n \<and> \<not> is_space (hd n) \<and> \<not> is_space (last n)"
  show "OverlayList_Unmarshal (Inl (OverlayList_Marshal names)) = names"
  proof (cases "names = []")
    case True
    have "OverlayList_Unmarshal (Inl (OverlayList_Marshal [])) = []" by code_simp
    with True show ?thesis by simp
  next
    case False
    with n have "Split (Join names '','') (CHR '','') = names" by (intro Split_Join) auto
    moreover have "map TrimSpace names = names" using n by (intro map_idI TrimSpace_id) auto
    ultimately show ?thesis using n by (simp add: OverlayList_Unmarshal_def OverlayList_Marshal_def filter_id_conv)
  qed
next
  fix s n
  assume "n \<in> set (OverlayList_Unmarshal (Inl s))"
  then obtain p where p: "p \<in> set (Split s (CHR '',''))" "n = TrimSpace p" "n \<noteq> []"
    by (auto simp: OverlayList_Unmarshal_def)
  have c: "CHR '','' \<notin> set p" using Split_parts_no_sep [OF p(1)] .
  let ?q = "dropWhile is_space p"
  have n: "n = rev (dropWhile is_space (rev ?q))" using p(2) by (simp add: TrimSpace_def)
  have sub: "set n \<subseteq> set p" unfolding n by (auto dest!: set_dropWhileD)
  have last: "\<not> is_space (last n)" using p(3) hd_dropWhile [of is_space "rev ?q"] unfolding n by (simp add: last_rev)
  have hd: "\<not> is_space (hd n)"
  proof -
    have "?q \<noteq> []"
    proof
      assume q: "?q = []"
      have "n = []" unfolding n q by simp
      with p(3) show False by simp
    qed
    moreover obtain r where "?q = n @ r" using n by (metis rev_append rev_rev_ident takeWhile_dropWhile_id)
    ultimately show ?thesis using p(3) hd_dropWhile [of is_space p] by (metis hd_append2)
  qed
  show "n \<noteq> []" "CHR '','' \<notin> set n" "\<not> is_space (hd n)" "\<not> is_space (last n)" using p(3) c sub last hd by auto
qed

theorem OverlayList_roundtrip_witness:
  "OverlayList_Unmarshal (Inl (OverlayList_Marshal [''dnsmasq'', ''tftproot''])) = [''dnsmasq'', ''tftproot'']"
proof -
  have "\<forall>n\<in>set [''dnsmasq'', ''tftproot'']. n \<noteq> [] \<and> CHR '','' \<notin> set n \<and> \<not> is_space (hd n) \<and> \<not> is_space (last n)" by code_simp
  then show ?thesis using OverlayList_roundtrip by blast
qed

lemma find_in: "find P xs = Some x \<Longrightarrow> x \<in> set xs \<and> P x"
  by (auto simp: find_Some_iff)

lemma add_users_ok:
  "add_users us m = (None, m') \<Longrightarrow>
     distinct (map us_Name us) \<and> (\<forall>u\<in>set us. map_of m (us_Name u) = None) \<and>
     map_of m' x = (case find (\<lambda>u. us_Name u = x) us of Some u \<Rightarrow> Some u | None \<Rightarrow> map_of m x)"
proof (induction us arbitrary: m)
  case (Cons u us)
  then have "map_of m (us_Name u) = None" "add_users us (al_update (us_Name u) u m) = (None, m')" by (auto split: if_splits)
  with Cons.IH [OF this(2)] show ?case
    by (auto simp: map_of_al_update split: if_splits option.splits dest: find_in)
qed simp

text \<open>
  (C38) After the users of the API were read, a name and a password are accepted exactly if a user of
  that name is listed and \<open>bcrypt\<close> accepts the password against the hash of that user; no two users
  have the same name.
\<close>

theorem Authenticate_correct:
  assumes "ParseFromRaw decode data NewAuthentication = (None, auth)"
  shows "\<exists>us. decode data = Inr us \<and> us \<noteq> [] \<and> distinct (map us_Name us) \<and>
    (\<forall>name pass u. Authenticate bcrypt auth name pass = Inr u \<longleftrightarrow> u \<in> set us \<and> us_Name u = name \<and> bcrypt (us_PasswordHash u) pass)"
proof -
  obtain us m where us: "decode data = Inr us" "us \<noteq> []" and m: "add_users us [] = (None, m)" "au_userMap auth = m"
    using assms by (auto simp: ParseFromRaw_def NewAuthentication_def Let_def split: sum.splits if_splits prod.splits)
  have d: "distinct (map us_Name us)" using add_users_ok [OF m(1)] by blast
  have get: "map_of m x = Some u \<longleftrightarrow> u \<in> set us \<and> us_Name u = x" for x u
  proof -
    have "map_of m x = find (\<lambda>u. us_Name u = x) us" using add_users_ok [OF m(1), of x] by (auto split: option.splits)
    also have "\<dots> = Some u \<longleftrightarrow> u \<in> set us \<and> us_Name u = x"
      using d by (induction us) (auto split: if_splits)
    finally show ?thesis .
  qed
  have "Authenticate bcrypt auth name pass = Inr u \<longleftrightarrow> u \<in> set us \<and> us_Name u = name \<and> bcrypt (us_PasswordHash u) pass" for name pass u
    using get [of name u] by (cases "map_of m name") (auto simp: Authenticate_def m(2))
  with us d show ?thesis by blast
qed

theorem Authenticate_correct_witness:
  "\<exists>auth. ParseFromRaw (\<lambda>_. Inr [\<lparr>us_Name = ''root'', us_PasswordHash = ''h''\<rparr>]) '''' NewAuthentication = (None, auth) \<and>
     Authenticate (\<lambda>h p. h = p) auth ''root'' ''h'' = Inr \<lparr>us_Name = ''root'', us_PasswordHash = ''h''\<rparr>"
proof -
  let ?u = "\<lparr>us_Name = ''root'', us_PasswordHash = ''h''\<rparr>" and ?d = "\<lambda>_ :: string. Inr [\<lparr>us_Name = ''root'', us_PasswordHash = ''h''\<rparr>]"
  obtain auth where a: "ParseFromRaw ?d '''' NewAuthentication = (None, auth)"
    by (simp add: ParseFromRaw_def NewAuthentication_def)
  from Authenticate_correct [OF a, of "\<lambda>h p. h = p"] have "Authenticate (\<lambda>h p. h = p) auth ''root'' ''h'' = Inr ?u" by auto
  with a show ?thesis by blast
qed

end
