(* ===== verification/Upgrade_Config.thy ===== *)
theory Upgrade_Config
  imports Upgrade_Nodes Ww_Config
begin

text \<open>
  The conversion of a \<open>warewulf.conf\<close> of an older release (\<open>internal/pkg/upgrade/config.go\<close>). A nil slice
  is \<open>None\<close> where the code tells it from an empty one. A nil entry of a slice of pointers is dereferenced:
  \<open>ErrPanic\<close>.
\<close>

definition legacyHostOverlay :: string where "legacyHostOverlay = ''host''"

record LWarewulfConf =
  lw_Port :: int
  lw_TLSPort :: int
  lw_Secure :: "bool option"
  lw_SecureFiles :: "bool option"
  lw_TLSEnabled :: "bool option"
  lw_UpdateInterval :: int
  lw_AutobuildOverlays :: "bool option"
  lw_EnableHostOverlay :: "bool option"
  lw_Syslog :: "bool option"
  lw_DataStore :: string
  lw_GrubBoot :: "bool option"
  lw_SystemdName :: string

record LAPIConf =
  la_Enabled :: "bool option"
  la_TLSEnabled :: "bool option"
  la_AllowedNets :: "IPNet list"

record LDHCPConf =
  lh_Enabled :: "bool option"
  lh_Template :: string
  lh_RangeStart :: string
  lh_RangeEnd :: string
  lh_Range6Start :: string
  lh_Range6End :: string
  lh_SystemdName :: string
  lh_Overlays :: OverlayList

record LTFTPConf =
  lt_Enabled :: "bool option"
  lt_TftpRoot :: string
  lt_SystemdName :: string
  lt_IpxeBinaries :: "string gomap"
  lt_Overlays :: OverlayList

record LSSHConf =
  ls_KeyTypes :: "string list"
  ls_Overlays :: OverlayList

record LHostfileConf =
  lo_Overlays :: OverlayList

record LMountEntry =
  lm_Source :: string
  lm_Dest :: string
  lm_ReadOnly :: "bool option"
  lm_Options :: string
  lm_Copy :: "bool option"

record LBuildConfig =
  lb_Bindir :: string
  lb_Sysconfdir :: string
  lb_Localstatedir :: string
  lb_Cachedir :: string
  lb_Ipxesource :: string
  lb_Srvdir :: string
  lb_Firewallddir :: string
  lb_Systemddir :: string
  lb_Datadir :: string
  lb_WWOverlaydir :: string
  lb_WWChrootdir :: string
  lb_WWProvisiondir :: string
  lb_WWClientdir :: string

record LWarewulfYaml =
  ly_WWInternal :: string
  ly_Comment :: string
  ly_Ipaddr :: string
  ly_Ipaddr6 :: string
  ly_Netmask :: string
  ly_Network :: string
  ly_Ipv6net :: string
  ly_PrefixLen6 :: string
  ly_Fqdn :: string
  ly_Warewulf :: "LWarewulfConf option"
  ly_API :: "LAPIConf option"
  ly_DHCP :: "LDHCPConf option"
  ly_TFTP :: "LTFTPConf option"
  ly_NFS :: "LNFSConf option"
  ly_SSH :: "LSSHConf option"
  ly_Hostfile :: "LHostfileConf option"
  ly_MountsImage :: "LMountEntry option list option"
  ly_MountsContainer :: "LMountEntry option list option"
  ly_Paths :: "LBuildConfig option"
  ly_WWClient :: "int option"

section \<open>Sections\<close>

definition LWarewulfConf_Upgrade :: "LWarewulfConf \<Rightarrow> WarewulfConf" where
  "LWarewulfConf_Upgrade l = \<lparr>ww_Port = lw_Port l, ww_TLSPort = lw_TLSPort l, ww_SecureP = lw_Secure l,
     ww_SecureFilesP = lw_SecureFiles l, ww_TLSEnabledP = lw_TLSEnabled l, ww_UpdateInterval = lw_UpdateInterval l,
     ww_AutobuildOverlaysP = lw_AutobuildOverlays l, ww_EnableHostOverlayP = lw_EnableHostOverlay l,
     ww_GrubBootP = lw_GrubBoot l, ww_SystemdName = lw_SystemdName l\<rparr>"

definition LAPIConf_Upgrade :: "LAPIConf \<Rightarrow> APIConf" where
  "LAPIConf_Upgrade l = \<lparr>api_EnabledP = la_Enabled l, api_TLSEnabledP = la_TLSEnabled l, api_AllowedNets = la_AllowedNets l\<rparr>"

definition zero_LDHCPConf :: LDHCPConf where
  "zero_LDHCPConf = \<lparr>lh_Enabled = None, lh_Template = [], lh_RangeStart = [], lh_RangeEnd = [], lh_Range6Start = [],
     lh_Range6End = [], lh_SystemdName = [], lh_Overlays = []\<rparr>"

definition LDHCPConf_Upgrade :: "LDHCPConf option \<Rightarrow> DHCPConf" where
  "LDHCPConf_Upgrade legacy =
     (let l = (case legacy of None \<Rightarrow> zero_LDHCPConf | Some l \<Rightarrow> l); name = lh_SystemdName l in
      \<lparr>dhcp_EnabledP = lh_Enabled l, dhcp_Template = lh_Template l, dhcp_RangeStart = lh_RangeStart l,
       dhcp_RangeEnd = lh_RangeEnd l, dhcp_Range6Start = lh_Range6Start l, dhcp_Range6End = lh_Range6End l,
       dhcp_SystemdName = name,
       dhcp_Overlays = (if lh_Overlays l \<noteq> [] then lh_Overlays l
         else if name \<in> {'''', ''dhcpd'', ''isc-dhcp-server''} then [''dhcpd'']
         else if name = ''dnsmasq'' then [''dnsmasq''] else [])\<rparr>)"

definition zero_LTFTPConf :: LTFTPConf where
  "zero_LTFTPConf = \<lparr>lt_Enabled = None, lt_TftpRoot = [], lt_SystemdName = [], lt_IpxeBinaries = None, lt_Overlays = []\<rparr>"

definition LTFTPConf_Upgrade :: "LTFTPConf option \<Rightarrow> TFTPConf" where
  "LTFTPConf_Upgrade legacy =
     (let l = (case legacy of None \<Rightarrow> zero_LTFTPConf | Some l \<Rightarrow> l); name = lt_SystemdName l in
      \<lparr>tftp_EnabledP = lt_Enabled l, tftp_TftpRoot = lt_TftpRoot l, tftp_SystemdName = name,
       tftp_Overlays = (if lt_Overlays l \<noteq> [] then lt_Overlays l
         else if name \<in> {'''', ''tftp'', ''tftpd'', ''tftpd-hpa''} then [''tftproot'']
         else if name = ''dnsmasq'' then [''dnsmasq'', ''tftproot''] else []),
       tftp_IpxeBinaries = copy_maps [lt_IpxeBinaries l] []\<rparr>)"

definition LNFSExportConf_Upgrade :: "LNFSExportConf \<Rightarrow> NFSExportConf" where
  "LNFSExportConf_Upgrade l = \<lparr>ex_Path = le_Path l, ex_ExportOptions = le_ExportOptions l\<rparr>"

fun upgrade_list :: "('a \<Rightarrow> 'b) \<Rightarrow> 'a option list \<Rightarrow> err + 'b list" where
  "upgrade_list f [] = Inr []"
| "upgrade_list f (x # xs) = (case x of
      None \<Rightarrow> Inl ErrPanic
    | Some y \<Rightarrow> (case upgrade_list f xs of Inl e \<Rightarrow> Inl e | Inr ys \<Rightarrow> Inr (f y # ys)))"

definition zero_LNFSConf :: LNFSConf where
  "zero_LNFSConf = \<lparr>lc_nfs_Enabled = None, lc_nfs_Exports = [], lc_nfs_ExportsExtended = [], lc_nfs_SystemdName = [], lc_nfs_Overlays = []\<rparr>"

definition LNFSConf_Upgrade :: "LNFSConf option \<Rightarrow> err + NFSConf" where
  "LNFSConf_Upgrade legacy =
     (let l = (case legacy of None \<Rightarrow> zero_LNFSConf | Some l \<Rightarrow> l); name = lc_nfs_SystemdName l in
      case upgrade_list LNFSExportConf_Upgrade (lc_nfs_ExportsExtended l) of
        Inl e \<Rightarrow> Inl e
      | Inr exts \<Rightarrow> Inr
          \<lparr>nfs_EnabledP = lc_nfs_Enabled l,
           nfs_ExportsExtended = map (\<lambda>p. \<lparr>ex_Path = p, ex_ExportOptions = []\<rparr>) (lc_nfs_Exports l) @ exts,
           nfs_SystemdName = name,
           nfs_Overlays = (if lc_nfs_Overlays l \<noteq> [] then lc_nfs_Overlays l
             else if name \<in> {'''', ''nfs-server'', ''nfsd'', ''nfs-kernel-server''} then [''nfsd''] else [])\<rparr>)"

definition LSSHConf_Upgrade :: "LSSHConf option \<Rightarrow> SSHConf" where
  "LSSHConf_Upgrade legacy =
     (let ovs = (case legacy of None \<Rightarrow> [] | Some l \<Rightarrow> ls_Overlays l) in
      \<lparr>ssh_KeyTypes = (case legacy of None \<Rightarrow> [] | Some l \<Rightarrow> ls_KeyTypes l),
       ssh_Overlays = (if ovs = [] then [''ssh.wwctl''] else ovs)\<rparr>)"

definition LHostfileConf_Upgrade :: "LHostfileConf option \<Rightarrow> HostfileConf" where
  "LHostfileConf_Upgrade legacy =
     (let ovs = (case legacy of None \<Rightarrow> [] | Some l \<Rightarrow> lo_Overlays l) in
      \<lparr>hf_Overlays = (if ovs = [] then [''hosts''] else ovs)\<rparr>)"

definition LMountEntry_Upgrade :: "LMountEntry \<Rightarrow> MountEntry" where
  "LMountEntry_Upgrade l = \<lparr>mt_Source = lm_Source l, mt_Dest = lm_Dest l, mt_ReadOnlyP = lm_ReadOnly l,
     mt_Options = lm_Options l, mt_CopyP = lm_Copy l\<rparr>"

definition zero_BuildConfig :: BuildConfig where
  "zero_BuildConfig = \<lparr>bc_Bindir = [], bc_Sysconfdir = [], bc_Localstatedir = [], bc_Cachedir = [], bc_Ipxesource = [],
     bc_Srvdir = [], bc_Firewallddir = [], bc_Systemddir = [], bc_Datadir = [], bc_WWOverlaydir = [], bc_WWChrootdir = [],
     bc_WWProvisiondir = [], bc_WWClientdir = [], bc_WWFilesdir = []\<rparr>"

text \<open>\<open>Systemddir\<close> is not carried over.\<close>

definition LBuildConfig_Upgrade :: "LBuildConfig \<Rightarrow> BuildConfig" where
  "LBuildConfig_Upgrade l = zero_BuildConfig\<lparr>bc_Bindir := lb_Bindir l, bc_Sysconfdir := lb_Sysconfdir l,
     bc_Localstatedir := lb_Localstatedir l, bc_Cachedir := lb_Cachedir l, bc_Ipxesource := lb_Ipxesource l,
     bc_Srvdir := lb_Srvdir l, bc_Firewallddir := lb_Firewallddir l, bc_Datadir := lb_Datadir l,
     bc_WWOverlaydir := lb_WWOverlaydir l, bc_WWChrootdir := lb_WWChrootdir l, bc_WWProvisiondir := lb_WWProvisiondir l,
     bc_WWClientdir := lb_WWClientdir l\<rparr>"

definition appendLegacyHostOverlay :: "OverlayList \<Rightarrow> OverlayList" where
  "appendLegacyHostOverlay overlays = (if legacyHostOverlay \<in> set overlays then overlays else overlays @ [legacyHostOverlay])"

section \<open>The whole file\<close>

text \<open>\<open>reflect.Value.IsZero\<close> of the legacy structure.\<close>

definition zero_LWarewulfYaml :: LWarewulfYaml where
  "zero_LWarewulfYaml = \<lparr>ly_WWInternal = [], ly_Comment = [], ly_Ipaddr = [], ly_Ipaddr6 = [], ly_Netmask = [], ly_Network = [],
     ly_Ipv6net = [], ly_PrefixLen6 = [], ly_Fqdn = [], ly_Warewulf = None, ly_API = None, ly_DHCP = None, ly_TFTP = None,
     ly_NFS = None, ly_SSH = None, ly_Hostfile = None, ly_MountsImage = None, ly_MountsContainer = None, ly_Paths = None,
     ly_WWClient = None\<rparr>"

definition upgrade_ipv6 :: "LWarewulfYaml \<Rightarrow> string \<times> string" where
  "upgrade_ipv6 l =
     (case (if ly_Ipv6net l = [] then None else ParseCIDR (ly_Ipv6net l)) of
        None \<Rightarrow> (ly_Ipaddr6 l, ly_PrefixLen6 l)
      | Some (ip, _, msk) \<Rightarrow>
          (if ly_Ipaddr6 l = [] then IP_String ip else ly_Ipaddr6 l,
           if ly_PrefixLen6 l = [] then show_nat (is_size msk) else ly_PrefixLen6 l))"

definition upgrade_mounts :: "LWarewulfYaml \<Rightarrow> err + MountEntry list" where
  "upgrade_mounts l =
     (case upgrade_list LMountEntry_Upgrade (case ly_MountsImage l of None \<Rightarrow> [] | Some ms \<Rightarrow> ms) of
        Inl e \<Rightarrow> Inl e
      | Inr ms \<Rightarrow> if ms \<noteq> [] then Inr ms
          else upgrade_list LMountEntry_Upgrade (case ly_MountsContainer l of None \<Rightarrow> [] | Some ms \<Rightarrow> ms))"

definition upgrade_paths :: "LWarewulfYaml \<Rightarrow> BuildConfig option" where
  "upgrade_paths l =
     (let paths = map_option LBuildConfig_Upgrade (ly_Paths l);
          store = (case ly_Warewulf l of None \<Rightarrow> [] | Some w \<Rightarrow> lw_DataStore w)
      in if store = [] then paths
         else let p = (case paths of None \<Rightarrow> zero_BuildConfig | Some p \<Rightarrow> p) in
           Some (if bc_Datadir p = [] then p\<lparr>bc_Datadir := store\<rparr> else p))"

definition LWarewulfYaml_Upgrade :: "bool \<Rightarrow> LWarewulfYaml \<Rightarrow> err + WarewulfYaml" where
  "LWarewulfYaml_Upgrade retain l =
     (let nonEmpty = (l \<noteq> zero_LWarewulfYaml);
          host = (\<lambda>ovs. if retain then appendLegacyHostOverlay ovs else ovs)
      in (case (if ly_NFS l \<noteq> None \<or> nonEmpty then map_sum id Some (LNFSConf_Upgrade (ly_NFS l)) else Inr None) of
            Inl e \<Rightarrow> Inl e
          | Inr nfs \<Rightarrow>
         (case upgrade_mounts l of
            Inl e \<Rightarrow> Inl e
          | Inr mounts \<Rightarrow> Inr
              \<lparr>y_Comment = ly_Comment l, y_Ipaddr = ly_Ipaddr l, y_Netmask = ly_Netmask l, y_Network = ly_Network l,
               y_Fqdn = ly_Fqdn l, y_Ipaddr6 = fst (upgrade_ipv6 l), y_PrefixLen6 = snd (upgrade_ipv6 l),
               y_Warewulf = map_option LWarewulfConf_Upgrade (ly_Warewulf l), y_API = map_option LAPIConf_Upgrade (ly_API l),
               y_DHCP = map_option (\<lambda>c. c\<lparr>dhcp_Overlays := host (dhcp_Overlays c)\<rparr>) (if ly_DHCP l \<noteq> None \<or> nonEmpty then Some (LDHCPConf_Upgrade (ly_DHCP l)) else None),
               y_TFTP = map_option (\<lambda>c. c\<lparr>tftp_Overlays := host (tftp_Overlays c)\<rparr>) (if ly_TFTP l \<noteq> None \<or> nonEmpty then Some (LTFTPConf_Upgrade (ly_TFTP l)) else None),
               y_NFS = map_option (\<lambda>c. c\<lparr>nfs_Overlays := host (nfs_Overlays c)\<rparr>) nfs,
               y_SSH = map_option (\<lambda>c. c\<lparr>ssh_Overlays := host (ssh_Overlays c)\<rparr>) (if ly_SSH l \<noteq> None \<or> nonEmpty then Some (LSSHConf_Upgrade (ly_SSH l)) else None),
               y_Hostfile = map_option (\<lambda>c. c\<lparr>hf_Overlays := host (hf_Overlays c)\<rparr>) (if ly_Hostfile l \<noteq> None \<or> nonEmpty then Some (LHostfileConf_Upgrade (ly_Hostfile l)) else None),
               y_MountsImage = mounts, y_Paths = upgrade_paths l, y_WWClient = ly_WWClient l, y_autodetected = False\<rparr>)))"

section \<open>What the conversion keeps\<close>

lemma upgrade_list_map: "upgrade_list f (map Some xs) = Inr (map f xs)"
  by (induction xs) auto

lemma host_kept: "legacyHostOverlay \<in> set (appendLegacyHostOverlay ovs) \<and> set ovs \<subseteq> set (appendLegacyHostOverlay ovs) \<and>
   (legacyHostOverlay \<notin> set ovs \<longrightarrow> last (appendLegacyHostOverlay ovs) = legacyHostOverlay)"
  by (auto simp: appendLegacyHostOverlay_def)

text \<open>
  For a legacy file that is not empty and has no nil entries, the conversion gives every service a
  section. A service without overlays gets those of its systemd name, and none only if that name is
  not recognised; configured overlays stay. When the host overlay is retained, every service has it,
  after all overlays it is added to.
\<close>

theorem Upgrade_services:
  assumes "l \<noteq> zero_LWarewulfYaml" "LWarewulfYaml_Upgrade retain l = Inr up"
  shows "\<exists>d t n s h. y_DHCP up = Some d \<and> y_TFTP up = Some t \<and> y_NFS up = Some n \<and> y_SSH up = Some s \<and> y_Hostfile up = Some h \<and>
    (retain \<longrightarrow> (\<forall>ovs\<in>{dhcp_Overlays d, tftp_Overlays t, nfs_Overlays n, ssh_Overlays s, hf_Overlays h}. legacyHostOverlay \<in> set ovs)) \<and>
    (\<not> retain \<longrightarrow> ssh_Overlays s \<noteq> [] \<and> hf_Overlays h \<noteq> [] \<and>
       (dhcp_Overlays d = [] \<longrightarrow> dhcp_SystemdName d \<notin> {'''', ''dhcpd'', ''isc-dhcp-server'', ''dnsmasq''}) \<and>
       (tftp_Overlays t = [] \<longrightarrow> tftp_SystemdName t \<notin> {'''', ''tftp'', ''tftpd'', ''tftpd-hpa'', ''dnsmasq''}) \<and>
       (nfs_Overlays n = [] \<longrightarrow> nfs_SystemdName n \<notin> {'''', ''nfs-server'', ''nfsd'', ''nfs-kernel-server''})) \<and>
    (\<forall>ld. ly_DHCP l = Some ld \<and> lh_Overlays ld \<noteq> [] \<longrightarrow> set (lh_Overlays ld) \<subseteq> set (dhcp_Overlays d)) \<and>
    (\<forall>lt. ly_TFTP l = Some lt \<and> lt_Overlays lt \<noteq> [] \<longrightarrow> set (lt_Overlays lt) \<subseteq> set (tftp_Overlays t))"
proof -
  obtain n where n: "LNFSConf_Upgrade (ly_NFS l) = Inr n"
    using assms by (cases "LNFSConf_Upgrade (ly_NFS l)") (auto simp: LWarewulfYaml_Upgrade_def Let_def)
  define host where "host = (\<lambda>ovs. if retain then appendLegacyHostOverlay ovs else ovs)"
  have up: "y_DHCP up = Some ((LDHCPConf_Upgrade (ly_DHCP l))\<lparr>dhcp_Overlays := host (dhcp_Overlays (LDHCPConf_Upgrade (ly_DHCP l)))\<rparr>)"
    "y_TFTP up = Some ((LTFTPConf_Upgrade (ly_TFTP l))\<lparr>tftp_Overlays := host (tftp_Overlays (LTFTPConf_Upgrade (ly_TFTP l)))\<rparr>)"
    "y_NFS up = Some (n\<lparr>nfs_Overlays := host (nfs_Overlays n)\<rparr>)"
    "y_SSH up = Some ((LSSHConf_Upgrade (ly_SSH l))\<lparr>ssh_Overlays := host (ssh_Overlays (LSSHConf_Upgrade (ly_SSH l)))\<rparr>)"
    "y_Hostfile up = Some ((LHostfileConf_Upgrade (ly_Hostfile l))\<lparr>hf_Overlays := host (hf_Overlays (LHostfileConf_Upgrade (ly_Hostfile l)))\<rparr>)"
    using assms n by (auto simp: LWarewulfYaml_Upgrade_def Let_def host_def split: sum.splits)
  have keep: "set ovs \<subseteq> set (host ovs)" "retain \<Longrightarrow> legacyHostOverlay \<in> set (host ovs)" "\<not> retain \<Longrightarrow> host ovs = ovs" for ovs
    using host_kept [of ovs] by (auto simp: host_def)
  have nfs: "nfs_Overlays n = [] \<longrightarrow> nfs_SystemdName n \<notin> {'''', ''nfs-server'', ''nfsd'', ''nfs-kernel-server''}"
    using n by (auto simp: LNFSConf_Upgrade_def Let_def split: sum.splits if_splits)
  have rest: "ssh_Overlays (LSSHConf_Upgrade a) \<noteq> []" "hf_Overlays (LHostfileConf_Upgrade b) \<noteq> []"
    "dhcp_Overlays (LDHCPConf_Upgrade c) = [] \<longrightarrow> dhcp_SystemdName (LDHCPConf_Upgrade c) \<notin> {'''', ''dhcpd'', ''isc-dhcp-server'', ''dnsmasq''}"
    "tftp_Overlays (LTFTPConf_Upgrade e) = [] \<longrightarrow> tftp_SystemdName (LTFTPConf_Upgrade e) \<notin> {'''', ''tftp'', ''tftpd'', ''tftpd-hpa'', ''dnsmasq''}"
    "lh_Overlays ld \<noteq> [] \<Longrightarrow> dhcp_Overlays (LDHCPConf_Upgrade (Some ld)) = lh_Overlays ld"
    "lt_Overlays lt \<noteq> [] \<Longrightarrow> tftp_Overlays (LTFTPConf_Upgrade (Some lt)) = lt_Overlays lt" for a b c e ld lt
    by (auto simp: LSSHConf_Upgrade_def LHostfileConf_Upgrade_def LDHCPConf_Upgrade_def LTFTPConf_Upgrade_def Let_def)
  show ?thesis unfolding up using keep nfs rest by (simp; blast)
qed

theorem Upgrade_services_witness:
  "\<exists>up d. LWarewulfYaml_Upgrade True (zero_LWarewulfYaml\<lparr>ly_Ipaddr := ''10.0.0.1''\<rparr>) = Inr up \<and> y_DHCP up = Some d \<and>
     legacyHostOverlay \<in> set (dhcp_Overlays d)"
proof -
  let ?l = "zero_LWarewulfYaml\<lparr>ly_Ipaddr := ''10.0.0.1''\<rparr>"
  have ne: "?l \<noteq> zero_LWarewulfYaml" by (simp add: zero_LWarewulfYaml_def)
  have "LNFSConf_Upgrade (ly_NFS ?l) \<noteq> Inl e" "upgrade_mounts ?l \<noteq> Inl e" for e
    by (simp_all add: LNFSConf_Upgrade_def upgrade_mounts_def zero_LWarewulfYaml_def zero_LNFSConf_def)
  then obtain up where up: "LWarewulfYaml_Upgrade True ?l = Inr up"
    using ne by (cases "LNFSConf_Upgrade (ly_NFS ?l)"; cases "upgrade_mounts ?l") (auto simp: LWarewulfYaml_Upgrade_def Let_def)
  from Upgrade_services [OF ne up] up show ?thesis by auto
qed

end
