(* ===== verification/Go_Files.thy ===== *)
theory Go_Files
  imports Boot_Files
begin

text \<open>
  Files with owners and contents, the calls of \<open>os\<close> on them, and the helpers of \<open>util\<close> that copy and
  extend files (\<open>util.CopyFile\<close>, \<open>util.CopyUIDGID\<close>, \<open>util.AppendLines\<close>).

  \<^item> A file system is an association list from clean paths to nodes with a kind, an owner, a group
    and contents. A symbolic link carries the path at which following it ends (\<open>None\<close>: a loop).
    Directories on the way to a path are not links. \<open>uf_refuse\<close> lists the paths the operating system
    refuses to create, change or remove. Permission bits are left out.
  \<^item> An operation returns its error, if any, beside the file system it leaves: an operation that
    fails half way keeps the changes made so far.
\<close>

section \<open>Files\<close>

datatype fkind = Dir | Regular | Symlink "string option" | Special

record fnode =
  fn_kind :: fkind
  fn_uid :: int
  fn_gid :: int
  fn_data :: string

record ufs =
  uf_nodes :: "(string \<times> fnode) list"
  uf_refuse :: "string list"

type_synonym 's effect = "'s \<Rightarrow> err option \<times> 's"

definition Lstat :: "ufs \<Rightarrow> string \<Rightarrow> fnode option" where
  "Lstat u p = map_of (uf_nodes u) p"

definition follow_link :: "ufs \<Rightarrow> string \<Rightarrow> string option" where
  "follow_link u p = (case Lstat u p of
      None \<Rightarrow> Some p
    | Some n \<Rightarrow> (case fn_kind n of Symlink t \<Rightarrow> t | _ \<Rightarrow> Some p))"

definition Stat :: "ufs \<Rightarrow> string \<Rightarrow> fnode option" where
  "Stat u p = (case follow_link u p of None \<Rightarrow> None | Some q \<Rightarrow> Lstat u q)"

definition set_node :: "string \<Rightarrow> fnode \<Rightarrow> ufs \<Rightarrow> ufs" where
  "set_node p n u = u\<lparr>uf_nodes := al_update p n (uf_nodes u)\<rparr>"

text \<open>An owner or group of 32 bits; the value with all bits set leaves it as it is.\<close>

definition new_owner :: "int \<Rightarrow> int \<Rightarrow> int" where
  "new_owner i old = (let w = i mod 2 ^ 32 in if w = 2 ^ 32 - 1 then old else w)"

definition os_Chown :: "string \<Rightarrow> int \<Rightarrow> int \<Rightarrow> ufs effect" where
  "os_Chown p uid gid u = (case follow_link u p of
      None \<Rightarrow> (Some ErrIO, u)
    | Some q \<Rightarrow>
        (case Lstat u q of
           None \<Rightarrow> (Some ErrIO, u)
         | Some n \<Rightarrow>
             if q \<in> set (uf_refuse u) then (Some ErrIO, u)
             else (None, set_node q (n\<lparr>fn_uid := new_owner uid (fn_uid n), fn_gid := new_owner gid (fn_gid n)\<rparr>) u)))"

text \<open>\<open>below r p\<close>: the walk from \<open>r\<close> meets \<open>p\<close>.\<close>

definition below :: "string \<Rightarrow> string \<Rightarrow> bool" where
  "below r p = (rooted p = rooted r \<and> take (length (comps r)) (comps p) = comps r)"

definition parent :: "string \<Rightarrow> string" where
  "parent p = path_of (rooted p) (butlast (comps p))"

text \<open>A directory can be removed only when it is empty. A link is removed, not followed.\<close>

definition os_Remove :: "string \<Rightarrow> ufs effect" where
  "os_Remove p u = (case Lstat u p of
      None \<Rightarrow> (Some ErrIO, u)
    | Some n \<Rightarrow>
        if p \<in> set (uf_refuse u) \<or> fn_kind n = Dir \<and> (\<exists>q\<in>set (map fst (uf_nodes u)). q \<noteq> p \<and> below p q)
        then (Some ErrIO, u)
        else (None, u\<lparr>uf_nodes := filter (\<lambda>e. fst e \<noteq> p) (uf_nodes u)\<rparr>))"

text \<open>\<open>os.OpenFile\<close> with \<open>O_CREATE|O_TRUNC\<close>: the path that was opened. A new file belongs to root.\<close>

definition os_Create :: "string \<Rightarrow> ufs \<Rightarrow> string option \<times> ufs" where
  "os_Create p u = (case follow_link u p of
      None \<Rightarrow> (None, u)
    | Some q \<Rightarrow>
        if q \<in> set (uf_refuse u) then (None, u)
        else (case Lstat u q of
           Some n \<Rightarrow> if fn_kind n = Dir then (None, u) else (Some q, set_node q (n\<lparr>fn_data := []\<rparr>) u)
         | None \<Rightarrow>
             (case Lstat u (parent q) of
                Some d \<Rightarrow> if fn_kind d = Dir
                  then (Some q, set_node q \<lparr>fn_kind = Regular, fn_uid = 0, fn_gid = 0, fn_data = []\<rparr> u)
                  else (None, u)
              | None \<Rightarrow> (None, u))))"

text \<open>
  The lines a \<open>bufio.Scanner\<close> returns: a carriage return before the line end is dropped, and the scan
  ends, without an error the callers look at, before a line that does not fit the buffer of 64 KiB.
\<close>

definition newline :: char where "newline = CHR 0x0A"

definition drop_cr :: "string \<Rightarrow> string" where
  "drop_cr l = (if l \<noteq> [] \<and> last l = CHR 0x0D then butlast l else l)"

definition raw_lines :: "string \<Rightarrow> string list" where
  "raw_lines s = (let ls = Split s newline in if last ls = [] then butlast ls else ls)"

definition Scan_lines :: "string \<Rightarrow> string list" where
  "Scan_lines s = map drop_cr (takeWhile (\<lambda>l. int (length l) < 65536) (raw_lines s))"

definition node_lines :: "fnode \<Rightarrow> string list" where
  "node_lines n = (if fn_kind n = Dir then [] else Scan_lines (fn_data n))"

definition and_then :: "err option \<times> 's \<Rightarrow> 's effect \<Rightarrow> err option \<times> 's" where
  "and_then r f = (case fst r of None \<Rightarrow> f (snd r) | Some e \<Rightarrow> r)"

text \<open>
  \<open>filepath.Walk\<close>: the root, then what is below it in the order of the path components. A root that
  is not there is reported with an error and no file information.
\<close>

definition Walk :: "ufs \<Rightarrow> string \<Rightarrow> (string \<times> fnode) list option" where
  "Walk u r = (case Lstat u r of
      None \<Rightarrow> None
    | Some n \<Rightarrow> Some (if fn_kind n = Dir
        then sort_key (\<lambda>e. comps (fst e)) (filter (\<lambda>e. below r (fst e)) (uf_nodes u))
        else [(r, n)]))"

section \<open>Copying\<close>

definition CopyUIDGID :: "string \<Rightarrow> string \<Rightarrow> ufs effect" where
  "CopyUIDGID src dst u = (case Stat u src of
      None \<Rightarrow> (Some ErrIO, u)
    | Some n \<Rightarrow> os_Chown dst (fn_uid n) (fn_gid n) u)"

text \<open>The destination is emptied before the source is read.\<close>

definition CopyFile :: "string \<Rightarrow> string \<Rightarrow> ufs effect" where
  "CopyFile src dst u = (case Stat u src of
      None \<Rightarrow> (Some ErrIO, u)
    | Some _ \<Rightarrow>
        (case os_Create dst u of
           (None, u) \<Rightarrow> (Some ErrIO, u)
         | (Some q, u) \<Rightarrow>
             (case (Stat u src, Lstat u q) of
                (Some s, Some d) \<Rightarrow>
                  if fn_kind s = Dir then (Some ErrIO, u)
                  else CopyUIDGID src dst (set_node q (d\<lparr>fn_data := fn_data s\<rparr>) u)
              | _ \<Rightarrow> (Some ErrIO, u))))"

definition SafeCopyFile :: "string \<Rightarrow> string \<Rightarrow> ufs effect" where
  "SafeCopyFile src dst u = (case Stat u dst of Some _ \<Rightarrow> (None, u) | None \<Rightarrow> CopyFile src dst u)"

definition AppendLines :: "string \<Rightarrow> string list \<Rightarrow> ufs effect" where
  "AppendLines p ls u = (case follow_link u p of
      None \<Rightarrow> (Some ErrIO, u)
    | Some q \<Rightarrow>
        (case Lstat u q of
           None \<Rightarrow> (Some ErrIO, u)
         | Some n \<Rightarrow>
             if fn_kind n = Dir \<or> q \<in> set (uf_refuse u) then (Some ErrIO, u)
             else (None, set_node q (n\<lparr>fn_data := fn_data n @ concat (map (\<lambda>l. l @ [newline]) ls)\<rparr>) u)))"

lemma Lstat_set_node: "Lstat (set_node p n u) q = (if q = p then Some n else Lstat u q)"
  by (simp add: Lstat_def set_node_def map_of_al_update)

lemma refuse_set_node [simp]: "uf_refuse (set_node p n u) = uf_refuse u"
  by (simp add: set_node_def)

lemma and_then_None: "and_then r f = (None, v) \<longleftrightarrow> (\<exists>u. r = (None, u) \<and> f u = (None, v))"
  by (cases r) (auto simp: and_then_def split: option.splits)

lemma map_of_filter_keys: "map_of (filter (\<lambda>e. P (fst e)) xs) p = (if P p then map_of xs p else None)"
  by (induction xs) auto

lemma Remove_Lstat:
  "Lstat (snd (os_Remove p u)) q = (if q = p \<and> fst (os_Remove p u) = None then None else Lstat u q)"
  by (auto simp: os_Remove_def Lstat_def map_of_filter_keys [of "\<lambda>x. x \<noteq> p"] split: option.splits)

end
