(* ===== verification/Image_Syncuser.thy ===== *)
theory Image_Syncuser
  imports Go_Files "HOL-Library.Multiset"
begin

text \<open>
  Synchronising the users and groups of an image with those of the host (\<open>image/syncuser.go\<close>). A
  \<open>syncDB\<close> is an association list; \<open>rng\<close> is the order in which a \<open>range\<close> loop visits it, which Go
  leaves open: the theorems hold for every permutation.
\<close>

section \<open>The state of a name\<close>

record syncInfo =
  si_HostID :: int
  si_imageID :: int
  si_imageFiles :: "string list"

type_synonym syncDB = "(string \<times> syncInfo) list"

definition inHost :: "syncInfo \<Rightarrow> bool" where
  "inHost i = (si_HostID i \<noteq> -1)"

definition inimage :: "syncInfo \<Rightarrow> bool" where
  "inimage i = (si_imageID i \<noteq> -1)"

definition onlyHost :: "syncInfo \<Rightarrow> bool" where
  "onlyHost i = (inHost i \<and> \<not> inimage i)"

definition onlyimage :: "syncInfo \<Rightarrow> bool" where
  "onlyimage i = (inimage i \<and> \<not> inHost i)"

definition match :: "syncInfo \<Rightarrow> bool" where
  "match i = (inimage i \<and> inHost i \<and> si_HostID i = si_imageID i)"

definition differ :: "syncInfo \<Rightarrow> bool" where
  "differ i = (inimage i \<and> inHost i \<and> si_HostID i \<noteq> si_imageID i)"

fun info_chownFiles :: "bool \<Rightarrow> int \<Rightarrow> string list \<Rightarrow> ufs effect" where
  "info_chownFiles byGid hostid [] u = (None, u)"
| "info_chownFiles byGid hostid (p # ps) u = (case Stat u p of
      None \<Rightarrow> (Some ErrIO, u)
    | Some n \<Rightarrow>
        and_then
          (if fn_kind n = Dir \<or> fn_kind n = Regular
           then os_Chown p (if byGid then -1 else hostid) (if byGid then hostid else -1) u
           else (None, u))
          (info_chownFiles byGid hostid ps))"

section \<open>Reading the tables\<close>

text \<open>The name and the id of a line, when the line is used at all.\<close>

definition line_entry :: "string \<Rightarrow> (string \<times> int) option" where
  "line_entry line = (let fs = Split line CHR '':''; name = fs ! 0 in
     if length fs \<noteq> 7 \<and> length fs \<noteq> 4 then None
     else if name = [] then None
     else if HasPrefix name ''+'' \<or> HasPrefix name ''-'' then None
     else (case Atoi (fs ! 2) of (i, None) \<Rightarrow> Some (name, i) | (_, Some _) \<Rightarrow> None))"

definition db_entry :: "syncDB \<Rightarrow> string \<Rightarrow> syncInfo" where
  "db_entry db n = (case map_of db n of
      Some i \<Rightarrow> i
    | None \<Rightarrow> \<lparr>si_HostID = -1, si_imageID = -1, si_imageFiles = []\<rparr>)"

definition read_line :: "bool \<Rightarrow> syncDB \<Rightarrow> string \<Rightarrow> syncDB" where
  "read_line fromimage db line = (case line_entry line of
      None \<Rightarrow> db
    | Some (name, i) \<Rightarrow>
        let entry = db_entry db name in
        if fromimage then
          (if si_imageID entry = -1 then al_update name (entry\<lparr>si_imageID := i\<rparr>) db
           else if si_imageID entry \<noteq> i then db
           else al_update name entry db)
        else
          (if si_HostID entry = -1 then al_update name (entry\<lparr>si_HostID := i\<rparr>) db
           else if si_HostID entry \<noteq> i then db
           else al_update name entry db))"

definition syncDB_read :: "ufs \<Rightarrow> string \<Rightarrow> bool \<Rightarrow> syncDB \<Rightarrow> syncDB result" where
  "syncDB_read u p fromimage db = (case Stat u p of
      None \<Rightarrow> Inl ErrIO
    | Some n \<Rightarrow> Inr (foldl (read_line fromimage) db (node_lines n)))"

definition readFromHost :: "ufs \<Rightarrow> string \<Rightarrow> syncDB \<Rightarrow> syncDB result" where
  "readFromHost u p db = syncDB_read u p False db"

definition readFromimage :: "ufs \<Rightarrow> string \<Rightarrow> syncDB \<Rightarrow> syncDB result" where
  "readFromimage u p db = syncDB_read u p True db"

text \<open>The first conflict the loops find, in the order in which they visit the names.\<close>

definition conflicts :: "syncDB \<Rightarrow> (string \<times> string \<times> int) list" where
  "conflicts db = concat (map (\<lambda>c.
       map (\<lambda>h. (fst h, fst c, si_imageID (snd c))) (filter (\<lambda>h. si_HostID (snd h) = si_imageID (snd c)) db))
     (filter (\<lambda>c. \<not> (\<not> inimage (snd c) \<or> inHost (snd c))) db))"

definition checkConflicts :: "(syncDB \<Rightarrow> syncDB) \<Rightarrow> syncDB \<Rightarrow> err option" where
  "checkConflicts rng db = (case conflicts (rng db) of
      [] \<Rightarrow> None
    | (h, c, i) # _ \<Rightarrow> Some (ErrMsg (''id('' @ Itoa i @ '') collision: host('' @ h @ '') image('' @ c @ '')'')))"

section \<open>Files of a name\<close>

text \<open>\<open>syncIDs\<close>: where several names claim an id, the one visited last has it.\<close>

definition syncIDs :: "(syncDB \<Rightarrow> syncDB) \<Rightarrow> syncDB \<Rightarrow> int \<Rightarrow> string option" where
  "syncIDs rng db i =
     (case filter (\<lambda>e. inHost (snd e) \<and> inimage (snd e) \<and> \<not> match (snd e) \<and> si_imageID (snd e) = i) (rng db) of
        [] \<Rightarrow> None
      | es \<Rightarrow> Some (fst (last es)))"

definition record_file :: "bool \<Rightarrow> (int \<Rightarrow> string option) \<Rightarrow> syncDB \<Rightarrow> string \<times> fnode \<Rightarrow> syncDB" where
  "record_file byGid ids db e =
     (case ids (if byGid then fn_gid (snd e) else fn_uid (snd e)) of
        Some name \<Rightarrow>
          let info = db_entry db name
          in al_update name (info\<lparr>si_imageFiles := si_imageFiles info @ [fst e]\<rparr>) db
      | None \<Rightarrow> db)"

definition findFiles :: "(syncDB \<Rightarrow> syncDB) \<Rightarrow> ufs \<Rightarrow> string \<Rightarrow> bool \<Rightarrow> syncDB \<Rightarrow> syncDB result" where
  "findFiles rng u r byGid db = (case Walk u r of
      None \<Rightarrow> Inl ErrPanic
    | Some es \<Rightarrow> Inr (foldl (record_file byGid (syncIDs rng db)) db es))"

definition findUserFiles :: "(syncDB \<Rightarrow> syncDB) \<Rightarrow> ufs \<Rightarrow> string \<Rightarrow> syncDB \<Rightarrow> syncDB result" where
  "findUserFiles rng u r db = findFiles rng u r False db"

definition findGroupFiles :: "(syncDB \<Rightarrow> syncDB) \<Rightarrow> ufs \<Rightarrow> string \<Rightarrow> syncDB \<Rightarrow> syncDB result" where
  "findGroupFiles rng u r db = findFiles rng u r True db"

fun chown_names :: "bool \<Rightarrow> syncDB \<Rightarrow> ufs effect" where
  "chown_names byGid [] u = (None, u)"
| "chown_names byGid (e # es) u =
     and_then (info_chownFiles byGid (si_HostID (snd e)) (si_imageFiles (snd e)) u) (chown_names byGid es)"

definition db_chownFiles :: "(syncDB \<Rightarrow> syncDB) \<Rightarrow> bool \<Rightarrow> syncDB \<Rightarrow> ufs effect" where
  "db_chownFiles rng byGid db = chown_names byGid (rng db)"

definition chownUserFiles :: "(syncDB \<Rightarrow> syncDB) \<Rightarrow> syncDB \<Rightarrow> ufs effect" where
  "chownUserFiles rng db = db_chownFiles rng False db"

definition chownGroupFiles :: "(syncDB \<Rightarrow> syncDB) \<Rightarrow> syncDB \<Rightarrow> ufs effect" where
  "chownGroupFiles rng db = db_chownFiles rng True db"

section \<open>Updating the tables\<close>

definition getOnlyimageLines :: "syncDB \<Rightarrow> ufs \<Rightarrow> string \<Rightarrow> string list result" where
  "getOnlyimageLines db u p = (case Stat u p of
      None \<Rightarrow> Inl ErrIO
    | Some n \<Rightarrow> Inr (filter (\<lambda>l. case map_of db (Split l CHR '':'' ! 0) of
          Some i \<Rightarrow> onlyimage i | None \<Rightarrow> False) (node_lines n)))"

definition syncDB_update :: "syncDB \<Rightarrow> string \<Rightarrow> string \<Rightarrow> ufs effect" where
  "syncDB_update db imagePath hostPath u = (case getOnlyimageLines db u imagePath of
      Inl e \<Rightarrow> (Some e, u)
    | Inr ls \<Rightarrow>
        and_then (and_then (os_Remove imagePath u) (CopyFile hostPath imagePath)) (AppendLines imagePath ls))"

definition needsSync :: "syncDB \<Rightarrow> bool" where
  "needsSync db = list_ex (\<lambda>e. onlyHost (snd e) \<or> differ (snd e)) db"

text \<open>The steps \<open>Syncuser\<close> takes for each of the two tables before it touches anything.\<close>

definition sync_load :: "(syncDB \<Rightarrow> syncDB) \<Rightarrow> ufs \<Rightarrow> string \<Rightarrow> string \<Rightarrow> syncDB result" where
  "sync_load rng u hostPath imagePath = (case readFromHost u hostPath [] of
      Inl e \<Rightarrow> Inl e
    | Inr db \<Rightarrow>
        (case readFromimage u imagePath db of
           Inl e \<Rightarrow> Inl e
         | Inr db \<Rightarrow> (case checkConflicts rng db of Some e \<Rightarrow> Inl e | None \<Rightarrow> Inr db)))"

definition Syncuser :: "(syncDB \<Rightarrow> syncDB) \<Rightarrow> string \<Rightarrow> string \<Rightarrow> string \<Rightarrow> bool \<Rightarrow> ufs effect" where
  "Syncuser rng sysconfdir chrootdir imageName wr u =
     (let imagePath = RootFsDir chrootdir imageName;
          imagePasswd = path_Join [imagePath, ''/etc/passwd''];
          imageGroup = path_Join [imagePath, ''/etc/group'']
      in case sync_load rng u (path_Join [sysconfdir, ''passwd'']) imagePasswd of
           Inl e \<Rightarrow> (Some e, u)
         | Inr pdb \<Rightarrow>
             (case sync_load rng u (path_Join [sysconfdir, ''group'']) imageGroup of
                Inl e \<Rightarrow> (Some e, u)
              | Inr gdb \<Rightarrow>
                  (case findUserFiles rng u imagePath pdb of
                     Inl e \<Rightarrow> (Some e, u)
                   | Inr pdb \<Rightarrow>
                       (case findGroupFiles rng u imagePath gdb of
                          Inl e \<Rightarrow> (Some e, u)
                        | Inr gdb \<Rightarrow>
                            if wr then
                              and_then (and_then (and_then (chownUserFiles rng pdb u) (chownGroupFiles rng gdb))
                                (syncDB_update pdb imagePasswd ''/etc/passwd''))
                                (syncDB_update gdb imageGroup ''/etc/group'')
                            else (None, u)))))"

section \<open>What a table says\<close>

text \<open>
  The id a table of lines gives a name: the first one that is not \<open>-1\<close>, which stands for a name
  without an id.
\<close>

definition line_ids :: "string list \<Rightarrow> string \<Rightarrow> int list" where
  "line_ids ls n = map snd (filter (\<lambda>e. fst e = n \<and> snd e \<noteq> -1) (List.map_filter line_entry ls))"

definition first_id :: "string list \<Rightarrow> string \<Rightarrow> int" where
  "first_id ls n = (case line_ids ls n of [] \<Rightarrow> -1 | i # _ \<Rightarrow> i)"

definition table_id :: "ufs \<Rightarrow> string \<Rightarrow> string \<Rightarrow> int" where
  "table_id u p n = (case Stat u p of None \<Rightarrow> -1 | Some f \<Rightarrow> first_id (node_lines f) n)"

abbreviation host_id :: "syncDB \<Rightarrow> string \<Rightarrow> int" where
  "host_id db n \<equiv> si_HostID (db_entry db n)"

abbreviation image_id :: "syncDB \<Rightarrow> string \<Rightarrow> int" where
  "image_id db n \<equiv> si_imageID (db_entry db n)"

lemma line_ids_append: "line_ids (as @ bs) n = line_ids as n @ line_ids bs n"
  by (simp add: line_ids_def List.map_filter_def)

lemma first_id_append:
  "first_id (as @ bs) n = (if first_id as n \<noteq> -1 then first_id as n else first_id bs n)"
proof (cases "line_ids as n")
  case (Cons i js)
  then have "i \<noteq> -1"
    by (auto simp: line_ids_def map_eq_Cons_conv filter_eq_Cons_iff)
  with Cons show ?thesis by (simp add: first_id_def line_ids_append)
qed (simp add: first_id_def line_ids_append)

lemma first_id_Nil [simp]: "first_id [] n = -1"
  by (simp add: first_id_def line_ids_def List.map_filter_def)

lemma first_id_single:
  "first_id [l] n = (case line_entry l of Some (m, i) \<Rightarrow> if m = n then i else -1 | None \<Rightarrow> -1)"
  by (auto simp: first_id_def line_ids_def List.map_filter_def split: option.splits prod.splits)

lemma db_entry_update: "db_entry (al_update n i db) m = (if m = n then i else db_entry db m)"
  by (simp add: db_entry_def map_of_al_update)

lemma read_line_entry:
  "db_entry (read_line fromimage db l) n =
     (let e = db_entry db n; i = first_id [l] n
      in if fromimage then e\<lparr>si_imageID := if si_imageID e = -1 then i else si_imageID e\<rparr>
         else e\<lparr>si_HostID := if si_HostID e = -1 then i else si_HostID e\<rparr>)"
  by (cases "line_entry l")
     (auto simp: read_line_def first_id_single db_entry_update Let_def split: prod.splits)

lemma read_lines_entry:
  "db_entry (foldl (read_line fromimage) db ls) n =
     (let e = db_entry db n; i = first_id ls n
      in if fromimage then e\<lparr>si_imageID := if si_imageID e = -1 then i else si_imageID e\<rparr>
         else e\<lparr>si_HostID := if si_HostID e = -1 then i else si_HostID e\<rparr>)"
proof (induction ls arbitrary: db)
  case (Cons l ls)
  show ?case
    using first_id_append [of "[l]" ls n] by (simp add: Cons.IH read_line_entry Let_def)
qed (simp add: Let_def)

lemma keys_read_line:
  "distinct (map fst db) \<Longrightarrow> distinct (map fst (read_line fromimage db l))"
  by (auto simp: read_line_def Let_def distinct_al_update split: option.splits prod.splits)

lemma keys_read_lines:
  "distinct (map fst db) \<Longrightarrow> distinct (map fst (foldl (read_line fromimage) db ls))"
  by (induction ls arbitrary: db) (simp_all add: keys_read_line)

text \<open>What \<open>sync_load\<close> returns: the ids of both tables, without a conflict.\<close>

lemma db_entry_mem:
  "(n, i) \<in> set db \<Longrightarrow> distinct (map fst db) \<Longrightarrow> db_entry db n = i"
  by (simp add: db_entry_def)

lemma entry_in_db: "host_id db n \<noteq> -1 \<or> image_id db n \<noteq> -1 \<Longrightarrow> (n, db_entry db n) \<in> set db"
  by (auto simp: db_entry_def dest: map_of_SomeD split: option.splits)

definition order_ok :: "(syncDB \<Rightarrow> syncDB) \<Rightarrow> bool" where
  "order_ok rng = (\<forall>db. mset (rng db) = mset db)"

lemma order_ok_set: "order_ok rng \<Longrightarrow> set (rng db) = set db"
  using mset_eq_setD by (auto simp: order_ok_def)

lemma conflicts_Nil:
  "conflicts db = [] \<longleftrightarrow>
    (\<forall>c\<in>set db. onlyimage (snd c) \<longrightarrow> (\<forall>h\<in>set db. si_HostID (snd h) \<noteq> si_imageID (snd c)))"
  unfolding conflicts_def concat_eq_Nil_conv onlyimage_def by (simp add: filter_empty_conv) force

lemma checkConflicts_None:
  assumes "order_ok rng"
  shows "checkConflicts rng db = None \<longleftrightarrow>
    (\<forall>c\<in>set db. onlyimage (snd c) \<longrightarrow> (\<forall>h\<in>set db. si_HostID (snd h) \<noteq> si_imageID (snd c)))"
proof -
  have "checkConflicts rng db = None \<longleftrightarrow> conflicts (rng db) = []"
    by (auto simp: checkConflicts_def split: list.splits)
  then show ?thesis
    by (simp only: conflicts_Nil order_ok_set [OF assms])
qed

lemma sync_load_ids:
  assumes ok: "order_ok rng" and ld: "sync_load rng u hp ip = Inr db"
  shows "host_id db n = table_id u hp n" "image_id db n = table_id u ip n"
    "si_imageFiles (db_entry db n) = []" "distinct (map fst db)" "checkConflicts rng db = None"
proof -
  obtain h i where h: "Stat u hp = Some h" and i: "Stat u ip = Some i"
    and db: "db = foldl (read_line True) (foldl (read_line False) [] (node_lines h)) (node_lines i)"
    and c: "checkConflicts rng db = None"
    using ld by (auto simp: sync_load_def readFromHost_def readFromimage_def syncDB_read_def
        split: option.splits sum.splits)
  then show "host_id db n = table_id u hp n" "image_id db n = table_id u ip n"
      "si_imageFiles (db_entry db n) = []" "distinct (map fst db)" "checkConflicts rng db = None"
    by (simp_all add: read_lines_entry Let_def table_id_def keys_read_lines) (simp_all add: db_entry_def)
qed

lemma sync_load_no_conflict:
  assumes ok: "order_ok rng" and ld: "sync_load rng u hp ip = Inr db"
    and "table_id u hp n = -1" "table_id u ip n \<noteq> -1"
  shows "table_id u hp m \<noteq> table_id u ip n"
proof (cases "table_id u hp m = -1")
  case False
  note ids = sync_load_ids [OF ok ld]
  have "onlyimage (db_entry db n)"
    using assms(3,4) by (simp add: onlyimage_def inimage_def inHost_def ids)
  moreover have "(n, db_entry db n) \<in> set db" "(m, db_entry db m) \<in> set db"
    using False assms(4) by (auto intro!: entry_in_db simp: ids)
  ultimately show ?thesis
    using ids(5) unfolding checkConflicts_None [OF ok] by (fastforce simp: ids)
qed (use assms in simp)

section \<open>Lines of a file\<close>

definition table_ok :: "string \<Rightarrow> bool" where
  "table_ok s = ((s = [] \<or> last s = newline) \<and> list_all (\<lambda>l. int (length l) < 65536) (raw_lines s))"

lemma Split_newline_two: "Split (s @ [newline]) newline \<noteq> [x]"
  by (induction s arbitrary: x) (auto split: list.splits)

lemma Split_newline_append: "Split (s @ [newline] @ t) newline = butlast (Split (s @ [newline]) newline) @ Split t newline"
proof (induction s)
  case (Cons c s)
  then show ?case using Split_newline_two [of s] by (auto split: list.splits)
qed simp

lemma Split_newline_last: "last (Split (s @ [newline]) newline) = []"
  by (induction s) (use Split_newline_two in \<open>auto split: list.splits\<close>)

lemma raw_lines_append:
  assumes "s = [] \<or> last s = newline"
  shows "raw_lines (s @ t) = raw_lines s @ raw_lines t"
proof (cases "s = []")
  case False
  then obtain r where r: "s = r @ [newline]"
    using assms append_butlast_last_id by metis
  show ?thesis
    using Split_newline_append [of r t] by (simp add: r raw_lines_def Let_def Split_newline_last butlast_append)
qed (simp add: raw_lines_def)

lemma raw_lines_no_newline: "l \<in> set (raw_lines s) \<Longrightarrow> newline \<notin> set l"
  by (auto simp: raw_lines_def Let_def split: if_splits dest!: in_set_butlastD intro: Split_parts_no_sep [THEN notE])

lemma raw_lines_written:
  "\<forall>l\<in>set ls. newline \<notin> set l \<Longrightarrow> raw_lines (concat (map (\<lambda>l. l @ [newline]) ls)) = ls"
proof (induction ls)
  case (Cons l ls)
  then have "raw_lines (l @ [newline]) = [l]"
    by (simp add: raw_lines_def Split_append)
  with Cons show ?case
    using raw_lines_append [of "l @ [newline]" "concat (map (\<lambda>l. l @ [newline]) ls)"] by simp
qed (simp add: raw_lines_def)

lemma Split_chars: "l \<in> set (Split s c) \<Longrightarrow> set l \<subseteq> set s"
  by (induction s arbitrary: l) (fastforce split: if_splits list.splits)+

lemma raw_lines_chars: "l \<in> set (raw_lines s) \<Longrightarrow> set l \<subseteq> set s"
  by (auto simp: raw_lines_def Let_def split: if_splits dest!: in_set_butlastD dest: Split_chars)

lemma drop_cr_id: "CHR 0x0D \<notin> set l \<Longrightarrow> drop_cr l = l"
  using last_in_set by (fastforce simp: drop_cr_def)

lemma Scan_lines_line:
  assumes "l \<in> set (Scan_lines s)" "CHR 0x0D \<notin> set s"
  shows "newline \<notin> set l \<and> int (length l) < 65536 \<and> CHR 0x0D \<notin> set l"
proof -
  obtain r where r: "r \<in> set (raw_lines s)" "int (length r) < 65536" "l = drop_cr r"
    using assms(1) by (auto simp: Scan_lines_def dest: set_takeWhileD)
  have "CHR 0x0D \<notin> set r"
    using raw_lines_chars [OF r(1)] assms(2) by blast
  with r show ?thesis
    using raw_lines_no_newline [OF r(1)] by (simp add: drop_cr_id)
qed

text \<open>Lines appended to a table that ends with a line end are read back after those of the table.\<close>

lemma Scan_lines_appended:
  assumes "table_ok s" and ls: "\<forall>l\<in>set ls. newline \<notin> set l \<and> int (length l) < 65536 \<and> CHR 0x0D \<notin> set l"
  shows "Scan_lines (s @ concat (map (\<lambda>l. l @ [newline]) ls)) = Scan_lines s @ ls"
proof -
  have raw: "raw_lines (s @ concat (map (\<lambda>l. l @ [newline]) ls)) = raw_lines s @ ls"
    using assms raw_lines_append [of s] raw_lines_written [of ls] by (simp add: table_ok_def)
  have "takeWhile (\<lambda>l. int (length l) < 65536) (raw_lines s @ ls) = raw_lines s @ ls"
      "takeWhile (\<lambda>l. int (length l) < 65536) (raw_lines s) = raw_lines s" "map drop_cr ls = ls"
    using assms by (auto simp: drop_cr_id map_idI takeWhile_eq_all_conv table_ok_def list_all_iff)
  then show ?thesis
    unfolding Scan_lines_def raw by (simp only: map_append)
qed

lemma line_entry_name: "line_entry l = Some (m, i) \<Longrightarrow> Split l CHR '':'' ! 0 = m"
  by (auto simp: line_entry_def Let_def split: if_splits prod.splits option.splits)

lemma line_ids_filter:
  "line_ids (filter (\<lambda>l. Q (Split l CHR '':'' ! 0)) ls) n = (if Q n then line_ids ls n else [])"
  by (induction ls) (auto simp: line_ids_def List.map_filter_def dest: line_entry_name)

lemma first_id_filter:
  "first_id (filter (\<lambda>l. Q (Split l CHR '':'' ! 0)) ls) n = (if Q n then first_id ls n else -1)"
  by (simp add: first_id_def line_ids_filter)

section \<open>What changing owners leaves alone\<close>

definition same_files :: "ufs \<Rightarrow> ufs \<Rightarrow> bool" where
  "same_files u v = (uf_refuse v = uf_refuse u \<and> (\<forall>p.
     map_option (\<lambda>n. (fn_kind n, fn_data n)) (Lstat v p) = map_option (\<lambda>n. (fn_kind n, fn_data n)) (Lstat u p)))"

lemma same_files_refl [simp]: "same_files u u"
  by (simp add: same_files_def)

lemma same_files_trans [trans]: "same_files u v \<Longrightarrow> same_files v w \<Longrightarrow> same_files u w"
  by (simp add: same_files_def)

lemma and_then_same:
  "same_files u (snd r) \<Longrightarrow> (\<And>v. same_files v (snd (f v))) \<Longrightarrow> same_files u (snd (and_then r f))"
  by (auto simp: and_then_def split: option.splits intro: same_files_trans)

lemma os_Chown_same: "same_files u (snd (os_Chown p i g u))"
  by (auto simp: os_Chown_def same_files_def Lstat_set_node split: option.splits)

lemma info_chownFiles_same: "same_files u (snd (info_chownFiles byGid i ps u))"
  by (induction ps arbitrary: u) (auto simp: os_Chown_same intro!: and_then_same split: option.splits)

lemma chown_names_same: "same_files u (snd (chown_names byGid es u))"
  by (induction es arbitrary: u) (auto intro!: and_then_same info_chownFiles_same)

lemma same_files_Stat:
  "same_files u v \<Longrightarrow> map_option (\<lambda>n. (fn_kind n, fn_data n)) (Stat v p) = map_option (\<lambda>n. (fn_kind n, fn_data n)) (Stat u p)"
proof -
  assume s: "same_files u v"
  then have "follow_link v p = follow_link u p"
    by (auto simp: follow_link_def same_files_def split: option.splits dest: spec [of _ p])
  with s show ?thesis
    by (auto simp: Stat_def same_files_def split: option.split)
qed

section \<open>The tables after a synchronisation\<close>

lemma record_file_ids:
  "si_HostID (db_entry (record_file byGid ids db e) n) = host_id db n \<and>
   si_imageID (db_entry (record_file byGid ids db e) n) = image_id db n"
  by (auto simp: record_file_def db_entry_update Let_def split: option.splits)

lemma record_files_ids:
  "si_HostID (db_entry (foldl (record_file byGid ids) db es) n) = host_id db n \<and>
   si_imageID (db_entry (foldl (record_file byGid ids) db es) n) = image_id db n"
  by (induction es arbitrary: db) (simp_all add: record_file_ids)

lemma findFiles_ids:
  "findFiles rng u r byGid db = Inr db' \<Longrightarrow> host_id db' n = host_id db n \<and> image_id db' n = image_id db n"
  by (auto simp: findFiles_def record_files_ids split: option.splits)

definition regular :: "ufs \<Rightarrow> string \<Rightarrow> bool" where
  "regular u p = (case Lstat u p of Some n \<Rightarrow> fn_kind n = Regular | None \<Rightarrow> False)"

definition file_contents :: "ufs \<Rightarrow> string \<Rightarrow> string" where
  "file_contents u p = (case Lstat u p of Some n \<Rightarrow> fn_data n | None \<Rightarrow> [])"

lemma regular_Stat: "regular u p \<Longrightarrow> Stat u p = Lstat u p"
  by (auto simp: regular_def Stat_def follow_link_def split: option.splits)

lemma regularE:
  assumes "regular u p"
  obtains n where "Lstat u p = Some n" "fn_kind n = Regular" "Stat u p = Some n" "follow_link u p = Some p"
  using assms by (auto simp: regular_def Stat_def follow_link_def split: option.splits)

lemma table_id_regular: "regular u p \<Longrightarrow> table_id u p n = first_id (Scan_lines (file_contents u p)) n"
  by (auto elim!: regularE simp: table_id_def file_contents_def node_lines_def)

lemma same_files_regular:
  assumes "same_files u v"
  shows "regular v p = regular u p" "file_contents v p = file_contents u p"
proof -
  have "map_option (\<lambda>n. (fn_kind n, fn_data n)) (Lstat v p) = map_option (\<lambda>n. (fn_kind n, fn_data n)) (Lstat u p)"
    using assms by (simp add: same_files_def)
  then show "regular v p = regular u p" "file_contents v p = file_contents u p"
    by (auto simp: regular_def file_contents_def split: option.splits)
qed

lemma onlyimage_lookup:
  "(case map_of db n of Some i \<Rightarrow> onlyimage i | None \<Rightarrow> False) = onlyimage (db_entry db n)"
  by (auto simp: db_entry_def onlyimage_def inimage_def split: option.splits)

definition only_lines :: "syncDB \<Rightarrow> string \<Rightarrow> string list" where
  "only_lines db s = filter (\<lambda>l. onlyimage (db_entry db (Split l CHR '':'' ! 0))) (Scan_lines s)"

lemma first_id_only_lines:
  "first_id (only_lines db s) n = (if onlyimage (db_entry db n) then first_id (Scan_lines s) n else -1)"
  unfolding only_lines_def by (rule first_id_filter)

lemma os_Remove_None:
  "os_Remove p u = (None, v) \<Longrightarrow> Lstat v q = (if q = p then None else Lstat u q)"
  using map_of_filter_neq [of p "uf_nodes u"]
  by (auto simp: os_Remove_def Lstat_def case_prod_beta' split: option.splits if_splits)

lemma CopyFile_result:
  assumes "CopyFile src dst u = (None, v)" "regular u src" "Lstat u dst = None" "src \<noteq> dst"
  shows "regular v dst \<and> file_contents v dst = file_contents u src \<and> (\<forall>q. q \<noteq> dst \<longrightarrow> Lstat v q = Lstat u q)"
proof -
  obtain s where s: "Lstat u src = Some s" "fn_kind s = Regular" "Stat u src = Some s"
    using assms(2) by (rule regularE)
  obtain w where w: "os_Create dst u = (Some dst, w)"
      "w = set_node dst \<lparr>fn_kind = Regular, fn_uid = 0, fn_gid = 0, fn_data = []\<rparr> u"
    using assms(1,3) s by (auto simp: CopyFile_def os_Create_def follow_link_def split: option.splits if_splits prod.splits)
  have l: "Lstat w q = (if q = dst then Some \<lparr>fn_kind = Regular, fn_uid = 0, fn_gid = 0, fn_data = []\<rparr> else Lstat u q)" for q
    by (simp add: w Lstat_set_node)
  have "Stat w src = Some s" using assms(4) s by (simp add: Stat_def follow_link_def l)
  then have "CopyUIDGID src dst (set_node dst \<lparr>fn_kind = Regular, fn_uid = 0, fn_gid = 0, fn_data = fn_data s\<rparr> w) = (None, v)"
    using assms(1) s w(1) by (simp add: CopyFile_def l)
  then show ?thesis
    using assms(4) s by (auto simp: CopyUIDGID_def os_Chown_def follow_link_def Lstat_set_node l regular_def file_contents_def
        split: option.splits if_splits)
qed

lemma AppendLines_result:
  assumes "AppendLines p ls u = (None, v)" "regular u p"
  shows "regular v p \<and> file_contents v p = file_contents u p @ concat (map (\<lambda>l. l @ [newline]) ls) \<and>
    (\<forall>q. q \<noteq> p \<longrightarrow> Lstat v q = Lstat u q)"
proof -
  obtain n where "Lstat u p = Some n" "fn_kind n = Regular" "follow_link u p = Some p"
    using assms(2) by (rule regularE)
  then show ?thesis
    using assms(1) by (auto simp: AppendLines_def regular_def file_contents_def Lstat_set_node split: if_splits)
qed

lemma update_result:
  assumes up: "syncDB_update db ip hp u = (None, v)" and ne: "hp \<noteq> ip"
    and reg: "regular u ip" "regular u hp"
  shows "regular v ip \<and>
    file_contents v ip = file_contents u hp @ concat (map (\<lambda>l. l @ [newline]) (only_lines db (file_contents u ip))) \<and>
    (\<forall>q. q \<noteq> ip \<longrightarrow> Lstat v q = Lstat u q)"
proof -
  have "getOnlyimageLines db u ip = Inr (only_lines db (file_contents u ip))"
    using reg(1) by (auto elim!: regularE
        simp: getOnlyimageLines_def only_lines_def file_contents_def node_lines_def onlyimage_lookup)
  then obtain a b where a: "os_Remove ip u = (None, a)" and b: "CopyFile hp ip a = (None, b)"
    and v: "AppendLines ip (only_lines db (file_contents u ip)) b = (None, v)"
    using up by (auto simp: syncDB_update_def and_then_None)
  have l: "Lstat a q = (if q = ip then None else Lstat u q)" for q
    by (rule os_Remove_None [OF a])
  then have h: "regular a hp" "file_contents a hp = file_contents u hp"
    using reg ne by (simp_all add: regular_def file_contents_def)
  have "regular b ip \<and> file_contents b ip = file_contents u hp \<and> (\<forall>q. q \<noteq> ip \<longrightarrow> Lstat b q = Lstat u q)"
    using CopyFile_result [OF b h(1)] l ne h(2) by simp
  then show ?thesis using AppendLines_result [OF v] by simp
qed

lemma updated_ids:
  assumes up: "syncDB_update db ip hp u = (None, v)" and ne: "hp \<noteq> ip"
    and reg: "regular u ip" "regular u hp"
    and ok: "table_ok (file_contents u hp)" "CHR 0x0D \<notin> set (file_contents u ip)"
    and ids: "\<And>n. host_id db n = table_id u hp n" "\<And>n. image_id db n = table_id u ip n"
  shows "table_id v ip n = (if table_id u hp n \<noteq> -1 then table_id u hp n else table_id u ip n)"
proof -
  note r = update_result [OF up ne reg]
  have "Scan_lines (file_contents v ip) = Scan_lines (file_contents u hp) @ only_lines db (file_contents u ip)"
    using r ok Scan_lines_line by (auto intro!: Scan_lines_appended simp: only_lines_def)
  then show ?thesis
    using r reg ids
    by (simp add: table_id_regular first_id_append first_id_only_lines onlyimage_def inimage_def inHost_def)
qed

text \<open>A run that wrote, step by step.\<close>

lemma Syncuser_written:
  assumes "Syncuser rng conf chroot img True u = (None, v)"
  defines "r \<equiv> RootFsDir chroot img"
  obtains pdb gdb pdb' gdb' a b c where
    "sync_load rng u (path_Join [conf, ''passwd'']) (path_Join [r, ''/etc/passwd'']) = Inr pdb"
    "sync_load rng u (path_Join [conf, ''group'']) (path_Join [r, ''/etc/group'']) = Inr gdb"
    "findFiles rng u r False pdb = Inr pdb'" "findFiles rng u r True gdb = Inr gdb'"
    "db_chownFiles rng False pdb' u = (None, a)" "db_chownFiles rng True gdb' a = (None, b)"
    "syncDB_update pdb' (path_Join [r, ''/etc/passwd'']) ''/etc/passwd'' b = (None, c)"
    "syncDB_update gdb' (path_Join [r, ''/etc/group'']) ''/etc/group'' c = (None, v)"
  using assms unfolding Syncuser_def Let_def
  by (auto simp: and_then_None findUserFiles_def findGroupFiles_def chownUserFiles_def chownGroupFiles_def
      split: sum.splits)

text \<open>
  The files a synchronisation works on: four regular files at different paths, those of the host
  complete, those of the image without carriage returns.
\<close>

definition tables_ok :: "ufs \<Rightarrow> string \<Rightarrow> bool" where
  "tables_ok u r = (let ps = [path_Join [r, ''/etc/passwd''], path_Join [r, ''/etc/group''], ''/etc/passwd'', ''/etc/group'']
     in distinct ps \<and> list_all (regular u) ps \<and>
        table_ok (file_contents u ''/etc/passwd'') \<and> table_ok (file_contents u ''/etc/group'') \<and>
        CHR 0x0D \<notin> set (file_contents u (path_Join [r, ''/etc/passwd''])) \<and>
        CHR 0x0D \<notin> set (file_contents u (path_Join [r, ''/etc/group''])))"

lemma same_files_table_id: "same_files u v \<Longrightarrow> table_id v p n = table_id u p n"
  using same_files_Stat [of u v p] by (auto simp: table_id_def node_lines_def split: option.splits)

lemma etc_paths: "path_Join [''/etc'', ''passwd''] = ''/etc/passwd''" "path_Join [''/etc'', ''group''] = ''/etc/group''"
  by code_simp+

lemma Syncuser_tables:
  assumes run: "Syncuser rng ''/etc'' chroot img True u = (None, v)" and ok: "order_ok rng"
    and tabs: "tables_ok u (RootFsDir chroot img)"
    and tab: "t = ''passwd'' \<or> t = ''group''"
  defines "ip \<equiv> path_Join [RootFsDir chroot img, ''/etc/'' @ t]" and "hp \<equiv> ''/etc/'' @ t"
  shows "regular v hp" "regular v ip" "table_id v hp n = table_id u hp n"
    "table_id v ip n = (if table_id u hp n \<noteq> -1 then table_id u hp n else table_id u ip n)"
    "table_id u hp n = -1 \<Longrightarrow> table_id u ip n \<noteq> -1 \<Longrightarrow> table_id u hp m \<noteq> table_id u ip n"
proof -
  let ?r = "RootFsDir chroot img"
  let ?pp = "path_Join [?r, ''/etc/passwd'']" and ?pg = "path_Join [?r, ''/etc/group'']"
  from run obtain pdb gdb pdb' gdb' a b c where
    ld: "sync_load rng u ''/etc/passwd'' ?pp = Inr pdb" "sync_load rng u ''/etc/group'' ?pg = Inr gdb" and
    ff: "findFiles rng u ?r False pdb = Inr pdb'" "findFiles rng u ?r True gdb = Inr gdb'" and
    ch: "db_chownFiles rng False pdb' u = (None, a)" "db_chownFiles rng True gdb' a = (None, b)" and
    up: "syncDB_update pdb' ?pp ''/etc/passwd'' b = (None, c)" "syncDB_update gdb' ?pg ''/etc/group'' c = (None, v)"
    by (rule Syncuser_written) (simp add: etc_paths)
  have "same_files u a" "same_files a b"
    using chown_names_same [of u False "rng pdb'"] chown_names_same [of a True "rng gdb'"] ch
    by (simp_all add: db_chownFiles_def)
  then have ub: "same_files u b" by (rule same_files_trans)
  note keep = same_files_regular [OF ub] same_files_table_id [OF ub]
  have p: "distinct [?pp, ?pg, ''/etc/passwd'', ''/etc/group'']" and reg: "regular u ?pp" "regular u ?pg"
      "regular u ''/etc/passwd''" "regular u ''/etc/group''"
    and oks: "table_ok (file_contents u ''/etc/passwd'')" "table_ok (file_contents u ''/etc/group'')"
      "CHR 0x0D \<notin> set (file_contents u ?pp)" "CHR 0x0D \<notin> set (file_contents u ?pg)"
    using tabs by (simp_all add: tables_ok_def Let_def)
  have r1: "regular c ?pp \<and> (\<forall>q. q \<noteq> ?pp \<longrightarrow> Lstat c q = Lstat b q)"
    using update_result [OF up(1)] p reg keep by auto
  then have c: "q \<noteq> ?pp \<Longrightarrow> regular c q = regular u q" "q \<noteq> ?pp \<Longrightarrow> file_contents c q = file_contents u q" for q
    using keep by (simp_all add: regular_def file_contents_def)
  have ct: "q \<noteq> ?pp \<Longrightarrow> regular u q \<Longrightarrow> table_id c q n = table_id u q n" for q n
    using c by (simp add: table_id_regular)
  have r2: "regular v ?pg \<and> (\<forall>q. q \<noteq> ?pg \<longrightarrow> Lstat v q = Lstat c q)"
    using update_result [OF up(2)] p reg c by auto
  then have v: "q \<noteq> ?pg \<Longrightarrow> regular v q = regular c q" "q \<noteq> ?pg \<Longrightarrow> file_contents v q = file_contents c q" for q
    by (simp_all add: regular_def file_contents_def)
  have vt: "q \<noteq> ?pg \<Longrightarrow> regular c q \<Longrightarrow> table_id v q n = table_id c q n" for q n
    using v by (simp add: table_id_regular)
  show "regular v hp" "regular v ip"
    using tab p reg r1 r2 v c by (auto simp: hp_def ip_def)
  show "table_id v hp n = table_id u hp n"
    using tab p reg ct vt c by (auto simp: hp_def)
  show "table_id v ip n = (if table_id u hp n \<noteq> -1 then table_id u hp n else table_id u ip n)"
    using tab
  proof
    assume t: "t = ''passwd''"
    have "table_id c ?pp n = (if table_id u ''/etc/passwd'' n \<noteq> -1 then table_id u ''/etc/passwd'' n else table_id u ?pp n)"
      using updated_ids [OF up(1)] p reg oks keep sync_load_ids [OF ok ld(1)] findFiles_ids [OF ff(1)] by auto
    then show ?thesis using p r1 vt by (simp add: t ip_def hp_def)
  next
    assume t: "t = ''group''"
    show ?thesis
      using updated_ids [OF up(2)] p reg oks c ct sync_load_ids [OF ok ld(2)] findFiles_ids [OF ff(2)]
      by (auto simp: t ip_def hp_def)
  qed
  show "table_id u hp n = -1 \<Longrightarrow> table_id u ip n \<noteq> -1 \<Longrightarrow> table_id u hp m \<noteq> table_id u ip n"
    using tab sync_load_no_conflict [OF ok ld(1)] sync_load_no_conflict [OF ok ld(2)] by (auto simp: ip_def hp_def)
qed

lemma sync_load_total:
  assumes ok: "order_ok rng" and reg: "regular u hp" "regular u ip"
    and nc: "\<And>n m. table_id u hp n = -1 \<Longrightarrow> table_id u ip n \<noteq> -1 \<Longrightarrow> table_id u hp m \<noteq> table_id u ip n"
  obtains db where "sync_load rng u hp ip = Inr db"
proof -
  obtain h i where hi: "Stat u hp = Some h" "Stat u ip = Some i"
    using reg by (auto elim!: regularE)
  let ?db = "foldl (read_line True) (foldl (read_line False) [] (node_lines h)) (node_lines i)"
  have d: "distinct (map fst ?db)" by (simp add: keys_read_lines)
  have e: "host_id ?db n = table_id u hp n" "image_id ?db n = table_id u ip n" for n
    by (simp_all add: read_lines_entry Let_def table_id_def hi) (simp_all add: db_entry_def)
  have "checkConflicts rng ?db = None"
    unfolding checkConflicts_None [OF ok]
  proof clarsimp
    fix n c m h
    assume c: "(n, c) \<in> set ?db" "onlyimage c" and h: "(m, h) \<in> set ?db" "si_HostID h = si_imageID c"
    have "si_HostID c = table_id u hp n" "si_imageID c = table_id u ip n" "si_HostID h = table_id u hp m"
      using db_entry_mem [OF c(1) d] db_entry_mem [OF h(1) d] e(1)[of n] e(2)[of n] e(1)[of m] by simp_all
    then show False
      using nc [of n m] c(2) h(2) by (simp add: onlyimage_def inimage_def inHost_def)
  qed
  then have "sync_load rng u hp ip = Inr ?db"
    by (simp add: sync_load_def readFromHost_def readFromimage_def syncDB_read_def hi)
  then show ?thesis by (rule that)
qed

text \<open>
  (C24) After a run of \<open>Syncuser\<close> that wrote, each of the two tables of the image gives every name the
  id it has on the host and every name only the image knows the id it had there; such an id is the id
  of no name of the host; and a further synchronisation finds nothing to do. This holds for every
  order in which the map of names is visited, where the configuration directory is \<open>/etc\<close>.
\<close>

theorem Syncuser_synced:
  assumes "Syncuser rng ''/etc'' chroot img True u = (None, v)" and "order_ok rng"
    and "tables_ok u (RootFsDir chroot img)"
    and "t = ''passwd'' \<or> t = ''group''"
  defines "ip \<equiv> path_Join [RootFsDir chroot img, ''/etc/'' @ t]" and "hp \<equiv> ''/etc/'' @ t"
  shows "(\<forall>n. table_id v ip n = (if table_id u hp n \<noteq> -1 then table_id u hp n else table_id u ip n)) \<and>
    (\<forall>n m. table_id v hp n = -1 \<and> table_id v ip n \<noteq> -1 \<longrightarrow> table_id v hp m \<noteq> table_id v ip n) \<and>
    (\<exists>db. sync_load rng v hp ip = Inr db \<and> \<not> needsSync db)"
proof -
  note t = Syncuser_tables [OF assms(1-4), folded ip_def hp_def]
  have nc: "table_id v hp n = -1 \<Longrightarrow> table_id v ip n \<noteq> -1 \<Longrightarrow> table_id v hp m \<noteq> table_id v ip n" for n m
    using t by auto
  obtain db where db: "sync_load rng v hp ip = Inr db"
    using sync_load_total [OF assms(2) t(1,2) nc] by blast
  note ids = sync_load_ids [OF assms(2) db]
  have "\<not> needsSync db"
  proof -
    have "\<not> onlyHost i \<and> \<not> differ i" if "(n, i) \<in> set db" for n i
      using t(3,4) ids(1,2)[of n] db_entry_mem [OF that ids(4)]
      by (auto simp: onlyHost_def differ_def inHost_def inimage_def)
    then show ?thesis by (auto simp: needsSync_def list_ex_iff)
  qed
  with db nc t(4) show ?thesis by blast
qed

definition sample_ufs :: ufs where
  "sample_ufs = \<lparr>uf_nodes = [
      (''/etc'', \<lparr>fn_kind = Dir, fn_uid = 0, fn_gid = 0, fn_data = []\<rparr>),
      (''/etc/passwd'', \<lparr>fn_kind = Regular, fn_uid = 0, fn_gid = 0,
          fn_data = ''munge:x:5:5::/:/x'' @ [newline]\<rparr>),
      (''/etc/group'', \<lparr>fn_kind = Regular, fn_uid = 0, fn_gid = 0, fn_data = ''munge:x:5:'' @ [newline]\<rparr>),
      (''/c/i/rootfs'', \<lparr>fn_kind = Dir, fn_uid = 0, fn_gid = 0, fn_data = []\<rparr>),
      (''/c/i/rootfs/etc'', \<lparr>fn_kind = Dir, fn_uid = 0, fn_gid = 0, fn_data = []\<rparr>),
      (''/c/i/rootfs/etc/passwd'', \<lparr>fn_kind = Regular, fn_uid = 0, fn_gid = 0,
          fn_data = ''slurm:x:7:7::/:/x'' @ [newline] @ ''munge:x:6:6::/:/x'' @ [newline]\<rparr>),
      (''/c/i/rootfs/etc/group'', \<lparr>fn_kind = Regular, fn_uid = 0, fn_gid = 0,
          fn_data = ''munge:x:6:'' @ [newline]\<rparr>),
      (''/c/i/rootfs/key'', \<lparr>fn_kind = Regular, fn_uid = 6, fn_gid = 6, fn_data = ''k''\<rparr>)],
    uf_refuse = []\<rparr>"

lemma sample_sync_runs: "fst (Syncuser id ''/etc'' ''/c'' ''i'' True sample_ufs) = None"
  by code_simp

lemma sample_tables_ok: "tables_ok sample_ufs (RootFsDir ''/c'' ''i'')"
  by code_simp

lemma sample_image_path: "RootFsDir ''/c'' ''i'' = ''/c/i/rootfs''"
  "path_Join [''/c/i/rootfs'', ''/etc/passwd''] = ''/c/i/rootfs/etc/passwd''"
  by code_simp+

lemma order_ok_id: "order_ok id"
  by (simp add: order_ok_def)

theorem Syncuser_synced_witness:
  "table_id (snd (Syncuser id ''/etc'' ''/c'' ''i'' True sample_ufs)) ''/c/i/rootfs/etc/passwd'' ''munge'' = 5 \<and>
   table_id (snd (Syncuser id ''/etc'' ''/c'' ''i'' True sample_ufs)) ''/c/i/rootfs/etc/passwd'' ''slurm'' = 7"
proof -
  let ?v = "snd (Syncuser id ''/etc'' ''/c'' ''i'' True sample_ufs)"
  have run: "Syncuser id ''/etc'' ''/c'' ''i'' True sample_ufs = (None, ?v)"
    using sample_sync_runs by (simp add: prod_eq_iff)
  have ids: "table_id sample_ufs ''/etc/passwd'' ''munge'' = 5" "table_id sample_ufs ''/etc/passwd'' ''slurm'' = -1"
      "table_id sample_ufs ''/c/i/rootfs/etc/passwd'' ''slurm'' = 7"
    by code_simp+
  show ?thesis
    using Syncuser_synced [OF run order_ok_id sample_tables_ok, of "''passwd''"]
    by (simp add: sample_image_path ids)
qed

section \<open>The owners of the files of an image\<close>

definition node_id :: "bool \<Rightarrow> fnode \<Rightarrow> int" where
  "node_id byGid n = (if byGid then fn_gid n else fn_uid n)"

lemma node_id_simps: "node_id False n = fn_uid n" "node_id True n = fn_gid n"
  by (simp_all add: node_id_def)

definition give_to :: "bool \<Rightarrow> int \<Rightarrow> fnode \<Rightarrow> fnode" where
  "give_to byGid i n =
     (if fn_kind n = Dir \<or> fn_kind n = Regular
      then if byGid then n\<lparr>fn_gid := new_owner i (fn_gid n)\<rparr> else n\<lparr>fn_uid := new_owner i (fn_uid n)\<rparr>
      else n)"

lemma new_owner_keep [simp]: "new_owner (-1) old = old"
  by (simp add: new_owner_def)

lemma new_owner_twice [simp]: "new_owner i (new_owner i old) = new_owner i old"
  by (simp add: new_owner_def Let_def)

lemma give_to_twice [simp]: "give_to byGid i (give_to byGid i n) = give_to byGid i n"
  by (simp add: give_to_def)

lemma give_to_kind [simp]: "fn_kind (give_to byGid i n) = fn_kind n" "fn_data (give_to byGid i n) = fn_data n"
  by (simp_all add: give_to_def)

lemma chown_one:
  assumes "Lstat u p = Some n" "follow_link u p = Some p"
    "(if fn_kind n = Dir \<or> fn_kind n = Regular
      then os_Chown p (if byGid then -1 else i) (if byGid then i else -1) u else (None, u)) = (None, w)"
  shows "Lstat w q = map_option (\<lambda>n. if q = p then give_to byGid i n else n) (Lstat u q)"
  using assms
  by (cases "Lstat u q") (auto simp: os_Chown_def give_to_def Lstat_set_node split: if_splits)

lemma info_chownFiles_result:
  assumes "info_chownFiles byGid i ps u = (None, v)" "\<forall>p\<in>set ps. follow_link u p = Some p"
  shows "Lstat v q = map_option (\<lambda>n. if q \<in> set ps then give_to byGid i n else n) (Lstat u q)"
  using assms
proof (induction ps arbitrary: u)
  case (Cons p ps)
  obtain n where n: "Lstat u p = Some n"
    using Cons.prems by (auto simp: Stat_def split: option.splits)
  then obtain w where w: "info_chownFiles byGid i ps w = (None, v)"
    and st: "(if fn_kind n = Dir \<or> fn_kind n = Regular
       then os_Chown p (if byGid then -1 else i) (if byGid then i else -1) u else (None, u)) = (None, w)"
    using Cons.prems by (auto simp: Stat_def and_then_None)
  have lw: "Lstat w q = map_option (\<lambda>n. if q = p then give_to byGid i n else n) (Lstat u q)" for q
    using chown_one [OF n _ st] Cons.prems(2) by simp
  have "follow_link w q = follow_link u q" for q
    by (auto simp: follow_link_def lw split: option.splits)
  then show ?case
    using Cons.IH [OF w] Cons.prems(2) by (cases "Lstat u q") (auto simp: lw)
qed (simp add: option.map_ident)

lemma chown_names_result:
  assumes "chown_names byGid es u = (None, v)" "\<forall>e\<in>set es. \<forall>p\<in>set (si_imageFiles (snd e)). follow_link u p = Some p"
  shows "Lstat v q = map_option (\<lambda>n. foldl (\<lambda>n e. if q \<in> set (si_imageFiles (snd e))
     then give_to byGid (si_HostID (snd e)) n else n) n es) (Lstat u q)"
  using assms
proof (induction es arbitrary: u)
  case (Cons e es)
  then obtain w where w: "info_chownFiles byGid (si_HostID (snd e)) (si_imageFiles (snd e)) u = (None, w)"
      "chown_names byGid es w = (None, v)"
    by (auto simp: and_then_None)
  have lw: "Lstat w q = map_option (\<lambda>n. if q \<in> set (si_imageFiles (snd e))
      then give_to byGid (si_HostID (snd e)) n else n) (Lstat u q)" for q
    by (rule info_chownFiles_result [OF w(1)]) (use Cons.prems in simp)
  have "follow_link w q = follow_link u q" for q
    by (auto simp: follow_link_def lw split: option.splits)
  then show ?case
    using Cons.IH [OF w(2)] Cons.prems(2) by (cases "Lstat u q") (auto simp: lw)
qed (simp add: option.map_ident)

lemma foldl_one_name:
  assumes "distinct (map fst es)" "\<forall>e\<in>set es. q \<in> set (si_imageFiles (snd e)) \<longleftrightarrow> Some (fst e) = m"
  shows "foldl (\<lambda>n e. if q \<in> set (si_imageFiles (snd e)) then give_to byGid (si_HostID (snd e)) n else n) n es =
    (case m of None \<Rightarrow> n | Some k \<Rightarrow> (case map_of es k of None \<Rightarrow> n | Some i \<Rightarrow> give_to byGid (si_HostID i) n))"
  using assms
proof (induction es arbitrary: n)
  case (Cons e es)
  have "k = fst e \<Longrightarrow> map_of es k = None" for k
    using Cons.prems(1) by (simp add: map_of_eq_None_iff)
  then show ?case
    using Cons by (cases e) (auto split: option.splits)
qed (simp split: option.split)

lemma record_files_files:
  "si_imageFiles (db_entry (foldl (record_file byGid ids) db es) n) =
     si_imageFiles (db_entry db n) @ map fst (filter (\<lambda>e. ids (node_id byGid (snd e)) = Some n) es)"
  by (induction es arbitrary: db)
     (auto simp: record_file_def node_id_def db_entry_update Let_def split: option.splits)

lemma keys_record_files:
  "distinct (map fst db) \<Longrightarrow> distinct (map fst (foldl (record_file byGid ids) db es))"
  by (induction es arbitrary: db)
     (auto simp: record_file_def Let_def distinct_al_update split: option.splits)

lemma order_ok_keys: "order_ok rng \<Longrightarrow> distinct (map fst db) \<Longrightarrow> distinct (map fst (rng db)) \<and> map_of (rng db) = map_of db"
proof -
  assume ok: "order_ok rng" and d: "distinct (map fst db)"
  have "mset (map fst (rng db)) = mset (map fst db)"
    using ok by (simp add: order_ok_def)
  then have "distinct (map fst (rng db))"
    using d mset_eq_imp_distinct_iff by blast
  then show ?thesis
    using d order_ok_set [OF ok] by (simp add: map_of_inject_set)
qed

lemma syncIDs_Some:
  assumes "order_ok rng" "distinct (map fst db)" "syncIDs rng db i = Some k"
  shows "differ (db_entry db k)" "image_id db k = i"
proof -
  obtain e where "e \<in> set (rng db)" "differ (snd e)" "si_imageID (snd e) = i" "k = fst e"
  proof -
    let ?es = "filter (\<lambda>e. inHost (snd e) \<and> inimage (snd e) \<and> \<not> match (snd e) \<and> si_imageID (snd e) = i) (rng db)"
    have "?es \<noteq> []" "k = fst (last ?es)"
      using assms(3) by (auto simp: syncIDs_def split: list.splits)
    then show thesis
      using last_in_set [of ?es] that [of "last ?es"] by (auto simp: differ_def match_def)
  qed
  then show "differ (db_entry db k)" "image_id db k = i"
    using order_ok_set [OF assms(1)] db_entry_mem [OF _ assms(2)] by (metis prod.collapse)+
qed

lemma syncIDs_None:
  assumes "order_ok rng" "syncIDs rng db i = None"
  shows "\<not> (differ (db_entry db k) \<and> image_id db k = i)"
proof
  assume "differ (db_entry db k) \<and> image_id db k = i"
  then have "(k, db_entry db k) \<in> set (filter (\<lambda>e. inHost (snd e) \<and> inimage (snd e) \<and> \<not> match (snd e) \<and> si_imageID (snd e) = i) (rng db))"
    using order_ok_set [OF assms(1)] entry_in_db [of db k] by (auto simp: differ_def match_def inHost_def inimage_def)
  then have "filter (\<lambda>e. inHost (snd e) \<and> inimage (snd e) \<and> \<not> match (snd e) \<and> si_imageID (snd e) = i) (rng db) \<noteq> []"
    by (metis emptyE empty_set)
  then show False
    using assms(2) by (simp add: syncIDs_def split: list.splits)
qed

text \<open>The name a file of the image under \<open>r\<close> is recorded for.\<close>

definition recorded :: "(syncDB \<Rightarrow> syncDB) \<Rightarrow> syncDB \<Rightarrow> ufs \<Rightarrow> string \<Rightarrow> bool \<Rightarrow> string \<Rightarrow> string option" where
  "recorded rng db u r byGid p =
     (if below r p then Option.bind (Lstat u p) (\<lambda>n. syncIDs rng db (node_id byGid n)) else None)"

definition is_dir_node :: "ufs \<Rightarrow> string \<Rightarrow> bool" where
  "is_dir_node u p = (case Lstat u p of Some n \<Rightarrow> fn_kind n = Dir | None \<Rightarrow> False)"

lemma findFiles_files:
  assumes "findFiles rng u r byGid db = Inr db'" "is_dir_node u r" "distinct (map fst (uf_nodes u))"
    "si_imageFiles (db_entry db k) = []"
  shows "p \<in> set (si_imageFiles (db_entry db' k)) \<longleftrightarrow> recorded rng db u r byGid p = Some k"
proof -
  let ?es = "sort_key (\<lambda>e. comps (fst e)) (filter (\<lambda>e. below r (fst e)) (uf_nodes u))"
  have "db' = foldl (record_file byGid (syncIDs rng db)) db ?es"
    using assms(1,2) by (auto simp: findFiles_def Walk_def is_dir_node_def split: option.splits)
  then show ?thesis
    using assms(3,4) by (force simp: record_files_files recorded_def Lstat_def bind_eq_Some_conv image_iff)
qed

lemma chown_phase:
  assumes ok: "order_ok rng" and ff: "findFiles rng u r byGid db = Inr db'"
    and ch: "db_chownFiles rng byGid db' w = (None, v)"
    and u: "is_dir_node u r" "distinct (map fst (uf_nodes u))"
    and db: "distinct (map fst db)" "\<And>k. si_imageFiles (db_entry db k) = []"
    and links: "\<And>p. recorded rng db u r byGid p \<noteq> None \<Longrightarrow> follow_link w p = Some p"
  shows "Lstat v q = map_option (\<lambda>n. case recorded rng db u r byGid q of
      None \<Rightarrow> n | Some k \<Rightarrow> give_to byGid (host_id db k) n) (Lstat w q)"
proof -
  have keys: "distinct (map fst db')"
    using ff db(1) by (auto simp: findFiles_def keys_record_files split: option.splits)
  have rk: "distinct (map fst (rng db'))" "map_of (rng db') = map_of db'"
    using order_ok_keys [OF ok keys] by simp_all
  have files: "p \<in> set (si_imageFiles (snd e)) \<longleftrightarrow> Some (fst e) = recorded rng db u r byGid p"
    if "e \<in> set (rng db')" for e p
    using findFiles_files [OF ff u db(2), of p "fst e"] db_entry_mem [OF _ keys, of "fst e" "snd e"] that
      order_ok_set [OF ok] by auto
  have l: "\<forall>e\<in>set (rng db'). \<forall>p\<in>set (si_imageFiles (snd e)). follow_link w p = Some p"
    using files links by (metis option.distinct(1))
  have fold: "foldl (\<lambda>n e. if q \<in> set (si_imageFiles (snd e)) then give_to byGid (si_HostID (snd e)) n else n) n (rng db') =
      (case recorded rng db u r byGid q of
         None \<Rightarrow> n
       | Some k \<Rightarrow> (case map_of db' k of None \<Rightarrow> n | Some i \<Rightarrow> give_to byGid (si_HostID i) n))" for n
    unfolding rk(2) [symmetric] by (rule foldl_one_name [OF rk(1)]) (use files in blast)
  have "(case map_of db' k of None \<Rightarrow> n | Some i \<Rightarrow> give_to byGid (si_HostID i) n) = give_to byGid (host_id db k) n"
    if "recorded rng db u r byGid q = Some k" for k n
  proof -
    have "host_id db k \<noteq> -1"
      using that syncIDs_Some(1) [OF ok db(1)]
      by (auto simp: recorded_def bind_eq_Some_conv differ_def inHost_def split: if_splits)
    then show ?thesis
      using findFiles_ids [OF ff, of k] by (auto simp: db_entry_def split: option.splits)
  qed
  then show ?thesis
    unfolding chown_names_result [OF ch [unfolded db_chownFiles_def] l] fold by (auto split: option.split intro: option.map_cong0)
qed

text \<open>
  \<open>moved u hp ip k i\<close>: the image calls the id \<open>i\<close> by the name \<open>k\<close>, to which the host gives another id.
  \<open>renumbered\<close> is what a file with the id \<open>i\<close> gets: the id the host gives such a name, if there is one.
\<close>

definition moved :: "ufs \<Rightarrow> string \<Rightarrow> string \<Rightarrow> string \<Rightarrow> int \<Rightarrow> bool" where
  "moved u hp ip k i = (table_id u hp k \<noteq> -1 \<and> table_id u ip k = i \<and> i \<noteq> -1 \<and> table_id u hp k \<noteq> i)"

definition renumbered :: "ufs \<Rightarrow> string \<Rightarrow> string \<Rightarrow> int \<Rightarrow> int \<Rightarrow> bool" where
  "renumbered u hp ip i j =
     (if \<exists>k. moved u hp ip k i then \<exists>k. moved u hp ip k i \<and> j = new_owner (table_id u hp k) i else j = i)"

text \<open>No link of the image belongs to an id that is renumbered.\<close>

definition links_stay :: "ufs \<Rightarrow> string \<Rightarrow> string \<Rightarrow> string \<Rightarrow> bool \<Rightarrow> bool" where
  "links_stay u r hp ip byGid = list_all (\<lambda>e. below r (fst e) \<and> (\<exists>t. fn_kind (snd e) = Symlink t) \<longrightarrow>
     \<not> (\<exists>k. moved u hp ip k (node_id byGid (snd e)))) (uf_nodes u)"

lemma differ_moved:
  assumes "order_ok rng" "sync_load rng u hp ip = Inr db"
  shows "differ (db_entry db k) \<and> image_id db k = i \<longleftrightarrow> moved u hp ip k i"
  using sync_load_ids [OF assms] by (auto simp: differ_def inHost_def inimage_def moved_def)

lemma recorded_moved:
  assumes ok: "order_ok rng" and ld: "sync_load rng u hp ip = Inr db"
    and p: "below r p" "Lstat u p = Some n"
  shows "case recorded rng db u r byGid p of
      Some k \<Rightarrow> moved u hp ip k (node_id byGid n) | None \<Rightarrow> \<not> (\<exists>k. moved u hp ip k (node_id byGid n))"
  unfolding differ_moved [OF ok ld, symmetric]
  using syncIDs_Some [OF ok sync_load_ids(4) [OF ok ld]] syncIDs_None [OF ok] p
  by (auto simp: recorded_def split: option.split)

lemma renumber_phase:
  assumes ok: "order_ok rng" and ld: "sync_load rng u hp ip = Inr db"
    and ff: "findFiles rng u r byGid db = Inr db'" and ch: "db_chownFiles rng byGid db' w = (None, v)"
    and u: "is_dir_node u r" "distinct (map fst (uf_nodes u))"
    and links: "links_stay u r hp ip byGid" and uw: "same_files u w"
    and n: "Lstat w q = Some n" "Lstat u q = Some n0" "node_id byGid n0 = node_id byGid n"
  obtains n' where "Lstat v q = Some n'" "node_id (\<not> byGid) n' = node_id (\<not> byGid) n"
    "fn_kind n' = fn_kind n" "fn_data n' = fn_data n"
    "if below r q \<and> (fn_kind n = Dir \<or> fn_kind n = Regular)
     then renumbered u hp ip (node_id byGid n) (node_id byGid n') else n' = n"
proof -
  note ids = sync_load_ids [OF ok ld]
  have "follow_link w p = Some p" if rec: "recorded rng db u r byGid p \<noteq> None" for p
  proof -
    obtain m where m: "below r p" "Lstat u p = Some m"
      using rec by (cases "Lstat u p") (auto simp: recorded_def split: if_splits)
    have "\<exists>k. moved u hp ip k (node_id byGid m)"
      using rec recorded_moved [OF ok ld m, of byGid] by (auto split: option.splits)
    with m have "\<nexists>t. fn_kind m = Symlink t"
      using links by (auto simp: links_stay_def list_all_iff Lstat_def dest!: map_of_SomeD)
    then have "follow_link u p = Some p"
      using m(2) by (auto simp: follow_link_def split: fkind.splits)
    moreover have "follow_link w p = follow_link u p"
      using uw by (auto simp: follow_link_def same_files_def split: option.splits dest: spec [of _ p])
    ultimately show ?thesis by simp
  qed
  note v = chown_phase [OF ok ff ch u ids(4) ids(3) this, of q, unfolded n(1)]
  let ?n = "case recorded rng db u r byGid q of None \<Rightarrow> n | Some k \<Rightarrow> give_to byGid (host_id db k) n"
  show thesis
  proof (rule that [of ?n])
    show "if below r q \<and> (fn_kind n = Dir \<or> fn_kind n = Regular)
       then renumbered u hp ip (node_id byGid n) (node_id byGid ?n) else ?n = n"
      using recorded_moved [OF ok ld _ n(2), of r byGid] n(3) ids(1)
      by (auto simp: renumbered_def give_to_def node_id_def recorded_def split: option.splits if_splits)
  qed (use v in \<open>auto simp: node_id_def give_to_def split: option.split\<close>)
qed

text \<open>Writing the tables leaves every other file alone.\<close>

lemma Syncuser_keeps:
  assumes ub: "same_files u b"
    and up: "syncDB_update pdb (path_Join [r, ''/etc/passwd'']) ''/etc/passwd'' b = (None, c)"
      "syncDB_update gdb (path_Join [r, ''/etc/group'']) ''/etc/group'' c = (None, v)"
    and tabs: "tables_ok u r"
    and q: "q \<noteq> path_Join [r, ''/etc/passwd'']" "q \<noteq> path_Join [r, ''/etc/group'']"
  shows "Lstat v q = Lstat b q"
proof -
  let ?pp = "path_Join [r, ''/etc/passwd'']" and ?pg = "path_Join [r, ''/etc/group'']"
  note keep = same_files_regular(1) [OF ub]
  have p: "distinct [?pp, ?pg, ''/etc/passwd'', ''/etc/group'']" and reg: "regular u ?pp" "regular u ?pg"
      "regular u ''/etc/passwd''" "regular u ''/etc/group''"
    using tabs by (simp_all add: tables_ok_def Let_def)
  have c: "\<forall>q. q \<noteq> ?pp \<longrightarrow> Lstat c q = Lstat b q"
    using update_result [OF up(1)] p reg keep by auto
  then have "p \<noteq> ?pp \<Longrightarrow> regular c p = regular u p" for p
    using keep by (simp add: regular_def)
  then have "\<forall>q. q \<noteq> ?pg \<longrightarrow> Lstat v q = Lstat c q"
    using update_result [OF up(2)] p reg by auto
  with c q show ?thesis by simp
qed


lemma sample_host_ids: "table_id sample_ufs ''/etc/passwd'' k = (if k = ''munge'' then 5 else -1)"
proof -
  have "map_option node_lines (Stat sample_ufs ''/etc/passwd'') = Some [''munge:x:5:5::/:/x'']"
      "line_entry ''munge:x:5:5::/:/x'' = Some (''munge'', 5)"
    by code_simp+
  then show ?thesis
    by (auto simp: table_id_def first_id_single)
qed


text \<open>
  \<open>os.Stat\<close> and \<open>os.Chown\<close> follow links, and an absolute link of the image leads out of the image: here
  a link of the image that belongs to \<open>munge\<close> makes a file of the host change its owner.
\<close>

lemma Syncuser_follows_links:
  "map_option fn_uid (Lstat (snd (Syncuser id ''/etc'' ''/c'' ''i'' True
     (set_node ''/etc/shadow'' \<lparr>fn_kind = Regular, fn_uid = 0, fn_gid = 0, fn_data = []\<rparr>
     (set_node ''/c/i/rootfs/link'' \<lparr>fn_kind = Symlink (Some ''/etc/shadow''), fn_uid = 6, fn_gid = 0, fn_data = []\<rparr>
       sample_ufs)))) ''/etc/shadow'') = Some 5"
  by code_simp

end
