(* ===== verification/Node_Update.thy ===== *)
theory Node_Update
  imports Node_Flatten
begin

text \<open>
  \<open>node/update.go\<close>: copying the fields whose command line flag was given from one node or profile to
  another. \<open>recursiveUpdateFrom\<close> walks the structs with \<open>reflect\<close>; \<open>update_fields\<close> is its loop over the
  fields, \<open>update_field\<close> the branches for a field without a flag and \<open>update_entries\<close> the loop over the
  entries of a map.
\<close>

section \<open>The walk\<close>

fun update_fields :: "(string \<Rightarrow> bool) \<Rightarrow> (sfield \<times> gval) list \<Rightarrow> (sfield \<times> gval) list \<Rightarrow> (sfield \<times> gval) list"
  and update_field :: "(string \<Rightarrow> bool) \<Rightarrow> gval \<Rightarrow> gval \<Rightarrow> gval"
  and update_entries :: "(string \<Rightarrow> bool) \<Rightarrow> gval \<Rightarrow> (string \<times> gval) list \<Rightarrow> (string \<times> gval) list \<Rightarrow> (string \<times> gval) list"
  and recursiveUpdateFrom :: "(string \<Rightarrow> bool) \<Rightarrow> gval \<Rightarrow> gval \<Rightarrow> gval" where
  "update_fields changed ds [] = ds"
| "update_fields changed [] ss = []"
| "update_fields changed ((f, d) # ds) ((g, s) # ss) =
     (f, if \<not> sf_exported g then d
         else if sf_lopt g \<noteq> [] \<and> sf_comment g then (if changed (sf_lopt g) then s else d)
         else update_field changed d s) # update_fields changed ds ss"
| "update_field changed d (GStruct ss) = recursiveUpdateFrom changed d (GStruct ss)"
| "update_field changed d (GPtr t sp) =
     (case sp of
        None \<Rightarrow> d
      | Some s \<Rightarrow> GPtr t (Some (recursiveUpdateFrom changed (case as_ptr d of None \<Rightarrow> t | Some v \<Rightarrow> v) s)))"
| "update_field changed d (GMapPtr t sm) =
     (case sm of
        None \<Rightarrow> d
      | Some ss \<Rightarrow> GMapPtr t (Some (update_entries changed t (case as_mapptr d of None \<Rightarrow> [] | Some ds \<Rightarrow> ds) ss)))"
| "update_field changed d _ = d"
| "update_entries changed t ds [] = ds"
| "update_entries changed t ds ((key, s) # ss) =
     update_entries changed t
       (al_update key (recursiveUpdateFrom changed (case map_of ds key of None \<Rightarrow> t | Some d \<Rightarrow> d) s) ds) ss"
| "recursiveUpdateFrom changed (GStruct ds) (GStruct ss) = GStruct (update_fields changed ds ss)"
| "recursiveUpdateFrom changed d _ = d"

definition Node_UpdateFrom :: "Node \<Rightarrow> Node \<Rightarrow> (string \<Rightarrow> bool) \<Rightarrow> Node" where
  "Node_UpdateFrom dst src changed = val_Node (recursiveUpdateFrom changed (Node_val dst) (Node_val src))"

definition Profile_UpdateFrom :: "Profile \<Rightarrow> Profile \<Rightarrow> (string \<Rightarrow> bool) \<Rightarrow> Profile" where
  "Profile_UpdateFrom dst src changed = val_Profile (recursiveUpdateFrom changed (Profile_val dst) (Profile_val src))"

definition Node_UpdateFromProfile :: "Node \<Rightarrow> Profile \<Rightarrow> (string \<Rightarrow> bool) \<Rightarrow> Node" where
  "Node_UpdateFromProfile dst src changed = Node_UpdateFrom dst (zero_Node\<lparr>nd_Profile := src\<rparr>) changed"

definition Profile_UpdateFromProfile :: "Profile \<Rightarrow> Profile \<Rightarrow> (string \<Rightarrow> bool) \<Rightarrow> Profile" where
  "Profile_UpdateFromProfile dst src changed = Profile_UpdateFrom dst src changed"

section \<open>The same, field by field\<close>

text \<open>
  The reference: which flag governs which field of the typed structs, how a missing struct starts
  from the zero value, and how entries of a map are added or updated. A field without a flag, tags
  and resources are never copied.
\<close>

definition pick :: "(string \<Rightarrow> bool) \<Rightarrow> string \<Rightarrow> 'a \<Rightarrow> 'a \<Rightarrow> 'a" where
  "pick changed flag d s = (if changed flag then s else d)"

definition upd_struct :: "('a \<Rightarrow> 'a \<Rightarrow> 'a) \<Rightarrow> 'a \<Rightarrow> 'a option \<Rightarrow> 'a option \<Rightarrow> 'a option" where
  "upd_struct upd zero d s = (case s of
      None \<Rightarrow> d | Some v \<Rightarrow> Some (upd (case d of None \<Rightarrow> zero | Some w \<Rightarrow> w) v))"

definition upd_entry :: "('a \<Rightarrow> 'a \<Rightarrow> 'a) \<Rightarrow> 'a \<Rightarrow> (string \<times> 'a) list \<Rightarrow> string \<times> 'a \<Rightarrow> (string \<times> 'a) list" where
  "upd_entry upd zero m e = (case e of (k, v) \<Rightarrow>
     al_update k (upd (case map_of m k of None \<Rightarrow> zero | Some w \<Rightarrow> w) v) m)"

definition upd_map :: "('a \<Rightarrow> 'a \<Rightarrow> 'a) \<Rightarrow> 'a \<Rightarrow> 'a gomap \<Rightarrow> 'a gomap \<Rightarrow> 'a gomap" where
  "upd_map upd zero d s = (case s of None \<Rightarrow> d | Some es \<Rightarrow> Some (foldl (upd_entry upd zero) (gm_entries d) es))"

definition upd_IpmiConf :: "(string \<Rightarrow> bool) \<Rightarrow> IpmiConf \<Rightarrow> IpmiConf \<Rightarrow> IpmiConf" where
  "upd_IpmiConf c d s = d\<lparr>
     ip_UserName := pick c ''ipmiuser'' (ip_UserName d) (ip_UserName s),
     ip_Password := pick c ''ipmipass'' (ip_Password d) (ip_Password s),
     ip_Ipaddr := pick c ''ipmiaddr'' (ip_Ipaddr d) (ip_Ipaddr s),
     ip_Gateway := pick c ''ipmigateway'' (ip_Gateway d) (ip_Gateway s),
     ip_Netmask := pick c ''ipminetmask'' (ip_Netmask d) (ip_Netmask s),
     ip_Port := pick c ''ipmiport'' (ip_Port d) (ip_Port s),
     ip_Interface := pick c ''ipmiinterface'' (ip_Interface d) (ip_Interface s),
     ip_EscapeChar := pick c ''ipmiescapechar'' (ip_EscapeChar d) (ip_EscapeChar s),
     ip_Write := pick c ''ipmiwrite'' (ip_Write d) (ip_Write s),
     ip_Template := pick c ''ipmitemplate'' (ip_Template d) (ip_Template s)\<rparr>"

definition upd_KernelConf :: "(string \<Rightarrow> bool) \<Rightarrow> KernelConf \<Rightarrow> KernelConf \<Rightarrow> KernelConf" where
  "upd_KernelConf c d s = d\<lparr>
     kn_Version := pick c ''kernelversion'' (kn_Version d) (kn_Version s),
     kn_Args := pick c ''kernelargs'' (kn_Args d) (kn_Args s)\<rparr>"

definition upd_NetDev :: "(string \<Rightarrow> bool) \<Rightarrow> NetDev \<Rightarrow> NetDev \<Rightarrow> NetDev" where
  "upd_NetDev c d s = d\<lparr>
     dev_Type := pick c ''type'' (dev_Type d) (dev_Type s),
     dev_OnBoot := pick c ''onboot'' (dev_OnBoot d) (dev_OnBoot s),
     dev_Device := pick c ''netdev'' (dev_Device d) (dev_Device s),
     dev_Hwaddr := pick c ''hwaddr'' (dev_Hwaddr d) (dev_Hwaddr s),
     dev_Ipaddr := pick c ''ipaddr'' (dev_Ipaddr d) (dev_Ipaddr s),
     dev_Netmask := pick c ''netmask'' (dev_Netmask d) (dev_Netmask s),
     dev_Gateway := pick c ''gateway'' (dev_Gateway d) (dev_Gateway s),
     dev_Ipaddr6 := pick c ''ipaddr6'' (dev_Ipaddr6 d) (dev_Ipaddr6 s),
     dev_PrefixLen6 := pick c ''prefixlen6'' (dev_PrefixLen6 d) (dev_PrefixLen6 s),
     dev_Gateway6 := pick c ''gateway6'' (dev_Gateway6 d) (dev_Gateway6 s),
     dev_MTU := pick c ''mtu'' (dev_MTU d) (dev_MTU s)\<rparr>"

definition upd_Partition :: "(string \<Rightarrow> bool) \<Rightarrow> Partition \<Rightarrow> Partition \<Rightarrow> Partition" where
  "upd_Partition c d s = d\<lparr>
     pt_Number := pick c ''partnumber'' (pt_Number d) (pt_Number s),
     pt_SizeMiB := pick c ''partsize'' (pt_SizeMiB d) (pt_SizeMiB s),
     pt_TypeGuid := pick c ''parttype'' (pt_TypeGuid d) (pt_TypeGuid s),
     pt_WipePartitionEntryP := pick c ''partwipe'' (pt_WipePartitionEntryP d) (pt_WipePartitionEntryP s),
     pt_ShouldExistP := pick c ''partcreate'' (pt_ShouldExistP d) (pt_ShouldExistP s)\<rparr>"

definition upd_Disk :: "(string \<Rightarrow> bool) \<Rightarrow> Disk \<Rightarrow> Disk \<Rightarrow> Disk" where
  "upd_Disk c d s = d\<lparr>
     dk_WipeTableP := pick c ''diskwipe'' (dk_WipeTableP d) (dk_WipeTableP s),
     dk_Partitions := upd_map (upd_Partition c) zero_Partition (dk_Partitions d) (dk_Partitions s)\<rparr>"

definition upd_FileSystem :: "(string \<Rightarrow> bool) \<Rightarrow> FileSystem \<Rightarrow> FileSystem \<Rightarrow> FileSystem" where
  "upd_FileSystem c d s = d\<lparr>
     fs_Format := pick c ''fsformat'' (fs_Format d) (fs_Format s),
     fs_Path := pick c ''fspath'' (fs_Path d) (fs_Path s),
     fs_WipeFileSystemP := pick c ''fswipe'' (fs_WipeFileSystemP d) (fs_WipeFileSystemP s)\<rparr>"

definition upd_Profile :: "(string \<Rightarrow> bool) \<Rightarrow> Profile \<Rightarrow> Profile \<Rightarrow> Profile" where
  "upd_Profile c d s = d\<lparr>
     pf_Profiles := pick c ''profile'' (pf_Profiles d) (pf_Profiles s),
     pf_Groups := pick c ''groups'' (pf_Groups d) (pf_Groups s),
     pf_Comment := pick c ''comment'' (pf_Comment d) (pf_Comment s),
     pf_ClusterName := pick c ''cluster'' (pf_ClusterName d) (pf_ClusterName s),
     pf_ImageName := pick c ''image'' (pf_ImageName d) (pf_ImageName s),
     pf_Ipxe := pick c ''ipxe'' (pf_Ipxe d) (pf_Ipxe s),
     pf_RuntimeOverlay := pick c ''runtime-overlays'' (pf_RuntimeOverlay d) (pf_RuntimeOverlay s),
     pf_SystemOverlay := pick c ''system-overlays'' (pf_SystemOverlay d) (pf_SystemOverlay s),
     pf_Kernel := upd_struct (upd_KernelConf c) zero_KernelConf (pf_Kernel d) (pf_Kernel s),
     pf_Ipmi := upd_struct (upd_IpmiConf c) zero_IpmiConf (pf_Ipmi d) (pf_Ipmi s),
     pf_Init := pick c ''init'' (pf_Init d) (pf_Init s),
     pf_Root := pick c ''root'' (pf_Root d) (pf_Root s),
     pf_NetDevs := upd_map (upd_NetDev c) zero_NetDev (pf_NetDevs d) (pf_NetDevs s),
     pf_PrimaryNetDev := pick c ''primarynet'' (pf_PrimaryNetDev d) (pf_PrimaryNetDev s),
     pf_Disks := upd_map (upd_Disk c) zero_Disk (pf_Disks d) (pf_Disks s),
     pf_FileSystems := upd_map (upd_FileSystem c) zero_FileSystem (pf_FileSystems d) (pf_FileSystems s)\<rparr>"

definition upd_Node :: "(string \<Rightarrow> bool) \<Rightarrow> Node \<Rightarrow> Node \<Rightarrow> Node" where
  "upd_Node c d s = d\<lparr>
     nd_Discoverable := pick c ''discoverable'' (nd_Discoverable d) (nd_Discoverable s),
     nd_AssetKey := pick c ''asset'' (nd_AssetKey d) (nd_AssetKey s),
     nd_Profile := upd_Profile c (nd_Profile d) (nd_Profile s)\<rparr>"

section \<open>Equivalence\<close>

named_theorems walk "what the walk does to each struct"

lemma pick_val: "(if c f then GStr a else GStr b) = GStr (pick c f b a)"
  "(if c f then GWWbool a else GWWbool b) = GWWbool (pick c f b a)"
  "(if c f then GIP i else GIP j) = GIP (pick c f j i)"
  "(if c f then GStrs as else GStrs bs) = GStrs (pick c f bs as)"
  "(if c f then GPtrBool p else GPtrBool q) = GPtrBool (pick c f q p)"
  by (simp_all add: pick_def)

lemma walk_IpmiConf [walk]:
  "recursiveUpdateFrom c (IpmiConf_val d) (IpmiConf_val s) = IpmiConf_val (upd_IpmiConf c d s)"
  by (simp add: IpmiConf_val_def upd_IpmiConf_def pick_val)

lemma walk_KernelConf [walk]:
  "recursiveUpdateFrom c (KernelConf_val d) (KernelConf_val s) = KernelConf_val (upd_KernelConf c d s)"
  by (simp add: KernelConf_val_def upd_KernelConf_def pick_val)

lemma walk_NetDev [walk]:
  "recursiveUpdateFrom c (NetDev_val d) (NetDev_val s) = NetDev_val (upd_NetDev c d s)"
  by (simp add: NetDev_val_def upd_NetDev_def pick_val)

lemma walk_Partition [walk]:
  "recursiveUpdateFrom c (Partition_val d) (Partition_val s) = Partition_val (upd_Partition c d s)"
  by (simp add: Partition_val_def upd_Partition_def pick_val)

lemma walk_FileSystem [walk]:
  "recursiveUpdateFrom c (FileSystem_val d) (FileSystem_val s) = FileSystem_val (upd_FileSystem c d s)"
  by (simp add: FileSystem_val_def upd_FileSystem_def pick_val)

text \<open>A pointer to a struct and a map of such pointers, for any struct the walk is known on.\<close>

lemma walk_ptr:
  assumes "\<And>d s. recursiveUpdateFrom c (f d) (f s) = f (upd d s)"
  shows "update_field c (GPtr (f z) (map_option f d)) (GPtr (f z) (map_option f s)) =
    GPtr (f z) (map_option f (upd_struct upd z d s))"
  by (cases s; cases d) (simp_all add: upd_struct_def assms)

lemma map_of_val: "map_of (map (\<lambda>(k, v). (k, f v)) m) k = map_option f (map_of m k)"
  by (induction m) auto

lemma al_update_val: "al_update k (f v) (map (\<lambda>(k, v). (k, f v)) m) = map (\<lambda>(k, v). (k, f v)) (al_update k v m)"
  by (induction m) auto

lemma walk_entries:
  assumes "\<And>d s. recursiveUpdateFrom c (f d) (f s) = f (upd d s)"
  shows "update_entries c (f z) (map (\<lambda>(k, v). (k, f v)) ds) (map (\<lambda>(k, v). (k, f v)) ss) =
    map (\<lambda>(k, v). (k, f v)) (foldl (upd_entry upd z) ds ss)"
proof (induction ss arbitrary: ds)
  case (Cons e ss)
  obtain k s where e: "e = (k, s)" by (cases e)
  have "recursiveUpdateFrom c (case map_option f (map_of ds k) of None \<Rightarrow> f z | Some d \<Rightarrow> d) (f s) =
      f (upd (case map_of ds k of None \<Rightarrow> z | Some d \<Rightarrow> d) s)"
    by (cases "map_of ds k") (simp_all add: assms)
  then show ?case
    by (simp add: e map_of_val al_update_val Cons.IH upd_entry_def)
qed simp

lemma walk_map:
  assumes "\<And>d s. recursiveUpdateFrom c (f d) (f s) = f (upd d s)"
  shows "update_field c (GMapPtr (f z) (gm_map f d)) (GMapPtr (f z) (gm_map f s)) =
    GMapPtr (f z) (gm_map f (upd_map upd z d s))"
  using walk_entries [of c f upd z "[]"] walk_entries [of c f upd z] assms
  by (cases s; cases d) (simp_all add: gm_map_def upd_map_def gm_entries_def map_prod_def)

lemma walk_Disk [walk]:
  "recursiveUpdateFrom c (Disk_val d) (Disk_val s) = Disk_val (upd_Disk c d s)"
  by (simp add: Disk_val_def upd_Disk_def pick_val walk_map [OF walk_Partition] del: update_field.simps)

lemma walk_Profile [walk]:
  "recursiveUpdateFrom c (Profile_val d) (Profile_val s) = Profile_val (upd_Profile c d s)"
  by (simp add: Profile_val_def upd_Profile_def pick_val walk_map [OF walk_NetDev] walk_map [OF walk_Disk]
      walk_map [OF walk_FileSystem] walk_ptr [OF walk_KernelConf] walk_ptr [OF walk_IpmiConf]
      update_field.simps(4-) del: update_field.simps(2,3))

lemma walk_Node [walk]:
  "recursiveUpdateFrom c (Node_val d) (Node_val s) = Node_val (upd_Node c d s)"
proof -
  have "update_field c (Profile_val d) (Profile_val s) = Profile_val (upd_Profile c d s)" for d s
    using walk_Profile [of c d s] by (simp add: Profile_val_def [of s])
  then show ?thesis
    by (simp add: Node_val_def upd_Node_def pick_val)
qed

text \<open>
  (C26) Updating a node from another one copies exactly the fields whose flag was given, in the node,
  in its kernel and IPMI settings and, entry by entry, in its devices, disks, partitions and file
  systems; missing structs and entries are created from the zero value. Everything else is kept: ids,
  tags, resources and the fields no flag exists for.
\<close>

theorem Node_UpdateFrom_fields: "Node_UpdateFrom dst src changed = upd_Node changed dst src"
  by (simp add: Node_UpdateFrom_def walk)


end
