(* ===== verification/Node_Storage.thy ===== *)
theory Node_Storage
  imports Node_Data "HOL-Library.Product_Lexorder" "HOL-Library.Multiset"
begin

text \<open>
  \<open>node/storage.go\<close>: the ordered lists of disks, partitions and file systems of a node, and their
  translation to the configuration of Ignition. The records \<open>ign_*\<close> hold the fields of the types of
  Ignition that the code sets; \<open>None\<close> is the nil pointer. \<open>Storage.Validate\<close> is a parameter: whether the
  report is fatal, and its text.
\<close>

section \<open>Ordered lists\<close>

definition DiskList :: "Node \<Rightarrow> Disk list" where
  "DiskList n = List.map_filter (gm_get (pf_Disks (nd_Profile n))) (sort (gm_keys (pf_Disks (nd_Profile n))))"

definition FileSystemList :: "Node \<Rightarrow> FileSystem list" where
  "FileSystemList n =
     List.map_filter (gm_get (pf_FileSystems (nd_Profile n))) (sort (gm_keys (pf_FileSystems (nd_Profile n))))"

text \<open>The comparison function of \<open>PartitionList\<close>, on the keys and partitions at both positions.\<close>

definition partition_less :: "string \<times> Partition \<Rightarrow> string \<times> Partition \<Rightarrow> bool" where
  "partition_less i j =
     (let pi = snd i; pj = snd j;
          by_id = (if pt_id pi \<noteq> [] \<and> pt_id pj \<noteq> []
                   then (if pt_id pi \<noteq> pt_id pj then pt_id pi < pt_id pj else fst i < fst j)
                   else if pt_id pi \<noteq> [] then True
                   else if pt_id pj \<noteq> [] then False
                   else fst i < fst j)
      in case (Atoi (pt_Number pi), Atoi (pt_Number pj)) of
           ((ni, None), (nj, None)) \<Rightarrow> if ni \<noteq> nj then ni < nj else by_id
         | ((_, None), _) \<Rightarrow> True
         | (_, (_, None)) \<Rightarrow> False
         | _ \<Rightarrow> by_id)"

text \<open>
  \<open>sort.SliceStable\<close> as the insertion sort it is on short slices: an element moves to the left while it
  is smaller than its neighbour. \<open>shift\<close> works on the reversed sorted part; the comparison may panic.
\<close>

fun shift :: "('a \<Rightarrow> 'a \<Rightarrow> bool result) \<Rightarrow> 'a \<Rightarrow> 'a list \<Rightarrow> 'a list result" where
  "shift lt x [] = Inr [x]"
| "shift lt x (y # ys) = (case lt x y of
      Inl e \<Rightarrow> Inl e
    | Inr True \<Rightarrow> map_sum id (Cons y) (shift lt x ys)
    | Inr False \<Rightarrow> Inr (x # y # ys))"

fun sort_from :: "('a \<Rightarrow> 'a \<Rightarrow> bool result) \<Rightarrow> 'a list \<Rightarrow> 'a list \<Rightarrow> 'a list result" where
  "sort_from lt ys [] = Inr (rev ys)"
| "sort_from lt ys (x # xs) = (case shift lt x ys of Inl e \<Rightarrow> Inl e | Inr ys \<Rightarrow> sort_from lt ys xs)"

definition SliceStable :: "('a \<Rightarrow> 'a \<Rightarrow> bool result) \<Rightarrow> 'a list \<Rightarrow> 'a list result" where
  "SliceStable lt xs = sort_from lt [] xs"

definition PartitionList :: "Disk \<Rightarrow> Partition list" where
  "PartitionList d = (case SliceStable (\<lambda>i j. Inr (partition_less i j)) (gm_entries (dk_Partitions d)) of
      Inr es \<Rightarrow> map snd es | Inl _ \<Rightarrow> [])"

section \<open>Ignition\<close>

record ign_fs =
  igf_Device :: string
  igf_Path :: "string option"
  igf_WipeFilesystem :: "bool option"
  igf_Format :: "string option"
  igf_Label :: "string option"
  igf_MountOptions :: "string list"
  igf_Options :: "string list"
  igf_UUID :: "string option"

record ign_part =
  igp_Label :: "string option"
  igp_Number :: int
  igp_ShouldExist :: "bool option"
  igp_WipePartitionEntry :: "bool option"
  igp_GUID :: "string option"
  igp_Resize :: "bool option"
  igp_SizeMiB :: "int option"
  igp_StartMiB :: "int option"
  igp_TypeGUID :: "string option"

record ign_disk =
  igd_Device :: string
  igd_Partitions :: "ign_part list"
  igd_WipeTable :: "bool option"

record ign_storage =
  igs_Disks :: "ign_disk list"
  igs_Filesystems :: "ign_fs list"

definition nonempty :: "string \<Rightarrow> string option" where
  "nonempty s = (if s = [] then None else Some s)"

text \<open>\<open>MountOptions\<close> is a string: the loop over it yields its characters, one option each.\<close>

definition ign_FileSystem :: "string \<times> FileSystem \<Rightarrow> ign_fs" where
  "ign_FileSystem e = (case e of (device, f) \<Rightarrow>
     \<lparr>igf_Device = device, igf_Path = Some (fs_Path f),
      igf_WipeFilesystem = map_option (\<lambda>_. FileSystem_WipeFileSystem f) (fs_WipeFileSystemP f),
      igf_Format = nonempty (fs_Format f), igf_Label = nonempty (fs_Label f),
      igf_MountOptions = map (\<lambda>c. [c]) (fs_MountOptions f),
      igf_Options = fs_Options f, igf_UUID = nonempty (fs_Uuid f)\<rparr>)"

definition number_of :: "string \<Rightarrow> int result" where
  "number_of s = (case Atoi s of (i, None) \<Rightarrow> Inr i | (_, Some e) \<Rightarrow> Inl e)"

definition ign_Partition :: "string \<times> Partition \<Rightarrow> ign_part result" where
  "ign_Partition e = (case e of (label, p) \<Rightarrow>
     (case (if pt_Number p = [] then Inr 0 else number_of (pt_Number p)) of
        Inl x \<Rightarrow> Inl x
      | Inr number \<Rightarrow>
          (case (if pt_SizeMiB p = [] then Inr None else map_sum id Some (number_of (pt_SizeMiB p))) of
             Inl x \<Rightarrow> Inl x
           | Inr sz \<Rightarrow>
               (case (if pt_StartMiB p = [] then Inr None else map_sum id Some (number_of (pt_SizeMiB p))) of
                  Inl x \<Rightarrow> Inl x
                | Inr start \<Rightarrow> Inr
                    \<lparr>igp_Label = Some label, igp_Number = number,
                     igp_ShouldExist = map_option (\<lambda>_. Partition_ShouldExist p) (pt_ShouldExistP p),
                     igp_WipePartitionEntry = map_option (\<lambda>_. Partition_WipePartitionEntry p) (pt_WipePartitionEntryP p),
                     igp_GUID = nonempty (pt_Guid p),
                     igp_Resize = map_option (\<lambda>_. Partition_Resize p) (pt_ResizeP p),
                     igp_SizeMiB = sz, igp_StartMiB = start, igp_TypeGUID = nonempty (pt_TypeGuid p)\<rparr>))))"

definition ign_less :: "ign_part \<Rightarrow> ign_part \<Rightarrow> bool result" where
  "ign_less i j =
     (if igp_Number i = igp_Number j then
        (case (igp_SizeMiB i, igp_SizeMiB j) of
           (Some _, None) \<Rightarrow> Inr True
         | (None, Some _) \<Rightarrow> Inr False
         | (Some a, Some b) \<Rightarrow> Inr (a < b)
         | (None, None) \<Rightarrow> Inl ErrPanic)
      else Inr (igp_Number i < igp_Number j))"

fun each :: "('a \<Rightarrow> 'b result) \<Rightarrow> 'a list \<Rightarrow> 'b list result" where
  "each f [] = Inr []"
| "each f (x # xs) = (case f x of
      Inl e \<Rightarrow> Inl e | Inr y \<Rightarrow> map_sum id (Cons y) (each f xs))"

definition ign_Disk :: "string \<times> Disk \<Rightarrow> ign_disk result" where
  "ign_Disk e = (case e of (dev, d) \<Rightarrow>
     (case each ign_Partition (gm_entries (dk_Partitions d)) of
        Inl x \<Rightarrow> Inl x
      | Inr ps \<Rightarrow>
          (case SliceStable ign_less ps of
             Inl x \<Rightarrow> Inl x
           | Inr ps \<Rightarrow> Inr \<lparr>igd_Device = dev, igd_Partitions = ps,
               igd_WipeTable = map_option (\<lambda>_. Disk_WipeTable d) (dk_WipeTableP d)\<rparr>)))"

definition empty_storage :: ign_storage where
  "empty_storage = \<lparr>igs_Disks = [], igs_Filesystems = []\<rparr>"

text \<open>A number that cannot be read ends the function with an error; \<open>Inl\<close> is the panic.\<close>

definition GetIgnitionStorage :: "(ign_storage \<Rightarrow> bool \<times> string) \<Rightarrow> Node \<Rightarrow> (ign_storage \<times> string \<times> err option) result" where
  "GetIgnitionStorage validate n =
     (let fileSystems = sort_key igf_Device (map ign_FileSystem (gm_entries (pf_FileSystems (nd_Profile n))))
      in case each ign_Disk (gm_entries (pf_Disks (nd_Profile n))) of
           Inl ErrPanic \<Rightarrow> Inl ErrPanic
         | Inl e \<Rightarrow> Inr (empty_storage, [], Some e)
         | Inr disks \<Rightarrow>
             let stor = \<lparr>igs_Disks = disks, igs_Filesystems = fileSystems\<rparr>;
                 (fatal, report) = validate stor
             in Inr (stor, report, if fatal then Some (ErrMsg report) else None))"

record SimpleIgnitionConfig =
  sic_Version :: string
  sic_Storage :: ign_storage

definition GetIgnitionConfig :: "(ign_storage \<Rightarrow> bool \<times> string) \<Rightarrow> Node \<Rightarrow> (SimpleIgnitionConfig \<times> string \<times> err option) result" where
  "GetIgnitionConfig validate n = map_sum id
     (\<lambda>(stor, rep, err). (\<lparr>sic_Version = ''3.1.0'', sic_Storage = stor\<rparr>, rep, err)) (GetIgnitionStorage validate n)"

section \<open>Sorting with a comparison that may panic\<close>

text \<open>Two partitions with the same number and no size: their comparison dereferences a nil pointer.\<close>

definition clash :: "ign_part \<Rightarrow> ign_part \<Rightarrow> bool" where
  "clash a b = (igp_Number a = igp_Number b \<and> igp_SizeMiB a = None \<and> igp_SizeMiB b = None)"

definition rank :: "ign_part \<Rightarrow> int \<times> bool \<times> int" where
  "rank p = (igp_Number p, igp_SizeMiB p = None, case igp_SizeMiB p of None \<Rightarrow> 0 | Some s \<Rightarrow> s)"

lemma ign_less_rank: "ign_less a b = (if clash a b then Inl ErrPanic else Inr (rank a < rank b))"
  by (auto simp: ign_less_def clash_def rank_def less_prod_def split: option.splits)

lemma clash_rank: "clash a b \<Longrightarrow> rank a = rank b"
  by (simp add: clash_def rank_def)

lemma rank_clash: "clash a b \<Longrightarrow> rank c = rank a \<Longrightarrow> clash a c"
  by (simp add: clash_def rank_def)

text \<open>The reversed sorted part is descending.\<close>

abbreviation descending :: "ign_part list \<Rightarrow> bool" where
  "descending ys \<equiv> sorted_wrt (\<lambda>a b. rank b \<le> rank a) ys"

lemma shift_result:
  "descending ys \<Longrightarrow> (if \<exists>y\<in>set ys. clash x y then shift ign_less x ys = Inl ErrPanic
     else \<exists>zs. shift ign_less x ys = Inr zs \<and> mset zs = add_mset x (mset ys) \<and> descending zs)"
proof (induction ys)
  case (Cons y ys)
  consider "clash x y" | "\<not> clash x y" "rank x < rank y" | "\<not> clash x y" "rank y \<le> rank x" by fastforce
  then show ?case
  proof cases
    case 2
    have s: "shift ign_less x (y # ys) = map_sum id (Cons y) (shift ign_less x ys)"
      using 2 by (simp add: ign_less_rank [of x y])
    show ?thesis
    proof (cases "\<exists>z\<in>set ys. clash x z")
      case True
      then show ?thesis using Cons s by auto
    next
      case False
      then obtain zs where z: "shift ign_less x ys = Inr zs" "mset zs = add_mset x (mset ys)" "descending zs"
        using Cons by auto
      have "set zs = insert x (set ys)" using z(2) by (metis set_mset_add_mset_insert set_mset_mset)
      then show ?thesis using False 2 z s Cons.prems by auto
    qed
  next
    case 3
    have "\<not> clash x z" if "z \<in> set ys" for z
    proof
      assume c: "clash x z"
      have "rank z \<le> rank y" using Cons.prems that by simp
      then have "rank y = rank x" using 3(2) clash_rank [OF c] by simp
      then show False using rank_clash [OF c] 3(1) by simp
    qed
    moreover have "(rank x < rank y) = False" using 3 by simp
    ultimately show ?thesis using 3 Cons.prems by (auto simp: ign_less_rank [of x y])
  qed (simp add: ign_less_rank [of x y])
qed simp

fun clashing :: "ign_part list \<Rightarrow> bool" where
  "clashing [] = False"
| "clashing (x # xs) = (list_ex (clash x) xs \<or> clashing xs)"

lemma clash_commute: "clash a b = clash b a"
  by (auto simp: clash_def)

lemma sort_from_result:
  "descending ys \<Longrightarrow>
     (if clashing xs \<or> (\<exists>x\<in>set xs. \<exists>y\<in>set ys. clash x y) then sort_from ign_less ys xs = Inl ErrPanic
      else \<exists>zs. sort_from ign_less ys xs = Inr zs \<and> mset zs = mset ys + mset xs \<and> sorted (map rank zs))"
proof (induction xs arbitrary: ys)
  case Nil
  then show ?case by (simp add: sorted_wrt_rev [of _ ys, symmetric] sorted_wrt_map)
next
  case (Cons x xs)
  note sh = shift_result [OF Cons.prems, of x]
  show ?case
  proof (cases "\<exists>y\<in>set ys. clash x y")
    case True
    then show ?thesis using sh by auto
  next
    case False
    then obtain zs where z: "shift ign_less x ys = Inr zs" "mset zs = add_mset x (mset ys)" "descending zs"
      using sh by auto
    have "set zs = insert x (set ys)" using z(2) by (metis set_mset_add_mset_insert set_mset_mset)
    then have "(clashing xs \<or> (\<exists>a\<in>set xs. \<exists>b\<in>set zs. clash a b)) =
        (clashing (x # xs) \<or> (\<exists>a\<in>set (x # xs). \<exists>b\<in>set ys. clash a b))"
      using False by (auto simp: list_ex_iff clash_commute [of x])
    then show ?thesis using Cons.IH [OF z(3)] z by auto
  qed
qed

lemma SliceStable_partitions:
  "if clashing ps then SliceStable ign_less ps = Inl ErrPanic
   else \<exists>qs. SliceStable ign_less ps = Inr qs \<and> mset qs = mset ps \<and> sorted (map rank qs)"
  using sort_from_result [of "[]" ps] by (auto simp: SliceStable_def)

section \<open>What the storage configuration is\<close>

lemma map_sum_Inr: "map_sum id g r = Inr y \<longleftrightarrow> (\<exists>z. r = Inr z \<and> y = g z)"
  by (cases r) auto

lemma map_sum_Inl: "map_sum id g r = Inl e \<longleftrightarrow> r = Inl e"
  by (cases r) auto

lemma each_Inr: "each f xs = Inr ys \<longleftrightarrow> list_all2 (\<lambda>x y. f x = Inr y) xs ys"
  by (induction xs arbitrary: ys) (auto simp: list_all2_Cons1 map_sum_Inr split: sum.splits)

lemma each_Inl: "each f xs = Inl e \<Longrightarrow> \<exists>x\<in>set xs. f x = Inl e"
  by (induction xs) (auto simp: map_sum_Inl split: sum.splits)

lemma each_Inr_elem: "each f xs = Inr ys \<Longrightarrow> x \<in> set xs \<Longrightarrow> \<exists>y. f x = Inr y"
  by (induction xs arbitrary: ys) (auto simp: map_sum_Inr split: sum.splits)

lemma each_total: "\<forall>x\<in>set xs. \<exists>y. f x = Inr y \<Longrightarrow> each f xs = Inr (map (\<lambda>x. projr (f x)) xs)"
  by (induction xs) auto

text \<open>Every number of the partition can be read. The start is read from the size.\<close>

definition readable :: "Partition \<Rightarrow> bool" where
  "readable p = ((pt_Number p = [] \<or> snd (Atoi (pt_Number p)) = None) \<and>
     (pt_SizeMiB p = [] \<and> pt_StartMiB p = [] \<or> snd (Atoi (pt_SizeMiB p)) = None))"

lemma number_of_Inr: "(\<exists>i. number_of s = Inr i) \<longleftrightarrow> snd (Atoi s) = None"
  by (cases "Atoi s") (auto simp: number_of_def split: option.splits)

lemma Atoi_not_panic: "Atoi s \<noteq> (i, Some ErrPanic)"
  by (auto simp: Atoi_def atoi_unsigned_def Let_def split: if_splits list.splits)

lemma ign_Partition_cases:
  "if readable p
   then \<exists>q. ign_Partition (l, p) = Inr q \<and>
     igp_Number q = (if pt_Number p = [] then 0 else fst (Atoi (pt_Number p))) \<and>
     (igp_SizeMiB q = None \<longleftrightarrow> pt_SizeMiB p = [])
   else \<exists>e. ign_Partition (l, p) = Inl e \<and> e \<noteq> ErrPanic"
  using Atoi_not_panic [of "pt_Number p"] Atoi_not_panic [of "pt_SizeMiB p"]
  by (cases "Atoi (pt_Number p)"; cases "Atoi (pt_SizeMiB p)")
     (auto simp: ign_Partition_def readable_def number_of_def split: option.splits)

text \<open>Two partitions of a disk with the same number and no size.\<close>

definition slot :: "Partition \<Rightarrow> int" where
  "slot p = (if pt_Number p = [] then 0 else fst (Atoi (pt_Number p)))"

fun same_slot :: "(string \<times> Partition) list \<Rightarrow> bool" where
  "same_slot [] = False"
| "same_slot (e # es) =
     (pt_SizeMiB (snd e) = [] \<and> list_ex (\<lambda>d. pt_SizeMiB (snd d) = [] \<and> slot (snd d) = slot (snd e)) es \<or> same_slot es)"

abbreviation ign_partitions :: "Disk \<Rightarrow> ign_part list" where
  "ign_partitions d \<equiv> map (\<lambda>e. projr (ign_Partition e)) (gm_entries (dk_Partitions d))"

lemma clashing_same_slot:
  "list_all (\<lambda>e. readable (snd e)) es \<Longrightarrow> clashing (map (\<lambda>e. projr (ign_Partition e)) es) = same_slot es"
proof (induction es)
  case (Cons e es)
  have q: "igp_Number (projr (ign_Partition d)) = slot (snd d) \<and>
      (igp_SizeMiB (projr (ign_Partition d)) = None \<longleftrightarrow> pt_SizeMiB (snd d) = [])" if "readable (snd d)" for d
    using ign_Partition_cases [of "snd d" "fst d"] that by (auto simp: slot_def)
  have "clash (projr (ign_Partition e)) (projr (ign_Partition d)) =
      (pt_SizeMiB (snd e) = [] \<and> pt_SizeMiB (snd d) = [] \<and> slot (snd d) = slot (snd e))" if "d \<in> set es" for d
    using q [of e] q [of d] that Cons.prems by (auto simp: clash_def list_all_iff)
  then have "list_ex (clash (projr (ign_Partition e))) (map (\<lambda>e. projr (ign_Partition e)) es) =
      (pt_SizeMiB (snd e) = [] \<and> list_ex (\<lambda>d. pt_SizeMiB (snd d) = [] \<and> slot (snd d) = slot (snd e)) es)"
    by (auto simp: list_ex_iff)
  then show ?case using Cons by simp
qed simp

definition disk_readable :: "Disk \<Rightarrow> bool" where
  "disk_readable d = list_all (\<lambda>e. readable (snd e)) (gm_entries (dk_Partitions d))"

definition disk_clash :: "Disk \<Rightarrow> bool" where
  "disk_clash d = same_slot (gm_entries (dk_Partitions d))"

text \<open>The disk of the configuration a disk becomes: the same partitions in the order of number and size.\<close>

definition disk_becomes :: "string \<times> Disk \<Rightarrow> ign_disk \<Rightarrow> bool" where
  "disk_becomes e i = (igd_Device i = fst e \<and> mset (igd_Partitions i) = mset (ign_partitions (snd e)) \<and>
     sorted (map rank (igd_Partitions i)) \<and> igd_WipeTable i = dk_WipeTableP (snd e))"

lemma ign_Disk_cases:
  "disk_readable (snd e) \<Longrightarrow> disk_clash (snd e) \<Longrightarrow> ign_Disk e = Inl ErrPanic"
  "disk_readable (snd e) \<Longrightarrow> \<not> disk_clash (snd e) \<Longrightarrow> \<exists>i. ign_Disk e = Inr i \<and> disk_becomes e i"
  "\<not> disk_readable (snd e) \<Longrightarrow> \<exists>x. ign_Disk e = Inl x \<and> x \<noteq> ErrPanic"
proof -
  obtain dev d where e: "e = (dev, d)" by (cases e)
  let ?es = "gm_entries (dk_Partitions d)"
  have part: "if readable (snd p) then \<exists>q. ign_Partition p = Inr q else \<exists>x. ign_Partition p = Inl x \<and> x \<noteq> ErrPanic" for p
    using ign_Partition_cases [of "snd p" "fst p"] by (auto split: if_splits)
  have all: "disk_readable d \<Longrightarrow> each ign_Partition ?es = Inr (ign_partitions d)"
    by (rule each_total) (use part in \<open>force simp: disk_readable_def list_all_iff\<close>)
  show "disk_readable (snd e) \<Longrightarrow> disk_clash (snd e) \<Longrightarrow> ign_Disk e = Inl ErrPanic"
    using all SliceStable_partitions [of "ign_partitions d"] clashing_same_slot [of ?es]
    by (simp add: e ign_Disk_def disk_readable_def disk_clash_def)
  show "disk_readable (snd e) \<Longrightarrow> \<not> disk_clash (snd e) \<Longrightarrow> \<exists>i. ign_Disk e = Inr i \<and> disk_becomes e i"
    using all SliceStable_partitions [of "ign_partitions d"] clashing_same_slot [of ?es]
    by (cases "dk_WipeTableP d")
       (auto simp: e ign_Disk_def disk_readable_def disk_clash_def disk_becomes_def Disk_WipeTable_def BoolP_def)
  show "\<exists>x. ign_Disk e = Inl x \<and> x \<noteq> ErrPanic" if "\<not> disk_readable (snd e)"
  proof (cases "each ign_Partition ?es")
    case (Inl x)
    obtain p where "ign_Partition p = Inl x" using each_Inl [OF Inl] by blast
    then have "x \<noteq> ErrPanic" using part [of p] by (auto split: if_splits)
    then show ?thesis using Inl by (simp add: e ign_Disk_def)
  next
    case (Inr qs)
    then have "\<forall>p\<in>set ?es. \<exists>q. ign_Partition p = Inr q"
      using each_Inr_elem [OF Inr] by auto
    then have "disk_readable d"
      unfolding disk_readable_def list_all_iff using part by (metis sum.distinct(1))
    then show ?thesis using that by (simp add: e)
  qed
qed

abbreviation node_disks :: "Node \<Rightarrow> (string \<times> Disk) list" where
  "node_disks n \<equiv> gm_entries (pf_Disks (nd_Profile n))"

definition storage_readable :: "Node \<Rightarrow> bool" where
  "storage_readable n = list_all (\<lambda>e. disk_readable (snd e)) (node_disks n)"

definition storage_clashes :: "Node \<Rightarrow> bool" where
  "storage_clashes n = list_ex (\<lambda>e. disk_clash (snd e)) (node_disks n)"


definition sample_storage_node :: Node where
  "sample_storage_node = zero_Node\<lparr>nd_Profile := zero_Profile\<lparr>pf_Disks := Some [
     (''/dev/sda'', zero_Disk\<lparr>dk_Partitions := Some [(''scratch'', zero_Partition), (''var'', zero_Partition)]\<rparr>)]\<rparr>\<rparr>"


text \<open>The start of a partition in the configuration is its size.\<close>

lemma ign_Partition_start:
  "ign_Partition (l, p) = Inr q \<Longrightarrow> pt_StartMiB p \<noteq> [] \<Longrightarrow> igp_StartMiB q = Some (fst (Atoi (pt_SizeMiB p)))"
  by (auto simp: ign_Partition_def number_of_def map_sum_Inr split: sum.splits if_splits prod.splits option.splits)

end
