(* ===== verification/Worker_Pool.thy ===== *)
theory Worker_Pool
  imports Go_Prelude "HOL-Library.Multiset"
begin

text \<open>
  The pool of workers that \<open>scanIncludedRoots\<close> and \<open>populateFileHashes\<close> of \<open>overlaydiff/diff.go\<close> start:
  the caller hands the jobs over an unbuffered channel, a worker that fails puts its error into a
  channel of capacity one and ends, and the caller looks at that channel before each job. The steps of
  the caller and of the workers interleave freely.

  A job either changes the shared state under the lock (\<open>Some f\<close>, which covers a job that is skipped:
  \<open>f\<close> is then the identity) or fails (\<open>None\<close>).
\<close>

section \<open>Steps\<close>

datatype 'j worker = Idle | Busy 'j | Gone

text \<open>
  Where the caller is: before the next turn of its loop, waiting for a worker to take a job, waiting
  for the workers after it closed the channel (with or without an error in hand), returned.
\<close>

datatype 'j caller = Looping | Sending 'j | Waiting bool | Returned bool

record ('j, 's) pool =
  pl_todo :: "'j list"
  pl_caller :: "'j caller"
  pl_workers :: "'j worker list"
  pl_err :: bool
  pl_shared :: 's

inductive pool_step :: "('j \<Rightarrow> ('s \<Rightarrow> 's) option) \<Rightarrow> ('j, 's) pool \<Rightarrow> ('j, 's) pool \<Rightarrow> bool" for work where
  take_err: "pl_caller p = Looping \<Longrightarrow> pl_todo p \<noteq> [] \<Longrightarrow> pl_err p \<Longrightarrow>
    pool_step work p (p\<lparr>pl_caller := Waiting True, pl_err := False\<rparr>)"
| offer: "pl_caller p = Looping \<Longrightarrow> pl_todo p = j # js \<Longrightarrow> \<not> pl_err p \<Longrightarrow>
    pool_step work p (p\<lparr>pl_caller := Sending j, pl_todo := js\<rparr>)"
| send: "pl_caller p = Sending j \<Longrightarrow> pl_workers p = xs @ Idle # ys \<Longrightarrow>
    pool_step work p (p\<lparr>pl_caller := Looping, pl_workers := xs @ Busy j # ys\<rparr>)"
| close: "pl_caller p = Looping \<Longrightarrow> pl_todo p = [] \<Longrightarrow>
    pool_step work p (p\<lparr>pl_caller := Waiting False\<rparr>)"
| leave: "pl_caller p = Waiting b \<Longrightarrow> pl_workers p = xs @ Idle # ys \<Longrightarrow>
    pool_step work p (p\<lparr>pl_workers := xs @ Gone # ys\<rparr>)"
| finish: "pl_workers p = xs @ Busy j # ys \<Longrightarrow> work j = Some f \<Longrightarrow>
    pool_step work p (p\<lparr>pl_workers := xs @ Idle # ys, pl_shared := f (pl_shared p)\<rparr>)"
| fail: "pl_workers p = xs @ Busy j # ys \<Longrightarrow> work j = None \<Longrightarrow>
    pool_step work p (p\<lparr>pl_workers := xs @ Gone # ys, pl_err := True\<rparr>)"
| return: "pl_caller p = Waiting b \<Longrightarrow> \<forall>w\<in>set (pl_workers p). w = Gone \<Longrightarrow>
    pool_step work p (p\<lparr>pl_caller := Returned (b \<or> pl_err p)\<rparr>)"

inductive_cases pool_stepE: "pool_step work p q"

definition pool_start :: "'j list \<Rightarrow> nat \<Rightarrow> 's \<Rightarrow> ('j, 's) pool" where
  "pool_start jobs n s = \<lparr>pl_todo = jobs, pl_caller = Looping, pl_workers = replicate n Idle,
     pl_err = False, pl_shared = s\<rparr>"

inductive pool_reach :: "('j \<Rightarrow> ('s \<Rightarrow> 's) option) \<Rightarrow> ('j, 's) pool \<Rightarrow> ('j, 's) pool \<Rightarrow> bool" for work p where
  here: "pool_reach work p p"
| step: "pool_reach work p q \<Longrightarrow> pool_step work q r \<Longrightarrow> pool_reach work p r"

definition pool_stuck :: "('j \<Rightarrow> ('s \<Rightarrow> 's) option) \<Rightarrow> ('j, 's) pool \<Rightarrow> bool" where
  "pool_stuck work p = (\<forall>q. \<not> pool_step work p q)"

section \<open>Every run ends\<close>

fun worker_weight :: "'j worker \<Rightarrow> nat" where
  "worker_weight Idle = 1" | "worker_weight (Busy j) = 2" | "worker_weight Gone = 0"

fun caller_weight :: "'j caller \<Rightarrow> nat" where
  "caller_weight Looping = 2" | "caller_weight (Sending j) = 4"
| "caller_weight (Waiting b) = 1" | "caller_weight (Returned b) = 0"

definition pool_weight :: "('j, 's) pool \<Rightarrow> nat" where
  "pool_weight p = 3 * length (pl_todo p) + caller_weight (pl_caller p) + sum_list (map worker_weight (pl_workers p))"

lemma pool_step_weight: "pool_step work p q \<Longrightarrow> pool_weight q < pool_weight p"
  by (erule pool_stepE) (auto simp: pool_weight_def)

lemma pool_run_ends: "wfP (\<lambda>q p. pool_step work p q)"
  unfolding wfp_def
  by (rule wf_subset [of "measure pool_weight"]) (auto dest: pool_step_weight)

lemma pool_reach_trans: "pool_reach work q r \<Longrightarrow> pool_reach work p q \<Longrightarrow> pool_reach work p r"
  by (induction rule: pool_reach.induct) (auto intro: pool_reach.intros)

lemma pool_ends: "\<exists>q. pool_reach work p q \<and> pool_stuck work q"
proof (induction p rule: measure_induct_rule [of pool_weight])
  case (less p)
  show ?case
  proof (cases "pool_stuck work p")
    case False
    then obtain q where q: "pool_step work p q" by (auto simp: pool_stuck_def)
    then obtain r where "pool_reach work q r" "pool_stuck work r"
      using less.IH [OF pool_step_weight] by blast
    then show ?thesis
      using pool_reach_trans [OF _ pool_reach.step [OF pool_reach.here q]] by blast
  qed (blast intro: pool_reach.here)
qed

section \<open>What a run has done\<close>

fun worker_job :: "'j worker \<Rightarrow> 'j list" where
  "worker_job (Busy j) = [j]" | "worker_job w = []"

fun caller_job :: "'j caller \<Rightarrow> 'j list" where
  "caller_job (Sending j) = [j]" | "caller_job c = []"

definition pending :: "('j, 's) pool \<Rightarrow> 'j multiset" where
  "pending p = mset (pl_todo p) + mset (caller_job (pl_caller p)) + mset (concat (map worker_job (pl_workers p)))"

definition apply_job :: "('j \<Rightarrow> ('s \<Rightarrow> 's) option) \<Rightarrow> 's \<Rightarrow> 'j \<Rightarrow> 's" where
  "apply_job work s j = (case work j of Some f \<Rightarrow> f s | None \<Rightarrow> s)"

definition gone :: "('j, 's) pool \<Rightarrow> nat" where
  "gone p = length (filter (\<lambda>w. w = Gone) (pl_workers p))"

text \<open>
  The invariant: the jobs are those done, those failed and those pending; the shared state is the
  effect of those done, in the order in which they were done; an error is in the channel or in the
  caller's hand exactly when a job failed.
\<close>

definition pool_facts ::
  "('j \<Rightarrow> ('s \<Rightarrow> 's) option) \<Rightarrow> 'j list \<Rightarrow> nat \<Rightarrow> 's \<Rightarrow> 'j list \<Rightarrow> 'j list \<Rightarrow> ('j, 's) pool \<Rightarrow> bool" where
  "pool_facts work jobs n s finished failed p = (
     pl_shared p = foldl (apply_job work) s finished \<and>
     (\<forall>j\<in>set finished. work j \<noteq> None) \<and> (\<forall>j\<in>set failed. work j = None) \<and>
     mset jobs = mset finished + mset failed + pending p \<and>
     length (pl_workers p) = n \<and>
     (failed \<noteq> [] \<longleftrightarrow> pl_err p \<or> pl_caller p = Waiting True \<or> pl_caller p = Returned True) \<and>
     (case pl_caller p of
        Looping \<Rightarrow> gone p = length failed
      | Sending j \<Rightarrow> gone p = length failed
      | Waiting b \<Rightarrow> b \<or> pl_todo p = []
      | Returned b \<Rightarrow> (b \<or> pl_todo p = [] \<and> \<not> pl_err p) \<and> (\<forall>w\<in>set (pl_workers p). w = Gone)))"

lemma pool_facts_start: "pool_facts work jobs n s [] [] (pool_start jobs n s)"
proof -
  have "concat (map worker_job (replicate n Idle)) = []" "filter (\<lambda>w. w = Gone) (replicate n Idle) = []"
    by (induction n) auto
  then show ?thesis
    by (simp add: pool_facts_def pool_start_def pending_def gone_def)
qed

lemma all_gone: "\<forall>w\<in>set ws. w = Gone \<Longrightarrow> length (filter (\<lambda>w. w = Gone) ws) = length ws"
  by (induction ws) auto

lemma pool_facts_step:
  assumes "pool_step work p q" "pool_facts work jobs n s finished failed p"
  shows "\<exists>finished failed. pool_facts work jobs n s finished failed q"
  using assms(1)
proof cases
  case (finish xs j ys f)
  then have "pool_facts work jobs n s (finished @ [j]) failed q"
    using assms(2) by (auto simp: pool_facts_def pending_def gone_def apply_job_def split: caller.splits)
  then show ?thesis by blast
next
  case (fail xs j ys)
  then have "pool_facts work jobs n s finished (failed @ [j]) q"
    using assms(2) by (auto simp: pool_facts_def pending_def gone_def split: caller.splits)
  then show ?thesis by blast
next
  case (return b)
  then have "pool_facts work jobs n s finished failed q"
    using assms(2) by (auto simp: pool_facts_def pending_def gone_def)
  then show ?thesis by blast
next
  case take_err
  then have "pool_facts work jobs n s finished failed q"
    using assms(2) by (auto simp: pool_facts_def pending_def gone_def)
  then show ?thesis by blast
next
  case (offer j js)
  then have "pool_facts work jobs n s finished failed q"
    using assms(2) by (auto simp: pool_facts_def pending_def gone_def)
  then show ?thesis by blast
next
  case (send j xs ys)
  then have "pool_facts work jobs n s finished failed q"
    using assms(2) by (auto simp: pool_facts_def pending_def gone_def)
  then show ?thesis by blast
next
  case close
  then have "pool_facts work jobs n s finished failed q"
    using assms(2) by (auto simp: pool_facts_def pending_def gone_def)
  then show ?thesis by blast
next
  case (leave b xs ys)
  then have "pool_facts work jobs n s finished failed q"
    using assms(2) by (auto simp: pool_facts_def pending_def gone_def)
  then show ?thesis by blast
qed

lemma pool_facts_reach:
  "pool_reach work (pool_start jobs n s) p \<Longrightarrow> \<exists>finished failed. pool_facts work jobs n s finished failed p"
proof (induction rule: pool_reach.induct)
  case here
  show ?case by (intro exI) (rule pool_facts_start)
next
  case (step q r)
  obtain finished failed where "pool_facts work jobs n s finished failed q"
    using step.IH by blast
  then show ?case by (rule pool_facts_step [OF step.hyps(2)])
qed

section \<open>How a run ends\<close>

text \<open>A caller that returned without an error has had every job done.\<close>

lemma pool_returned:
  assumes "pool_reach work (pool_start jobs n s) p" "pl_caller p = Returned False"
  shows "\<exists>finished. mset finished = mset jobs \<and> (\<forall>j\<in>set jobs. work j \<noteq> None) \<and>
    pl_shared p = foldl (apply_job work) s finished"
proof -
  obtain finished failed where f: "pool_facts work jobs n s finished failed p"
    using pool_facts_reach [OF assms(1)] by blast
  then have "concat (map worker_job (pl_workers p)) = []"
    using assms(2) by (auto simp: pool_facts_def)
  then have "mset jobs = mset finished"
    using f assms(2) by (auto simp: pool_facts_def pending_def)
  moreover from this have "set jobs = set finished" by (rule mset_eq_setD)
  ultimately show ?thesis using f by (auto simp: pool_facts_def)
qed

text \<open>Without a failing job and with at least one worker there is always a next step until the caller returns.\<close>

lemma worker_split:
  obtains xs ys where "ws = xs @ Idle # ys" | xs j ys where "ws = xs @ Busy j # ys" | "\<forall>w\<in>set ws. w = Gone"
  by (metis split_list worker.exhaust)

lemma pool_progress:
  assumes r: "pool_reach work (pool_start jobs n s) p" and n: "0 < n" and ok: "\<forall>j\<in>set jobs. work j \<noteq> None"
    and stuck: "pool_stuck work p"
  shows "pl_caller p = Returned False"
proof -
  obtain finished failed where f: "pool_facts work jobs n s finished failed p"
    using pool_facts_reach [OF r] by blast
  have "set failed \<subseteq> set jobs" "set (concat (map worker_job (pl_workers p))) \<subseteq> set jobs"
  proof -
    have "set_mset (mset jobs) = set_mset (mset finished + mset failed + pending p)"
      using f by (simp add: pool_facts_def)
    then show "set failed \<subseteq> set jobs" "set (concat (map worker_job (pl_workers p))) \<subseteq> set jobs"
      by (auto simp: pending_def)
  qed
  note in_jobs = this
  have "\<forall>j\<in>set failed. work j = None"
    using f by (simp add: pool_facts_def)
  with in_jobs(1) ok have nf: "failed = []"
    by (metis list.set_intros(1) neq_Nil_conv subsetD)
  have busy: "work j \<noteq> None" if "pl_workers p = xs @ Busy j # ys" for xs j ys
    using in_jobs(2) ok that by auto
  have no: "pl_workers p \<noteq> xs @ Busy j # ys" for xs j ys
    using stuck busy [of xs j ys] pool_step.finish [of p xs j ys work] unfolding pool_stuck_def by blast
  show ?thesis
  proof (cases "pl_caller p")
    case Looping
    then show ?thesis
      using stuck pool_step.close [of p work] pool_step.take_err [of p work] pool_step.offer [of p _ _ work]
      unfolding pool_stuck_def by (cases "pl_todo p") auto
  next
    case (Sending j)
    then have "pl_workers p \<noteq> xs @ Idle # ys" for xs ys
      using stuck pool_step.send [of p j xs ys work] unfolding pool_stuck_def by blast
    then have "\<forall>w\<in>set (pl_workers p). w = Gone" using no worker_split [of "pl_workers p"] by metis
    then show ?thesis
      using f n nf Sending all_gone [of "pl_workers p"] by (auto simp: pool_facts_def gone_def)
  next
    case (Waiting b)
    then have "pl_workers p \<noteq> xs @ Idle # ys" for xs ys
      using stuck pool_step.leave [of p b xs ys work] unfolding pool_stuck_def by blast
    then have "\<forall>w\<in>set (pl_workers p). w = Gone" using no worker_split [of "pl_workers p"] by metis
    then show ?thesis
      using stuck Waiting pool_step.return [of p b work] unfolding pool_stuck_def by blast
  next
    case (Returned b)
    then show ?thesis using f nf by (cases b) (simp_all add: pool_facts_def)
  qed
qed

section \<open>Jobs whose order does not matter\<close>

text \<open>
  What a client of the pool relies on: a run with jobs that commute has the effect of doing the jobs
  one after the other, whatever the interleaving.
\<close>

locale pool_jobs =
  fixes work :: "'j \<Rightarrow> ('s \<Rightarrow> 's) option"
  assumes commute: "work i = Some f \<Longrightarrow> work j = Some g \<Longrightarrow> f (g s) = g (f s)"
begin

lemma apply_commute: "apply_job work (apply_job work s i) j = apply_job work (apply_job work s j) i"
  by (auto simp: apply_job_def commute split: option.split)

lemma any_order: "mset xs = mset ys \<Longrightarrow> foldl (apply_job work) s xs = foldl (apply_job work) s ys"
proof -
  assume "mset xs = mset ys"
  moreover have "(\<lambda>s. apply_job work s i) \<circ> (\<lambda>s. apply_job work s j) = (\<lambda>s. apply_job work s j) \<circ> (\<lambda>s. apply_job work s i)" for i j
    by (auto simp: fun_eq_iff apply_commute)
  ultimately have "fold (\<lambda>j s. apply_job work s j) xs = fold (\<lambda>j s. apply_job work s j) ys"
    by (intro fold_multiset_equiv) auto
  then show ?thesis by (simp add: foldl_conv_fold)
qed

lemma success_is_sequential:
  assumes "pool_reach work (pool_start jobs n s) p" "pl_caller p = Returned False"
  shows "(\<forall>j\<in>set jobs. work j \<noteq> None) \<and> pl_shared p = foldl (apply_job work) s jobs"
  using pool_returned [OF assms] any_order by metis

lemma run_is_sequential:
  assumes "pool_reach work (pool_start jobs n s) p" "pool_stuck work p" "0 < n" "\<forall>j\<in>set jobs. work j \<noteq> None"
  shows "pl_caller p = Returned False \<and> pl_shared p = foldl (apply_job work) s jobs"
  using pool_progress [OF assms(1,3,4,2)] success_is_sequential [OF assms(1)] by blast

end

section \<open>Failing jobs\<close>

text \<open>
  As many failing jobs as there are workers, and a further job: the workers may all fail while the
  caller waits for one of them to take the further job.
\<close>

lemma pool_hand_out:
  "k \<le> length fs \<Longrightarrow> pool_reach work (pool_start (fs @ js) (length fs) s)
     \<lparr>pl_todo = drop k fs @ js, pl_caller = Looping,
      pl_workers = map Busy (take k fs) @ replicate (length fs - k) Idle, pl_err = False, pl_shared = s\<rparr>"
proof (induction k)
  case 0
  then show ?case using pool_reach.here by (simp add: pool_start_def)
next
  case (Suc k)
  let ?p = "\<lparr>pl_todo = drop k fs @ js, pl_caller = Looping,
      pl_workers = map Busy (take k fs) @ replicate (length fs - k) Idle, pl_err = False, pl_shared = s\<rparr>"
  let ?q = "?p\<lparr>pl_caller := Sending (fs ! k), pl_todo := drop (Suc k) fs @ js\<rparr>"
  have k: "drop k fs = fs ! k # drop (Suc k) fs" "length fs - k = Suc (length fs - Suc k)"
    "take (Suc k) fs = take k fs @ [fs ! k]"
    using Suc.prems by (simp_all add: Cons_nth_drop_Suc take_Suc_conv_app_nth)
  have "pool_step work ?p ?q"
    by (rule pool_step.offer) (simp_all add: k(1))
  moreover have "pool_step work ?q (?q\<lparr>pl_caller := Looping,
      pl_workers := map Busy (take k fs) @ Busy (fs ! k) # replicate (length fs - Suc k) Idle\<rparr>)"
    by (rule pool_step.send) (simp_all add: k(2))
  ultimately have "pool_reach work ?p (?q\<lparr>pl_caller := Looping,
      pl_workers := map Busy (take k fs) @ Busy (fs ! k) # replicate (length fs - Suc k) Idle\<rparr>)"
    by (blast intro: pool_reach.intros)
  then show ?case
    using pool_reach_trans [OF _ Suc.IH] Suc.prems by (simp add: k(3))
qed

lemma pool_all_fail:
  "\<forall>j\<in>set fs. work j = None \<Longrightarrow> pl_workers p = replicate k Gone @ map Busy fs \<Longrightarrow>
     pool_reach work p (p\<lparr>pl_workers := replicate (k + length fs) Gone, pl_err := pl_err p \<or> fs \<noteq> []\<rparr>)"
proof (induction fs arbitrary: p k)
  case Nil
  then have "p\<lparr>pl_workers := replicate (k + length []) Gone, pl_err := pl_err p \<or> [] \<noteq> []\<rparr> = p"
    by (cases p) simp
  then show ?case using pool_reach.here by metis
next
  case (Cons j fs)
  let ?q = "p\<lparr>pl_workers := replicate k Gone @ Gone # map Busy fs, pl_err := True\<rparr>"
  have st: "pool_step work p ?q"
    using pool_step.fail [of p "replicate k Gone" j "map Busy fs" work] Cons.prems by simp
  have "pool_reach work ?q (?q\<lparr>pl_workers := replicate (Suc k + length fs) Gone, pl_err := pl_err ?q \<or> fs \<noteq> []\<rparr>)"
    by (rule Cons.IH) (use Cons.prems in \<open>simp_all add: replicate_app_Cons_same\<close>)
  then show ?case
    using pool_reach_trans [OF _ pool_reach.step [OF pool_reach.here st]] by simp
qed

lemma pool_deadlock:
  assumes "\<forall>j\<in>set fs. work j = None" "fs \<noteq> []"
  shows "\<exists>p. pool_reach work (pool_start (fs @ j # js) (length fs) s) p \<and> pool_stuck work p \<and> pl_caller p = Sending j"
proof -
  let ?p = "\<lparr>pl_todo = js, pl_caller = Sending j, pl_workers = map Busy fs, pl_err = False, pl_shared = s\<rparr>"
  let ?q = "?p\<lparr>pl_workers := replicate (length fs) Gone, pl_err := True\<rparr>"
  have "pool_step work \<lparr>pl_todo = j # js, pl_caller = Looping, pl_workers = map Busy fs, pl_err = False, pl_shared = s\<rparr> ?p"
    using pool_step.offer [of "\<lparr>pl_todo = j # js, pl_caller = Looping, pl_workers = map Busy fs, pl_err = False, pl_shared = s\<rparr>"]
    by simp
  then have "pool_reach work (pool_start (fs @ j # js) (length fs) s) ?p"
    using pool_hand_out [of "length fs" fs work "j # js" s] by (auto intro: pool_reach.step)
  moreover have "pool_reach work ?p ?q"
    using pool_all_fail [of fs work ?p 0] assms by simp
  ultimately have "pool_reach work (pool_start (fs @ j # js) (length fs) s) ?q"
    using pool_reach_trans by blast
  moreover have "replicate (length fs) Gone \<noteq> xs @ w # ys" if "w \<noteq> Gone" for xs ys and w :: "'a worker"
    using that by (metis in_set_conv_decomp in_set_replicate)
  then have "pool_stuck work ?q"
    unfolding pool_stuck_def by (auto elim!: pool_stepE)
  ultimately show ?thesis by (intro exI [of _ ?q]) simp
qed

end
