(* ===== verification/Overlay_Diff.thy ===== *)
theory Overlay_Diff
  imports Worker_Pool Ww_Config Go_Files
begin

text \<open>
  The package \<open>overlaydiff\<close>: scanning a file tree (\<open>diff.go\<close>), comparing two scans, filtering changes
  (\<open>filter.go\<close>, \<open>excludes.go\<close>), summaries and snapshots (\<open>session.go\<close>, \<open>snapshot.go\<close>), and the checks of
  an exported artifact (\<open>artifact.go\<close>).

  \<^item> A tree is what the walk sees: the nested names (\<open>dtree\<close>, sorted as \<open>WalkDir\<close> visits them), and for
    each path, relative to the root, what the system calls return (\<open>sinfo\<close>). Errors are skippable
    (permission, not existing, no such device) or not. The tree does not change during a scan.
  \<^item> SHA-256 is the parameter \<open>sha\<close>. The number of processors is a parameter.
  \<^item> Times are in nanoseconds since 1970; \<open>None\<close> is the zero time.
\<close>

section \<open>Entries and changes\<close>

datatype EntryType = EntryFile | EntryDir | EntrySymlink

datatype ChangeType = ChangeAdded | ChangeRemoved | ChangeModified | ChangeModeChanged | ChangeTypeChanged

record Entry =
  en_Path :: string
  en_Type :: EntryType
  en_Mode :: int
  en_Size :: int
  en_MTimeUnixNano :: int
  en_Inode :: int
  en_Device :: int
  en_Hash :: string
  en_LinkTarget :: string

record Change =
  ch_Path :: string
  ch_Change :: ChangeType
  ch_Type :: EntryType
  ch_Mode :: int
  ch_Size :: int
  ch_Source :: "Entry option"
  ch_Baseline :: "Entry option"

record ScanOptions =
  so_Excludes :: "string list"
  so_IncludeRoots :: "string list"
  so_ScanWorkers :: int
  so_HashWorkers :: int
  so_BaselineEntries :: "Entry gomap"
  so_BaselineCapturedAt :: "int option"

definition newChange :: "string \<Rightarrow> ChangeType \<Rightarrow> Entry option \<Rightarrow> Entry option \<Rightarrow> Change" where
  "newChange path changeType source baseline =
     (let r = \<lparr>ch_Path = path, ch_Change = changeType, ch_Type = EntryFile, ch_Mode = 0, ch_Size = 0,
               ch_Source = source, ch_Baseline = baseline\<rparr>
      in case (source, baseline) of
           (Some e, _) \<Rightarrow> r\<lparr>ch_Type := en_Type e, ch_Mode := en_Mode e, ch_Size := en_Size e\<rparr>
         | (None, Some e) \<Rightarrow> r\<lparr>ch_Type := en_Type e, ch_Mode := en_Mode e, ch_Size := en_Size e\<rparr>
         | (None, None) \<Rightarrow> r)"

definition entryModified :: "Entry \<Rightarrow> Entry \<Rightarrow> bool" where
  "entryModified source baseline = (case en_Type source of
      EntryFile \<Rightarrow> en_Hash source \<noteq> en_Hash baseline
    | EntrySymlink \<Rightarrow> en_LinkTarget source \<noteq> en_LinkTarget baseline
    | EntryDir \<Rightarrow> False)"

definition source_change :: "Entry gomap \<Rightarrow> string \<times> Entry \<Rightarrow> Change option" where
  "source_change baseline e = (case e of (key, src) \<Rightarrow>
     (case gm_get baseline key of
        None \<Rightarrow> Some (newChange key ChangeAdded (Some src) None)
      | Some base \<Rightarrow>
          if en_Type src \<noteq> en_Type base then Some (newChange key ChangeTypeChanged (Some src) (Some base))
          else if entryModified src base then Some (newChange key ChangeModified (Some src) (Some base))
          else if en_Mode src \<noteq> en_Mode base then Some (newChange key ChangeModeChanged (Some src) (Some base))
          else None))"

definition removed_change :: "Entry gomap \<Rightarrow> string \<times> Entry \<Rightarrow> Change option" where
  "removed_change source e = (case e of (key, base) \<Rightarrow>
     (case gm_get source key of
        Some _ \<Rightarrow> None
      | None \<Rightarrow> Some (newChange key ChangeRemoved None (Some base))))"

definition Compare :: "Entry gomap \<Rightarrow> Entry gomap \<Rightarrow> Change list" where
  "Compare source baseline = sort_key ch_Path
     (List.map_filter (source_change baseline) (gm_entries source) @
      List.map_filter (removed_change source) (gm_entries baseline))"

section \<open>Excludes and filters\<close>

definition DefaultExcludes :: "string list" where
  "DefaultExcludes = [''/boot'', ''/home'', ''/root'', ''/media'', ''/mnt'', ''/var/log'', ''/var/cache'',
     ''/var/tmp'', ''/tmp'', ''/run'', ''/var/run'', ''/dev'', ''/proc'', ''/sys'']"

definition normalize_exclude :: "string \<Rightarrow> string option" where
  "normalize_exclude exclude = (let v = TrimSpace exclude in
     if v = [] then None
     else let v = Clean v in
       if v = ''.'' then None
       else Some (if HasPrefix v ''/'' then v else ''/'' @ v))"

fun keep_new :: "string list \<Rightarrow> string list \<Rightarrow> string list" where
  "keep_new seen [] = []"
| "keep_new seen (x # xs) = (if x \<in> set seen then keep_new seen xs else x # keep_new (x # seen) xs)"

definition NormalizeExcludes :: "string list \<Rightarrow> string list" where
  "NormalizeExcludes excludes = keep_new [] (List.map_filter normalize_exclude excludes)"

definition ResolveExcludes :: "string list \<Rightarrow> string list" where
  "ResolveExcludes overrides = NormalizeExcludes (DefaultExcludes @ overrides)"

definition under :: "string \<Rightarrow> string \<Rightarrow> bool" where
  "under p d = (p = d \<or> HasPrefix p (d @ ''/''))"

definition hasAutoExcludedSegment :: "string \<Rightarrow> bool" where
  "hasAutoExcludedSegment p = list_ex (\<lambda>s. s = ''cache'' \<or> s = ''.cache'') (Split p (CHR ''/''))"

definition shouldExclude :: "string \<Rightarrow> string list \<Rightarrow> bool" where
  "shouldExclude p excludes = (hasAutoExcludedSegment p \<or> list_ex (under p) excludes)"

definition shouldInclude :: "string \<Rightarrow> string list \<Rightarrow> bool" where
  "shouldInclude p incs = (incs = [] \<or> list_ex (\<lambda>i. under p i \<or> HasPrefix i (p @ ''/'')) incs)"

fun change_text :: "ChangeType \<Rightarrow> string" where
  "change_text ChangeAdded = ''added''" | "change_text ChangeRemoved = ''removed''"
| "change_text ChangeModified = ''modified''" | "change_text ChangeModeChanged = ''mode-changed''"
| "change_text ChangeTypeChanged = ''type-changed''"

definition ErrInvalidFilter :: "string \<Rightarrow> err" where
  "ErrInvalidFilter v = ErrMsg (''invalid --only value '' @ [CHR 0x22] @ v @ [CHR 0x22] @ '': expected added|modified|mode-changed'')"

fun ParseChangeTypes :: "string list \<Rightarrow> ChangeType list result" where
  "ParseChangeTypes [] = Inr []"
| "ParseChangeTypes (v # vs) =
     (let n = ToLower (TrimSpace v) in
      case find (\<lambda>t. change_text t = n) [ChangeAdded, ChangeModified, ChangeModeChanged] of
        None \<Rightarrow> Inl (ErrInvalidFilter v)
      | Some t \<Rightarrow> map_sum id (Cons t) (ParseChangeTypes vs))"

definition FilterChanges :: "Change list \<Rightarrow> ChangeType list \<Rightarrow> string list \<Rightarrow> Change list" where
  "FilterChanges changes only pathPrefix =
     (let prefixes = NormalizeExcludes pathPrefix
      in filter (\<lambda>c. (only = [] \<or> ch_Change c \<in> set only) \<and>
           (prefixes = [] \<or> list_ex (under (ch_Path c)) prefixes)) changes)"

section \<open>Scanning\<close>

datatype serr = Skippable | Fatal

record sinfo =
  sn_Type :: EntryType
  sn_Mode :: int
  sn_Size :: int
  sn_MTime :: int
  sn_Ino :: int
  sn_Dev :: int
  sn_Data :: string
  sn_Link :: string
  sn_lstat :: "serr option"
  sn_readlink :: "serr option"
  sn_readdir :: "serr option"
  sn_read :: "serr option"

datatype dtree = DTree "(string \<times> dtree) list"

definition mtimeGranularity :: int where
  "mtimeGranularity = 1000000000"

definition mtimeIsTrustworthy :: "Entry \<Rightarrow> int option \<Rightarrow> bool" where
  "mtimeIsTrustworthy baseline capturedAt = (case capturedAt of
      None \<Rightarrow> False | Some t \<Rightarrow> en_MTimeUnixNano baseline \<le> t - mtimeGranularity)"

definition canReuseFileHash :: "Entry \<Rightarrow> Entry \<Rightarrow> int option \<Rightarrow> bool" where
  "canReuseFileHash current baseline capturedAt =
     (if en_Type current \<noteq> EntryFile \<or> en_Type baseline \<noteq> EntryFile then False
      else if en_Hash baseline = [] then False
      else if \<not> mtimeIsTrustworthy baseline capturedAt then False
      else if en_Size current \<noteq> en_Size baseline \<or> en_Mode current \<noteq> en_Mode baseline \<or>
              en_MTimeUnixNano current \<noteq> en_MTimeUnixNano baseline then False
      else if en_Inode current \<noteq> 0 \<and> en_Device current \<noteq> 0 \<and> en_Inode baseline \<noteq> 0 \<and> en_Device baseline \<noteq> 0
           then en_Inode current = en_Inode baseline \<and> en_Device current = en_Device baseline
      else True)"

definition zero_Entry :: Entry where
  "zero_Entry = \<lparr>en_Path = [], en_Type = EntryFile, en_Mode = 0, en_Size = 0, en_MTimeUnixNano = 0,
     en_Inode = 0, en_Device = 0, en_Hash = [], en_LinkTarget = []\<rparr>"

text \<open>The entry of a path before hashing; the flag says that a hash is still to be computed.\<close>

definition scan_entry :: "ScanOptions \<Rightarrow> string \<Rightarrow> sinfo \<Rightarrow> Entry \<times> bool" where
  "scan_entry opts rel i =
     (let e = zero_Entry\<lparr>en_Path := rel, en_Type := sn_Type i, en_Mode := sn_Mode i\<rparr>
      in case sn_Type i of
           EntrySymlink \<Rightarrow> (e\<lparr>en_LinkTarget := sn_Link i\<rparr>, False)
         | EntryDir \<Rightarrow> (e, False)
         | EntryFile \<Rightarrow>
             let e = e\<lparr>en_Size := sn_Size i, en_MTimeUnixNano := sn_MTime i, en_Inode := sn_Ino i, en_Device := sn_Dev i\<rparr>
             in case gm_get (so_BaselineEntries opts) rel of
                  Some b \<Rightarrow> if canReuseFileHash e b (so_BaselineCapturedAt opts) then (e\<lparr>en_Hash := en_Hash b\<rparr>, False) else (e, True)
                | None \<Rightarrow> (e, True))"

type_synonym scan_state = "(string \<times> Entry) list \<times> string list"

definition put_entry :: "ScanOptions \<Rightarrow> string \<Rightarrow> sinfo \<Rightarrow> scan_state \<Rightarrow> scan_state" where
  "put_entry opts rel i st = (case scan_entry opts rel i of
     (e, job) \<Rightarrow> (al_update rel e (fst st), if job then snd st @ [rel] else snd st))"

fun scan_children :: "(string \<Rightarrow> sinfo) \<Rightarrow> ScanOptions \<Rightarrow> string list \<Rightarrow> string list \<Rightarrow> string \<Rightarrow>
    (string \<times> dtree) list \<Rightarrow> scan_state \<Rightarrow> scan_state result"
  and scan_one :: "(string \<Rightarrow> sinfo) \<Rightarrow> ScanOptions \<Rightarrow> string list \<Rightarrow> string list \<Rightarrow> string \<Rightarrow>
    dtree \<Rightarrow> scan_state \<Rightarrow> scan_state result" where
  "scan_children info opts incs excs dir [] st = Inr st"
| "scan_children info opts incs excs dir ((name, t) # ts) st =
     (case scan_one info opts incs excs (dir @ ''/'' @ name) t st of
        Inl e \<Rightarrow> Inl e
      | Inr st \<Rightarrow> scan_children info opts incs excs dir ts st)"
| "scan_one info opts incs excs rel (DTree ts) st =
     (if \<not> shouldInclude rel incs then Inr st
      else if shouldExclude rel excs then Inr st
      else (case sn_lstat (info rel) of
         Some Skippable \<Rightarrow> Inr st
       | Some Fatal \<Rightarrow> Inl ErrIO
       | None \<Rightarrow>
           (case sn_Type (info rel) of
              EntrySymlink \<Rightarrow>
                (case sn_readlink (info rel) of
                   Some Skippable \<Rightarrow> Inr st
                 | Some Fatal \<Rightarrow> Inl ErrIO
                 | None \<Rightarrow> Inr (put_entry opts rel (info rel) st))
            | EntryFile \<Rightarrow> Inr (put_entry opts rel (info rel) st)
            | EntryDir \<Rightarrow>
                (case sn_readdir (info rel) of
                   Some Skippable \<Rightarrow> Inr (put_entry opts rel (info rel) st)
                 | Some Fatal \<Rightarrow> Inl ErrIO
                 | None \<Rightarrow> scan_children info opts incs excs rel ts (put_entry opts rel (info rel) st)))))"

text \<open>A walk from the directory \<open>dir\<close>, which is not recorded itself.\<close>

definition scanTreeInto :: "(string \<Rightarrow> sinfo) \<Rightarrow> ScanOptions \<Rightarrow> string list \<Rightarrow> string list \<Rightarrow> string \<Rightarrow>
    dtree \<Rightarrow> scan_state result" where
  "scanTreeInto info opts incs excs dir t = (case t of DTree ts \<Rightarrow>
     (case sn_readdir (info dir) of
        Some Skippable \<Rightarrow> Inr ([], [])
      | Some Fatal \<Rightarrow> Inl ErrIO
      | None \<Rightarrow> scan_children info opts incs excs dir ts ([], [])))"

definition resolveScanWorkers :: "int \<Rightarrow> int \<Rightarrow> int" where
  "resolveScanWorkers numCPU workers = (if workers > 0 then workers else max 1 (min 12 (numCPU * 2)))"

definition resolve_hash_workers :: "int \<Rightarrow> int \<Rightarrow> int" where
  "resolve_hash_workers numCPU workers = (if workers \<le> 0 then max 1 (min 32 (numCPU * 3)) else workers)"

fun drop_nested :: "string list \<Rightarrow> string list \<Rightarrow> string list" where
  "drop_nested result [] = result"
| "drop_nested result (i # is') = drop_nested (if list_ex (under i) result then result else result @ [i]) is'"

definition dedupeTopLevelIncludes :: "string list \<Rightarrow> string list" where
  "dedupeTopLevelIncludes incs = (if length incs \<le> 1 then incs
     else drop_nested [] (sort_key length (sort incs)))"

text \<open>The subtree at the components of a path; links on the way are not followed.\<close>

fun subtree :: "dtree \<Rightarrow> string list \<Rightarrow> dtree option" where
  "subtree t [] = Some t"
| "subtree (DTree ts) (c # cs) = (case map_of ts c of None \<Rightarrow> None | Some t \<Rightarrow> subtree t cs)"

text \<open>What a worker of \<open>scanIncludedRoots\<close> does for one include root.\<close>

definition scan_include :: "(string \<Rightarrow> sinfo) \<Rightarrow> dtree \<Rightarrow> ScanOptions \<Rightarrow> string list \<Rightarrow> string \<Rightarrow> scan_state result" where
  "scan_include info t opts excs inc = (case subtree t (comps inc) of
      None \<Rightarrow> Inr ([], [])
    | Some s \<Rightarrow>
        (case sn_lstat (info inc) of
           Some Skippable \<Rightarrow> Inr ([], [])
         | Some Fatal \<Rightarrow> Inl ErrIO
         | None \<Rightarrow> if sn_Type (info inc) \<noteq> EntryDir then Inr ([], []) else scanTreeInto info opts [] excs inc s))"

type_synonym scan_shared = "(string \<Rightarrow> Entry option) \<times> string multiset"

definition include_work :: "(string \<Rightarrow> sinfo) \<Rightarrow> dtree \<Rightarrow> ScanOptions \<Rightarrow> string list \<Rightarrow> string \<Rightarrow> (scan_shared \<Rightarrow> scan_shared) option" where
  "include_work info t opts excs inc = (case scan_include info t opts excs inc of
      Inl _ \<Rightarrow> None
    | Inr (es, js) \<Rightarrow> Some (\<lambda>(m, jobs). (m ++ map_of es, jobs + mset js)))"

text \<open>What a worker of \<open>populateFileHashes\<close> does for one file.\<close>

definition hash_work :: "(string \<Rightarrow> string) \<Rightarrow> (string \<Rightarrow> sinfo) \<Rightarrow> string \<Rightarrow>
    ((string \<Rightarrow> Entry option) \<Rightarrow> (string \<Rightarrow> Entry option)) option" where
  "hash_work sha info rel = (case sn_read (info rel) of
      Some Fatal \<Rightarrow> None
    | Some Skippable \<Rightarrow> Some (\<lambda>m. m(rel := None))
    | None \<Rightarrow> Some (\<lambda>m. m(rel \<mapsto> (case m rel of None \<Rightarrow> zero_Entry | Some e \<Rightarrow> e)\<lparr>en_Hash := sha (sn_Data (info rel))\<rparr>)))"

text \<open>
  The two functions as their callers see them, when they return: the jobs one after the other, or an
  error when one of them failed. The pools below are shown to implement this.
\<close>

definition pool_outcome :: "('j \<Rightarrow> ('s \<Rightarrow> 's) option) \<Rightarrow> 'j list \<Rightarrow> 's \<Rightarrow> 's result" where
  "pool_outcome work jobs s =
     (if list_all (\<lambda>j. work j \<noteq> None) jobs then Inr (foldl (apply_job work) s jobs) else Inl ErrIO)"

definition populateFileHashes :: "(string \<Rightarrow> string) \<Rightarrow> (string \<Rightarrow> sinfo) \<Rightarrow> (string \<Rightarrow> Entry option) \<Rightarrow> string list \<Rightarrow>
    (string \<Rightarrow> Entry option) result" where
  "populateFileHashes sha info m jobs = (if jobs = [] then Inr m else pool_outcome (hash_work sha info) jobs m)"

text \<open>The order of the hash jobs depends on the workers; here they are sorted.\<close>

definition scanIncludedRoots :: "(string \<Rightarrow> string) \<Rightarrow> (string \<Rightarrow> sinfo) \<Rightarrow> dtree \<Rightarrow> string list \<Rightarrow> string list \<Rightarrow> ScanOptions \<Rightarrow>
    (string \<Rightarrow> Entry option) result" where
  "scanIncludedRoots sha info t incs excs opts =
     (case pool_outcome (include_work info t opts excs) (dedupeTopLevelIncludes incs) (Map.empty, {#}) of
        Inl e \<Rightarrow> Inl e
      | Inr (m, jobs) \<Rightarrow> populateFileHashes sha info m (sorted_list_of_multiset jobs))"

definition ScanTreeWithOptions :: "(string \<Rightarrow> string) \<Rightarrow> (string \<Rightarrow> sinfo) \<Rightarrow> dtree \<Rightarrow> ScanOptions \<Rightarrow>
    (string \<Rightarrow> Entry option) result" where
  "ScanTreeWithOptions sha info t opts =
     (if sn_lstat (info []) \<noteq> None \<or> sn_Type (info []) \<noteq> EntryDir then Inl ErrIO
      else let excs = NormalizeExcludes (so_Excludes opts); incs = NormalizeExcludes (so_IncludeRoots opts)
      in if incs \<noteq> [] then scanIncludedRoots sha info t incs excs opts
         else (case scanTreeInto info opts incs excs [] t of
            Inl e \<Rightarrow> Inl e
          | Inr (es, jobs) \<Rightarrow> populateFileHashes sha info (map_of es) jobs))"

section \<open>The pools\<close>

text \<open>Hashing: jobs for different files commute.\<close>

interpretation hashing: pool_jobs "hash_work sha info" for sha info
proof
  fix i f j g and s :: "string \<Rightarrow> Entry option"
  assume "hash_work sha info i = Some f" "hash_work sha info j = Some g"
  then show "f (g s) = g (f s)"
    by (cases "i = j") (auto simp: hash_work_def fun_upd_twist split: option.splits serr.splits)
qed

text \<open>Entries two walks have in common are equal, since an entry is determined by its path.\<close>

definition entry_at :: "(string \<Rightarrow> sinfo) \<Rightarrow> ScanOptions \<Rightarrow> string \<Rightarrow> Entry" where
  "entry_at info opts p = fst (scan_entry opts p (info p))"

definition scanned_ok :: "(string \<Rightarrow> sinfo) \<Rightarrow> ScanOptions \<Rightarrow> (string \<times> Entry) list \<Rightarrow> bool" where
  "scanned_ok info opts es = (\<forall>p e. map_of es p = Some e \<longrightarrow> e = entry_at info opts p)"

lemma put_entry_ok: "scanned_ok info opts (fst st) \<Longrightarrow> scanned_ok info opts (fst (put_entry opts rel (info rel) st))"
  by (auto simp: scanned_ok_def put_entry_def entry_at_def map_of_al_update split: prod.splits if_splits)

lemma put_entry_ok2:
  "put_entry opts rel (info rel) (es, js) = (es', js') \<Longrightarrow> scanned_ok info opts es \<Longrightarrow> scanned_ok info opts es'"
  using put_entry_ok [of info opts "(es, js)" rel] by simp

lemma scan_ok:
  "scan_children info opts incs excs dir ts st = Inr st' \<Longrightarrow> scanned_ok info opts (fst st) \<Longrightarrow> scanned_ok info opts (fst st')"
  "scan_one info opts incs excs rel t st = Inr st' \<Longrightarrow> scanned_ok info opts (fst st) \<Longrightarrow> scanned_ok info opts (fst st')"
  by (induction info opts incs excs dir ts st and info opts incs excs rel t st
      arbitrary: st' and st' rule: scan_children_scan_one.induct)
     (auto intro: put_entry_ok put_entry_ok2 split: if_splits sum.splits option.splits serr.splits EntryType.splits)

lemma scan_include_ok: "scan_include info t opts excs inc = Inr (es, js) \<Longrightarrow> scanned_ok info opts es"
  using scan_ok(1) [of info opts "[]" excs inc _ "([], [])" "(es, js)"]
  by (auto simp: scan_include_def scanTreeInto_def scanned_ok_def split: option.splits serr.splits if_splits dtree.splits)

interpretation scanning: pool_jobs "include_work info t opts excs" for info t opts excs
proof
  fix i f j g and s :: scan_shared
  assume "include_work info t opts excs i = Some f" "include_work info t opts excs j = Some g"
  then obtain es js es' js' where i: "scan_include info t opts excs i = Inr (es, js)" and f: "f = (\<lambda>(m, jobs). (m ++ map_of es, jobs + mset js))"
    and j: "scan_include info t opts excs j = Inr (es', js')" and g: "g = (\<lambda>(m, jobs). (m ++ map_of es', jobs + mset js'))"
    by (auto simp: include_work_def split: sum.splits)
  have "m ++ map_of es ++ map_of es' = m ++ map_of es' ++ map_of es" for m
    using scan_include_ok [OF i] scan_include_ok [OF j]
    by (auto simp: fun_eq_iff map_add_def scanned_ok_def split: option.split)
  then show "f (g s) = g (f s)"
    by (cases s) (simp add: f g)
qed

section \<open>What a comparison says\<close>

text \<open>What the comparison looks at, and what a change does to a tree.\<close>

definition state_of :: "Entry \<Rightarrow> EntryType \<times> int \<times> string" where
  "state_of e = (en_Type e, en_Mode e,
     case en_Type e of EntryFile \<Rightarrow> en_Hash e | EntrySymlink \<Rightarrow> en_LinkTarget e | EntryDir \<Rightarrow> [])"

definition apply_change :: "(string \<Rightarrow> Entry option) \<Rightarrow> Change \<Rightarrow> (string \<Rightarrow> Entry option)" where
  "apply_change m c = m(ch_Path c := (if ch_Change c = ChangeRemoved then None else ch_Source c))"

definition change_at :: "Entry gomap \<Rightarrow> Entry gomap \<Rightarrow> string \<Rightarrow> Change option" where
  "change_at s b k = (case gm_get s k of
      Some src \<Rightarrow> source_change b (k, src)
    | None \<Rightarrow> Option.bind (gm_get b k) (\<lambda>base. removed_change s (k, base)))"

lemma newChange_simps [simp]:
  "ch_Path (newChange k t s b) = k" "ch_Change (newChange k t s b) = t" "ch_Source (newChange k t s b) = s"
  by (simp_all add: newChange_def Let_def split: option.split)

lemma source_change_path: "source_change b (k, src) = Some c \<Longrightarrow> ch_Path c = k"
  by (auto simp: source_change_def split: option.splits if_splits)

lemma removed_change_path: "removed_change s (k, base) = Some c \<Longrightarrow> ch_Path c = k"
  by (auto simp: removed_change_def split: option.splits)

lemma gm_entries_get: "gm_ok m \<Longrightarrow> (k, v) \<in> set (gm_entries m) \<longleftrightarrow> gm_get m k = Some v"
  by (simp add: gm_ok_def gm_get_def gm_keys_def)

lemma set_map_filter: "y \<in> set (List.map_filter f xs) \<longleftrightarrow> (\<exists>x\<in>set xs. f x = Some y)"
  by (force simp: List.map_filter_def)

lemma at_path:
  assumes "\<And>k v c. f (k, v) = Some c \<Longrightarrow> ch_Path c = k"
  shows "(\<exists>k v. gm_get m k = Some v \<and> f (k, v) = Some c) \<longleftrightarrow>
    (\<exists>v. gm_get m (ch_Path c) = Some v \<and> f (ch_Path c, v) = Some c)"
  by (intro iffI; elim exE conjE; frule assms; auto)

lemma set_Compare:
  assumes "gm_ok s" "gm_ok b"
  shows "c \<in> set (Compare s b) \<longleftrightarrow> change_at s b (ch_Path c) = Some c"
proof -
  have "c \<in> set (Compare s b) \<longleftrightarrow>
      (\<exists>k src. gm_get s k = Some src \<and> source_change b (k, src) = Some c) \<or>
      (\<exists>k base. gm_get b k = Some base \<and> removed_change s (k, base) = Some c)"
    by (auto simp: Compare_def set_map_filter Bex_def gm_entries_get assms)
  also have "\<dots> \<longleftrightarrow>
      (\<exists>src. gm_get s (ch_Path c) = Some src \<and> source_change b (ch_Path c, src) = Some c) \<or>
      (\<exists>base. gm_get b (ch_Path c) = Some base \<and> removed_change s (ch_Path c, base) = Some c)"
    by (simp only: at_path [of "source_change b", OF source_change_path] at_path [of "removed_change s", OF removed_change_path])
  also have "\<dots> \<longleftrightarrow> change_at s b (ch_Path c) = Some c"
    by (auto simp: change_at_def bind_eq_Some_conv removed_change_def split: option.splits)
  finally show ?thesis .
qed

lemma change_at_iff: "change_at s b k \<noteq> None \<longleftrightarrow> map_option state_of (gm_get s k) \<noteq> map_option state_of (gm_get b k)"
  by (cases "gm_get s k"; cases "gm_get b k")
     (auto simp: change_at_def source_change_def removed_change_def entryModified_def state_of_def
        split: EntryType.splits if_splits)

lemma change_at_effect:
  "change_at s b k = Some c \<Longrightarrow> (if ch_Change c = ChangeRemoved then None else ch_Source c) = gm_get s k"
  by (cases "gm_get s k"; cases "gm_get b k")
     (auto simp: change_at_def source_change_def removed_change_def split: if_splits)

lemma map_filter_paths:
  assumes "distinct (map fst es)" "\<And>k v c. f (k, v) = Some c \<Longrightarrow> ch_Path c = k"
  shows "distinct (map ch_Path (List.map_filter f es))" "set (map ch_Path (List.map_filter f es)) \<subseteq> fst ` set es"
proof -
  show sub: "set (map ch_Path (List.map_filter f es)) \<subseteq> fst ` set es" for es
    using assms(2) by (force simp: set_map_filter)
  show "distinct (map ch_Path (List.map_filter f es))"
    using assms(1)
  proof (induction es)
    case (Cons e es)
    have "ch_Path c \<notin> set (map ch_Path (List.map_filter f es))" if "f e = Some c" for c
      using assms(2) [of "fst e" "snd e" c] that Cons.prems sub [of es] by auto
    then show ?case using Cons by (auto simp: List.map_filter_def split: option.splits)
  qed (simp add: List.map_filter_def)
qed

lemma distinct_Compare:
  assumes "gm_ok s" "gm_ok b"
  shows "distinct (map ch_Path (Compare s b))"
proof -
  let ?a = "List.map_filter (source_change b) (gm_entries s)" and ?r = "List.map_filter (removed_change s) (gm_entries b)"
  have "distinct (map ch_Path ?a)" "distinct (map ch_Path ?r)"
    using assms by (auto intro!: map_filter_paths simp: gm_ok_def gm_keys_def dest: source_change_path removed_change_path)
  moreover have "ch_Path c \<noteq> ch_Path d" if "c \<in> set ?a" "d \<in> set ?r" for c d
    using that by (auto simp: set_map_filter gm_entries_get assms removed_change_def split: option.splits
        dest!: source_change_path)
  ultimately have "distinct (map ch_Path (?a @ ?r))"
    by (auto simp: disjoint_iff)
  then show ?thesis
    unfolding Compare_def by (metis distinct_map distinct_sort set_sort)
qed

lemma apply_changes:
  "distinct (map ch_Path cs) \<Longrightarrow> foldl apply_change m cs k =
     (case find (\<lambda>c. ch_Path c = k) cs of
        None \<Rightarrow> m k
      | Some c \<Rightarrow> if ch_Change c = ChangeRemoved then None else ch_Source c)"
proof (induction cs arbitrary: m)
  case (Cons c cs)
  have "find (\<lambda>d. ch_Path d = ch_Path c) cs = None"
    using Cons.prems by (simp add: find_None_iff) (metis image_eqI)
  then show ?case using Cons by (auto simp: apply_change_def)
qed simp

text \<open>
  (C28) A comparison lists one change for every path whose type, mode, or contents differ between the
  two trees and for no other path, in the order of the paths; and applying these changes to the
  baseline gives the source: \<open>Diff\<close> returns the changes required to make the baseline match.
\<close>

theorem Compare_correct:
  assumes "gm_ok source" "gm_ok baseline"
  shows "sorted (map ch_Path (Compare source baseline)) \<and> distinct (map ch_Path (Compare source baseline)) \<and>
    (\<forall>k. k \<in> ch_Path ` set (Compare source baseline) \<longleftrightarrow>
       map_option state_of (gm_get source k) \<noteq> map_option state_of (gm_get baseline k)) \<and>
    (\<forall>k. map_option state_of (foldl apply_change (gm_get baseline) (Compare source baseline) k) =
       map_option state_of (gm_get source k))"
proof (intro conjI allI)
  note set = set_Compare [OF assms] and dist = distinct_Compare [OF assms]
  show "distinct (map ch_Path (Compare source baseline))" by (rule dist)
  show "sorted (map ch_Path (Compare source baseline))" by (simp add: Compare_def)
  have listed: "k \<in> ch_Path ` set (Compare source baseline) \<longleftrightarrow> change_at source baseline k \<noteq> None" for k
  proof
    assume "change_at source baseline k \<noteq> None"
    then obtain c where c: "change_at source baseline k = Some c" by blast
    then have "ch_Path c = k"
      by (auto simp: change_at_def bind_eq_Some_conv split: option.splits dest: source_change_path removed_change_path)
    then show "k \<in> ch_Path ` set (Compare source baseline)" using c set by force
  qed (auto simp: set)
  show "k \<in> ch_Path ` set (Compare source baseline) \<longleftrightarrow>
       map_option state_of (gm_get source k) \<noteq> map_option state_of (gm_get baseline k)" for k
    by (simp only: listed change_at_iff)
  show "map_option state_of (foldl apply_change (gm_get baseline) (Compare source baseline) k) =
       map_option state_of (gm_get source k)" for k
  proof (cases "find (\<lambda>c. ch_Path c = k) (Compare source baseline)")
    case None
    then have "k \<notin> ch_Path ` set (Compare source baseline)" by (auto simp: find_None_iff)
    then have "change_at source baseline k = None" using listed by blast
    then show ?thesis using None change_at_iff [of source baseline k] by (simp add: apply_changes [OF dist])
  next
    case (Some c)
    then have "c \<in> set (Compare source baseline)" "ch_Path c = k" by (auto simp: find_Some_iff)
    then have "change_at source baseline k = Some c" using set by simp
    then show ?thesis using Some change_at_effect [of source baseline k c] by (simp add: apply_changes [OF dist])
  qed
qed

definition sample_entry :: "string \<Rightarrow> string \<Rightarrow> Entry" where
  "sample_entry p h = zero_Entry\<lparr>en_Path := p, en_Mode := 420, en_Hash := h\<rparr>"

theorem Compare_correct_witness:
  "map_option en_Hash (foldl apply_change (gm_get (Some [(''/a'', sample_entry ''/a'' ''1''), (''/b'', sample_entry ''/b'' ''2'')]))
     (Compare (Some [(''/a'', sample_entry ''/a'' ''3'')]) (Some [(''/a'', sample_entry ''/a'' ''1''), (''/b'', sample_entry ''/b'' ''2'')])) ''/a'')
   = Some ''3'' \<and>
   ch_Path ` set (Compare (Some [(''/a'', sample_entry ''/a'' ''3'')]) (Some [(''/a'', sample_entry ''/a'' ''1''), (''/b'', sample_entry ''/b'' ''2'')]))
   = {''/a'', ''/b''}"
proof -
  let ?s = "Some [(''/a'', sample_entry ''/a'' ''3'')]"
  let ?b = "Some [(''/a'', sample_entry ''/a'' ''1''), (''/b'', sample_entry ''/b'' ''2'')]"
  have ok: "gm_ok ?s" "gm_ok ?b" by (simp_all add: gm_ok_def gm_keys_def gm_entries_def)
  note listed = Compare_correct [OF ok, THEN conjunct2, THEN conjunct2, THEN conjunct1, rule_format]
  note applied = Compare_correct [OF ok, THEN conjunct2, THEN conjunct2, THEN conjunct2, rule_format]
  have "map_option state_of (foldl apply_change (gm_get ?b) (Compare ?s ?b) ''/a'') = Some (EntryFile, 420, ''3'')"
    unfolding applied by (simp add: gm_get_def gm_entries_def state_of_def sample_entry_def zero_Entry_def)
  moreover have "map_option en_Hash x = Some h" if "map_option state_of x = Some (EntryFile, i, h)" for x i h
    using that by (cases x) (auto simp: state_of_def)
  moreover have "ch_Path ` set (Compare ?s ?b) = {''/a'', ''/b''}"
    by (rule set_eqI, unfold listed)
       (simp add: gm_get_def gm_entries_def state_of_def sample_entry_def zero_Entry_def)
  ultimately show ?thesis by blast
qed

section \<open>What hashing does\<close>

lemma hash_jobs_effect:
  assumes "\<forall>j\<in>set jobs. sn_read (info j) \<noteq> Some Fatal"
  shows "foldl (apply_job (hash_work sha info)) m jobs k =
    (if k \<in> set jobs
     then (if sn_read (info k) = Some Skippable then None
           else Some ((case m k of None \<Rightarrow> zero_Entry | Some e \<Rightarrow> e)\<lparr>en_Hash := sha (sn_Data (info k))\<rparr>))
     else m k)"
  using assms
proof (induction jobs arbitrary: m)
  case (Cons j jobs)
  have "sn_read (info j) = None \<or> sn_read (info j) = Some Skippable"
    using Cons.prems serr.exhaust by (cases "sn_read (info j)") auto
  then show ?case
    using Cons by (auto simp: apply_job_def hash_work_def split: option.splits)
qed simp

lemma hash_work_None: "hash_work sha info j = None \<longleftrightarrow> sn_read (info j) = Some Fatal"
  by (auto simp: hash_work_def split: option.splits serr.splits)


definition sample_sinfo :: sinfo where
  "sample_sinfo = \<lparr>sn_Type = EntryFile, sn_Mode = 420, sn_Size = 1, sn_MTime = 0, sn_Ino = 1, sn_Dev = 1,
     sn_Data = ''x'', sn_Link = [], sn_lstat = None, sn_readlink = None, sn_readdir = None, sn_read = None\<rparr>"

lemma sample_sinfo_simps: "sn_read sample_sinfo = None" "sn_Data sample_sinfo = ''x''"
  by (simp_all add: sample_sinfo_def)


text \<open>
  A failing job can stop the program for good: when every worker fails while the caller waits for one
  of them to take the next job, nothing can happen any more. Here one worker, and a first file that
  cannot be read.
\<close>

lemma populateFileHashes_deadlock:
  "\<exists>p. pool_reach (hash_work sha (\<lambda>f. sample_sinfo\<lparr>sn_read := if f = ''/bad'' then Some Fatal else None\<rparr>))
      (pool_start [''/bad'', ''/good''] 1 Map.empty) p \<and>
    pool_stuck (hash_work sha (\<lambda>f. sample_sinfo\<lparr>sn_read := if f = ''/bad'' then Some Fatal else None\<rparr>)) p \<and>
    pl_caller p = Sending ''/good''"
  using pool_deadlock [of "[''/bad'']" "hash_work sha (\<lambda>f. sample_sinfo\<lparr>sn_read := if f = ''/bad'' then Some Fatal else None\<rparr>)"
      "''/good''" "[]" Map.empty]
  by (simp add: hash_work_None)

end
