(* ===== verification/Overlay_Artifact.thy ===== *)
theory Overlay_Artifact
  imports Overlay_Diff
begin

text \<open>
  The rest of \<open>overlaydiff\<close>: the manifest of an exported artifact and its checks (\<open>artifact.go\<close>), the
  summary of changes (\<open>session.go\<close>) and snapshots (\<open>snapshot.go\<close>). Reading and writing JSON is a
  parameter; the current time is an argument.
\<close>

section \<open>Manifests\<close>

definition ArtifactManifestFileName :: string where
  "ArtifactManifestFileName = ''overlaydiff-manifest.json''"

definition ArtifactSchemaVersion :: string where
  "ArtifactSchemaVersion = ''v1''"

record DecisionSummary =
  ds_Selected :: int
  ds_Skipped :: int
  ds_Unset :: int

record ArtifactManifest =
  am_SchemaVersion :: string
  am_OverlayName :: string
  am_CreatedAt :: int
  am_SourceRoot :: string
  am_NodeSource :: string
  am_SelectedPaths :: "string list"
  am_Summary :: DecisionSummary

text \<open>The pattern \<open>^[A-Za-z0-9._-]+$\<close>.\<close>

definition overlay_name_char :: "char \<Rightarrow> bool" where
  "overlay_name_char c = (let n = (of_char c :: nat) in
     (65 \<le> n \<and> n \<le> 90) \<or> (97 \<le> n \<and> n \<le> 122) \<or> is_digit c \<or> c \<in> set ''._-'')"

definition ValidateOverlayName :: "string \<Rightarrow> err option" where
  "ValidateOverlayName name = (let trimmed = TrimSpace name in
     if trimmed = [] then Some (ErrMsg ''overlay name must not be empty'')
     else if \<not> list_all overlay_name_char trimmed then
       Some (ErrMsg (''invalid overlay name '' @ name @ '': use only letters, numbers, dot, dash, underscore''))
     else None)"

definition normalizeRelPath :: "string \<Rightarrow> string" where
  "normalizeRelPath p = (if HasPrefix p ''/'' then p else ''/'' @ p)"

definition BuildArtifactManifest :: "int \<Rightarrow> string \<Rightarrow> string \<Rightarrow> string \<Rightarrow> string list \<Rightarrow> DecisionSummary \<Rightarrow> ArtifactManifest" where
  "BuildArtifactManifest now overlayName sourceRoot nodeSource selectedPaths summary =
     \<lparr>am_SchemaVersion = ArtifactSchemaVersion, am_OverlayName = TrimSpace overlayName, am_CreatedAt = now,
      am_SourceRoot = sourceRoot, am_NodeSource = TrimSpace nodeSource,
      am_SelectedPaths = sort (keep_new [] (map (\<lambda>v. normalizeRelPath (TrimSpace v)) selectedPaths)),
      am_Summary = summary\<rparr>"

definition LoadArtifactManifest :: "(string \<Rightarrow> ArtifactManifest option) \<Rightarrow> ufs \<Rightarrow> string \<Rightarrow> ArtifactManifest result" where
  "LoadArtifactManifest parse u p = (case Stat u p of
      None \<Rightarrow> Inl ErrIO
    | Some n \<Rightarrow>
        if fn_kind n = Dir then Inl ErrIO
        else (case parse (fn_data n) of None \<Rightarrow> Inl ErrSyntax | Some m \<Rightarrow> Inr m))"

definition SaveArtifactManifest :: "(ArtifactManifest \<Rightarrow> string) \<Rightarrow> string \<Rightarrow> ArtifactManifest \<Rightarrow> ufs effect" where
  "SaveArtifactManifest render p m u = (case os_Create p u of
      (None, u) \<Rightarrow> (Some ErrIO, u)
    | (Some q, u) \<Rightarrow>
        (case Lstat u q of
           None \<Rightarrow> (Some ErrIO, u)
         | Some n \<Rightarrow> (None, set_node q (n\<lparr>fn_data := render m\<rparr>) u)))"

text \<open>The checks of a directory that must not be a link.\<close>

definition check_dir :: "ufs \<Rightarrow> string \<Rightarrow> err option" where
  "check_dir u p = (case Lstat u p of
      None \<Rightarrow> Some ErrIO
    | Some n \<Rightarrow>
        (case fn_kind n of
           Symlink _ \<Rightarrow> Some (ErrMsg (''must not be a symlink: '' @ p))
         | Dir \<Rightarrow> None
         | _ \<Rightarrow> Some (ErrMsg (''not a directory: '' @ p))))"

definition check_path :: "ufs \<Rightarrow> string \<Rightarrow> string \<Rightarrow> err option" where
  "check_path u rootfs selectedPath =
     (let normalized = normalizeRelPath (TrimSpace selectedPath)
      in if normalized \<noteq> selectedPath then Some (ErrMsg (''manifest path must be normalized absolute-style: '' @ selectedPath))
         else let target = path_Join [rootfs, TrimPrefix normalized ''/'']
         in case Rel rootfs target of
              None \<Rightarrow> Some (ErrMsg (''failed to resolve manifest path '' @ selectedPath))
            | Some rel \<Rightarrow>
                if rel = ''..'' \<or> HasPrefix rel ''../'' then Some (ErrMsg (''manifest path escapes rootfs: '' @ selectedPath))
                else (case Lstat u target of
                   None \<Rightarrow> Some (ErrMsg (''manifest path does not exist in artifact: '' @ selectedPath))
                 | Some _ \<Rightarrow> None))"

fun first_error :: "('a \<Rightarrow> err option) \<Rightarrow> 'a list \<Rightarrow> err option" where
  "first_error f [] = None"
| "first_error f (x # xs) = (case f x of Some e \<Rightarrow> Some e | None \<Rightarrow> first_error f xs)"

definition ValidateArtifact :: "(string \<Rightarrow> ArtifactManifest option) \<Rightarrow> ufs \<Rightarrow> string \<Rightarrow> err option" where
  "ValidateArtifact parse u root = (case check_dir u root of
      Some e \<Rightarrow> Some e
    | None \<Rightarrow>
        (case LoadArtifactManifest parse u (path_Join [root, ArtifactManifestFileName]) of
           Inl e \<Rightarrow> Some e
         | Inr manifest \<Rightarrow>
             if am_SchemaVersion manifest \<noteq> ArtifactSchemaVersion
             then Some (ErrMsg (''unsupported artifact schema version '' @ am_SchemaVersion manifest))
             else (case ValidateOverlayName (am_OverlayName manifest) of
                Some e \<Rightarrow> Some e
              | None \<Rightarrow>
                  (case check_dir u (path_Join [root, ''rootfs'']) of
                     Some e \<Rightarrow> Some e
                   | None \<Rightarrow> first_error (check_path u (path_Join [root, ''rootfs''])) (am_SelectedPaths manifest)))))"

section \<open>Summaries and snapshots\<close>

record ChangeSummary =
  cs_Path :: string
  cs_Change :: ChangeType
  cs_Type :: EntryType

text \<open>Sorted by path, then by the text of the change.\<close>

definition SummarizeChanges :: "Change list \<Rightarrow> ChangeSummary list" where
  "SummarizeChanges changes = sort_key cs_Path (sort_key (\<lambda>c. change_text (cs_Change c))
     (map (\<lambda>c. \<lparr>cs_Path = ch_Path c, cs_Change = ch_Change c, cs_Type = ch_Type c\<rparr>) changes))"

type_synonym Decision = string

definition DecisionUnset :: Decision where "DecisionUnset = ''unset''"
definition DecisionYes :: Decision where "DecisionYes = ''yes''"
definition DecisionNo :: Decision where "DecisionNo = ''no''"

record Snapshot =
  ss_SourceRoot :: string
  ss_CreatedAt :: int
  ss_Excludes :: "string list"
  ss_Entries :: "Entry gomap"
  ss_Changes :: "ChangeSummary list"
  ss_Decisions :: "Decision gomap"

definition NewSnapshot :: "int \<Rightarrow> string \<Rightarrow> string list \<Rightarrow> Entry gomap \<Rightarrow> Snapshot" where
  "NewSnapshot now sourceRoot excludes es =
     \<lparr>ss_SourceRoot = sourceRoot, ss_CreatedAt = now, ss_Excludes = NormalizeExcludes excludes, ss_Entries = es,
      ss_Changes = [], ss_Decisions = gm_make\<rparr>"

text \<open>What \<open>LoadSnapshot\<close> makes of the parsed snapshot.\<close>

definition LoadSnapshot :: "(string \<Rightarrow> Snapshot option) \<Rightarrow> ufs \<Rightarrow> string \<Rightarrow> Snapshot result" where
  "LoadSnapshot parse u p = (case Stat u p of
      None \<Rightarrow> Inl ErrIO
    | Some n \<Rightarrow>
        if fn_kind n = Dir then Inl ErrIO
        else (case parse (fn_data n) of
           None \<Rightarrow> Inl ErrSyntax
         | Some s \<Rightarrow> Inr (s\<lparr>ss_Excludes := NormalizeExcludes (ss_Excludes s),
             ss_Entries := (if ss_Entries s = None then gm_make else ss_Entries s),
             ss_Decisions := (if ss_Decisions s = None then gm_make else ss_Decisions s)\<rparr>)))"

definition DefaultDecisionStatePath :: "string \<Rightarrow> string" where
  "DefaultDecisionStatePath stateFile = stateFile @ ''.decisions.json''"

section \<open>What a valid artifact is\<close>

lemma first_error_None: "first_error f xs = None \<longleftrightarrow> (\<forall>x\<in>set xs. f x = None)"
  by (induction xs) (auto split: option.splits)

lemma Rel_inside:
  assumes "rooted base" "Rel base targ = Some rel" "rel \<noteq> ''..''" "\<not> HasPrefix rel ''../''"
  shows "\<exists>cs. comps targ = comps base @ cs"
proof -
  obtain bs ts where st: "strip_common (comps base) (comps targ) = (bs, ts)" by fastforce
  have rel: "rel = path_of False (replicate (length bs) ''..'' @ ts)"
    using assms(1,2) st by (auto simp: Rel_def split: if_splits)
  have "bs = []"
  proof (rule ccontr)
    assume "bs \<noteq> []"
    then obtain n where "length bs = Suc n" by (cases bs) auto
    then show False
      using assms(3,4) by (cases "replicate n ''..'' @ ts") (auto simp: rel path_of_def)
  qed
  with strip_common_parts [OF st] show ?thesis by auto
qed

lemma slash_not_name: "\<not> overlay_name_char (CHR ''/'')"
  by code_simp

lemma normalizeRelPath_slash: "HasPrefix (normalizeRelPath s) ''/''"
  by (simp add: normalizeRelPath_def)

lemma check_path_ok:
  assumes "rooted rootfs" "check_path u rootfs p = None"
  shows "HasPrefix p ''/'' \<and> Lstat u (path_Join [rootfs, TrimPrefix p ''/'']) \<noteq> None \<and>
    (\<exists>cs. comps (path_Join [rootfs, TrimPrefix p ''/'']) = comps rootfs @ cs)"
proof -
  let ?t = "path_Join [rootfs, TrimPrefix p ''/'']"
  have n: "normalizeRelPath (TrimSpace p) = p"
    using assms(2) by (auto simp: check_path_def Let_def split: if_splits)
  then obtain rel where rel: "Rel rootfs ?t = Some rel" "rel \<noteq> ''..''" "\<not> HasPrefix rel ''../''" "Lstat u ?t \<noteq> None"
    using assms(2) by (auto simp: check_path_def Let_def split: if_splits option.splits)
  have "HasPrefix p ''/''"
    using n normalizeRelPath_slash by metis
  then show ?thesis
    using rel Rel_inside [OF assms(1) rel(1-3)] by blast
qed


definition sample_manifest :: ArtifactManifest where
  "sample_manifest = BuildArtifactManifest 0 ''web'' ''/'' [] ['' etc/motd'', ''/etc/motd''] \<lparr>ds_Selected = 1, ds_Skipped = 0, ds_Unset = 0\<rparr>"

definition sample_artifact :: ufs where
  "sample_artifact = \<lparr>uf_nodes = [
      (''/a'', \<lparr>fn_kind = Dir, fn_uid = 0, fn_gid = 0, fn_data = []\<rparr>),
      (''/a/overlaydiff-manifest.json'', \<lparr>fn_kind = Regular, fn_uid = 0, fn_gid = 0, fn_data = []\<rparr>),
      (''/a/rootfs'', \<lparr>fn_kind = Dir, fn_uid = 0, fn_gid = 0, fn_data = []\<rparr>),
      (''/a/rootfs/etc/motd'', \<lparr>fn_kind = Regular, fn_uid = 0, fn_gid = 0, fn_data = []\<rparr>)], uf_refuse = []\<rparr>"


text \<open>
  A name of dots is accepted. As a directory below the one of the site overlays it is that directory
  or its parent, which \<open>wwctl overlay import --overwrite\<close> removes first.
\<close>

lemma ValidateOverlayName_dots: "ValidateOverlayName ''..'' = None \<and> path_Join [''/var/lib/warewulf/overlays'', ''..''] = ''/var/lib/warewulf''"
  by code_simp

end
