(* ===== verification/Overlay_Build.thy ===== *)
theory Overlay_Build
  imports Go_Files
begin

text \<open>
  The package \<open>overlay\<close>: finding and changing overlays (\<open>config.go\<close> and the methods of \<open>overlay.go\<close>),
  rendering templates into files, and building overlays into a directory.

  \<^item> The text of a symbolic link is kept as the contents of its node.
  \<^item> The directories of site and distribution overlays are arguments, as is \<open>copy.DirCopy\<close> of the
    container storage library (\<open>dircopy\<close>).
  \<^item> The template engine is the parameter \<open>exec\<close>: the calls a template makes while it runs, in order.
    What these calls do to the result is modelled.
  \<^item> Permission bits are not modelled: \<open>Chmod\<close> checks its path and changes nothing.
\<close>

section \<open>More calls on files\<close>

definition is_link :: "fnode \<Rightarrow> bool" where
  "is_link n = (case fn_kind n of Symlink _ \<Rightarrow> True | _ \<Rightarrow> False)"

definition uIsDir :: "ufs \<Rightarrow> string \<Rightarrow> bool" where
  "uIsDir u p = (p \<noteq> [] \<and> map_option fn_kind (Stat u p) = Some Dir)"

definition uIsFile :: "ufs \<Rightarrow> string \<Rightarrow> bool" where
  "uIsFile u p = (p \<noteq> [] \<and> (case Lstat u p of Some n \<Rightarrow> fn_kind n \<noteq> Dir | None \<Rightarrow> False))"

definition new_node :: "fkind \<Rightarrow> string \<Rightarrow> fnode" where
  "new_node k d = \<lparr>fn_kind = k, fn_uid = 0, fn_gid = 0, fn_data = d\<rparr>"

text \<open>\<open>os.MkdirAll\<close>: the missing directories on the way, from the top.\<close>

fun mkdirs :: "bool \<Rightarrow> string list \<Rightarrow> string list \<Rightarrow> ufs effect" where
  "mkdirs r ds [] u = (None, u)"
| "mkdirs r ds (c # cs) u =
     (let p = path_of r (ds @ [c])
      in case Stat u p of
           Some n \<Rightarrow> if fn_kind n = Dir then mkdirs r (ds @ [c]) cs u else (Some ErrIO, u)
         | None \<Rightarrow> if p \<in> set (uf_refuse u) \<or> Lstat u p \<noteq> None then (Some ErrIO, u)
                   else mkdirs r (ds @ [c]) cs (set_node p (new_node Dir []) u))"

definition os_MkdirAll :: "string \<Rightarrow> ufs effect" where
  "os_MkdirAll p u = (if p = [] then (Some ErrIO, u) else mkdirs (rooted p) [] (comps p) u)"

text \<open>\<open>os.RemoveAll\<close> removes what it can; what is left is refused or contains something refused.\<close>

definition os_RemoveAll :: "string \<Rightarrow> ufs effect" where
  "os_RemoveAll p u =
     (let left = filter (\<lambda>e. \<not> below p (fst e) \<or> list_ex (below (fst e)) (uf_refuse u)) (uf_nodes u)
      in (if list_ex (\<lambda>e. below p (fst e)) left then Some ErrIO else None, u\<lparr>uf_nodes := left\<rparr>))"

definition os_WriteFile :: "string \<Rightarrow> string \<Rightarrow> ufs effect" where
  "os_WriteFile p d u = (case os_Create p u of
      (None, u) \<Rightarrow> (Some ErrIO, u)
    | (Some q, u) \<Rightarrow> (case Lstat u q of
         None \<Rightarrow> (Some ErrIO, u)
       | Some n \<Rightarrow> (None, set_node q (n\<lparr>fn_data := d\<rparr>) u)))"

text \<open>\<open>os.Symlink\<close>: where following the new link ends, as things are when it is made.\<close>

definition link_end :: "ufs \<Rightarrow> string \<Rightarrow> string \<Rightarrow> string option" where
  "link_end u p target = follow_link u (if rooted target then Clean target else path_Join [parent p, target])"

definition os_Symlink :: "string \<Rightarrow> string \<Rightarrow> ufs effect" where
  "os_Symlink target p u =
     (if p = [] \<or> Lstat u p \<noteq> None \<or> p \<in> set (uf_refuse u) \<or> map_option fn_kind (Lstat u (parent p)) \<noteq> Some Dir
      then (Some ErrIO, u)
      else (None, set_node p (new_node (Symlink (link_end u p target)) target) u))"

text \<open>\<open>os.Rename\<close> of something that is not a directory.\<close>

definition os_Rename :: "string \<Rightarrow> string \<Rightarrow> ufs effect" where
  "os_Rename p q u = (case Lstat u p of
      None \<Rightarrow> (Some ErrIO, u)
    | Some n \<Rightarrow>
        if fn_kind n = Dir \<or> p \<in> set (uf_refuse u) \<or> q \<in> set (uf_refuse u) \<or>
           map_option fn_kind (Lstat u q) = Some Dir \<or> map_option fn_kind (Lstat u (parent q)) \<noteq> Some Dir
        then (Some ErrIO, u)
        else (None, set_node q n (u\<lparr>uf_nodes := filter (\<lambda>e. fst e \<noteq> p) (uf_nodes u)\<rparr>)))"

section \<open>Overlays\<close>

type_synonym Overlay = string

definition Overlay_Name :: "Overlay \<Rightarrow> string" where
  "Overlay_Name o1 = path_Base o1"

definition Overlay_Rootfs :: "ufs \<Rightarrow> Overlay \<Rightarrow> string" where
  "Overlay_Rootfs u o1 = (let rootfs = path_Join [o1, ''rootfs''] in
     if uIsDir u rootfs then rootfs else if uIsDir u o1 then o1 else rootfs)"

definition Overlay_File :: "ufs \<Rightarrow> Overlay \<Rightarrow> string \<Rightarrow> string" where
  "Overlay_File u o1 f = (let rootfs = Overlay_Rootfs u o1; cleanPath = Clean (path_Join [rootfs, f]) in
     case Rel (Clean rootfs) cleanPath of
       None \<Rightarrow> []
     | Some rel \<Rightarrow> if HasPrefix rel ''..'' then [] else cleanPath)"

definition Overlay_Exists :: "ufs \<Rightarrow> Overlay \<Rightarrow> bool" where
  "Overlay_Exists u o1 = uIsDir u o1"

definition below_dir :: "string \<Rightarrow> Overlay \<Rightarrow> bool" where
  "below_dir d o1 = (case Rel (Clean d) (Clean o1) of None \<Rightarrow> False | Some rel \<Rightarrow> \<not> HasPrefix rel ''..'')"

definition IsSiteOverlay :: "string \<Rightarrow> Overlay \<Rightarrow> bool" where
  "IsSiteOverlay sitedir o1 = below_dir sitedir o1"

definition IsDistributionOverlay :: "string \<Rightarrow> Overlay \<Rightarrow> bool" where
  "IsDistributionOverlay distdir o1 = below_dir distdir o1"

definition getSiteOverlay :: "string \<Rightarrow> string \<Rightarrow> Overlay" where
  "getSiteOverlay sitedir name = path_Join [sitedir, name]"

definition getDistributionOverlay :: "string \<Rightarrow> string \<Rightarrow> Overlay" where
  "getDistributionOverlay distdir name = path_Join [distdir, name]"

definition overlay_Get :: "string \<Rightarrow> string \<Rightarrow> ufs \<Rightarrow> string \<Rightarrow> Overlay result" where
  "overlay_Get sitedir distdir u name = (case ValidateName name of
      Some e \<Rightarrow> Inl e
    | None \<Rightarrow>
        if Overlay_Exists u (getSiteOverlay sitedir name) then Inr (getSiteOverlay sitedir name)
        else if Overlay_Exists u (getDistributionOverlay distdir name) then Inr (getDistributionOverlay distdir name)
        else Inl ErrDoesNotExist)"

definition overlay_Create :: "string \<Rightarrow> string \<Rightarrow> ufs effect" where
  "overlay_Create sitedir name u = (case ValidateName name of
      Some e \<Rightarrow> (Some e, u)
    | None \<Rightarrow>
        let o1 = getSiteOverlay sitedir name in
        if Overlay_Exists u o1 then (Some (ErrMsg (''overlay already exists: '' @ name)), u)
        else os_MkdirAll (path_Join [o1, ''rootfs'']) u)"

text \<open>\<open>CloneToSite\<close>; the overlay it returns is the site overlay of that name in all cases.\<close>

definition CloneToSite :: "(string \<Rightarrow> string \<Rightarrow> ufs effect) \<Rightarrow> string \<Rightarrow> Overlay \<Rightarrow> ufs effect" where
  "CloneToSite dircopy sitedir o1 u =
     (let site = getSiteOverlay sitedir (Overlay_Name o1) in
      if Overlay_Exists u site then (None, u)
      else if \<not> Overlay_Exists u o1 then (Some (ErrMsg (''source overlay does not exist: '' @ Overlay_Name o1)), u)
      else and_then (if uIsDir u (parent site) then (None, u) else os_MkdirAll (parent site) u)
        (dircopy o1 site))"

text \<open>The overlay that may be changed: the site overlay, cloned first when the given one is none.\<close>

definition writable :: "(string \<Rightarrow> string \<Rightarrow> ufs effect) \<Rightarrow> string \<Rightarrow> bool \<Rightarrow> Overlay \<Rightarrow> (Overlay \<Rightarrow> ufs effect) \<Rightarrow> ufs effect" where
  "writable dircopy sitedir clone o1 f u =
     (if clone then and_then (CloneToSite dircopy sitedir o1 u) (f (getSiteOverlay sitedir (Overlay_Name o1)))
      else f o1 u)"

definition AddFile :: "(string \<Rightarrow> string \<Rightarrow> ufs effect) \<Rightarrow> string \<Rightarrow> Overlay \<Rightarrow> string \<Rightarrow> string \<Rightarrow> bool \<Rightarrow> bool \<Rightarrow> ufs effect" where
  "AddFile dircopy sitedir o1 filePath content parents force =
     writable dircopy sitedir (\<not> IsSiteOverlay sitedir o1) o1 (\<lambda>o1 u.
       let fullPath = Overlay_File u o1 filePath in
       and_then (if parents then os_MkdirAll (if fullPath = [] then ''.'' else parent fullPath) u else (None, u)) (\<lambda>u.
         if uIsFile u fullPath \<and> \<not> force then (Some (ErrMsg (''file '' @ filePath @ '' already exists in overlay '' @ Overlay_Name o1)), u)
         else if fullPath = [] then (Some ErrIO, u)
         else os_WriteFile fullPath content u))"

definition Overlay_Delete :: "string \<Rightarrow> Overlay \<Rightarrow> bool \<Rightarrow> ufs effect" where
  "Overlay_Delete distdir o1 force u =
     (if IsDistributionOverlay distdir o1 then (Some (ErrMsg (''cannot delete a distribution overlay: '' @ Overlay_Name o1)), u)
      else if force then os_RemoveAll o1 u
      else and_then (os_Remove (Overlay_Rootfs u o1) u) (\<lambda>u.
        if Overlay_Exists u o1 then os_Remove o1 u else (None, u)))"

text \<open>
  Removing empty parents: the loop ends at the root of the overlay, at a directory that cannot be
  removed, or at the top of the path. Errors are not reported.
\<close>

fun remove_up :: "Overlay \<Rightarrow> bool \<Rightarrow> string list \<Rightarrow> ufs \<Rightarrow> ufs" where
  "remove_up o1 r [] u = u"
| "remove_up o1 r (c # cs) u =
     (let i = path_of r (rev (c # cs))
      in if i = Overlay_Rootfs u o1 then u
         else (case os_Remove i u of
            (None, u) \<Rightarrow> remove_up o1 r cs u
          | (Some _, u) \<Rightarrow> u))"

definition DeleteFile :: "(string \<Rightarrow> string \<Rightarrow> ufs effect) \<Rightarrow> string \<Rightarrow> string \<Rightarrow> Overlay \<Rightarrow> string \<Rightarrow> bool \<Rightarrow> bool \<Rightarrow> ufs effect" where
  "DeleteFile dircopy sitedir distdir o1 filePath force cleanup u =
     (if \<not> uIsFile u (Overlay_File u o1 filePath) then (Some (ErrMsg (''file '' @ filePath @ '' does not exist in overlay '' @ Overlay_Name o1)), u)
      else writable dircopy sitedir (IsDistributionOverlay distdir o1) o1 (\<lambda>o1 u.
        let fullPath = Overlay_File u o1 filePath in
        and_then (if force then os_RemoveAll fullPath u else os_Remove fullPath u) (\<lambda>u.
          (None, if cleanup then remove_up o1 (rooted fullPath) (tl (rev (comps fullPath))) u else u))) u)"

definition Overlay_Chmod :: "(string \<Rightarrow> string \<Rightarrow> ufs effect) \<Rightarrow> string \<Rightarrow> Overlay \<Rightarrow> string \<Rightarrow> ufs effect" where
  "Overlay_Chmod dircopy sitedir o1 p =
     writable dircopy sitedir (\<not> IsSiteOverlay sitedir o1) o1 (\<lambda>o1 u.
       let fullPath = Overlay_File u o1 p in
       if \<not> uIsFile u fullPath \<and> \<not> uIsDir u fullPath then (Some (ErrMsg (''file does not exist within overlay: '' @ Overlay_Name o1 @ '':'' @ fullPath)), u)
       else (case follow_link u fullPath of
          None \<Rightarrow> (Some ErrIO, u)
        | Some q \<Rightarrow> (if Lstat u q = None \<or> q \<in> set (uf_refuse u) then Some ErrIO else None, u)))"

definition Overlay_Chown :: "(string \<Rightarrow> string \<Rightarrow> ufs effect) \<Rightarrow> string \<Rightarrow> Overlay \<Rightarrow> string \<Rightarrow> int \<Rightarrow> int \<Rightarrow> ufs effect" where
  "Overlay_Chown dircopy sitedir o1 p uid gid =
     writable dircopy sitedir (\<not> IsSiteOverlay sitedir o1) o1 (\<lambda>o1 u.
       let fullPath = Overlay_File u o1 p in
       if \<not> uIsFile u fullPath \<and> \<not> uIsDir u fullPath then (Some (ErrMsg (''file does not exist within overlay: '' @ Overlay_Name o1 @ '':'' @ fullPath)), u)
       else os_Chown fullPath uid gid u)"

definition Overlay_Mkdir :: "(string \<Rightarrow> string \<Rightarrow> ufs effect) \<Rightarrow> string \<Rightarrow> Overlay \<Rightarrow> string \<Rightarrow> ufs effect" where
  "Overlay_Mkdir dircopy sitedir o1 p =
     writable dircopy sitedir (\<not> IsSiteOverlay sitedir o1) o1 (\<lambda>o1 u. os_MkdirAll (Overlay_File u o1 p) u)"

text \<open>\<open>FindOverlays\<close>: the directories of both places that do not begin with a dot, each name once.\<close>

definition dir_names :: "ufs \<Rightarrow> string \<Rightarrow> (string \<times> fnode) list" where
  "dir_names u d = sort_key fst (map (\<lambda>e. (last (comps (fst e)), snd e))
     (filter (\<lambda>e. comps (fst e) \<noteq> [] \<and> rooted (fst e) = rooted d \<and> butlast (comps (fst e)) = comps d) (uf_nodes u)))"

definition FindOverlays :: "string \<Rightarrow> string \<Rightarrow> ufs \<Rightarrow> string list" where
  "FindOverlays sitedir distdir u =
     foldl (\<lambda>ns e. if fn_kind (snd e) = Dir \<and> \<not> HasPrefix (fst e) ''.'' \<and> fst e \<notin> set ns then ns @ [fst e] else ns) []
       (dir_names u distdir @ dir_names u sitedir)"

definition checkHostOverlay :: "string \<Rightarrow> string \<Rightarrow> ufs \<Rightarrow> string \<Rightarrow> bool result" where
  "checkHostOverlay sitedir distdir u name = (case overlay_Get sitedir distdir u name of
      Inl ErrDoesNotExist \<Rightarrow> Inr False
    | Inl e \<Rightarrow> Inl e
    | Inr o1 \<Rightarrow> (case Stat u (Overlay_Rootfs u o1) of None \<Rightarrow> Inl ErrIO | Some _ \<Rightarrow> Inr True))"

fun hostOverlaysToBuild :: "string \<Rightarrow> string \<Rightarrow> ufs \<Rightarrow> string list \<Rightarrow> string list result" where
  "hostOverlaysToBuild sitedir distdir u [] = Inr []"
| "hostOverlaysToBuild sitedir distdir u (n # ns) = (case checkHostOverlay sitedir distdir u n of
      Inl e \<Rightarrow> Inl e
    | Inr ok \<Rightarrow> map_sum id (\<lambda>b. if ok then n # b else b) (hostOverlaysToBuild sitedir distdir u ns))"

section \<open>Templates\<close>

record RenderedFile =
  rf_Name :: string
  rf_IsSymlink :: bool
  rf_Target :: string
  rf_Buffer :: string

record RenderedTemplate =
  rt_WriteFile :: bool
  rt_BackupFile :: bool
  rt_Files :: "RenderedFile list"

text \<open>
  What a running template does: write text, or call one of the functions of \<open>buildTemplateFuncMap\<close> that
  change the result. \<open>CallImportLink\<close> carries what the link resolves to.
\<close>

datatype template_call =
    WriteText string
  | CallFile string
  | CallSoftlink string
  | CallImportLink "string option"
  | CallAbort
  | CallNobackup
  | CallFails err

definition update_last :: "('a \<Rightarrow> 'a) \<Rightarrow> 'a list \<Rightarrow> 'a list" where
  "update_last f xs = (if xs = [] then [] else butlast xs @ [f (last xs)])"

definition softlink_to :: "string \<Rightarrow> RenderedTemplate \<Rightarrow> RenderedTemplate" where
  "softlink_to target r = r\<lparr>rt_Files := update_last (\<lambda>f. f\<lparr>rf_IsSymlink := True, rf_Target := target\<rparr>) (rt_Files r)\<rparr>"

fun run_calls :: "template_call list \<Rightarrow> RenderedTemplate \<Rightarrow> RenderedTemplate result" where
  "run_calls [] r = Inr r"
| "run_calls (WriteText s # cs) r =
     run_calls cs (r\<lparr>rt_Files := update_last (\<lambda>f. f\<lparr>rf_Buffer := rf_Buffer f @ s\<rparr>) (rt_Files r)\<rparr>)"
| "run_calls (CallFile n # cs) r =
     run_calls cs (r\<lparr>rt_Files := rt_Files r @ [\<lparr>rf_Name = n, rf_IsSymlink = False, rf_Target = [], rf_Buffer = []\<rparr>]\<rparr>)"
| "run_calls (CallSoftlink t # cs) r = run_calls cs (softlink_to t r)"
| "run_calls (CallImportLink t # cs) r = (case t of None \<Rightarrow> Inl ErrIO | Some t \<Rightarrow> run_calls cs (softlink_to t r))"
| "run_calls (CallAbort # cs) r = Inr (r\<lparr>rt_WriteFile := False\<rparr>)"
| "run_calls (CallNobackup # cs) r = run_calls cs (r\<lparr>rt_BackupFile := False\<rparr>)"
| "run_calls (CallFails e # cs) r = Inl e"

definition RenderTemplate :: "(string \<Rightarrow> template_call list result) \<Rightarrow> string \<Rightarrow> RenderedTemplate result" where
  "RenderTemplate exec fileName = (case exec fileName of
      Inl e \<Rightarrow> Inl e
    | Inr calls \<Rightarrow> run_calls calls \<lparr>rt_WriteFile = True, rt_BackupFile = True,
        rt_Files = [\<lparr>rf_Name = [], rf_IsSymlink = False, rf_Target = [], rf_Buffer = []\<rparr>]\<rparr>)"

definition RenderTemplateFile :: "(string \<Rightarrow> template_call list result) \<Rightarrow> string \<Rightarrow> (string \<times> bool \<times> bool) result" where
  "RenderTemplateFile exec fileName = map_sum id
     (\<lambda>r. (rf_Buffer (hd (rt_Files r)), rt_BackupFile r, rt_WriteFile r)) (RenderTemplate exec fileName)"

section \<open>Writing the output\<close>

definition CarefulWriteBuffer :: "string \<Rightarrow> string \<Rightarrow> bool \<Rightarrow> ufs effect" where
  "CarefulWriteBuffer destFile buffer backupFile u =
     and_then (and_then (if uIsDir u (parent destFile) then (None, u) else os_MkdirAll (parent destFile) u)
       (\<lambda>u. if backupFile \<and> \<not> uIsFile u (destFile @ ''.wwbackup'') \<and> uIsFile u destFile
             then CopyFile destFile (destFile @ ''.wwbackup'') u else (None, u)))
       (os_WriteFile destFile buffer)"

text \<open>The result is whether the link is there already, or an error.\<close>

definition prepareSymlinkPath :: "string \<Rightarrow> string \<Rightarrow> bool \<Rightarrow> ufs \<Rightarrow> bool result \<times> ufs" where
  "prepareSymlinkPath filePath target backupFile u =
     (let done = (\<lambda>r. case r of (None, u) \<Rightarrow> (Inr False, u) | (Some e, u) \<Rightarrow> (Inl e, u))
      in case Lstat u filePath of
           None \<Rightarrow> (Inr False, u)
         | Some n \<Rightarrow>
             (case fn_kind n of
                Symlink _ \<Rightarrow> if fn_data n = target then (Inr True, u) else done (os_Remove filePath u)
              | Dir \<Rightarrow> (Inl (ErrMsg (''refusing to replace directory '' @ filePath @ '' with a symlink to '' @ target)), u)
              | _ \<Rightarrow> if backupFile \<and> \<not> uIsFile u (filePath @ ''.wwbackup'')
                    then done (os_Rename filePath (filePath @ ''.wwbackup'') u)
                    else done (os_Remove filePath u)))"

definition trim_ww :: "string \<Rightarrow> string" where
  "trim_ww p = (if HasSuffix p ''.ww'' then take (length p - 3) p else p)"

text \<open>Where a rendered file goes; \<open>None\<close> when it is left out.\<close>

definition output_path :: "string \<Rightarrow> string \<Rightarrow> RenderedFile list \<Rightarrow> RenderedFile \<Rightarrow> string option" where
  "output_path outputDir templatePath files f =
     (if rf_Name f = [] then
        (if length files > 1 \<and> \<not> rf_IsSymlink f then None
         else Some (trim_ww templatePath))
      else if rooted (rf_Name f) then Some (path_Join [outputDir, rf_Name f])
      else Some (path_Join [parent templatePath, rf_Name f]))"

definition escapes :: "string \<Rightarrow> string \<Rightarrow> bool" where
  "escapes outputDir filePath = (case Rel (Clean outputDir) (Clean filePath) of
      None \<Rightarrow> True | Some rel \<Rightarrow> HasPrefix rel ''..'')"

text \<open>
  The templates named \<open>.ww\<close>, \<open>..ww\<close> and \<open>...ww\<close> have an unclean path of a directory as their output:
  it cannot be opened for writing and is not replaced by a link.
\<close>

definition write_file :: "string \<Rightarrow> string \<Rightarrow> bool \<Rightarrow> string \<Rightarrow> RenderedFile \<Rightarrow> ufs effect" where
  "write_file outputDir walkPath backupFile filePath f u =
     (if escapes outputDir filePath then (Some (ErrMsg (''file() path escapes output directory: '' @ rf_Name f)), u)
      else if Clean filePath \<noteq> filePath then (Some ErrIO, u)
      else and_then
        (if rooted (rf_Name f) then
           (if Stat u (parent walkPath) = None then (Some ErrIO, u) else os_MkdirAll (parent filePath) u)
         else (None, u))
        (\<lambda>u. if rf_IsSymlink f then
               (case prepareSymlinkPath filePath (rf_Target f) backupFile u of
                  (Inl e, u) \<Rightarrow> (Some e, u)
                | (Inr skip, u) \<Rightarrow> if skip then (None, u) else os_Symlink (rf_Target f) filePath u)
             else and_then (CarefulWriteBuffer filePath (rf_Buffer f) backupFile u) (CopyUIDGID walkPath filePath)))"

fun write_files :: "string \<Rightarrow> string \<Rightarrow> string \<Rightarrow> RenderedTemplate \<Rightarrow> RenderedFile list \<Rightarrow> ufs effect" where
  "write_files outputDir templatePath walkPath r [] u = (None, u)"
| "write_files outputDir templatePath walkPath r (f # fs) u =
     and_then
       (case output_path outputDir templatePath (rt_Files r) f of
          None \<Rightarrow> (None, u)
        | Some filePath \<Rightarrow> write_file outputDir walkPath (rt_BackupFile r) filePath f u)
       (write_files outputDir templatePath walkPath r fs)"

definition build_link :: "string \<Rightarrow> string \<Rightarrow> ufs effect" where
  "build_link target outputPath u =
     and_then
       (if uIsFile u outputPath then
          (if \<not> uIsFile u (outputPath @ ''.wwbackup'') then os_Rename outputPath (outputPath @ ''.wwbackup'') u
           else os_Remove outputPath u)
        else (None, u))
       (os_Symlink target outputPath)"

text \<open>The function that is called for each file of the walk.\<close>

definition build_entry :: "(string \<Rightarrow> template_call list result) \<Rightarrow> string \<Rightarrow> string \<Rightarrow> string \<times> fnode \<Rightarrow> ufs effect" where
  "build_entry exec outputDir rootfs e u = (case e of (walkPath, info) \<Rightarrow>
     (case Rel rootfs walkPath of
        None \<Rightarrow> (Some ErrIO, u)
      | Some rel \<Rightarrow>
          let outputPath = path_Join [outputDir, rel] in
          if fn_kind info = Dir then and_then (os_MkdirAll outputPath u) (CopyUIDGID walkPath outputPath)
          else if HasSuffix walkPath ''.ww'' then
            (case RenderTemplate exec walkPath of
               Inl e \<Rightarrow> (Some e, u)
             | Inr r \<Rightarrow> if \<not> rt_WriteFile r then (None, u) else write_files outputDir outputPath walkPath r (rt_Files r) u)
          else if is_link info then build_link (fn_data info) outputPath u
          else CopyFile walkPath outputPath u))"

fun build_entries :: "(string \<Rightarrow> template_call list result) \<Rightarrow> string \<Rightarrow> string \<Rightarrow> (string \<times> fnode) list \<Rightarrow> ufs effect" where
  "build_entries exec outputDir rootfs [] u = (None, u)"
| "build_entries exec outputDir rootfs (e # es) u =
     and_then (build_entry exec outputDir rootfs e u) (build_entries exec outputDir rootfs es)"

text \<open>The overlays one after the other; the walk of an overlay sees it as it is when its turn comes.\<close>

fun build_overlays :: "(string \<Rightarrow> string \<Rightarrow> template_call list result) \<Rightarrow> string \<Rightarrow> string \<Rightarrow> string \<Rightarrow> string list \<Rightarrow> ufs effect" where
  "build_overlays exec sitedir distdir outputDir [] u = (None, u)"
| "build_overlays exec sitedir distdir outputDir (n # ns) u =
     and_then
       (case overlay_Get sitedir distdir u n of
          Inl e \<Rightarrow> (Some e, u)
        | Inr o1 \<Rightarrow>
            let rootfs = Overlay_Rootfs u o1
            in case Walk u rootfs of
                 None \<Rightarrow> (Some ErrIO, u)
               | Some es \<Rightarrow> build_entries (exec n) outputDir rootfs es u)
       (build_overlays exec sitedir distdir outputDir ns)"

definition buildOverlayIndir :: "(string \<Rightarrow> string \<Rightarrow> template_call list result) \<Rightarrow> string \<Rightarrow> string \<Rightarrow> string list \<Rightarrow> string \<Rightarrow> ufs effect" where
  "buildOverlayIndir exec sitedir distdir overlayNames outputDir u =
     (if overlayNames = [] then (None, u)
      else if \<not> uIsDir u outputDir then (Some (ErrMsg (''output must a be a directory: '' @ outputDir)), u)
      else if ValidateName (concat overlayNames) \<noteq> None then (Some (ErrMsg ''overlay names contains illegal characters''), u)
      else build_overlays exec sitedir distdir outputDir overlayNames u)"

text \<open>
  \<open>BuildHostOverlay\<close> builds into the root directory of the server itself; \<open>registry\<close> is the error of
  reading the node registry, if any.
\<close>

definition BuildHostOverlay :: "(string \<Rightarrow> string \<Rightarrow> template_call list result) \<Rightarrow> err option \<Rightarrow> string \<Rightarrow> string \<Rightarrow> string list \<Rightarrow> ufs effect" where
  "BuildHostOverlay exec registry sitedir distdir overlayNames u =
     (case hostOverlaysToBuild sitedir distdir u overlayNames of
        Inl e \<Rightarrow> (Some e, u)
      | Inr build \<Rightarrow>
          if build = [] then (None, u)
          else (case registry of Some e \<Rightarrow> (Some e, u) | None \<Rightarrow> buildOverlayIndir exec sitedir distdir build ''/'' u))"

text \<open>
  \<open>BuildOverlay\<close>: \<open>tmp\<close> is the path \<open>os.MkdirTemp\<close> chooses and \<open>fsimage\<close> stands for
  \<open>util.BuildFsImage\<close>, which runs \<open>cpio\<close> and \<open>gzip\<close>. The temporary directory is removed in every case.
\<close>

definition BuildOverlay :: "(string \<Rightarrow> string \<Rightarrow> template_call list result) \<Rightarrow> (string \<Rightarrow> string \<Rightarrow> ufs effect) \<Rightarrow> string \<Rightarrow>
    string \<Rightarrow> string \<Rightarrow> string \<Rightarrow> string \<Rightarrow> string \<Rightarrow> string list \<Rightarrow> ufs effect" where
  "BuildOverlay exec fsimage tmp sitedir distdir provisiondir nodeId ctxt overlayNames u =
     (if overlayNames = [] \<and> ctxt = [] then (None, u)
      else let img = overlay_Image provisiondir nodeId ctxt overlayNames in
      and_then (os_MkdirAll (if img = [] then ''.'' else parent img) u) (\<lambda>u.
        if Lstat u tmp \<noteq> None \<or> tmp \<in> set (uf_refuse u) then (Some ErrIO, u)
        else let r = and_then (buildOverlayIndir exec sitedir distdir overlayNames tmp (set_node tmp (new_node Dir []) u)) (fsimage tmp img)
        in (fst r, snd (os_RemoveAll tmp (snd r)))))"

text \<open>\<open>TemplateOutputPaths\<close>: the paths a template would create, as seen on the node.\<close>

definition deployed_path :: "string \<Rightarrow> RenderedFile list \<Rightarrow> RenderedFile \<Rightarrow> string option" where
  "deployed_path deployed files f =
     (if rf_Name f = [] then
        (if length files = 1 \<or> rf_IsSymlink f
         then Some (trim_ww deployed) else None)
      else if rooted (rf_Name f) then Some (Clean (rf_Name f))
      else Some (Clean (path_Join [parent deployed, rf_Name f])))"

definition TemplateOutputPaths :: "(string \<Rightarrow> template_call list result) \<Rightarrow> string \<Rightarrow> string \<Rightarrow> string list result" where
  "TemplateOutputPaths exec templatePath deployed = map_sum id
     (\<lambda>r. if rt_WriteFile r then List.map_filter (deployed_path (Clean deployed) (rt_Files r)) (rt_Files r) else [])
     (RenderTemplate exec templatePath)"

text \<open>\<open>GetFiles\<close>: a root that is not there gives no files and no error.\<close>

definition GetFiles :: "ufs \<Rightarrow> Overlay \<Rightarrow> string list" where
  "GetFiles u o1 = (case Walk u (Overlay_Rootfs u o1) of
      None \<Rightarrow> []
    | Some es \<Rightarrow> map (\<lambda>e. TrimPrefix (fst e) (Overlay_Rootfs u o1)) (filter (\<lambda>e. uIsFile u (fst e)) es))"

end
