(* ===== verification/Overlay_Confined.thy ===== *)
theory Overlay_Confined
  imports Overlay_Build
begin

text \<open>
  Where building overlays may write. Without symbolic links in the output and in the overlays the build
  changes nothing outside of the output directory, whatever names the templates pass to \<open>file\<close> and
  wherever it fails (\<open>buildOverlayIndir_confined\<close>). With a link it may write anywhere
  (\<open>buildOverlayIndir_follows_links\<close>).
\<close>

section \<open>Clean paths below a directory\<close>

definition clean_abs :: "string \<Rightarrow> bool" where
  "clean_abs p = (rooted p \<and> Clean p = p)"

lemma clean_absE:
  assumes "clean_abs p"
  obtains cs where "p = path_of True cs" "comps p = cs" "\<forall>c\<in>set cs. proper c" "rooted p"
  using assms comps_rooted [of p] path_of_rooted [of p] by (metis clean_abs_def)

lemma clean_abs_path_of: "\<forall>c\<in>set cs. proper c \<Longrightarrow> clean_abs (path_of True cs)"
  by (simp add: clean_abs_def path_of_rooted comps_path_of)

lemma clean_abs_Clean: "rooted p \<Longrightarrow> clean_abs (Clean p)"
  by (simp add: clean_abs_def Clean_Clean)

lemma below_iff: "rooted d \<Longrightarrow> below d p \<longleftrightarrow> rooted p \<and> (\<exists>cs. comps p = comps d @ cs)"
  unfolding below_def by (metis append_eq_conv_conj append_take_drop_id)

lemma below_path_of:
  "rooted d \<Longrightarrow> \<forall>c\<in>set cs. proper c \<Longrightarrow> below d (path_of True cs) \<longleftrightarrow> (\<exists>xs. cs = comps d @ xs)"
  by (simp add: below_iff comps_path_of)

lemma below_trans: "rooted a \<Longrightarrow> rooted b \<Longrightarrow> below a b \<Longrightarrow> below b c \<Longrightarrow> below a c"
  by (auto simp: below_iff)

lemma below_antisym: "clean_abs p \<Longrightarrow> clean_abs q \<Longrightarrow> below p q \<Longrightarrow> below q p \<Longrightarrow> p = q"
  by (elim clean_absE) (auto simp: below_iff)

lemma Join_rel:
  assumes "rooted d" "\<forall>c\<in>set ts. proper c"
  shows "path_Join [d, path_of False ts] = path_of True (comps d @ ts)"
proof (cases "ts = []")
  case True
  have "comps (d @ ''/.'') = comps d"
    using assms(1) Split_append_sep [of d "CHR ''/''" "''.''"] by (simp add: comps_def clean_comps_append)
  then show ?thesis using assms(1) True rooted_ne [OF assms(1)] rooted_append [OF assms(1), of "''/.''"]
    by (simp add: path_Join_def path_of_def [of False] path_of_rooted)
next
  case False
  then have "Join ts ''/'' \<noteq> []" using assms(2) by (cases ts rule: list.exhaust; cases "tl ts") (auto simp: proper_def)
  then show ?thesis using False assms rooted_ne [OF assms(1)] comps_below [OF assms False]
    rooted_append [OF assms(1), of "''/'' @ Join ts ''/''"]
    by (simp add: path_Join_def path_of_def [of False] path_of_rooted)
qed

lemma Join_append_last: "Join (cs @ [c]) s @ x = Join (cs @ [c @ x]) s"
proof (induction cs)
  case (Cons a cs)
  then show ?case by (cases cs) auto
qed simp

lemma proper_long: "length c > 2 \<Longrightarrow> CHR ''/'' \<notin> set c \<Longrightarrow> proper c"
  by (auto simp: proper_def)

text \<open>A suffix without a slash changes the last component only.\<close>

lemma append_suffix:
  assumes "clean_abs p" "clean_abs d" "below d p" "p \<noteq> d" "CHR ''/'' \<notin> set x" "length x > 2"
  shows "clean_abs (p @ x) \<and> below d (p @ x)"
proof -
  obtain cs where p: "p = path_of True cs" "comps p = cs" "\<forall>c\<in>set cs. proper c" "rooted p" using assms(1) by (rule clean_absE)
  obtain ds where d: "d = path_of True ds" "comps d = ds" "\<forall>c\<in>set ds. proper c" "rooted d" using assms(2) by (rule clean_absE)
  obtain ys where cs: "cs = ds @ ys" using assms(3) p(2) d(2,4) by (auto simp: below_iff)
  with assms(4) p(1) d(1) have "ys \<noteq> []" by auto
  then obtain zs c where ys: "ys = zs @ [c]" by (meson rev_exhaust)
  have "p @ x = path_of True (ds @ zs @ [c @ x])"
    using Join_append_last [of "ds @ zs" c] by (simp add: p(1) cs ys path_of_def)
  moreover have pr: "\<forall>e\<in>set (ds @ zs @ [c @ x]). proper e"
    using p(3) assms(5,6) proper_long [of "c @ x"] unfolding cs ys by (simp add: proper_def)
  ultimately show ?thesis using clean_abs_path_of [OF pr] below_path_of [OF d(4) pr] by (simp add: d(2))
qed

lemma parent_below:
  assumes "clean_abs p" "clean_abs d" "below d p"
  shows "clean_abs (parent p) \<and> (below d (parent p) \<or> below (parent p) d)"
proof -
  obtain cs where p: "p = path_of True cs" "comps p = cs" "\<forall>c\<in>set cs. proper c" "rooted p" using assms(1) by (rule clean_absE)
  obtain ds where d: "d = path_of True ds" "comps d = ds" "\<forall>c\<in>set ds. proper c" "rooted d" using assms(2) by (rule clean_absE)
  have q: "parent p = path_of True (butlast cs)" using p by (simp add: parent_def)
  have pr: "\<forall>e\<in>set (butlast cs). proper e" using p(3) by (meson in_set_butlastD)
  obtain ys where cs: "cs = ds @ ys" using assms(3) p(2) d(2,4) by (auto simp: below_iff)
  show ?thesis
  proof (cases "ys = []")
    case True
    have "below (parent p) d" unfolding q
      using pr d True cs by (simp add: below_iff comps_path_of) (metis append_butlast_last_id butlast.simps(1) append_Nil)
    with clean_abs_path_of [OF pr] q show ?thesis by simp
  next
    case False
    then have "butlast cs = ds @ butlast ys" by (simp add: cs butlast_append)
    with clean_abs_path_of [OF pr] below_path_of [OF d(4) pr] show ?thesis by (simp add: q d(2))
  qed
qed

lemma RemoveAll_Lstat:
  "Lstat (snd (os_RemoveAll d u)) p = (if \<not> below d p \<or> list_ex (below p) (uf_refuse u) then Lstat u p else None)"
  using map_of_filter_keys [of "\<lambda>p. \<not> below d p \<or> list_ex (below p) (uf_refuse u)" "uf_nodes u" p]
  by (simp add: os_RemoveAll_def Let_def Lstat_def)

lemma RemoveAll_empty: "fst (os_RemoveAll T u) = None \<Longrightarrow> below T p \<Longrightarrow> Lstat (snd (os_RemoveAll T u)) p = None"
  by (auto simp: os_RemoveAll_def Let_def Lstat_def list_ex_iff map_of_eq_None_iff split: if_splits)

section \<open>What the build relies on\<close>

text \<open>
  No link lies below one of \<open>ds\<close>, all paths are clean, and the directory \<open>d\<close> is there with the
  directories that lead to it.
\<close>

definition link_free :: "string list \<Rightarrow> ufs \<Rightarrow> bool" where
  "link_free ds u = list_all (\<lambda>e. is_link (snd e) \<longrightarrow> \<not> list_ex (\<lambda>d. below d (fst e)) ds) (uf_nodes u)"

definition is_dir :: "ufs \<Rightarrow> string \<Rightarrow> bool" where
  "is_dir u p = (map_option fn_kind (Lstat u p) = Some Dir)"

definition build_ready :: "string list \<Rightarrow> string \<Rightarrow> ufs \<Rightarrow> bool" where
  "build_ready ds d u = (link_free (d # ds) u \<and> list_all (\<lambda>e. clean_abs (fst e)) (uf_nodes u) \<and>
     list_all (\<lambda>k. is_dir u (path_of True (take k (comps d)))) [0..<Suc (length (comps d))])"

definition same_outside :: "string \<Rightarrow> ufs \<Rightarrow> ufs \<Rightarrow> bool" where
  "same_outside d u v = (\<forall>p. \<not> below d p \<longrightarrow> Lstat v p = Lstat u p)"

lemma ready_prefix:
  assumes "build_ready ds d u" "clean_abs p" "clean_abs d" "below p d"
  shows "is_dir u p"
proof -
  obtain cs where p: "p = path_of True cs" "comps p = cs" "rooted p" using assms(2) by (rule clean_absE)
  obtain xs where d: "comps d = cs @ xs" using assms(4) p(2,3) by (auto simp: below_iff)
  have "is_dir u (path_of True (take (length cs) (comps d)))"
    using assms(1) d unfolding build_ready_def list_all_iff by (elim conjE ballE [of _ _ "length cs"]) auto
  with d p show ?thesis by simp
qed

lemma ready_no_link:
  assumes "build_ready ds d u" "Lstat u p = Some n" "below x p" "x \<in> set (d # ds)"
  shows "\<not> is_link n"
  using assms map_of_SomeD [of "uf_nodes u" p n]
  by (force simp: build_ready_def link_free_def list_all_iff list_ex_iff Lstat_def)

lemma no_link_follow: "(\<And>n. Lstat u p = Some n \<Longrightarrow> \<not> is_link n) \<Longrightarrow> follow_link u p = Some p"
  by (auto simp: follow_link_def is_link_def split: option.splits fkind.splits)

lemma is_dir_follow: "is_dir u p \<Longrightarrow> follow_link u p = Some p"
  by (auto simp: is_dir_def follow_link_def split: option.splits fkind.splits)

lemma is_dir_set_node: "is_dir (set_node p n u) q = (if q = p then fn_kind n = Dir else is_dir u q)"
  by (simp add: is_dir_def Lstat_set_node)

lemma al_update_member: "e \<in> set (al_update k v xs) \<Longrightarrow> e = (k, v) \<or> e \<in> set xs"
  by (induction xs) (auto split: if_splits)

text \<open>A node that is set below \<open>d\<close>, that is no link and does not replace \<open>d\<close> by another kind of file.\<close>

lemma ready_set_node:
  assumes "build_ready ds d u" "clean_abs d" "clean_abs p" "below d p" "\<not> is_link n" "p = d \<Longrightarrow> fn_kind n = Dir"
  shows "build_ready ds d (set_node p n u) \<and> same_outside d u (set_node p n u)"
proof -
  have l: "link_free (d # ds) (set_node p n u)" "list_all (\<lambda>e. clean_abs (fst e)) (uf_nodes (set_node p n u))"
    using assms(1,3,5) by (auto simp: build_ready_def link_free_def list_all_iff set_node_def dest!: al_update_member)
  obtain cs where d: "d = path_of True cs" "comps d = cs" "\<forall>c\<in>set cs. proper c" "rooted d" using assms(2) by (rule clean_absE)
  have "is_dir (set_node p n u) (path_of True (take k cs))" if "is_dir u (path_of True (take k cs))" for k
  proof -
    have pr: "\<forall>c\<in>set (take k cs). proper c" using d(3) by (meson in_set_takeD)
    then have "below (path_of True (take k cs)) d"
      using d by (simp add: below_iff comps_path_of) (metis append_take_drop_id)
    then have "path_of True (take k cs) = p \<Longrightarrow> p = d"
      using below_antisym [OF assms(3,2)] assms(4) by metis
    with assms(6) that show ?thesis by (auto simp: is_dir_set_node)
  qed
  with l assms(1) d(2) have "build_ready ds d (set_node p n u)" by (auto simp: build_ready_def list_all_iff simp del: upt_Suc)
  moreover have "same_outside d u (set_node p n u)" using assms(4) by (auto simp: same_outside_def Lstat_set_node)
  ultimately show ?thesis ..
qed

section \<open>Operations that stay inside\<close>

definition stays :: "string list \<Rightarrow> string \<Rightarrow> ufs effect \<Rightarrow> bool" where
  "stays ds d f = (\<forall>u. build_ready ds d u \<longrightarrow> build_ready ds d (snd (f u)) \<and> same_outside d u (snd (f u)))"

named_theorems stay

lemma staysI: "(\<And>u. build_ready ds d u \<Longrightarrow> build_ready ds d (snd (f u)) \<and> same_outside d u (snd (f u))) \<Longrightarrow> stays ds d f"
  by (simp add: stays_def)

lemma staysD: "stays ds d f \<Longrightarrow> build_ready ds d u \<Longrightarrow> build_ready ds d (snd (f u)) \<and> same_outside d u (snd (f u))"
  by (simp add: stays_def)

lemma same_outside_refl [simp]: "same_outside d u u"
  by (simp add: same_outside_def)

lemma same_outside_trans: "same_outside d u v \<Longrightarrow> same_outside d v w \<Longrightarrow> same_outside d u w"
  by (simp add: same_outside_def)

lemma stays_nothing [stay]: "stays ds d (\<lambda>u. (e, u))"
  by (simp add: stays_def)

lemma stays_and_then [stay]:
  assumes "stays ds d f" "stays ds d g"
  shows "stays ds d (\<lambda>u. and_then (f u) g)"
proof (rule staysI)
  fix u assume r: "build_ready ds d u"
  note f = staysD [OF assms(1) r]
  note g = staysD [OF assms(2) conjunct1 [OF f]]
  show "build_ready ds d (snd (and_then (f u) g)) \<and> same_outside d u (snd (and_then (f u) g))"
    using f g same_outside_trans [OF conjunct2 [OF f] conjunct2 [OF g]] by (simp add: and_then_def split: option.split)
qed

lemma stays_if [stay]: "(b \<Longrightarrow> stays ds d f) \<Longrightarrow> (\<not> b \<Longrightarrow> stays ds d g) \<Longrightarrow> stays ds d (\<lambda>u. if b then f u else g u)"
  by (cases b) simp_all

lemma stays_if_state [stay]: "stays ds d f \<Longrightarrow> stays ds d g \<Longrightarrow> stays ds d (\<lambda>u. if b u then f u else g u)"
  by (simp add: stays_def)

lemma follow_inside: "build_ready ds d u \<Longrightarrow> below d p \<Longrightarrow> follow_link u p = Some p"
  by (rule no_link_follow) (metis ready_no_link list.set_intros(1))

lemma ready_dir: "build_ready ds d u \<Longrightarrow> clean_abs d \<Longrightarrow> is_dir u d"
  by (rule ready_prefix) (auto simp: below_def)

lemma stays_Chown [stay]:
  assumes "clean_abs d" "clean_abs p" "below d p"
  shows "stays ds d (os_Chown p i j)"
proof (rule staysI)
  fix u assume r: "build_ready ds d u"
  have "build_ready ds d (set_node p (n\<lparr>fn_uid := a, fn_gid := b\<rparr>) u) \<and> same_outside d u (set_node p (n\<lparr>fn_uid := a, fn_gid := b\<rparr>) u)"
    if "Lstat u p = Some n" for n a b
    using that ready_dir [OF r assms(1)] ready_no_link [OF r that assms(3)]
    by (intro ready_set_node [OF r assms]) (auto simp: is_link_def is_dir_def)
  then show "build_ready ds d (snd (os_Chown p i j u)) \<and> same_outside d u (snd (os_Chown p i j u))"
    using r by (auto simp: os_Chown_def follow_inside [OF r assms(3)] split: option.splits)
qed

lemma stays_CopyUIDGID [stay]:
  assumes "clean_abs d" "clean_abs p" "below d p"
  shows "stays ds d (CopyUIDGID src p)"
proof (rule staysI)
  fix u assume r: "build_ready ds d u"
  show "build_ready ds d (snd (CopyUIDGID src p u)) \<and> same_outside d u (snd (CopyUIDGID src p u))"
    using r staysD [OF stays_Chown [OF assms] r] by (auto simp: CopyUIDGID_def split: option.splits)
qed

text \<open>Opening a file: the node opened is the one of the path, it is no directory, and its data may be set.\<close>

lemma Create_inside:
  assumes "clean_abs d" "clean_abs p" "below d p" "build_ready ds d u" "os_Create p u = (r, v)"
  shows "build_ready ds d v \<and> same_outside d u v"
    and "r = Some q \<Longrightarrow> q = p \<and> p \<noteq> d \<and> (\<exists>n. Lstat v p = Some n \<and> \<not> is_link n)"
proof -
  note nl = ready_no_link [OF assms(4) _ assms(3)]
  have dir: "is_dir u d" by (rule ready_dir [OF assms(4,1)])
  have s: "build_ready ds d (set_node p n u) \<and> same_outside d u (set_node p n u)" if "\<not> is_link n" "p \<noteq> d" for n
    using that by (intro ready_set_node [OF assms(4,1-3)]) auto
  have "(build_ready ds d v \<and> same_outside d u v) \<and>
    (r = Some q \<longrightarrow> q = p \<and> p \<noteq> d \<and> (\<exists>n. Lstat v p = Some n \<and> \<not> is_link n))"
  proof (cases "Lstat u p")
    case None
    then have "p \<noteq> d" using dir by (auto simp: is_dir_def)
    with s [of "\<lparr>fn_kind = Regular, fn_uid = 0, fn_gid = 0, fn_data = []\<rparr>"] assms(4,5) None show ?thesis
      by (auto simp: os_Create_def follow_inside [OF assms(4,3)] Lstat_set_node is_link_def split: option.splits if_splits)
  next
    case (Some n)
    have "\<not> is_link (n\<lparr>fn_data := []\<rparr>)" "fn_kind n \<noteq> Dir \<Longrightarrow> p \<noteq> d"
      using nl [OF Some] dir Some by (auto simp: is_link_def is_dir_def)
    with s [of "n\<lparr>fn_data := []\<rparr>"] assms(4,5) Some show ?thesis
      by (auto simp: os_Create_def follow_inside [OF assms(4,3)] Lstat_set_node split: if_splits)
  qed
  then show "build_ready ds d v \<and> same_outside d u v"
    and "r = Some q \<Longrightarrow> q = p \<and> p \<noteq> d \<and> (\<exists>n. Lstat v p = Some n \<and> \<not> is_link n)" by auto
qed
lemma set_data_inside:
  assumes "clean_abs d" "clean_abs p" "below d p" "build_ready ds d v" "same_outside d u v" "p \<noteq> d" "\<not> is_link n"
  shows "build_ready ds d (set_node p (n\<lparr>fn_data := x\<rparr>) v) \<and> same_outside d u (set_node p (n\<lparr>fn_data := x\<rparr>) v)"
proof -
  have "build_ready ds d (set_node p (n\<lparr>fn_data := x\<rparr>) v) \<and> same_outside d v (set_node p (n\<lparr>fn_data := x\<rparr>) v)"
    using assms(6,7) by (intro ready_set_node [OF assms(4,1-3)]) (auto simp: is_link_def)
  with assms(5) show ?thesis by (blast intro: same_outside_trans)
qed

lemma stays_WriteFile [stay]:
  assumes "clean_abs d" "clean_abs p" "below d p"
  shows "stays ds d (os_WriteFile p x)"
proof (rule staysI)
  fix u assume r: "build_ready ds d u"
  obtain q v where c: "os_Create p u = (q, v)" by fastforce
  note in1 = Create_inside [OF assms r c]
  show "build_ready ds d (snd (os_WriteFile p x u)) \<and> same_outside d u (snd (os_WriteFile p x u))"
  proof (cases q)
    case None
    with in1(1) c show ?thesis by (simp add: os_WriteFile_def)
  next
    case (Some q')
    then obtain n where n: "q = Some p" "p \<noteq> d" "Lstat v p = Some n" "\<not> is_link n" using in1(2) by blast
    from set_data_inside [OF assms conjunct1 [OF in1(1)] conjunct2 [OF in1(1)] n(2,4), of x] n c show ?thesis
      by (simp add: os_WriteFile_def)
  qed
qed

lemma stays_CopyFile [stay]:
  assumes "clean_abs d" "clean_abs p" "below d p"
  shows "stays ds d (CopyFile src p)"
proof (rule staysI)
  fix u assume r: "build_ready ds d u"
  obtain q v where c: "os_Create p u = (q, v)" by fastforce
  note in1 = Create_inside [OF assms r c]
  show "build_ready ds d (snd (CopyFile src p u)) \<and> same_outside d u (snd (CopyFile src p u))"
  proof (cases q)
    case None
    with in1(1) c r show ?thesis by (simp add: CopyFile_def split: option.split)
  next
    case (Some q')
    then obtain n where n: "q = Some p" "p \<noteq> d" "Lstat v p = Some n" "\<not> is_link n" using in1(2) by blast
    have "build_ready ds d (snd (CopyUIDGID src p w)) \<and> same_outside d u (snd (CopyUIDGID src p w))"
      if "w = set_node p (n\<lparr>fn_data := x\<rparr>) v" for w x
    proof -
      have w: "build_ready ds d w \<and> same_outside d u w"
        unfolding that by (rule set_data_inside [OF assms conjunct1 [OF in1(1)] conjunct2 [OF in1(1)] n(2,4)])
      from staysD [OF stays_CopyUIDGID [OF assms] conjunct1 [OF w]] w show ?thesis by (blast intro: same_outside_trans)
    qed
    with in1(1) c n r show ?thesis by (simp add: CopyFile_def split: option.split)
  qed
qed

lemma mkdirs_inside:
  assumes "clean_abs d" "\<forall>c\<in>set (xs @ cs). proper c" "comps d = (xs @ cs) @ ys \<or> xs @ cs = comps d @ ys" "build_ready ds d u"
  shows "build_ready ds d (snd (mkdirs True xs cs u)) \<and> same_outside d u (snd (mkdirs True xs cs u))"
  using assms(2-4)
proof (induction cs arbitrary: xs u)
  case (Cons c cs)
  let ?p = "path_of True (xs @ [c])"
  have pr: "\<forall>e\<in>set (xs @ [c]). proper e" using Cons.prems(1) by simp
  have rd: "rooted d" using assms(1) by (simp add: clean_abs_def)
  have IH: "build_ready ds d (snd (mkdirs True (xs @ [c]) cs v)) \<and> same_outside d v (snd (mkdirs True (xs @ [c]) cs v))"
    if "build_ready ds d v" for v
    using Cons.prems(1,2) by (intro Cons.IH [OF _ _ that]) auto
  show ?case
  proof (cases "Lstat u ?p = None \<and> ?p \<notin> set (uf_refuse u)")
    case True
    have "\<not> below ?p d" using ready_prefix [OF Cons.prems(3) clean_abs_path_of [OF pr] assms(1)] True by (auto simp: is_dir_def)
    then have no: "comps d \<noteq> (xs @ [c]) @ zs" for zs using rd by (auto simp: below_iff comps_path_of [OF pr])
    with Cons.prems(2) have "(xs @ [c]) @ cs = comps d @ ys" by simp
    with no have "\<exists>zs. xs @ [c] = comps d @ zs" unfolding append_eq_append_conv2 by metis
    then have "below d ?p" by (simp add: below_path_of [OF rd pr])
    then have w: "build_ready ds d (set_node ?p (new_node Dir []) u) \<and> same_outside d u (set_node ?p (new_node Dir []) u)"
      by (intro ready_set_node [OF Cons.prems(3) assms(1) clean_abs_path_of [OF pr]]) (auto simp: new_node_def is_link_def)
    from IH [OF conjunct1 [OF w]] w True show ?thesis
      by (auto simp: Stat_def follow_link_def intro: same_outside_trans)
  next
    case False
    with IH [OF Cons.prems(3)] Cons.prems(3) show ?thesis by (auto simp: Let_def split: option.splits)
  qed
qed simp

lemma stays_MkdirAll [stay]:
  assumes "clean_abs d" "clean_abs p" "below d p \<or> below p d"
  shows "stays ds d (os_MkdirAll p)"
proof (rule staysI)
  fix u assume r: "build_ready ds d u"
  obtain cs where p: "p = path_of True cs" "comps p = cs" "\<forall>c\<in>set cs. proper c" "rooted p" using assms(2) by (rule clean_absE)
  have rd: "rooted d" using assms(1) by (simp add: clean_abs_def)
  obtain ys where "comps d = cs @ ys \<or> cs = comps d @ ys" using assms(3) p rd by (auto simp: below_iff)
  with mkdirs_inside [OF assms(1), of "[]" cs ys ds u] r p rooted_ne [OF p(4)]
  show "build_ready ds d (snd (os_MkdirAll p u)) \<and> same_outside d u (snd (os_MkdirAll p u))"
    by (simp add: os_MkdirAll_def)
qed

lemma stays_CarefulWriteBuffer [stay]:
  assumes "clean_abs d" "clean_abs p" "below d p"
  shows "stays ds d (CarefulWriteBuffer p x b)"
proof -
  note par = parent_below [OF assms(2,1,3)]
  let ?b = "\<lambda>u. if b \<and> \<not> uIsFile u (p @ ''.wwbackup'') \<and> uIsFile u p then CopyFile p (p @ ''.wwbackup'') u else (None, u)"
  have "stays ds d ?b"
  proof (cases "p = d")
    case True
    have "\<not> uIsFile u p" if "build_ready ds d u" for u
      using ready_dir [OF that assms(1)] True by (auto simp: uIsFile_def is_dir_def split: option.splits)
    then show ?thesis by (auto simp: stays_def)
  next
    case False
    with append_suffix [OF assms(2,1,3) False, of "''.wwbackup''"] show ?thesis
      by (intro stay assms(1)) auto
  qed
  then have "stays ds d (\<lambda>u. and_then (and_then (if uIsDir u (parent p) then (None, u) else os_MkdirAll (parent p) u) ?b) (os_WriteFile p x))"
    by (intro stays_and_then [OF stays_and_then [OF stays_if_state [OF stays_nothing stays_MkdirAll]]] stays_WriteFile [OF assms])
      (use par assms in auto)
  then show ?thesis by (simp add: CarefulWriteBuffer_def [abs_def])
qed
section \<open>Templates without links\<close>

fun makes_link :: "template_call \<Rightarrow> bool" where
  "makes_link (CallSoftlink _) = True"
| "makes_link (CallImportLink _) = True"
| "makes_link _ = False"

lemma update_last_all: "list_all P xs \<Longrightarrow> (\<And>x. P x \<Longrightarrow> P (f x)) \<Longrightarrow> list_all P (update_last f xs)"
  by (cases xs rule: rev_cases) (auto simp: update_last_def)

lemma run_calls_no_link:
  "run_calls cs r = Inr r' \<Longrightarrow> \<not> list_ex makes_link cs \<Longrightarrow> list_all (\<lambda>f. \<not> rf_IsSymlink f) (rt_Files r) \<Longrightarrow>
   list_all (\<lambda>f. \<not> rf_IsSymlink f) (rt_Files r')"
  by (induction cs r rule: run_calls.induct) (auto simp: update_last_all)

lemma RenderTemplate_no_link:
  "RenderTemplate exec p = Inr r \<Longrightarrow> (\<And>cs. exec p = Inr cs \<Longrightarrow> \<not> list_ex makes_link cs) \<Longrightarrow>
   list_all (\<lambda>f. \<not> rf_IsSymlink f) (rt_Files r)"
  by (auto simp: RenderTemplate_def split: sum.splits dest!: run_calls_no_link)

section \<open>The build\<close>

lemma not_escapes:
  assumes "clean_abs d" "\<not> escapes d p" "Clean p = p"
  shows "clean_abs p \<and> below d p"
proof -
  have d: "rooted d" "Clean d = d" using assms(1) by (auto simp: clean_abs_def)
  obtain rel where rel: "Rel d p = Some rel" "\<not> HasPrefix rel ''..''"
    using assms(2,3) d(2) by (auto simp: escapes_def split: option.splits)
  then have "rooted p" using d(1) by (auto simp: Rel_def split: if_splits)
  with Rel_below [OF d(1) rel] d(1) assms(3) show ?thesis by (simp add: clean_abs_def below_iff)
qed

lemma stays_write_file:
  assumes "clean_abs d" "\<not> rf_IsSymlink f"
  shows "stays ds d (write_file d w b p f)"
proof (cases "escapes d p \<or> Clean p \<noteq> p")
  case True
  then show ?thesis by (auto simp: stays_def write_file_def)
next
  case False
  then have p: "clean_abs p" "below d p" using not_escapes [OF assms(1)] by auto
  note par = parent_below [OF p(1) assms(1) p(2)]
  have "stays ds d (\<lambda>u. and_then
      (if rooted (rf_Name f) then (if Stat u (parent w) = None then (Some ErrIO, u) else os_MkdirAll (parent p) u) else (None, u))
      (\<lambda>u. and_then (CarefulWriteBuffer p (rf_Buffer f) b u) (CopyUIDGID w p)))"
    by (intro stays_and_then stays_if stays_if_state stays_nothing stays_MkdirAll
        stays_CarefulWriteBuffer [OF assms(1) p] stays_CopyUIDGID [OF assms(1) p]) (use par assms in auto)
  with False assms(2) show ?thesis by (simp add: write_file_def [abs_def])
qed

lemma stays_write_files:
  assumes "clean_abs d" "list_all (\<lambda>f. \<not> rf_IsSymlink f) fs"
  shows "stays ds d (write_files d tp w r fs)"
  using assms(2)
proof (induction fs)
  case (Cons f fs)
  have "stays ds d (\<lambda>u. case output_path d tp (rt_Files r) f of None \<Rightarrow> (None, u) | Some p \<Rightarrow> write_file d w (rt_BackupFile r) p f u)"
    using stays_write_file [OF assms(1)] Cons.prems by (cases "output_path d tp (rt_Files r) f") (simp_all add: stays_nothing)
  from stays_and_then [OF this] Cons show ?case by (simp add: stays_def)
qed (simp add: stays_def)

lemma output_inside:
  assumes "clean_abs d" "rooted root" "clean_abs p" "below root p" "Rel root p = Some rel"
  shows "clean_abs (path_Join [d, rel]) \<and> below d (path_Join [d, rel])"
proof -
  obtain cs where p: "p = path_of True cs" "comps p = cs" "\<forall>c\<in>set cs. proper c" "rooted p" using assms(3) by (rule clean_absE)
  obtain ds where d: "d = path_of True ds" "comps d = ds" "\<forall>c\<in>set ds. proper c" "rooted d" using assms(1) by (rule clean_absE)
  obtain ts where ts: "cs = comps root @ ts" using assms(2,4) p(2) by (auto simp: below_iff)
  have "rel = path_of False ts"
    using assms(2,5) p(2,4) by (auto simp: Rel_def ts strip_common_prefix split: if_splits)
  then have j: "path_Join [d, rel] = path_of True (ds @ ts)" using Join_rel [OF d(4), of ts] p(3) ts d(2) by simp
  have pr: "\<forall>c\<in>set (ds @ ts). proper c" using p(3) d(3) ts by auto
  show ?thesis unfolding j using clean_abs_path_of [OF pr] below_path_of [OF d(4) pr] d(2) by simp
qed

lemma stays_build_entry:
  assumes "clean_abs d" "rooted root" "clean_abs p" "below root p" "\<not> is_link n"
    and "\<And>p cs. exec p = Inr cs \<Longrightarrow> \<not> list_ex makes_link cs"
  shows "stays ds d (build_entry exec d root (p, n))"
proof (cases "Rel root p")
  case None
  then show ?thesis by (simp add: stays_def build_entry_def)
next
  case (Some rel)
  note out = output_inside [OF assms(1-4) Some]
  have 1: "stays ds d (\<lambda>u. and_then (os_MkdirAll (path_Join [d, rel]) u) (CopyUIDGID p (path_Join [d, rel])))"
    using assms(1) out by (intro stays_and_then stays_MkdirAll stays_CopyUIDGID) auto
  have 2: "stays ds d (\<lambda>u. case RenderTemplate exec p of Inl e \<Rightarrow> (Some e, u)
      | Inr r \<Rightarrow> if \<not> rt_WriteFile r then (None, u) else write_files d (path_Join [d, rel]) p r (rt_Files r) u)"
  proof (cases "RenderTemplate exec p")
    case (Inr r)
    from stays_write_files [OF assms(1) RenderTemplate_no_link [OF Inr assms(6) [of p]]] Inr show ?thesis
      by (cases "rt_WriteFile r") (simp_all add: stays_nothing)
  qed (simp add: stays_nothing)
  have 3: "stays ds d (CopyFile p (path_Join [d, rel]))" using assms(1) out by (intro stays_CopyFile) auto
  show ?thesis using Some 1 2 3 assms(5)
    by (cases "fn_kind n = Dir"; cases "HasSuffix p ''.ww''") (simp_all add: build_entry_def [abs_def] Let_def)
qed

lemma stays_build_entries:
  assumes "clean_abs d" "rooted root" "\<And>p cs. exec p = Inr cs \<Longrightarrow> \<not> list_ex makes_link cs"
    and "\<forall>e\<in>set es. clean_abs (fst e) \<and> below root (fst e) \<and> \<not> is_link (snd e)"
  shows "stays ds d (build_entries exec d root es)"
  using assms(4)
proof (induction es)
  case (Cons e es)
  obtain p n where e: "e = (p, n)" by fastforce
  have "stays ds d (build_entry exec d root e)"
    unfolding e using Cons.prems e by (intro stays_build_entry [OF assms(1,2) _ _ _ assms(3)]) auto
  from stays_and_then [OF this Cons.IH] Cons.prems show ?case by (simp add: stays_def)
qed (simp add: stays_def)
lemma Walk_entries:
  assumes "build_ready ds d u" "Walk u root = Some es" "x \<in> set ds" "below x root" "rooted x" "clean_abs root" "e \<in> set es"
  shows "clean_abs (fst e) \<and> below root (fst e) \<and> \<not> is_link (snd e)"
proof -
  have rr: "rooted root" using assms(6) by (simp add: clean_abs_def)
  obtain n where n: "Lstat u root = Some n" using assms(2) by (auto simp: Walk_def split: option.splits)
  have "below root root" by (simp add: below_def)
  moreover have "(root, n) \<in> set (uf_nodes u)" using map_of_SomeD [OF n [unfolded Lstat_def]] .
  ultimately have e: "e \<in> set (uf_nodes u)" "below root (fst e)"
    using assms(2,7) n by (auto simp: Walk_def split: if_splits)
  with below_trans [OF assms(5) rr assms(4)] have "below x (fst e)" by blast
  with e assms(1,3) show ?thesis by (auto simp: build_ready_def link_free_def list_all_iff list_ex_iff)
qed

lemma Rootfs_below:
  assumes "clean_abs o1"
  shows "clean_abs (Overlay_Rootfs u o1) \<and> below o1 (Overlay_Rootfs u o1)"
proof -
  obtain cs where o1: "o1 = path_of True cs" "comps o1 = cs" "\<forall>c\<in>set cs. proper c" "rooted o1" using assms by (rule clean_absE)
  have pr: "\<forall>c\<in>set (cs @ [''rootfs'']). proper c" using o1(3) by (auto simp: proper_def)
  have "path_Join [o1, ''rootfs''] = path_of True (cs @ [''rootfs''])"
    using Join_rel [OF o1(4), of "[''rootfs'']"] o1(2) by (simp add: path_of_def [of False] proper_def)
  with clean_abs_path_of [OF pr] below_path_of [OF o1(4) pr] o1(2) assms show ?thesis
    by (auto simp: Overlay_Rootfs_def Let_def below_def)
qed

lemma clean_abs_Join: "rooted d \<Longrightarrow> clean_abs (path_Join [d, x])"
  using rooted_ne [of d] clean_abs_Clean [of "d @ ''/'' @ x"] clean_abs_Clean [of d] by (auto simp: path_Join_def)

lemma stays_build_overlays:
  assumes "clean_abs d" "rooted sitedir" "rooted distdir"
    and "\<And>n p cs. exec n p = Inr cs \<Longrightarrow> \<not> list_ex makes_link cs"
    and "set (map (getSiteOverlay sitedir) names @ map (getDistributionOverlay distdir) names) \<subseteq> set ds"
  shows "stays ds d (build_overlays exec sitedir distdir d names)"
  using assms(5)
proof (induction names)
  case (Cons n names)
  let ?step = "\<lambda>u. case overlay_Get sitedir distdir u n of Inl e \<Rightarrow> (Some e, u)
    | Inr o1 \<Rightarrow> let rootfs = Overlay_Rootfs u o1 in
       (case Walk u rootfs of None \<Rightarrow> (Some ErrIO, u) | Some es \<Rightarrow> build_entries (exec n) d rootfs es u)"
  have "stays ds d ?step"
  proof (rule staysI)
    fix u assume r: "build_ready ds d u"
    show "build_ready ds d (snd (?step u)) \<and> same_outside d u (snd (?step u))"
    proof (cases "overlay_Get sitedir distdir u n")
      case (Inr o1)
      then have o1: "o1 \<in> set ds" "clean_abs o1" "rooted o1"
        using Cons.prems clean_abs_Join [OF assms(2)] clean_abs_Join [OF assms(3)]
        by (auto simp: overlay_Get_def getSiteOverlay_def getDistributionOverlay_def clean_abs_def split: option.splits if_splits)
      note root = Rootfs_below [OF o1(2), of u]
      show ?thesis
      proof (cases "Walk u (Overlay_Rootfs u o1)")
        case (Some es)
        have "stays ds d (build_entries (exec n) d (Overlay_Rootfs u o1) es)"
          using Walk_entries [OF r Some o1(1) conjunct2 [OF root] o1(3) conjunct1 [OF root]] root
          by (intro stays_build_entries [OF assms(1) _ assms(4)]) (auto simp: clean_abs_def)
        from staysD [OF this r] show ?thesis using Inr Some by (simp add: Let_def)
      qed (use r Inr in \<open>simp add: Let_def\<close>)
    qed (use r in simp)
  qed
  from stays_and_then [OF this Cons.IH] Cons.prems show ?case by (simp add: stays_def)
qed (simp add: stays_def)

text \<open>
  (C31) Building overlays is confined to the output directory: with templates that make no links, and
  without symbolic links in the output directory and in the overlays, nothing outside of the output
  directory is created, changed or removed. This covers every name a template passes to \<open>file\<close>, the
  backups that are made of files already there, and builds that end with an error.
\<close>

theorem buildOverlayIndir_confined:
  assumes "clean_abs outputDir" "rooted sitedir" "rooted distdir"
    and "\<And>n p cs. exec n p = Inr cs \<Longrightarrow> \<not> list_ex makes_link cs"
    and "build_ready (map (getSiteOverlay sitedir) names @ map (getDistributionOverlay distdir) names) outputDir u"
    and "\<not> below outputDir q"
  shows "Lstat (snd (buildOverlayIndir exec sitedir distdir names outputDir u)) q = Lstat u q"
proof -
  let ?ds = "map (getSiteOverlay sitedir) names @ map (getDistributionOverlay distdir) names"
  have "stays ?ds outputDir (buildOverlayIndir exec sitedir distdir names outputDir)"
    unfolding buildOverlayIndir_def [abs_def]
    by (intro stays_if stays_if_state stays_nothing stays_build_overlays [OF assms(1-4)]) auto
  from staysD [OF this assms(5)] assms(6) show ?thesis by (simp add: same_outside_def)
qed
section \<open>Examples\<close>

definition sample_tree :: ufs where
  "sample_tree = \<lparr>uf_nodes = [(''/'', new_node Dir []), (''/o'', new_node Dir []), (''/etc'', new_node Dir []),
     (''/etc/passwd'', new_node Regular ''root''),
     (''/s'', new_node Dir []), (''/s/a'', new_node Dir []), (''/s/a/rootfs'', new_node Dir []),
     (''/s/a/rootfs/f'', new_node Regular ''data''), (''/s/a/rootfs/t.ww'', new_node Regular ''template'')],
     uf_refuse = []\<rparr>"

definition sample_exec :: "string \<Rightarrow> string \<Rightarrow> template_call list result" where
  "sample_exec n p = Inr [CallFile ''/etc/passwd'', WriteText ''user'']"

theorem buildOverlayIndir_confined_witness:
  "let v = snd (buildOverlayIndir sample_exec ''/s'' ''/d'' [''a''] ''/o'' sample_tree) in
   map_option fn_data (Lstat v ''/etc/passwd'') = Some ''root'' \<and> map_option fn_data (Lstat v ''/o/etc/passwd'') = Some ''user''"
proof -
  have ex: "sample_exec n p = Inr cs \<Longrightarrow> \<not> list_ex makes_link cs" for n p cs by (auto simp: sample_exec_def)
  have "clean_abs ''/o'' \<and> rooted ''/s'' \<and> rooted ''/d''" by code_simp
  moreover have "build_ready (map (getSiteOverlay ''/s'') [''a''] @ map (getDistributionOverlay ''/d'') [''a'']) ''/o'' sample_tree"
    by code_simp
  moreover have "\<not> below ''/o'' ''/etc/passwd''" by code_simp
  ultimately have "Lstat (snd (buildOverlayIndir sample_exec ''/s'' ''/d'' [''a''] ''/o'' sample_tree)) ''/etc/passwd'' =
      Lstat sample_tree ''/etc/passwd''"
    by (intro buildOverlayIndir_confined) (simp_all add: ex)
  moreover have "map_option fn_data (Lstat sample_tree ''/etc/passwd'') = Some ''root''" by code_simp
  moreover have "map_option fn_data (Lstat (snd (buildOverlayIndir sample_exec ''/s'' ''/d'' [''a''] ''/o'' sample_tree)) ''/o/etc/passwd'') = Some ''user''"
    by code_simp
  ultimately show ?thesis by (simp add: Let_def)
qed

text \<open>
  With a link the build leaves the output directory: the overlay \<open>a\<close> has a link to \<open>/etc/passwd\<close> where
  the overlay \<open>b\<close> has a file, and building both overwrites \<open>/etc/passwd\<close> of the server.
\<close>

definition linked_tree :: ufs where
  "linked_tree = \<lparr>uf_nodes = [(''/'', new_node Dir []), (''/o'', new_node Dir []), (''/etc'', new_node Dir []),
     (''/etc/passwd'', new_node Regular ''root''),
     (''/s'', new_node Dir []), (''/s/a'', new_node Dir []), (''/s/a/x'', new_node (Symlink (Some ''/etc/passwd'')) ''/etc/passwd''),
     (''/s/b'', new_node Dir []), (''/s/b/x'', new_node Regular ''user'')],
     uf_refuse = []\<rparr>"

lemma buildOverlayIndir_follows_links:
  "\<exists>v. buildOverlayIndir sample_exec ''/s'' ''/d'' [''a'', ''b''] ''/o'' linked_tree = (None, v) \<and>
     map_option fn_data (Lstat linked_tree ''/etc/passwd'') = Some ''root'' \<and>
     map_option fn_data (Lstat v ''/etc/passwd'') = Some ''user''"
proof -
  let ?r = "buildOverlayIndir sample_exec ''/s'' ''/d'' [''a'', ''b''] ''/o'' linked_tree"
  have "fst ?r = None" by code_simp
  moreover have "map_option fn_data (Lstat (snd ?r) ''/etc/passwd'') = Some ''user''" by code_simp
  moreover have "map_option fn_data (Lstat linked_tree ''/etc/passwd'') = Some ''root''" by code_simp
  ultimately show ?thesis by (intro exI [of _ "snd ?r"]) (simp add: prod_eq_iff)
qed

text \<open>A name of two dots is a valid overlay name, and deleting that overlay removes the directory above the site overlays.\<close>

lemma Overlay_Delete_dots:
  "overlay_Get ''/s/o'' ''/d'' \<lparr>uf_nodes = [(''/s'', new_node Dir []), (''/s/o'', new_node Dir []), (''/s/key'', new_node Regular [])], uf_refuse = []\<rparr> ''..'' = Inr ''/s''"
  "uf_nodes (snd (Overlay_Delete ''/d'' ''/s'' True \<lparr>uf_nodes = [(''/s'', new_node Dir []), (''/s/o'', new_node Dir []), (''/s/key'', new_node Regular [])], uf_refuse = []\<rparr>)) = []"
  by code_simp+

end
