(* ===== verification/Api_Nodes.thy ===== *)
theory Api_Nodes
  imports Wwd_Handlers Overlay_Build
begin

text \<open>
  The REST interface for nodes and profiles (\<open>warewulfd/api/node.go\<close>, \<open>warewulfd/api/profile.go\<close>).

  \<^item> A handler takes its decoded input and the state: the world of the daemon, which has \<open>nodes.conf\<close>,
    and the files with images and overlays. It returns its output or an error with a status, and the
    new state. A status is the code given to \<open>status.Wrap\<close>, or none.
  \<^item> \<open>mergo.MergeWithOverwrite\<close> is a field of the environment. That it takes every list from one of its
    two arguments is the hypothesis \<open>mergo_overwrites\<close>. That YAML keeps the lists of profiles of the
    nodes and profiles it writes is the hypothesis \<open>yaml_keeps\<close>.
  \<^item> The handlers that build overlay images are not modelled. A modification time in an answer stands
    as whether there is one.
\<close>

record api_env =
  a_env :: env
  a_overwriteNode :: "Node \<Rightarrow> Node \<Rightarrow> Node result"
  a_overwriteProfile :: "Profile \<Rightarrow> Profile \<Rightarrow> Profile result"
  a_sitedir :: string
  a_distdir :: string
  a_dircopy :: "string \<Rightarrow> string \<Rightarrow> ufs effect"
  a_exec :: "string \<Rightarrow> Node \<Rightarrow> Node list \<Rightarrow> string \<Rightarrow> string \<Rightarrow> template_call list result"

record api_world =
  aw_wwd :: world
  aw_files :: ufs

datatype api_status = NoStatus | NotFound | InvalidArgument | AlreadyExists | Conflict

type_synonym 'o answer = "(api_status \<times> err) + 'o"

section \<open>Reading and writing the registry\<close>

definition with_registry :: "api_env \<Rightarrow> (NodesYaml \<Rightarrow> api_world \<Rightarrow> 'o answer \<times> api_world) \<Rightarrow> api_world \<Rightarrow> 'o answer \<times> api_world" where
  "with_registry a f w = (case node_New (a_env a) (aw_wwd w) of
      Inl e \<Rightarrow> (Inl (NoStatus, e), w)
    | Inr registry \<Rightarrow> f registry w)"

text \<open>\<open>registry.Persist()\<close> on a registry that only the handler has.\<close>

definition api_Persist :: "env \<Rightarrow> NodesYaml \<Rightarrow> world \<Rightarrow> err option \<times> world" where
  "api_Persist e registry w = (case Dump (e_encode e) registry of
      (Inl er, _) \<Rightarrow> (Some er, w)
    | (Inr out, _) \<Rightarrow> if e_persist e then (None, w\<lparr>w_disk := Some out\<rparr>) else (Some ErrIO, w))"

text \<open>Persist, reload the daemon, and answer from the registry, which writing has flattened.\<close>

definition save :: "api_env \<Rightarrow> NodesYaml \<Rightarrow> (NodesYaml \<Rightarrow> 'o answer) \<Rightarrow> api_world \<Rightarrow> 'o answer \<times> api_world" where
  "save a registry out w = (case api_Persist (a_env a) registry (aw_wwd w) of
      (Some e, wd) \<Rightarrow> (Inl (NoStatus, e), w\<lparr>aw_wwd := wd\<rparr>)
    | (None, wd) \<Rightarrow> (out (flatten_all registry), w\<lparr>aw_wwd := Reload (a_env a) wd\<rparr>))"

definition entry_or_panic :: "'v gomap \<Rightarrow> string \<Rightarrow> 'v answer" where
  "entry_or_panic m i = (case gm_get m i of Some v \<Rightarrow> Inr v | None \<Rightarrow> Inl (NoStatus, ErrPanic))"

section \<open>Checks of references\<close>

definition DoesSourceExist :: "string \<Rightarrow> ufs \<Rightarrow> string \<Rightarrow> bool" where
  "DoesSourceExist chrootdir u name = uIsDir u (RootFsDir chrootdir name)"

definition ValidSource :: "string \<Rightarrow> ufs \<Rightarrow> string \<Rightarrow> bool" where
  "ValidSource chrootdir u name = (ValidName name \<and> DoesSourceExist chrootdir u name)"

definition overlay_missing :: "api_env \<Rightarrow> ufs \<Rightarrow> string \<Rightarrow> bool" where
  "overlay_missing a u n = (case overlay_Get (a_sitedir a) (a_distdir a) u n of Inl _ \<Rightarrow> True | Inr _ \<Rightarrow> False)"

definition check_refs :: "api_env \<Rightarrow> NodesYaml \<Rightarrow> ufs \<Rightarrow> Profile \<Rightarrow> err option" where
  "check_refs a registry u p =
     (case find (\<lambda>q. gm_get (NodeProfiles registry) q = None) (pf_Profiles p) of
        Some q \<Rightarrow> Some (ErrMsg (''profile '' @ q @ '' does not exist''))
      | None \<Rightarrow>
          if pf_ImageName p \<noteq> [] \<and> \<not> ValidSource (c_WWChrootdir (e_conf (a_env a))) u (pf_ImageName p)
          then Some (ErrMsg (''image '' @ pf_ImageName p @ '' does not exist''))
          else (case find (overlay_missing a u) (pf_SystemOverlay p @ pf_RuntimeOverlay p) of
              Some n \<Rightarrow> Some (ErrMsg (''overlay '' @ n @ '' does not exist''))
            | None \<Rightarrow> None))"

definition checked :: "api_env \<Rightarrow> NodesYaml \<Rightarrow> Profile \<Rightarrow> (api_world \<Rightarrow> 'o answer \<times> api_world) \<Rightarrow> api_world \<Rightarrow> 'o answer \<times> api_world" where
  "checked a registry p f w = (case check_refs a registry (aw_files w) p of
      Some e \<Rightarrow> (Inl (InvalidArgument, e), w)
    | None \<Rightarrow> f w)"

section \<open>Nodes\<close>

definition getNodes :: "api_env \<Rightarrow> api_world \<Rightarrow> (string \<times> Node) list answer \<times> api_world" where
  "getNodes a = with_registry a (\<lambda>registry w.
     (case FindAllNodes (e_lib (a_env a)) registry [] of
        (_, Some e) \<Rightarrow> (Inl (NoStatus, e), w)
      | (nodeList, None) \<Rightarrow> (Inr (foldl (\<lambda>m n. al_update (Node_Id n) n m) [] nodeList), w)))"

definition getNodeByID :: "api_env \<Rightarrow> string \<Rightarrow> api_world \<Rightarrow> Node answer \<times> api_world" where
  "getNodeByID a i = with_registry a (\<lambda>registry w.
     (case GetNode (e_lib (a_env a)) registry i of
        Inl e \<Rightarrow> (Inl (NotFound, ErrMsg (''node not found: '' @ i)), w)
      | Inr n \<Rightarrow> (Inr n, w)))"

definition getRawNodeByID :: "api_env \<Rightarrow> string \<Rightarrow> api_world \<Rightarrow> Node answer \<times> api_world" where
  "getRawNodeByID a i = with_registry a (\<lambda>registry w.
     (case gm_get (Nodes registry) i of
        None \<Rightarrow> (Inl (NotFound, ErrMsg (''node not found: '' @ i)), w)
      | Some n \<Rightarrow> (Inr n, w)))"

definition getNodeFields :: "api_env \<Rightarrow> string \<Rightarrow> api_world \<Rightarrow> Field list answer \<times> api_world" where
  "getNodeFields a i = with_registry a (\<lambda>registry w.
     (case MergeNode (e_lib (a_env a)) registry i of
        Inl e \<Rightarrow> (Inl (NotFound, ErrMsg (''node not found: '' @ i)), w)
      | Inr (n, fields1) \<Rightarrow> (Inr (fieldMap_List fields1 (Node_val n)), w)))"

record overlayInfo =
  oi_Overlays :: "string list"
  oi_MTime :: bool

definition overlay_info :: "api_env \<Rightarrow> ufs \<Rightarrow> string \<Rightarrow> string \<Rightarrow> string list \<Rightarrow> overlayInfo" where
  "overlay_info a u i ctxt names = \<lparr>oi_Overlays = names,
     oi_MTime = (Stat u (overlay_Image (c_OverlayProvisiondir (e_conf (a_env a))) i ctxt names) \<noteq> None)\<rparr>"

definition getNodeOverlayInfo :: "api_env \<Rightarrow> string \<Rightarrow> api_world \<Rightarrow> (overlayInfo \<times> overlayInfo) answer \<times> api_world" where
  "getNodeOverlayInfo a i = with_registry a (\<lambda>registry w.
     (case GetNode (e_lib (a_env a)) registry i of
        Inl e \<Rightarrow> (Inl (NotFound, e), w)
      | Inr n \<Rightarrow> (Inr (overlay_info a (aw_files w) i ''system'' (pf_SystemOverlay (nd_Profile n)),
                      overlay_info a (aw_files w) i ''runtime'' (pf_RuntimeOverlay (nd_Profile n))), w)))"

definition api_addNode :: "api_env \<Rightarrow> string \<Rightarrow> Node \<Rightarrow> string \<Rightarrow> api_world \<Rightarrow> Node answer \<times> api_world" where
  "api_addNode a i n ifNoneMatch = with_registry a (\<lambda>registry w.
     if ifNoneMatch = ''*'' \<and> gm_get (Nodes registry) i \<noteq> None
     then (Inl (InvalidArgument, ErrMsg (''node '' @ i @ '' already exists'')), w)
     else checked a registry (nd_Profile n) (\<lambda>w.
       (case gm_put (Nodes registry) i n of
          Inl e \<Rightarrow> (Inl (NoStatus, e), w)
        | Inr m \<Rightarrow> save a (registry\<lparr>Nodes := m\<rparr>) (\<lambda>r. entry_or_panic (Nodes r) i) w)) w)"

definition api_deleteNode :: "api_env \<Rightarrow> string \<Rightarrow> api_world \<Rightarrow> Node answer \<times> api_world" where
  "api_deleteNode a i = with_registry a (\<lambda>registry w.
     (case DelNode registry i of
        Inl e \<Rightarrow> (Inl (NoStatus, e), w)
      | Inr r \<Rightarrow> save a r (\<lambda>_. entry_or_panic (Nodes registry) i) w))"

definition api_updateNode :: "api_env \<Rightarrow> string \<Rightarrow> Node \<Rightarrow> api_world \<Rightarrow> Node answer \<times> api_world" where
  "api_updateNode a i n = with_registry a (\<lambda>registry w.
     checked a registry (nd_Profile n) (\<lambda>w.
       (case GetNodeOnlyPtr registry i of
          Inl e \<Rightarrow> (Inl (NotFound, e), w)
        | Inr found \<Rightarrow>
            (case a_overwriteNode a found n of
               Inl e \<Rightarrow> (Inl (NoStatus, e), w)
             | Inr merged \<Rightarrow>
                 (case gm_put (Nodes registry) i merged of
                    Inl e \<Rightarrow> (Inl (NoStatus, e), w)
                  | Inr m \<Rightarrow> save a (registry\<lparr>Nodes := m\<rparr>) (\<lambda>r. entry_or_panic (Nodes r) i) w)))) w)"

section \<open>Profiles\<close>

definition getProfiles :: "api_env \<Rightarrow> api_world \<Rightarrow> Profile gomap answer \<times> api_world" where
  "getProfiles a = with_registry a (\<lambda>registry w. (Inr (NodeProfiles registry), w))"

definition getProfileByID :: "api_env \<Rightarrow> string \<Rightarrow> api_world \<Rightarrow> Profile answer \<times> api_world" where
  "getProfileByID a i = with_registry a (\<lambda>registry w.
     (case GetProfile registry i of
        Inl e \<Rightarrow> (Inl (NotFound, ErrMsg (''profile not found: '' @ i)), w)
      | Inr p \<Rightarrow> (Inr p, w)))"

definition api_addProfile :: "api_env \<Rightarrow> string \<Rightarrow> Profile \<Rightarrow> string \<Rightarrow> api_world \<Rightarrow> Profile answer \<times> api_world" where
  "api_addProfile a i p ifNoneMatch = with_registry a (\<lambda>registry w.
     if ifNoneMatch = ''*'' \<and> gm_get (NodeProfiles registry) i \<noteq> None
     then (Inl (InvalidArgument, ErrMsg (''profile '' @ i @ '' already exists'')), w)
     else checked a registry p (\<lambda>w.
       (case gm_put (NodeProfiles registry) i p of
          Inl e \<Rightarrow> (Inl (NoStatus, e), w)
        | Inr m \<Rightarrow> save a (registry\<lparr>NodeProfiles := m\<rparr>) (\<lambda>r. entry_or_panic (NodeProfiles r) i) w)) w)"

text \<open>\<open>GetProfilePtr\<close> sets the id of the entry it points to.\<close>

definition api_updateProfile :: "api_env \<Rightarrow> string \<Rightarrow> Profile \<Rightarrow> api_world \<Rightarrow> Profile answer \<times> api_world" where
  "api_updateProfile a i p = with_registry a (\<lambda>registry w.
     checked a registry p (\<lambda>w.
       (case GetProfilePtr registry i of
          Inl e \<Rightarrow> (Inl (NotFound, e), w)
        | Inr found \<Rightarrow>
            (case a_overwriteProfile a found p of
               Inl e \<Rightarrow> (Inl (NoStatus, e), w)
             | Inr merged \<Rightarrow>
                 (case gm_put (NodeProfiles registry) i merged of
                    Inl e \<Rightarrow> (Inl (NoStatus, e), w)
                  | Inr m \<Rightarrow> save a (registry\<lparr>NodeProfiles := m\<rparr>) (\<lambda>r. entry_or_panic (NodeProfiles r) i) w)))) w)"

definition api_deleteProfile :: "api_env \<Rightarrow> string \<Rightarrow> api_world \<Rightarrow> Profile answer \<times> api_world" where
  "api_deleteProfile a i = with_registry a (\<lambda>registry w.
     let nodesCount = length (ListNodesUsingProfile registry i);
         profilesCount = length (ListProfilesUsingProfile registry i)
     in if nodesCount > 0 \<or> profilesCount > 0
        then (Inl (InvalidArgument, ErrMsg (''profile '' @ i @ '' is in use by '' @ show_nat nodesCount @ '' nodes and '' @
               show_nat profilesCount @ '' profiles'')), w)
        else (case DelProfile registry i of
            Inl e \<Rightarrow> (Inl (NoStatus, e), w)
          | Inr r \<Rightarrow> save a r (\<lambda>_. entry_or_panic (NodeProfiles registry) i) w))"

end
