(* ===== verification/Util_Files.thy ===== *)
theory Util_Files
  imports Overlay_Build Go_Net
begin

text \<open>
  More of the package \<open>util\<close> (\<open>util.go\<close>): searching files by tar-like patterns, building an archive of a
  tree, sizes as text and arithmetic on IPv4 addresses.

  \<^item> \<open>filepath.Match\<close> is modelled on bytes: a question mark matches one byte. A malformed pattern matches
    nothing, which is what its caller makes of the error.
  \<^item> \<open>filepath.Glob\<close> is modelled for one pattern without a slash in a directory whose name has none of the
    special characters.
  \<^item> The device of a path is the argument \<open>dev\<close>. The programs \<open>cpio\<close> and \<open>gzip\<close> are arguments.
\<close>

unbundle bit_operations_syntax

section \<open>Patterns\<close>

datatype ptok = PStar | PAny | PChar char | PClass bool "(char \<times> char) list"

definition get_esc :: "string \<Rightarrow> (char \<times> string) option" where
  "get_esc s = (case s of
      [] \<Rightarrow> None
    | c # cs \<Rightarrow>
        if c = CHR ''-'' \<or> c = CHR '']'' then None
        else if c = CHR 0x5C then (case cs of [] \<Rightarrow> None | d # ds \<Rightarrow> if ds = [] then None else Some (d, ds))
        else if cs = [] then None else Some (c, cs))"

lemma get_esc_shorter: "get_esc s = Some (c, r) \<Longrightarrow> length r < length s"
  by (auto simp: get_esc_def split: list.splits if_splits)

text \<open>The ranges of a character class up to its closing bracket; there has to be one.\<close>

function parse_ranges :: "bool \<Rightarrow> string \<Rightarrow> ((char \<times> char) list \<times> string) option" where
  "parse_ranges some s =
     (if some \<and> s \<noteq> [] \<and> hd s = CHR '']'' then Some ([], tl s)
      else (case get_esc s of
          None \<Rightarrow> None
        | Some (lo, r) \<Rightarrow>
            if hd r = CHR ''-'' then
              (case get_esc (tl r) of
                 None \<Rightarrow> None
               | Some (hi, r2) \<Rightarrow> map_option (\<lambda>(rs, t). ((lo, hi) # rs, t)) (parse_ranges True r2))
            else map_option (\<lambda>(rs, t). ((lo, lo) # rs, t)) (parse_ranges True r)))"
  by pat_completeness auto

termination parse_ranges
  by (relation "measure (length \<circ> snd)") (auto dest!: get_esc_shorter)

declare parse_ranges.simps [simp del]

lemma parse_ranges_shorter: "parse_ranges some s = Some (rs, t) \<Longrightarrow> length t < length s"
proof (induction some s arbitrary: rs t rule: parse_ranges.induct)
  case (1 some s)
  note step = parse_ranges.simps [of some s]
  show ?case
  proof (cases "some \<and> s \<noteq> [] \<and> hd s = CHR '']''")
    case True
    with "1.prems" step show ?thesis by (cases s) auto
  next
    case False
    then obtain lo r where lo: "get_esc s = Some (lo, r)" using "1.prems" step by (auto split: option.splits if_splits)
    note sh = get_esc_shorter [OF lo]
    show ?thesis
    proof (cases "hd r = CHR ''-''")
      case True
      then obtain hi r2 rs2 where hi: "get_esc (tl r) = Some (hi, r2)" "parse_ranges True r2 = Some (rs2, t)"
        using "1.prems" step False lo by (auto split: option.splits)
      have "length t < length r2" by (rule "1.IH"(1) [OF False lo refl True hi(1) refl hi(2)])
      with get_esc_shorter [OF hi(1)] sh show ?thesis by (cases r) auto
    next
      case no: False
      then obtain rs2 where "parse_ranges True r = Some (rs2, t)" using "1.prems" step False lo by (auto split: option.splits)
      from "1.IH"(2) [OF False lo refl no this] sh show ?thesis by simp
    qed
  qed
qed

function parse_pattern :: "string \<Rightarrow> ptok list option" where
  "parse_pattern [] = Some []"
| "parse_pattern (c # cs) =
     (if c = CHR ''*'' then map_option ((#) PStar) (parse_pattern cs)
      else if c = CHR ''?'' then map_option ((#) PAny) (parse_pattern cs)
      else if c = CHR 0x5C then (case cs of [] \<Rightarrow> None | d # ds \<Rightarrow> map_option ((#) (PChar d)) (parse_pattern ds))
      else if c = CHR ''['' then
        (let neg = (cs \<noteq> [] \<and> hd cs = CHR ''^'')
         in case parse_ranges False (if neg then tl cs else cs) of
              None \<Rightarrow> None
            | Some (rs, t) \<Rightarrow> map_option ((#) (PClass neg rs)) (parse_pattern t))
      else map_option ((#) (PChar c)) (parse_pattern cs))"
  by pat_completeness auto

termination parse_pattern
proof (relation "measure length")
  fix c :: char and cs neg x rs t
  assume neg: "neg = (cs \<noteq> [] \<and> hd cs = CHR ''^'')"
    and r: "parse_ranges False (if neg then tl cs else cs) = Some x" "(rs, t) = x"
  from parse_ranges_shorter [of False "if neg then tl cs else cs" rs t] r have "length t < length cs"
    by (cases cs) (auto split: if_splits)
  then show "(t, c # cs) \<in> measure length" by simp
qed auto

fun match_toks :: "ptok list \<Rightarrow> string \<Rightarrow> bool" where
  "match_toks [] s = (s = [])"
| "match_toks (PStar # ps) [] = match_toks ps []"
| "match_toks (PStar # ps) (c # cs) = (match_toks ps (c # cs) \<or> c \<noteq> CHR ''/'' \<and> match_toks (PStar # ps) cs)"
| "match_toks (PAny # ps) (c # cs) = (c \<noteq> CHR ''/'' \<and> match_toks ps cs)"
| "match_toks (PChar d # ps) (c # cs) = (c = d \<and> match_toks ps cs)"
| "match_toks (PClass neg rs # ps) (c # cs) =
     ((list_ex (\<lambda>(lo, hi). of_char lo \<le> (of_char c :: nat) \<and> of_char c \<le> (of_char hi :: nat)) rs \<noteq> neg) \<and> match_toks ps cs)"
| "match_toks (_ # ps) [] = False"

definition filepath_Match :: "string \<Rightarrow> string \<Rightarrow> bool" where
  "filepath_Match pattern name = (case parse_pattern pattern of None \<Rightarrow> False | Some ps \<Rightarrow> match_toks ps name)"

section \<open>Searching\<close>

text \<open>\<open>strings.Trim\<close> for one character.\<close>

definition Trim_char :: "char \<Rightarrow> string \<Rightarrow> string" where
  "Trim_char c s = rev (dropWhile (\<lambda>x. x = c) (rev (dropWhile (\<lambda>x. x = c) s)))"

definition FirstError :: "err option list \<Rightarrow> err option" where
  "FirstError es = (case filter (\<lambda>e. e \<noteq> None) es of [] \<Rightarrow> None | e # _ \<Rightarrow> e)"

text \<open>\<open>FindFiles\<close>: errors end the search and are logged only.\<close>

fun found_files :: "string \<Rightarrow> (string \<times> fnode) list \<Rightarrow> string list" where
  "found_files path [] = []"
| "found_files path ((location, info) # es) = (case Rel path location of
      None \<Rightarrow> []
    | Some rel \<Rightarrow>
        if rel = ''.'' then found_files path es
        else (if fn_kind info = Dir then rel @ ''/'' else rel) # found_files path es)"

definition FindFiles :: "ufs \<Rightarrow> string \<Rightarrow> string list" where
  "FindFiles u path = (case Walk u path of None \<Rightarrow> [] | Some es \<Rightarrow> found_files path es)"

definition glob_in :: "ufs \<Rightarrow> string \<Rightarrow> string \<Rightarrow> string list" where
  "glob_in u dir pat = map (\<lambda>e. path_Join [dir, fst e]) (filter (\<lambda>e. filepath_Match pat (fst e)) (dir_names u dir))"

text \<open>
  The callback of the walk: \<open>filepath.SkipDir\<close> leaves out what is below an ignored directory. A path on
  another device is left out before the patterns are looked at, and its directory is entered.
\<close>

definition ignored :: "string list \<Rightarrow> string \<Rightarrow> bool" where
  "ignored pats rel = list_ex (\<lambda>p. filepath_Match p rel) pats"

function filter_walk :: "(string \<Rightarrow> bool) \<Rightarrow> string list \<Rightarrow> string \<Rightarrow> (string \<times> fnode) list \<Rightarrow> string list result" where
  "filter_walk other pats absPath [] = Inr []"
| "filter_walk other pats absPath ((location, info) # es) = (case Rel absPath location of
      None \<Rightarrow> Inl ErrIO
    | Some rel \<Rightarrow>
        if rel = ''.'' \<or> other location then filter_walk other pats absPath es
        else if ignored pats rel then
          (if fn_kind info = Dir then filter_walk other pats absPath (filter (\<lambda>e. \<not> below location (fst e)) es)
           else filter_walk other pats absPath es)
        else map_sum id ((#) rel) (filter_walk other pats absPath es))"
  by pat_completeness auto

termination filter_walk
  by (relation "measure (\<lambda>(_, _, _, es). length es)") (auto simp: le_imp_less_Suc)

fun include_files :: "(string \<Rightarrow> bool) \<Rightarrow> string list \<Rightarrow> string \<Rightarrow> ufs \<Rightarrow> string list \<Rightarrow> string list result" where
  "include_files other pats absPath u [] = Inr []"
| "include_files other pats absPath u (inc # incs) =
     (case (case Lstat u inc of
         None \<Rightarrow> Inl ErrIO
       | Some n \<Rightarrow>
           if fn_kind n = Dir then (case Walk u inc of None \<Rightarrow> Inl ErrIO | Some es \<Rightarrow> filter_walk other pats absPath es)
           else (case Rel absPath inc of None \<Rightarrow> Inl ErrIO | Some rel \<Rightarrow> Inr [rel])) of
        Inl e \<Rightarrow> Inl e
      | Inr files \<Rightarrow> map_sum id ((@) files) (include_files other pats absPath u incs))"

definition FindFilterFiles :: "(string \<Rightarrow> nat) \<Rightarrow> ufs \<Rightarrow> string \<Rightarrow> string list \<Rightarrow> string list \<Rightarrow> bool \<Rightarrow> string list result" where
  "FindFilterFiles dev u path includePattern ignorePattern ignore_xdev =
     (let pats = map (Trim_char CHR ''/'') ignorePattern;
          absPath = Clean path;
          globed = concat (map (glob_in u absPath) includePattern);
          other = (\<lambda>p. ignore_xdev \<and> dev p \<noteq> dev absPath)
      in if ignore_xdev \<and> Stat u absPath = None then Inl ErrIO
         else include_files other pats absPath u globed)"

section \<open>Archives\<close>

text \<open>
  \<open>cpio\<close> gets its arguments and its input and returns the error of the program, the error of writing
  the input, and the files; \<open>renumber\<close> is whether it knows \<open>--renumber-inodes\<close>.
\<close>

type_synonym cpio_run = "string list \<Rightarrow> string \<Rightarrow> ufs \<Rightarrow> (err option \<times> err option) \<times> ufs"

definition CpioCreate :: "cpio_run \<Rightarrow> bool \<Rightarrow> string \<Rightarrow> string list \<Rightarrow> string \<Rightarrow> string \<Rightarrow> string list \<Rightarrow> ufs effect" where
  "CpioCreate cpio renumber rootdir ifiles ofile format cpio_args u =
     (case cpio ([''--quiet'', ''--create'', ''--directory'', rootdir, ''--format'', format, ''--file='' @ ofile] @
          (if renumber then [''--renumber-inodes''] else []) @ cpio_args) (Join ifiles [newline]) u of
        ((e, e_in), u) \<Rightarrow> (FirstError [e, e_in], u))"

text \<open>
  The compressor: where \<open>exec.LookPath\<close> finds a program, running it with \<open>--keep\<close> (its error and its
  output), and running it with \<open>--stdout\<close> into a file.
\<close>

record compressor =
  gz_LookPath :: "string \<Rightarrow> string option"
  gz_keep :: "string \<Rightarrow> string \<Rightarrow> ufs \<Rightarrow> (err option \<times> string) \<times> ufs"
  gz_stdout :: "string \<Rightarrow> string \<Rightarrow> string \<Rightarrow> ufs effect"

definition gzip_stdout :: "compressor \<Rightarrow> string \<Rightarrow> string \<Rightarrow> ufs effect" where
  "gzip_stdout gz cmd file u = (case os_Create (file @ ''.gz'') u of
      (None, u) \<Rightarrow> (Some ErrIO, u)
    | (Some q, u) \<Rightarrow>
        (case gz_stdout gz cmd file q u of
           (None, u) \<Rightarrow> (None, u)
         | (Some e, u) \<Rightarrow> (Some e, snd (os_Remove (file @ ''.gz'') u))))"

definition FileGz :: "compressor \<Rightarrow> string \<Rightarrow> ufs effect" where
  "FileGz gz file u =
     and_then (if uIsFile u (file @ ''.gz'') then os_Remove (file @ ''.gz'') u else (None, u)) (\<lambda>u.
       (case (case gz_LookPath gz ''pigz'' of Some p \<Rightarrow> Some p | None \<Rightarrow> gz_LookPath gz ''gzip'') of
          None \<Rightarrow> (Some (ErrMsg (''no compressor program for image file: '' @ file @ ''.gz'')), u)
        | Some cmd \<Rightarrow>
            (case gz_keep gz cmd file u of
               ((e, out), u) \<Rightarrow>
                 if out \<noteq> [] \<and> e \<noteq> None \<and> HasSuffix cmd ''gzip'' \<and> Contains out ''unrecognized option''
                 then gzip_stdout gz cmd file u
                 else (e, u))))"

definition BuildFsImage :: "cpio_run \<Rightarrow> bool \<Rightarrow> compressor \<Rightarrow> (string \<Rightarrow> nat) \<Rightarrow> string \<Rightarrow> string \<Rightarrow>
    string list \<Rightarrow> string list \<Rightarrow> bool \<Rightarrow> string \<Rightarrow> string list \<Rightarrow> ufs effect" where
  "BuildFsImage cpio renumber gz dev rootfsPath imagePath incl ignore ignore_xdev format cpio_args u =
     and_then (os_MkdirAll (parent imagePath) u) (\<lambda>u.
       (case FindFilterFiles dev u rootfsPath incl ignore ignore_xdev of
          Inl e \<Rightarrow> (Some e, u)
        | Inr files \<Rightarrow>
            and_then (CpioCreate cpio renumber rootfsPath files imagePath format cpio_args u) (FileGz gz imagePath)))"

text \<open>\<open>DirSize\<close>; a sum of 64 bits.\<close>

definition DirSize :: "ufs \<Rightarrow> string \<Rightarrow> int result" where
  "DirSize u path = (case Walk u path of
      None \<Rightarrow> Inl ErrIO
    | Some es \<Rightarrow> Inr (foldl (\<lambda>n e. if fn_kind (snd e) = Dir then n else wrap64 (n + int (length (fn_data (snd e))))) 0 es))"

section \<open>Numbers\<close>

text \<open>
  \<open>ByteToString\<close>: a size in bytes, or a quotient that is printed with one decimal and a letter for its
  unit. An index out of range would panic.
\<close>

datatype size_text = Bytes int | Scaled int int char

function byte_units :: "int \<Rightarrow> int \<Rightarrow> nat \<Rightarrow> int \<times> nat" where
  "byte_units n dv ex = (if n \<ge> 1024 then byte_units (n div 1024) (wrap64 (dv * 1024)) (ex + 1) else (dv, ex))"
  by pat_completeness auto

termination byte_units
  by (relation "measure (\<lambda>(n, _, _). nat n)") auto

declare byte_units.simps [simp del]

definition ByteToString :: "int \<Rightarrow> size_text result" where
  "ByteToString b =
     (if b < 1024 then Inr (Bytes b)
      else (case byte_units (b div 1024) 1024 0 of (dv, ex) \<Rightarrow>
          if ex < length ''KMGTPE'' then Inr (Scaled b dv (''KMGTPE'' ! ex)) else Inl ErrPanic))"

text \<open>\<open>IncrementIPv4\<close> indexes the result of \<open>To4\<close>, which is nil for other addresses.\<close>

definition IncrementIPv4 :: "IP \<Rightarrow> 64 word \<Rightarrow> IP result" where
  "IncrementIPv4 start inc = (case To4 start of
      Some [a, b, c, d] \<Rightarrow>
        (let v = push_bit 24 (ucast a) + push_bit 16 (ucast b) + push_bit 8 (ucast c) + ucast d + inc :: 64 word
         in Inr (IPv4 (ucast (drop_bit 24 v AND 0xFF)) (ucast (drop_bit 16 v AND 0xFF))
                      (ucast (drop_bit 8 v AND 0xFF)) (ucast (v AND 0xFF))))
    | _ \<Rightarrow> Inl ErrPanic)"

section \<open>Bounds\<close>

lemma wrap64_small: "0 \<le> x \<Longrightarrow> x < 2 ^ 63 \<Longrightarrow> wrap64 x = x"
  by (simp add: wrap64_def)

lemma le_div_int:
  assumes "0 < (c::int)"
  shows "d \<le> b div c \<longleftrightarrow> d * c \<le> b"
proof
  assume "d \<le> b div c"
  then have "d * c \<le> (b div c) * c" using assms by simp
  also have "\<dots> \<le> b" using div_mult_mod_eq [of b c] pos_mod_sign [OF assms, of b] by linarith
  finally show "d * c \<le> b" .
next
  assume "d * c \<le> b"
  from zdiv_mono1 [OF this assms] assms show "d \<le> b div c" by simp
qed

lemma byte_units_result:
  assumes "0 < b" "b < 2 ^ 63" "(1024::int) ^ (k + 1) \<le> b"
  shows "\<exists>j. byte_units (b div 1024 ^ (k + 1)) (1024 ^ (k + 1)) k = (1024 ^ (j + 1), j) \<and>
    (1024::int) ^ (j + 1) \<le> b \<and> b < 1024 ^ (j + 2)"
proof -
  define P :: "nat \<Rightarrow> int" where "P n = 1024 ^ n" for n
  have P_Suc: "P (Suc n) = P n * 1024" and P_pos: "0 < P n" for n by (simp_all add: P_def)
  have "P (Suc k) \<le> b \<Longrightarrow>
      \<exists>j. byte_units (b div P (Suc k)) (P (Suc k)) k = (P (Suc j), j) \<and> P (Suc j) \<le> b \<and> b < P (Suc (Suc j))"
  proof (induction "nat (b div P (Suc k))" arbitrary: k rule: less_induct)
    case less
    show ?case
    proof (cases "b div P (Suc k) \<ge> 1024")
      case True
      then have le: "P (Suc (Suc k)) \<le> b"
        using le_div_int [OF P_pos [of "Suc k"], of 1024 b] P_Suc [of "Suc k"] by simp
      have dv: "b div P (Suc k) div 1024 = b div P (Suc (Suc k))"
        unfolding P_Suc [of "Suc k"] by (rule zdiv_zmult2_eq [symmetric]) simp
      have "b div P (Suc (Suc k)) < b div P (Suc k)"
        unfolding dv [symmetric] using True by (intro int_div_less_self) auto
      with less.hyps [of "Suc k"] le True
      have "\<exists>j. byte_units (b div P (Suc (Suc k))) (P (Suc (Suc k))) (Suc k) = (P (Suc j), j) \<and> P (Suc j) \<le> b \<and> b < P (Suc (Suc j))"
        by simp
      moreover have "wrap64 (P (Suc k) * 1024) = P (Suc (Suc k))"
        using le assms(2) P_pos [of "Suc (Suc k)"] unfolding P_Suc [of "Suc k"] by (intro wrap64_small) auto
      ultimately show ?thesis using True by (subst byte_units.simps) (simp add: dv)
    next
      case False
      then have "b < P (Suc (Suc k))"
        using le_div_int [OF P_pos [of "Suc k"], of 1024 b] P_Suc [of "Suc k"] by simp
      with False less.prems show ?thesis by (subst byte_units.simps) auto
    qed
  qed
  with assms(3) show ?thesis by (simp add: P_def)
qed

text \<open>
  (C33) Sizes are printed within bounds: a size below 1024 is printed in bytes, and any other 64-bit
  size as a quotient of at least one and less than 1024 of a unit among KiB to EiB. The index into the
  letters is never out of range and the divisor never overflows.
\<close>

theorem ByteToString_in_bounds:
  assumes "b < 2 ^ 63"
  shows "(b < 1024 \<longrightarrow> ByteToString b = Inr (Bytes b)) \<and>
    (b \<ge> 1024 \<longrightarrow> (\<exists>k < 6. ByteToString b = Inr (Scaled b (1024 ^ (k + 1)) (''KMGTPE'' ! k)) \<and>
       1024 ^ (k + 1) \<le> b \<and> b < 1024 ^ (k + 2)))"
proof (cases "b < 1024")
  case False
  then obtain j where j: "byte_units (b div 1024) 1024 0 = (1024 ^ (j + 1), j)" "(1024::int) ^ (j + 1) \<le> b" "b < 1024 ^ (j + 2)"
    using byte_units_result [of b 0] assms by auto
  have "j < 6"
  proof (rule ccontr)
    assume "\<not> j < 6"
    then have "(1024::int) ^ 7 \<le> 1024 ^ (j + 1)" by (intro power_increasing) auto
    with j(2) assms show False by simp
  qed
  with j False show ?thesis by (auto simp: ByteToString_def intro!: exI [of _ j])
qed (simp add: ByteToString_def)

theorem ByteToString_in_bounds_witness:
  "\<exists>k < 6. ByteToString 5368709120 = Inr (Scaled 5368709120 (1024 ^ (k + 1)) (''KMGTPE'' ! k)) \<and>
     (1024::int) ^ (k + 1) \<le> 5368709120 \<and> 5368709120 < (1024::int) ^ (k + 2)"
  using ByteToString_in_bounds [of 5368709120] by simp

text \<open>The value of the four bytes of an address, the first one most significant.\<close>

definition ip4_value :: "IP \<Rightarrow> int" where
  "ip4_value ip = (case To4 ip of Some [a, b, c, d] \<Rightarrow> uint a * 2 ^ 24 + uint b * 2 ^ 16 + uint c * 2 ^ 8 + uint d | _ \<Rightarrow> 0)"

lemma split_bytes:
  fixes x :: int
  shows "x mod 2 ^ 32 = (x div 2 ^ 24 mod 256) * 2 ^ 24 + (x div 2 ^ 16 mod 256) * 2 ^ 16 + (x div 2 ^ 8 mod 256) * 2 ^ 8 + x mod 256"
proof -
  have low: "y mod (256 * m) = (y div 256 mod m) * 256 + y mod 256" if "0 < m" for y m :: int
    using zmod_zmult2_eq [of m y 256] that by simp
  have up: "y div 256 div 256 = y div 65536" "y div 65536 div 256 = y div 16777216" for y :: int
    by (simp_all add: zdiv_zmult2_eq [symmetric])
  have "x mod 2 ^ 32 = (x div 256 mod 16777216) * 256 + x mod 256" using low [of 16777216 x] by simp
  also have "x div 256 mod 16777216 = (x div 65536 mod 65536) * 256 + x div 256 mod 256"
    using low [of 65536 "x div 256"] by (simp add: up)
  also have "x div 65536 mod 65536 = (x div 16777216 mod 256) * 256 + x div 65536 mod 256"
    using low [of 256 "x div 65536"] by (simp add: up)
  finally have "x mod 2 ^ 32 = (((x div 16777216 mod 256) * 256 + x div 65536 mod 256) * 256 + x div 256 mod 256) * 256 + x mod 256" .
  moreover have "m = ((a * 256 + b) * 256 + c) * 256 + d \<Longrightarrow> m = a * 2 ^ 24 + b * 2 ^ 16 + c * 2 ^ 8 + d" for m a b c d :: int
    by simp
  moreover have "(2::int) ^ 24 = 16777216" "(2::int) ^ 16 = 65536" "(2::int) ^ 8 = 256" by simp_all
  ultimately show ?thesis by metis
qed

lemma uint_byte: "uint (ucast (drop_bit k v AND 0xFF :: 64 word) :: 8 word) = uint v div 2 ^ k mod 256"
proof -
  have "mask 8 = (0xFF :: 64 word)" by (simp add: mask_eq_exp_minus_1)
  then have "drop_bit k v AND 0xFF = take_bit 8 (drop_bit k v)" by (simp only: take_bit_eq_mask)
  moreover have "uint v mod 2 ^ 64 = uint v" using uint_lt2p [of v] by simp
  ultimately have "uint (ucast (drop_bit k v AND 0xFF :: 64 word) :: 8 word) = take_bit 8 (drop_bit k (uint v))"
    by (simp only: unsigned_ucast_eq unsigned_take_bit_eq unsigned_drop_bit_eq) (simp add: take_bit_eq_mod)
  then show ?thesis by (simp add: take_bit_eq_mod drop_bit_eq_div)
qed

lemma To4_length: "To4 ip = Some v \<Longrightarrow> length v = 4"
  by (auto simp: To4_def split: if_splits)

lemma To4_IPv4 [simp]: "To4 (IPv4 a b c d) = Some [a, b, c, d]"
  by (simp add: To4_def IPv4_def v4InV6Prefix_def)

lemma uint_octets:
  "uint (push_bit 24 (ucast a) + push_bit 16 (ucast b) + push_bit 8 (ucast c) + ucast d + inc :: 64 word) =
     (uint (a :: 8 word) * 2 ^ 24 + uint (b :: 8 word) * 2 ^ 16 + uint (c :: 8 word) * 2 ^ 8 + uint (d :: 8 word) + uint inc) mod 2 ^ 64"
proof -
  have "(push_bit 24 (ucast a) + push_bit 16 (ucast b) + push_bit 8 (ucast c) + ucast d + inc :: 64 word) =
      word_of_int (uint a * 2 ^ 24 + uint b * 2 ^ 16 + uint c * 2 ^ 8 + uint d + uint inc)"
    by (simp add: push_bit_eq_mult)
  then show ?thesis by (simp only: uint_word_of_int) simp
qed

text \<open>
  The next address of a range: a start that is an IPv4 address, in four or in sixteen bytes, gives
  the IPv4 address whose value is the sum modulo \<open>2 ^ 32\<close>, also where the 64-bit sum itself wraps
  around; any other start panics.
\<close>

theorem IncrementIPv4_value:
  "case To4 start of
     None \<Rightarrow> IncrementIPv4 start inc = Inl ErrPanic
   | Some _ \<Rightarrow> \<exists>ip. IncrementIPv4 start inc = Inr ip \<and> To4 ip \<noteq> None \<and>
       ip4_value ip = (ip4_value start + uint inc) mod 2 ^ 32"
proof (cases "To4 start")
  case (Some v)
  then obtain a b c d where v: "v = [a, b, c, d]"
    using To4_length [OF Some] by (auto simp: numeral_eq_Suc length_Suc_conv)
  let ?w = "push_bit 24 (ucast a) + push_bit 16 (ucast b) + push_bit 8 (ucast c) + ucast d + inc :: 64 word"
  let ?ip = "IPv4 (ucast (drop_bit 24 ?w AND 0xFF)) (ucast (drop_bit 16 ?w AND 0xFF))
    (ucast (drop_bit 8 ?w AND 0xFF)) (ucast (drop_bit 0 ?w AND 0xFF))"
  have "ip4_value ?ip = uint ?w mod 2 ^ 32"
    unfolding ip4_value_def To4_IPv4 option.case list.case uint_byte split_bytes by (simp only: power_0 div_by_1)
  also have "\<dots> = (ip4_value start + uint inc) mod 2 ^ 32"
    unfolding uint_octets by (simp add: ip4_value_def Some v mod_mod_cancel)
  moreover have "IncrementIPv4 start inc = Inr ?ip"
    by (simp only: IncrementIPv4_def Some v option.case list.case Let_def drop_bit_0 id_apply)
  ultimately show ?thesis using Some by simp
qed (simp add: IncrementIPv4_def)

end
