(* ===== verification/Image_Ops.thy ===== *)
theory Image_Ops
  imports Api_Nodes Util_Files Ww_Config
begin

text \<open>
  Operations on whole images: \<open>image/util.go\<close>, \<open>image/build.go\<close>, \<open>image/delete.go\<close>, \<open>image/rename.go\<close>,
  \<open>ImportDirectory\<close> of \<open>image/imprt.go\<close>, \<open>InitMountPnts\<close> of \<open>image/mountpoints.go\<close>, and the handlers of
  \<open>warewulfd/api/image.go\<close> that change images.

  \<^item> The state is that of the API: the daemon with \<open>nodes.conf\<close>, and the files with the image sources
    and the built images.
  \<^item> The programs behind a build and the device and change time of a path are the parameters
    \<open>build_tools\<close>. Go visits maps in random order, so an error does not say which user of an image was
    found first.
\<close>

record build_tools =
  bt_cpio :: cpio_run
  bt_renumber :: bool
  bt_gz :: compressor
  bt_dev :: "string \<Rightarrow> nat"
  bt_ctime :: "ufs \<Rightarrow> string \<Rightarrow> int"

abbreviation chrootdir :: "api_env \<Rightarrow> string" where
  "chrootdir a \<equiv> c_WWChrootdir (e_conf (a_env a))"

abbreviation provisiondir :: "api_env \<Rightarrow> string" where
  "provisiondir a \<equiv> c_WWProvisiondir (e_conf (a_env a))"

section \<open>Looking at images\<close>

definition ListSources :: "string \<Rightarrow> ufs \<Rightarrow> string list result \<times> ufs" where
  "ListSources croot u = (case os_MkdirAll croot u of
      (Some _, u) \<Rightarrow> (Inl (ErrMsg (''Could not create image source parent directory: '' @ croot)), u)
    | (None, u) \<Rightarrow>
        if map_option fn_kind (Stat u croot) \<noteq> Some Dir then (Inl ErrIO, u)
        else (Inr (filter (\<lambda>n. ValidName n \<and> ValidSource croot u n) (map fst (dir_names u croot))), u))"

definition IsWriteAble :: "string \<Rightarrow> ufs \<Rightarrow> string \<Rightarrow> bool" where
  "IsWriteAble croot u name = (\<not> uIsFile u (path_Join [SourceDir croot name, ''readonly'']))"

definition ImageSize :: "string \<Rightarrow> ufs \<Rightarrow> string \<Rightarrow> int" where
  "ImageSize pdir u name = (case Stat u (ImageFile pdir name) of Some n \<Rightarrow> int (length (fn_data n)) | None \<Rightarrow> 0)"

definition CompressedImageSize :: "string \<Rightarrow> ufs \<Rightarrow> string \<Rightarrow> int" where
  "CompressedImageSize pdir u name = (case Stat u (CompressedImageFile pdir name) of Some n \<Rightarrow> int (length (fn_data n)) | None \<Rightarrow> 0)"

section \<open>Building\<close>

text \<open>
  \<open>util.DirModTime\<close> and \<open>util.PathIsNewer\<close>: the latest change among the files of a tree, where links are
  followed and broken ones left out. The zero time is \<open>None\<close>, which is before every other.
\<close>

definition later :: "int option \<Rightarrow> int \<Rightarrow> int option" where
  "later t c = (case t of None \<Rightarrow> Some c | Some s \<Rightarrow> if c > s then Some c else Some s)"

definition DirModTime :: "(ufs \<Rightarrow> string \<Rightarrow> int) \<Rightarrow> ufs \<Rightarrow> string \<Rightarrow> int option result" where
  "DirModTime ctime u path = (case Walk u path of
      None \<Rightarrow> Inl ErrIO
    | Some es \<Rightarrow> Inr (foldl (\<lambda>t e. if Stat u (fst e) = None then t else later t (ctime u (fst e))) None es))"

definition PathIsNewer :: "(ufs \<Rightarrow> string \<Rightarrow> int) \<Rightarrow> ufs \<Rightarrow> string \<Rightarrow> string \<Rightarrow> bool" where
  "PathIsNewer ctime u src compare = (case (DirModTime ctime u src, DirModTime ctime u compare) of
      (Inr time1, Inr time2) \<Rightarrow>
        (case (time1, time2) of (None, Some _) \<Rightarrow> True | (Some s, Some t) \<Rightarrow> s < t | _ \<Rightarrow> False)
    | _ \<Rightarrow> False)"

definition util_ReadFile :: "ufs \<Rightarrow> string \<Rightarrow> string list result" where
  "util_ReadFile u path = (case Stat u path of None \<Rightarrow> Inl ErrIO | Some n \<Rightarrow> Inr (node_lines n))"

definition image_Build :: "build_tools \<Rightarrow> string \<Rightarrow> string \<Rightarrow> string \<Rightarrow> bool \<Rightarrow> ufs effect" where
  "image_Build bt croot pdir name buildForce u =
     (let rootfsPath = RootFsDir croot name; imagePath = ImageFile pdir name;
          excludes_file = path_Join [rootfsPath, ''./etc/warewulf/excludes'']
      in if \<not> ValidSource croot u name then (Some (ErrMsg (''image does not exist: '' @ name)), u)
         else if \<not> buildForce \<and> PathIsNewer (bt_ctime bt) u rootfsPath imagePath then (None, u)
         else (case (if uIsFile u excludes_file then util_ReadFile u excludes_file else Inr []) of
            Inl e \<Rightarrow> (Some e, u)
          | Inr ignore \<Rightarrow>
              BuildFsImage (bt_cpio bt) (bt_renumber bt) (bt_gz bt) (bt_dev bt) rootfsPath imagePath [''*''] ignore True ''newc'' [] u))"

section \<open>Importing and mount points\<close>

definition ImportDirectory :: "(string \<Rightarrow> string \<Rightarrow> ufs effect) \<Rightarrow> string \<Rightarrow> string \<Rightarrow> string \<Rightarrow> ufs effect" where
  "ImportDirectory dircopy croot uri name u =
     (let fullPath = RootFsDir croot name in
      and_then (os_MkdirAll fullPath u) (\<lambda>u.
        if \<not> uIsDir u uri then (Some (ErrMsg (''Import directory does not exist: '' @ uri)), u)
        else if \<not> uIsFile u (path_Join [uri, ''/bin/sh'']) then (Some (ErrMsg (''Source directory has no /bin/sh: '' @ uri)), u)
        else dircopy uri fullPath u))"

definition Duplicate :: "(string \<Rightarrow> string \<Rightarrow> ufs effect) \<Rightarrow> string \<Rightarrow> string \<Rightarrow> string \<Rightarrow> ufs effect" where
  "Duplicate dircopy croot name destination = ImportDirectory dircopy croot (RootFsDir croot name) destination"

text \<open>\<open>InitMountPnts\<close>: \<open>source[:destination][:ro|copy]\<close>; \<open>strings.Split\<close> returns at least one part.\<close>

definition init_mount :: "string \<Rightarrow> MountEntry" where
  "init_mount b =
     (let bind = Split b CHR '':'';
          option = (if length bind \<ge> 3 then bind ! 2 else [])
      in \<lparr>mt_Source = bind ! 0, mt_Dest = (if length bind \<ge> 2 then bind ! 1 else bind ! 0),
          mt_ReadOnlyP = Some (option = ''ro''), mt_Options = [], mt_CopyP = Some (option = ''copy'')\<rparr>)"

definition InitMountPnts :: "string list \<Rightarrow> MountEntry list" where
  "InitMountPnts binds = map init_mount binds"

section \<open>Deleting and renaming\<close>

definition DeleteSource :: "string \<Rightarrow> string \<Rightarrow> ufs effect" where
  "DeleteSource croot name = os_RemoveAll (SourceDir croot name)"

definition DeleteImage :: "string \<Rightarrow> string \<Rightarrow> ufs effect" where
  "DeleteImage pdir name u =
     (let imageFile = ImageFile pdir name in
      if uIsFile u imageFile then
        (case os_Remove imageFile u of (errImg, u) \<Rightarrow>
         (case os_Remove (imageFile @ ''.gz'') u of (errGz, u) \<Rightarrow>
            (if errImg \<noteq> None then Some (ErrMsg (''problem deleting '' @ imageFile @ '' for image '' @ name))
             else if errGz \<noteq> None then Some (ErrMsg (''problem deleting '' @ imageFile @ ''.gz for image '' @ name))
             else None, u)))
      else (Some (ErrMsg (''image '' @ imageFile @ '' of image '' @ name @ '' doesn't exist'')), u))"

definition uses_image :: "NodesYaml \<Rightarrow> string \<Rightarrow> bool" where
  "uses_image c name =
     (list_ex (\<lambda>(_, n). pf_ImageName (nd_Profile n) = name) (gm_entries (Nodes c)) \<or>
      list_ex (\<lambda>(_, p). pf_ImageName p = name) (gm_entries (NodeProfiles c)))"

definition image_Delete :: "api_env \<Rightarrow> string \<Rightarrow> api_world effect" where
  "image_Delete a name w =
     (if \<not> ValidSource (chrootdir a) (aw_files w) name then (Some (ErrMsg (''image name is not valid source: '' @ name)), w)
      else (case node_New (a_env a) (aw_wwd w) of
         Inl e \<Rightarrow> (Some e, w)
       | Inr nodeDB \<Rightarrow>
           if uses_image nodeDB name then (Some (ErrMsg (''image '' @ name @ '' is in use, cannot delete'')), w)
           else (case and_then (DeleteSource (chrootdir a) name (aw_files w)) (DeleteImage (provisiondir a) name) of
              (e, u) \<Rightarrow> (e, w\<lparr>aw_files := u\<rparr>))))"

text \<open>
  \<open>os.Rename\<close>: Go refuses a new name that is a directory, and the system one that is a file when a
  directory is moved. What is below the old path is moved with it.
\<close>

definition move_path :: "string \<Rightarrow> string \<Rightarrow> string \<Rightarrow> string" where
  "move_path p q r = path_of (rooted q) (comps q @ drop (length (comps p)) (comps r))"

definition os_RenameAny :: "string \<Rightarrow> string \<Rightarrow> ufs effect" where
  "os_RenameAny p q u =
     (if map_option fn_kind (Lstat u p) \<noteq> Some Dir then os_Rename p q u
      else if Lstat u q \<noteq> None \<or> below p q \<or> p \<in> set (uf_refuse u) \<or> q \<in> set (uf_refuse u) \<or>
              map_option fn_kind (Lstat u (parent q)) \<noteq> Some Dir
      then (Some ErrIO, u)
      else (None, u\<lparr>uf_nodes := map (\<lambda>e. if below p (fst e) then (move_path p q (fst e), snd e) else e) (uf_nodes u)\<rparr>))"

definition rename_image :: "string \<Rightarrow> string \<Rightarrow> Profile \<Rightarrow> Profile" where
  "rename_image name target p = (if pf_ImageName p = name then p\<lparr>pf_ImageName := target\<rparr> else p)"

definition rename_users :: "string \<Rightarrow> string \<Rightarrow> NodesYaml \<Rightarrow> NodesYaml" where
  "rename_users name target c =
     c\<lparr>Nodes := gm_map (\<lambda>n. n\<lparr>nd_Profile := rename_image name target (nd_Profile n)\<rparr>) (Nodes c),
       NodeProfiles := gm_map (rename_image name target) (NodeProfiles c)\<rparr>"

definition image_Rename :: "build_tools \<Rightarrow> api_env \<Rightarrow> string \<Rightarrow> string \<Rightarrow> bool \<Rightarrow> api_world effect" where
  "image_Rename bt a name targetName build w =
     (if \<not> ValidSource (chrootdir a) (aw_files w) name then (Some (ErrMsg (''image source does not exist: '' @ name)), w)
      else if \<not> ValidName targetName then (Some (ErrMsg (''invalid image name: '' @ targetName)), w)
      else (case os_RenameAny (SourceDir (chrootdir a) name) (SourceDir (chrootdir a) targetName) (aw_files w) of
         (Some e, u) \<Rightarrow> (Some e, w\<lparr>aw_files := u\<rparr>)
       | (None, u) \<Rightarrow>
           (let u = snd (DeleteImage (provisiondir a) name u) in
            case (if build then image_Build bt (chrootdir a) (provisiondir a) targetName True u else (None, u)) of
              (Some e, u) \<Rightarrow> (Some e, w\<lparr>aw_files := u\<rparr>)
            | (None, u) \<Rightarrow>
                (case node_New (a_env a) (aw_wwd w) of
                   Inl e \<Rightarrow> (Some e, w\<lparr>aw_files := u\<rparr>)
                 | Inr nodeDB \<Rightarrow>
                     (case api_Persist (a_env a) (rename_users name targetName nodeDB) (aw_wwd w) of
                        (e, wd) \<Rightarrow> (e, w\<lparr>aw_files := u, aw_wwd := wd\<rparr>))))))"

section \<open>Handlers\<close>

text \<open>The answer describes the image of a name; here it is that name.\<close>

definition getImageByName :: "api_env \<Rightarrow> string \<Rightarrow> api_world \<Rightarrow> string answer \<times> api_world" where
  "getImageByName a name w =
     (if \<not> ValidSource (chrootdir a) (aw_files w) name then (Inl (NotFound, ErrMsg (''image not found: '' @ name)), w)
      else (Inr name, w))"

definition getImages :: "api_env \<Rightarrow> api_world \<Rightarrow> string list answer \<times> api_world" where
  "getImages a w = (case ListSources (chrootdir a) (aw_files w) of
      (Inl e, u) \<Rightarrow> (Inl (NoStatus, e), w\<lparr>aw_files := u\<rparr>)
    | (Inr ns, u) \<Rightarrow> (Inr ns, w\<lparr>aw_files := u\<rparr>))"

definition api_deleteImage :: "api_env \<Rightarrow> string \<Rightarrow> api_world \<Rightarrow> unit answer \<times> api_world" where
  "api_deleteImage a name = with_registry a (\<lambda>registry w.
     if length (ListNodesUsingImage registry name) > 0 \<or> length (ListProfilesUsingImage registry name) > 0
     then (Inl (InvalidArgument, ErrMsg (''image '' @ name @ '' is in use'')), w)
     else (case image_Delete a name w of
        (Some e, w) \<Rightarrow> (Inl (NoStatus, e), w)
      | (None, w) \<Rightarrow> (Inr (), w)))"

definition api_updateImage :: "build_tools \<Rightarrow> api_env \<Rightarrow> string \<Rightarrow> string \<Rightarrow> bool \<Rightarrow> api_world \<Rightarrow> string answer \<times> api_world" where
  "api_updateImage bt a name newName build w =
     (if newName \<noteq> [] then
        (case image_Rename bt a name newName build w of
           (Some e, w) \<Rightarrow> (Inl (NoStatus, e), w)
         | (None, w) \<Rightarrow> (Inr newName, w\<lparr>aw_wwd := Reload (a_env a) (aw_wwd w)\<rparr>))
      else (Inr name, w))"

definition api_buildImage :: "build_tools \<Rightarrow> api_env \<Rightarrow> string \<Rightarrow> bool \<Rightarrow> api_world \<Rightarrow> string answer \<times> api_world" where
  "api_buildImage bt a name force w =
     (case image_Build bt (chrootdir a) (provisiondir a) name force (aw_files w) of
        (Some e, u) \<Rightarrow> (Inl (NoStatus, e), w\<lparr>aw_files := u\<rparr>)
      | (None, u) \<Rightarrow> (Inr name, w\<lparr>aw_files := u\<rparr>))"

end
