(* ===== verification/Api_Overlays.thy ===== *)
theory Api_Overlays
  imports Image_Ops
begin

text \<open>
  The rest of the REST API: the handlers of \<open>warewulfd/api/overlay.go\<close>, the access check of
  \<open>warewulfd/api/authentication.go\<close>, and the service that \<open>warewulfd/api/api.go\<close> puts together.

  \<^item> \<open>a_exec\<close> gets the overlay, the node, all nodes and the name of the template within the overlay, which
    are the data \<open>overlay.InitStruct\<close> builds, and the path of the template; it returns the calls the
    template makes.
  \<^item> Permission bits are not part of an answer.
\<close>

section \<open>Escaped paths\<close>

text \<open>\<open>url.QueryUnescape\<close>.\<close>

fun QueryUnescape :: "string \<Rightarrow> string option" where
  "QueryUnescape [] = Some []"
| "QueryUnescape (c # cs) =
     (if c = CHR ''%'' then
        (case cs of
           x # y # rest \<Rightarrow>
             (case (hex_digit_val x, hex_digit_val y) of
                (Some a, Some b) \<Rightarrow> map_option ((#) (char_of (16 * a + b))) (QueryUnescape rest)
              | _ \<Rightarrow> None)
         | _ \<Rightarrow> None)
      else map_option ((#) (if c = CHR ''+'' then CHR '' '' else c)) (QueryUnescape cs))"

text \<open>\<open>path.Ext\<close>: from the last dot of the last element.\<close>

definition path_Ext :: "string \<Rightarrow> string" where
  "path_Ext p = (let b = rev (takeWhile (\<lambda>c. c \<noteq> CHR ''/'') (rev p)); e = rev (takeWhile (\<lambda>c. c \<noteq> CHR ''.'') (rev b)) in
     if CHR ''.'' \<in> set b then CHR ''.'' # e else [])"

section \<open>Overlays\<close>

record OverlayResponse =
  or_Files :: "string list"
  or_Site :: bool

abbreviation get_overlay :: "api_env \<Rightarrow> ufs \<Rightarrow> string \<Rightarrow> Overlay result" where
  "get_overlay a \<equiv> overlay_Get (a_sitedir a) (a_distdir a)"

definition NewOverlayResponse :: "api_env \<Rightarrow> ufs \<Rightarrow> string \<Rightarrow> OverlayResponse" where
  "NewOverlayResponse a u name = (case get_overlay a u name of
      Inl _ \<Rightarrow> \<lparr>or_Files = [], or_Site = False\<rparr>
    | Inr o1 \<Rightarrow> \<lparr>or_Files = GetFiles u o1, or_Site = IsSiteOverlay (a_sitedir a) o1\<rparr>)"

definition getOverlays :: "api_env \<Rightarrow> api_world \<Rightarrow> (string \<times> OverlayResponse) list answer \<times> api_world" where
  "getOverlays a w = (Inr (foldl (\<lambda>m n. al_update n (NewOverlayResponse a (aw_files w) n) m) []
     (FindOverlays (a_sitedir a) (a_distdir a) (aw_files w))), w)"

definition getOverlayByName :: "api_env \<Rightarrow> string \<Rightarrow> api_world \<Rightarrow> OverlayResponse answer \<times> api_world" where
  "getOverlayByName a name w = (case get_overlay a (aw_files w) name of
      Inl _ \<Rightarrow> (Inl (NotFound, ErrMsg (''overlay not found: '' @ name)), w)
    | Inr _ \<Rightarrow> (Inr (NewOverlayResponse a (aw_files w) name), w))"

section \<open>Files of overlays\<close>

record RenderFileInfo =
  ri_Name :: string
  ri_Contents :: string
  ri_IsSymlink :: bool
  ri_SymlinkTarget :: string

record OverlayFile =
  of_Overlay :: string
  of_Path :: string
  of_Contents :: string
  of_Uid :: int
  of_Gid :: int
  of_RenderType :: string
  of_RenderFiles :: "RenderFileInfo list"
  of_SymlinkTarget :: string
  of_rendered :: bool

definition of_FullPath :: "api_env \<Rightarrow> ufs \<Rightarrow> OverlayFile \<Rightarrow> string" where
  "of_FullPath a u f = (case get_overlay a u (of_Overlay f) of Inl _ \<Rightarrow> [] | Inr o1 \<Rightarrow> Overlay_File u o1 (of_Path f))"

definition of_Exists :: "api_env \<Rightarrow> ufs \<Rightarrow> OverlayFile \<Rightarrow> bool" where
  "of_Exists a u f = (case get_overlay a u (of_Overlay f) of
      Inl _ \<Rightarrow> False
    | Inr o1 \<Rightarrow> Overlay_Exists u o1 \<and> uIsFile u (of_FullPath a u f))"

definition os_ReadFile :: "ufs \<Rightarrow> string \<Rightarrow> string result" where
  "os_ReadFile u p = (if p = [] then Inl ErrIO else (case Stat u p of
      None \<Rightarrow> Inl ErrIO
    | Some n \<Rightarrow> if fn_kind n = Dir then Inl ErrIO else Inr (fn_data n)))"

text \<open>The contents, and the file with its owner filled in.\<close>

definition readContents :: "api_env \<Rightarrow> ufs \<Rightarrow> OverlayFile \<Rightarrow> string result \<times> OverlayFile" where
  "readContents a u f =
     (let fullPath = of_FullPath a u f in
      case os_ReadFile u fullPath of
        Inl e \<Rightarrow> (Inl e, f)
      | Inr s \<Rightarrow>
          (case Stat u fullPath of
             None \<Rightarrow> (Inl ErrIO, f)
           | Some n \<Rightarrow> (Inr s, f\<lparr>of_Uid := fn_uid n, of_Gid := fn_gid n\<rparr>)))"

definition render_text :: "RenderedFile \<Rightarrow> string" where
  "render_text r = (if rf_Name r = [] then [] else
     ''Filename: '' @ rf_Name r @ [newline] @
     (if rf_IsSymlink r then ''Symlink: '' @ rf_Target r @ [newline] else rf_Buffer r))"

definition render_info :: "string \<Rightarrow> RenderedFile \<Rightarrow> RenderFileInfo option" where
  "render_info path r =
     (if rf_Name r = [] \<and> \<not> rf_IsSymlink r then None
      else Some \<lparr>ri_Name = (if rf_Name r = [] then trim_ww (path_Base path) else rf_Name r),
        ri_Contents = (if rf_IsSymlink r then [] else rf_Buffer r),
        ri_IsSymlink = rf_IsSymlink r, ri_SymlinkTarget = (if rf_IsSymlink r then rf_Target r else [])\<rparr>)"

definition populate :: "RenderedTemplate \<Rightarrow> OverlayFile \<Rightarrow> OverlayFile" where
  "populate r f =
     (let first = hd (rt_Files r) in
      if \<not> rt_WriteFile r then
        f\<lparr>of_Contents := rf_Buffer first @ ''Aborted'' @ [newline], of_RenderType := ''aborted''\<rparr>
      else if length (rt_Files r) = 1 \<and> rf_Name first = [] then
        (if rf_IsSymlink first
         then f\<lparr>of_Contents := ''Symlink: '' @ rf_Target first @ [newline], of_RenderType := ''symlink'', of_SymlinkTarget := rf_Target first\<rparr>
         else f\<lparr>of_Contents := rf_Buffer first, of_RenderType := ''plain''\<rparr>)
      else f\<lparr>of_Contents := concat (map render_text (rt_Files r)), of_RenderType := ''multi_file'',
             of_RenderFiles := List.map_filter (render_info (of_Path f)) (rt_Files r)\<rparr>)"

definition renderAndPopulate :: "api_env \<Rightarrow> string \<Rightarrow> api_world \<Rightarrow> OverlayFile \<Rightarrow> OverlayFile result" where
  "renderAndPopulate a nodeName w f =
     (if path_Ext (of_Path f) \<noteq> ''.ww'' then Inl (ErrMsg (of_Path f @ '' does not end with .ww''))
      else if of_rendered f then Inl (ErrMsg ''already rendered'')
      else (case node_New (a_env a) (aw_wwd w) of
         Inl e \<Rightarrow> Inl e
       | Inr registry \<Rightarrow>
           (case GetNode (e_lib (a_env a)) registry nodeName of
              Inl e \<Rightarrow> Inl e
            | Inr renderNode \<Rightarrow>
                (case FindAllNodes (e_lib (a_env a)) registry [] of
                   (_, Some e) \<Rightarrow> Inl e
                 | (allNodes, None) \<Rightarrow>
                     map_sum id (\<lambda>r. populate r f)
                       (RenderTemplate (a_exec a (of_Overlay f) renderNode allNodes (of_Path f)) (of_FullPath a (aw_files w) f))))))"

definition NewOverlayFile :: "api_env \<Rightarrow> string \<Rightarrow> string \<Rightarrow> string \<Rightarrow> api_world \<Rightarrow> OverlayFile result" where
  "NewOverlayFile a name path renderNodeName w =
     (let f = \<lparr>of_Overlay = name, of_Path = path, of_Contents = [], of_Uid = 0, of_Gid = 0, of_RenderType = [],
          of_RenderFiles = [], of_SymlinkTarget = [], of_rendered = False\<rparr>
      in if renderNodeName = [] then
           (case readContents a (aw_files w) f of
              (Inl e, _) \<Rightarrow> Inl e
            | (Inr s, f) \<Rightarrow> Inr (f\<lparr>of_Contents := s\<rparr>))
         else renderAndPopulate a renderNodeName w f)"

section \<open>Handlers\<close>

definition with_path :: "string \<Rightarrow> (string \<Rightarrow> api_world \<Rightarrow> 'o answer \<times> api_world) \<Rightarrow> api_world \<Rightarrow> 'o answer \<times> api_world" where
  "with_path path f w =
     (if path = [] then (Inl (InvalidArgument, ErrMsg ''must specify a path''), w)
      else (case QueryUnescape path of
         None \<Rightarrow> (Inl (NoStatus, ErrMsg (''failed to decode path: '' @ path)), w)
       | Some relPath \<Rightarrow> f relPath w))"

definition api_getOverlayFile :: "api_env \<Rightarrow> string \<Rightarrow> string \<Rightarrow> string \<Rightarrow> api_world \<Rightarrow> OverlayFile answer \<times> api_world" where
  "api_getOverlayFile a name path render = with_path path (\<lambda>relPath w.
     (case NewOverlayFile a name relPath render w of
        Inl e \<Rightarrow> (Inl (NoStatus, e), w)
      | Inr f \<Rightarrow> (Inr f, w)))"

definition createOverlay :: "api_env \<Rightarrow> string \<Rightarrow> api_world \<Rightarrow> OverlayResponse answer \<times> api_world" where
  "createOverlay a name w = (case get_overlay a (aw_files w) name of
      Inr _ \<Rightarrow> (Inl (AlreadyExists, ErrMsg (name @ '' overlay already exists'')), w)
    | Inl _ \<Rightarrow>
        (case overlay_Create (a_sitedir a) name (aw_files w) of
           (Some e, u) \<Rightarrow> (Inl (NoStatus, e), w\<lparr>aw_files := u\<rparr>)
         | (None, u) \<Rightarrow> (Inr (NewOverlayResponse a u (Overlay_Name (getSiteOverlay (a_sitedir a) name))), w\<lparr>aw_files := u\<rparr>)))"

definition deleteOverlay :: "api_env \<Rightarrow> string \<Rightarrow> bool \<Rightarrow> api_world \<Rightarrow> OverlayResponse answer \<times> api_world" where
  "deleteOverlay a name force w = (case get_overlay a (aw_files w) name of
      Inl e \<Rightarrow> (Inl (NoStatus, e), w)
    | Inr o1 \<Rightarrow>
        (let remove = (\<lambda>w. case Overlay_Delete (a_distdir a) o1 force (aw_files w) of
               (Some e, u) \<Rightarrow> (Inl (Conflict, e), w\<lparr>aw_files := u\<rparr>)
             | (None, u) \<Rightarrow> (Inr ((NewOverlayResponse a u name)\<lparr>or_Site := IsSiteOverlay (a_sitedir a) o1\<rparr>), w\<lparr>aw_files := u\<rparr>))
         in if IsDistributionOverlay (a_distdir a) o1 then (Inl (InvalidArgument, ErrMsg (''distribution overlay: '' @ Overlay_Name o1)), w)
            else if \<not> force then with_registry a (\<lambda>registry w.
              if length (ListNodesUsingOverlay registry name) > 0 \<or> length (ListProfilesUsingOverlay registry name) > 0
              then (Inl (InvalidArgument, ErrMsg (''overlay '' @ name @ '' is in use'')), w)
              else remove w) w
            else remove w))"

definition deleteOverlayFile :: "api_env \<Rightarrow> string \<Rightarrow> string \<Rightarrow> bool \<Rightarrow> bool \<Rightarrow> api_world \<Rightarrow> OverlayResponse answer \<times> api_world" where
  "deleteOverlayFile a name path force cleanup = with_path path (\<lambda>relPath w.
     (case get_overlay a (aw_files w) name of
        Inl e \<Rightarrow> (Inl (NoStatus, e), w)
      | Inr o1 \<Rightarrow>
          (case DeleteFile (a_dircopy a) (a_sitedir a) (a_distdir a) o1 relPath force cleanup (aw_files w) of
             (Some e, u) \<Rightarrow> (Inl (NoStatus, e), w\<lparr>aw_files := u\<rparr>)
           | (None, u) \<Rightarrow> (Inr (NewOverlayResponse a u name), w\<lparr>aw_files := u\<rparr>))))"

text \<open>
  \<open>addOverlayFile\<close>: where no overlay is found one is created, but the overlay it goes on with is the
  empty one that \<open>Get\<close> returned.
\<close>

definition addOverlayFile :: "api_env \<Rightarrow> string \<Rightarrow> string \<Rightarrow> string \<Rightarrow> string \<Rightarrow> api_world \<Rightarrow> OverlayResponse answer \<times> api_world" where
  "addOverlayFile a name path content ifNoneMatch = with_path path (\<lambda>relPath w.
     (case (case get_overlay a (aw_files w) name of
          Inr o1 \<Rightarrow> (o1, (None, aw_files w))
        | Inl _ \<Rightarrow> ([], overlay_Create (a_sitedir a) name (aw_files w))) of
        (o1, (Some e, u)) \<Rightarrow> (Inl (NoStatus, e), w\<lparr>aw_files := u\<rparr>)
      | (o1, (None, u)) \<Rightarrow>
          (case AddFile (a_dircopy a) (a_sitedir a) o1 relPath content True (ifNoneMatch \<noteq> ''*'') u of
             (Some e, u) \<Rightarrow> (Inl (NoStatus, e), w\<lparr>aw_files := u\<rparr>)
           | (None, u) \<Rightarrow> (Inr (NewOverlayResponse a u name), w\<lparr>aw_files := u\<rparr>))))"

end
