(* ===== verification/Image_Facts.thy ===== *)
theory Image_Facts
  imports Image_Ops Api_Facts Overlay_Confined
begin

text \<open>
  What deleting and renaming images does to the image trees, to the built images and to the registry.
\<close>

section \<open>Paths of images\<close>

lemma slash_no_word: "\<not> is_word (CHR ''/'')"
  by code_simp

lemma ValidName_proper: "ValidName n \<Longrightarrow> proper n"
  using slash_no_word by (auto simp: ValidName_def proper_def list_all_iff)

lemma SourceDir_path: "rooted croot \<Longrightarrow> ValidName n \<Longrightarrow> SourceDir croot n = path_of True (comps croot @ [n])"
  using Join_rel [of croot "[n]"] ValidName_proper [of n] by (simp add: SourceDir_def path_of_def [of False])

lemma comps_SourceDir: "rooted croot \<Longrightarrow> ValidName n \<Longrightarrow> comps (SourceDir croot n) = comps croot @ [n]"
  using comps_rooted [of croot] ValidName_proper [of n] by (simp add: SourceDir_path comps_path_of)

lemma comps_RootFsDir: "rooted croot \<Longrightarrow> ValidName n \<Longrightarrow> comps (RootFsDir croot n) = comps croot @ [n, ''rootfs'']"
  using Join_rel [of "SourceDir croot n" "[''rootfs'']"] comps_rooted [of croot] ValidName_proper [of n]
  by (simp add: RootFsDir_def SourceDir_path comps_path_of path_of_def [of False] proper_def)

lemma rooted_SourceDir: "rooted croot \<Longrightarrow> rooted (SourceDir croot n)"
  by (simp add: SourceDir_def rooted_Join)

lemma RootFsDir_apart:
  assumes "rooted croot" "ValidName n" "ValidName m" "m \<noteq> n"
  shows "\<not> below (SourceDir croot n) (RootFsDir croot m)"
  using assms by (auto simp: below_iff rooted_SourceDir comps_SourceDir comps_RootFsDir)

section \<open>Removing\<close>

lemma RemoveAll_effect:
  "\<not> below p q \<Longrightarrow> Lstat (snd (os_RemoveAll p u)) q = Lstat u q"
  "fst (os_RemoveAll p u) = None \<Longrightarrow> below p q \<Longrightarrow> Lstat (snd (os_RemoveAll p u)) q = None"
  by (simp add: RemoveAll_Lstat) (rule RemoveAll_empty)

lemma DeleteImage_Lstat:
  "q \<notin> {ImageFile d n, CompressedImageFile d n} \<Longrightarrow> Lstat (snd (DeleteImage d n u)) q = Lstat u q"
  "Lstat u q = None \<Longrightarrow> Lstat (snd (DeleteImage d n u)) q = None"
  "fst (DeleteImage d n u) = None \<Longrightarrow> q \<in> {ImageFile d n, CompressedImageFile d n} \<Longrightarrow> Lstat (snd (DeleteImage d n u)) q = None"
  by (auto simp: DeleteImage_def Let_def split_beta Remove_Lstat CompressedImageFile_def split: if_splits)

lemma other_image_stays:
  assumes "rooted (chrootdir a)" "ValidName n" "ValidSource (chrootdir a) u m" "m \<noteq> n" "is_dir u (RootFsDir (chrootdir a) m)"
    and "\<And>p. \<not> below (SourceDir (chrootdir a) n) p \<Longrightarrow> p \<noteq> ImageFile (provisiondir a) n \<Longrightarrow> p \<noteq> CompressedImageFile (provisiondir a) n \<Longrightarrow> Lstat v p = Lstat u p"
    and "RootFsDir (chrootdir a) m \<notin> {ImageFile (provisiondir a) n, CompressedImageFile (provisiondir a) n}"
  shows "ValidSource (chrootdir a) v m"
proof -
  have "ValidName m" using assms(3) by (simp add: ValidSource_def)
  with RootFsDir_apart [OF assms(1,2) this assms(4)] assms(6,7)
  have "Lstat v (RootFsDir (chrootdir a) m) = Lstat u (RootFsDir (chrootdir a) m)" by auto
  then have "is_dir v (RootFsDir (chrootdir a) m)" using assms(5) by (simp add: is_dir_def)
  with \<open>ValidName m\<close> rooted_RootFsDir [OF assms(1), of m] show ?thesis
    by (auto simp: ValidSource_def DoesSourceExist_def uIsDir_def Stat_def is_dir_follow is_dir_def rooted_ne split: option.splits)
qed

text \<open>
  (C10) Deleting an image: an image that some node or profile uses, or that does not exist, is refused
  and nothing changes. Otherwise nothing changes but the tree of the source and the two image files,
  also where the deletion fails half way; if it succeeds all of these are gone. The registry stays as
  it is, and every other image whose root is a directory of its own can still be used.
\<close>

theorem image_Delete_correct:
  assumes "rooted (chrootdir a)" and c: "node_New (a_env a) (aw_wwd w) = Inr c" and r: "image_Delete a name w = (e, w')"
  shows "(uses_image c name \<or> \<not> ValidSource (chrootdir a) (aw_files w) name \<longrightarrow> e \<noteq> None \<and> w' = w) \<and>
    aw_wwd w' = aw_wwd w \<and>
    (\<forall>p. \<not> below (SourceDir (chrootdir a) name) p \<and> p \<notin> {ImageFile (provisiondir a) name, CompressedImageFile (provisiondir a) name} \<longrightarrow>
       Lstat (aw_files w') p = Lstat (aw_files w) p) \<and>
    (e = None \<longrightarrow> (\<forall>p. below (SourceDir (chrootdir a) name) p \<or> p \<in> {ImageFile (provisiondir a) name, CompressedImageFile (provisiondir a) name} \<longrightarrow>
       Lstat (aw_files w') p = None)) \<and>
    (\<forall>m. m \<noteq> name \<and> ValidSource (chrootdir a) (aw_files w) m \<and> is_dir (aw_files w) (RootFsDir (chrootdir a) m) \<and>
       RootFsDir (chrootdir a) m \<notin> {ImageFile (provisiondir a) name, CompressedImageFile (provisiondir a) name} \<longrightarrow>
       ValidSource (chrootdir a) (aw_files w') m)"
proof (cases "uses_image c name \<or> \<not> ValidSource (chrootdir a) (aw_files w) name")
  case True
  with r c have "e \<noteq> None \<and> w' = w" by (auto simp: image_Delete_def split: if_splits)
  then show ?thesis by auto
next
  case False
  let ?u = "aw_files w" and ?s = "os_RemoveAll (SourceDir (chrootdir a) name) (aw_files w)"
  let ?r = "and_then ?s (DeleteImage (provisiondir a) name)"
  have w': "e = fst ?r" "aw_files w' = snd ?r" "aw_wwd w' = aw_wwd w"
    using r c False by (auto simp: image_Delete_def DeleteSource_def split: prod.splits)
  have out: "Lstat (aw_files w') p = Lstat ?u p"
    if "\<not> below (SourceDir (chrootdir a) name) p" "p \<noteq> ImageFile (provisiondir a) name" "p \<noteq> CompressedImageFile (provisiondir a) name" for p
    using that RemoveAll_effect(1) DeleteImage_Lstat(1) by (auto simp: w' and_then_def split: option.splits)
  have gone: "Lstat (aw_files w') p = None"
    if "e = None" "below (SourceDir (chrootdir a) name) p \<or> p \<in> {ImageFile (provisiondir a) name, CompressedImageFile (provisiondir a) name}" for p
    using that RemoveAll_effect(2) [of _ ?u p] DeleteImage_Lstat(2,3) by (auto simp: w' and_then_def split: option.splits)
  have other: "ValidSource (chrootdir a) (aw_files w') m"
    if "m \<noteq> name" "ValidSource (chrootdir a) (aw_files w) m" "is_dir (aw_files w) (RootFsDir (chrootdir a) m)"
      "RootFsDir (chrootdir a) m \<notin> {ImageFile (provisiondir a) name, CompressedImageFile (provisiondir a) name}" for m
    by (rule other_image_stays [OF assms(1) _ that(2,1,3) out that(4)]) (use False in \<open>auto simp: ValidSource_def\<close>)
  show ?thesis using False w'(3) gone
    by (intro conjI allI impI) (auto intro: out other)
qed

definition deletable_image :: api_world where
  "deletable_image = witness_state\<lparr>aw_files := \<lparr>uf_nodes =
     [(''/srv/chroots'', new_node Dir []), (''/srv/chroots/a'', new_node Dir []), (''/srv/chroots/a/rootfs'', new_node Dir []),
      (''/srv/chroots/b'', new_node Dir []), (''/srv/chroots/b/rootfs'', new_node Dir []),
      (''/srv/images'', new_node Dir []), (''/srv/images/a.img'', new_node Regular ''x''), (''/srv/images/a.img.gz'', new_node Regular ''y'')],
     uf_refuse = []\<rparr>\<rparr>"

theorem image_Delete_correct_witness:
  "\<exists>w'. image_Delete witness_api ''a'' deletable_image = (None, w') \<and>
     Lstat (aw_files w') ''/srv/chroots/a/rootfs'' = None \<and> ValidSource ''/srv/chroots'' (aw_files w') ''b''"
proof -
  have run: "fst (image_Delete witness_api ''a'' deletable_image) = None"
    and new: "node_New (a_env witness_api) (aw_wwd deletable_image) = Inr witness_registry"
    and pre: "rooted (chrootdir witness_api)" "chrootdir witness_api = ''/srv/chroots''"
      "below (SourceDir (chrootdir witness_api) ''a'') ''/srv/chroots/a/rootfs''"
      "ValidSource ''/srv/chroots'' (aw_files deletable_image) ''b''"
      "RootFsDir ''/srv/chroots'' ''b'' = ''/srv/chroots/b/rootfs''"
      "ImageFile (provisiondir witness_api) ''a'' = ''/srv/images/a.img''"
      "CompressedImageFile (provisiondir witness_api) ''a'' = ''/srv/images/a.img.gz''"
    by code_simp+
  have "is_dir (aw_files deletable_image) ''/srv/chroots/b/rootfs''"
    by (simp add: is_dir_def deletable_image_def Lstat_def new_node_def)
  with image_Delete_correct [OF pre(1) new prod.collapse [symmetric, of "image_Delete witness_api ''a'' deletable_image"]] run pre(2-7)
  show ?thesis by (intro exI [of _ "snd (image_Delete witness_api ''a'' deletable_image)"]) (auto simp: prod_eq_iff)
qed

text \<open>
  An image that was never built: the deletion removes the source and then reports an error, so that
  trying again says that there is no such image.
\<close>

lemma image_Delete_unbuilt:
  assumes "ValidSource (chrootdir a) (aw_files w) name" "node_New (a_env a) (aw_wwd w) = Inr c" "\<not> uses_image c name"
    and "Lstat (aw_files w) (ImageFile (provisiondir a) name) = None" "os_RemoveAll (SourceDir (chrootdir a) name) (aw_files w) = (None, u)"
  shows "\<exists>e. image_Delete a name w = (Some e, w\<lparr>aw_files := u\<rparr>)"
proof -
  have "Lstat u (ImageFile (provisiondir a) name) = None"
  proof (cases "below (SourceDir (chrootdir a) name) (ImageFile (provisiondir a) name)")
    case True
    then show ?thesis using RemoveAll_effect(2) [of "SourceDir (chrootdir a) name" "aw_files w"] assms(5) by simp
  next
    case False
    then show ?thesis using RemoveAll_effect(1) [OF False, of "aw_files w"] assms(4,5) by simp
  qed
  with assms show ?thesis
    by (simp add: image_Delete_def DeleteSource_def and_then_def DeleteImage_def Let_def uIsFile_def)
qed

section \<open>Image names in a saved registry\<close>

definition flat_string :: "string \<Rightarrow> string" where
  "flat_string s = (if node_isUnsetValue s then [] else s)"

lemma field_contents_str:
  "find (\<lambda>e. sf_Name (fst e) = n) fs = Some (f, GStr s) \<Longrightarrow> sf_exported f \<Longrightarrow> field_contents fs = [] \<Longrightarrow> flat_string s = []"
  by (induction fs) (auto simp: flat_string_def split: if_splits)

lemma flatten_ImageName: "pf_ImageName (Profile_Flatten p) = flat_string (pf_ImageName p)"
proof -
  obtain fs where fs: "Profile_val p = GStruct fs" by (simp add: Profile_val_def)
  have "find (\<lambda>e. sf_Name (fst e) = ''ImageName'') fs =
      Some (tagged ''ImageName'' ''image name,omitempty'' ''image'' True '''' '''' '''', GStr (pf_ImageName p))"
    using fs by (auto simp: Profile_val_def)
  from field_of_flatten [OF this, of False] fs show ?thesis
    by (auto simp: Profile_Flatten_def val_Profile_def split_beta flat_string_def Let_def split: if_splits)
qed

lemma field_of_gzero_str: "as_str (field_of n (map (\<lambda>(f, v). (f, gzero v)) fs)) = []"
proof (induction fs)
  case (Cons e fs)
  have "as_str (gzero v) = []" for v by (cases v) auto
  with Cons show ?case by (cases e) auto
qed simp

text \<open>A node whose profile part has an image name keeps that part.\<close>

lemma flatten_node_ImageName: "pf_ImageName (nd_Profile (Node_Flatten n)) = flat_string (pf_ImageName (nd_Profile n))"
proof -
  obtain fs where fs: "Node_val n = GStruct fs" by (simp add: Node_val_def)
  obtain gs where gs: "Profile_val (nd_Profile n) = GStruct gs" by (simp add: Profile_val_def)
  have "find (\<lambda>e. sf_Name (fst e) = ''Profile'') fs = Some (embedded ''Profile'', GStruct gs)"
    using fs gs by (auto simp: Node_val_def)
  from field_of_flatten [OF this, of False]
  have f: "field_of ''Profile'' (snd (flatten_fields False fs)) = GStruct (snd (flatten_fields False gs)) \<or>
      \<not> fst (flatten_fields False gs) \<and> field_of ''Profile'' (snd (flatten_fields False fs)) = gzero (GStruct (snd (flatten_fields False gs)))"
    by (auto simp: split_beta)
  have p: "as_str (field_of ''ImageName'' (snd (flatten_fields False gs))) = flat_string (pf_ImageName (nd_Profile n))"
    using flatten_ImageName [of "nd_Profile n"] gs by (simp add: Profile_Flatten_def val_Profile_def split_beta)
  have "find (\<lambda>e. sf_Name (fst e) = ''ImageName'') gs =
      Some (tagged ''ImageName'' ''image name,omitempty'' ''image'' True '''' '''' '''', GStr (pf_ImageName (nd_Profile n)))"
    using gs by (auto simp: Profile_val_def)
  from field_contents_str [OF this]
  have "\<not> fst (flatten_fields False gs) \<Longrightarrow> flat_string (pf_ImageName (nd_Profile n)) = []"
    using flatten_contents(1) [OF prod.collapse [symmetric], of False gs] by auto
  with f p fs show ?thesis
    by (auto simp: Node_Flatten_def val_Node_def val_Profile_def split_beta field_of_gzero_str)
qed

definition image_names :: "NodesYaml \<Rightarrow> (string \<Rightarrow> string option) \<times> (string \<Rightarrow> string option)" where
  "image_names c = (\<lambda>i. map_option (\<lambda>n. pf_ImageName (nd_Profile n)) (gm_get (Nodes c) i),
                    \<lambda>i. map_option pf_ImageName (gm_get (NodeProfiles c) i))"

definition yaml_images :: "env \<Rightarrow> bool" where
  "yaml_images e \<longleftrightarrow> (\<forall>c s. e_encode e c = Inr s \<longrightarrow> (\<exists>c'. e_decode e s = Inr c' \<and> image_names c' = image_names c))"

definition renamed :: "string \<Rightarrow> string \<Rightarrow> string \<Rightarrow> string" where
  "renamed name target s = flat_string (if s = name then target else s)"

lemma image_names_saved:
  "image_names (flatten_all (rename_users name target c)) =
     (\<lambda>i. map_option (renamed name target) (fst (image_names c) i), \<lambda>i. map_option (renamed name target) (snd (image_names c) i))"
  by (auto simp: image_names_def flatten_all_def rename_users_def gomap_simps option.map_comp fun_eq_iff
      flatten_ImageName flatten_node_ImageName renamed_def rename_image_def intro!: option.map_cong)

lemma rename_persisted:
  assumes "yaml_images e" "api_Persist e (rename_users name target c) w = (None, w')"
  shows "\<exists>c'. node_New e w' = Inr c' \<and> image_names c' =
     (\<lambda>i. map_option (renamed name target) (fst (image_names c) i), \<lambda>i. map_option (renamed name target) (snd (image_names c) i))"
proof -
  obtain s where s: "e_encode e (flatten_all (rename_users name target c)) = Inr s" "w' = w\<lparr>w_disk := Some s\<rparr>"
    using assms(2) by (auto simp: api_Persist_def Dump_def Let_def split: sum.splits if_splits)
  obtain c' where c': "e_decode e s = Inr c'" "image_names c' = image_names (flatten_all (rename_users name target c))"
    using assms(1) s(1) unfolding yaml_images_def by blast
  have "image_names (c'\<lparr>Nodes := make_if_nil (Nodes c'), NodeProfiles := make_if_nil (NodeProfiles c')\<rparr>) = image_names c'"
    by (simp add: image_names_def)
  with s(2) c' show ?thesis by (simp add: node_New_def Parse_def image_names_saved)
qed

section \<open>Moving a directory\<close>

text \<open>Every path is clean and the directories on the way to it are there.\<close>

definition tree_ok :: "ufs \<Rightarrow> bool" where
  "tree_ok u \<longleftrightarrow> (\<forall>k. Lstat u k \<noteq> None \<longrightarrow>
     clean_abs k \<and> (\<forall>d. clean_abs d \<and> comps d \<noteq> [] \<and> d \<noteq> k \<and> below d k \<longrightarrow> is_dir u d))"

lemma move_path_comps:
  assumes "rooted p" "rooted q" "rooted r"
  shows "comps (move_path p q r) = comps q @ drop (length (comps p)) (comps r)"
proof -
  have "\<forall>c\<in>set (comps q @ drop (length (comps p)) (comps r)). proper c"
    using comps_rooted [OF assms(2)] comps_rooted [OF assms(3)] by (auto dest: in_set_dropD)
  with assms(2) show ?thesis by (simp only: move_path_def comps_path_of)
qed

lemma move_path_below: "rooted p \<Longrightarrow> rooted q \<Longrightarrow> rooted r \<Longrightarrow> below q (move_path p q r)"
  by (simp add: below_iff move_path_comps) (simp add: move_path_def)

lemma move_path_inj:
  assumes "rooted p" "rooted q" "clean_abs r" "clean_abs s" "below p r" "below p s" "move_path p q r = move_path p q s"
  shows "r = s"
  using assms move_path_comps [OF assms(1,2), of r] move_path_comps [OF assms(1,2), of s]
  by (elim clean_absE) (auto simp: below_iff)

definition moved_nodes :: "string \<Rightarrow> string \<Rightarrow> (string \<times> fnode) list \<Rightarrow> (string \<times> fnode) list" where
  "moved_nodes p q xs = map (\<lambda>e. if below p (fst e) then (move_path p q (fst e), snd e) else e) xs"

lemma map_of_moved:
  assumes "rooted p" "rooted q" "clean_abs r" "below p r"
  shows "\<forall>k\<in>fst ` set xs. clean_abs k \<and> \<not> below q k \<Longrightarrow> map_of (moved_nodes p q xs) (move_path p q r) = map_of xs r"
proof (induction xs)
  case (Cons e xs)
  obtain k n where e: "e = (k, n)" by fastforce
  have k: "clean_abs k" "\<not> below q k" using Cons.prems e by auto
  have r: "below q (move_path p q r)" using move_path_below [OF assms(1,2)] assms(3) by (simp add: clean_abs_def)
  have IH: "map_of (moved_nodes p q xs) (move_path p q r) = map_of xs r" using Cons by simp
  show ?case
  proof (cases "below p k")
    case True
    then have "move_path p q r = move_path p q k \<longleftrightarrow> r = k"
      using move_path_inj [OF assms(1,2) k(1) assms(3) True assms(4)] by auto
    with True IH e show ?thesis by (simp add: moved_nodes_def)
  next
    case False
    with k(2) r assms(4) have "k \<noteq> r" "k \<noteq> move_path p q r" by auto
    with False IH e show ?thesis by (simp add: moved_nodes_def)
  qed
qed (simp add: moved_nodes_def)

lemma map_of_unmoved:
  assumes "rooted p" "rooted q" "\<not> below q s"
  shows "\<forall>k\<in>fst ` set xs. rooted k \<Longrightarrow> map_of (moved_nodes p q xs) s = (if below p s then None else map_of xs s)"
proof (induction xs)
  case (Cons e xs)
  obtain k n where e: "e = (k, n)" by fastforce
  have "below q (move_path p q k)" using move_path_below [OF assms(1,2), of k] Cons.prems e by simp
  with assms(3) have "move_path p q k \<noteq> s" by auto
  with Cons e show ?case by (auto simp: moved_nodes_def)
qed (simp add: moved_nodes_def)

lemma tree_ok_keys: "tree_ok u \<Longrightarrow> k \<in> fst ` set (uf_nodes u) \<Longrightarrow> clean_abs k"
  unfolding tree_ok_def Lstat_def by (metis map_of_eq_None_iff)

lemma tree_ok_below:
  assumes "tree_ok u" "clean_abs q" "comps q \<noteq> []" "Lstat u q = None" "k \<in> fst ` set (uf_nodes u)"
  shows "\<not> below q k"
proof
  assume b: "below q k"
  have "Lstat u k \<noteq> None" using assms(5) by (simp add: Lstat_def map_of_eq_None_iff)
  with assms(1,2,3) b have "q = k \<or> is_dir u q" unfolding tree_ok_def by blast
  with assms(4) \<open>Lstat u k \<noteq> None\<close> show False by (auto simp: is_dir_def)
qed

lemma clean_abs_SourceDir: "rooted croot \<Longrightarrow> clean_abs (SourceDir croot n)"
  by (simp add: SourceDir_def clean_abs_Join)

lemma SourceDir_exists:
  assumes "rooted croot" "tree_ok u" "ValidSource croot u n"
  shows "is_dir u (SourceDir croot n)"
proof -
  have n: "ValidName n" and "Stat u (RootFsDir croot n) \<noteq> None"
    using assms(3) by (auto simp: ValidSource_def DoesSourceExist_def uIsDir_def)
  then have "Lstat u (RootFsDir croot n) \<noteq> None" by (auto simp: Stat_def follow_link_def split: option.splits)
  moreover have "below (SourceDir croot n) (RootFsDir croot n)" "SourceDir croot n \<noteq> RootFsDir croot n" "comps (SourceDir croot n) \<noteq> []"
    using comps_SourceDir [OF assms(1) n] comps_RootFsDir [OF assms(1) n] rooted_SourceDir [OF assms(1), of n] rooted_RootFsDir [OF assms(1), of n]
    by (auto simp: below_iff)
  ultimately show ?thesis using assms(2) clean_abs_SourceDir [OF assms(1), of n] unfolding tree_ok_def by blast
qed

lemma os_RenameAny_dir:
  assumes "tree_ok u" "rooted S" "clean_abs T" "comps T \<noteq> []" "is_dir u S" "os_RenameAny S T u = (None, v)"
  shows "clean_abs p \<Longrightarrow> below S p \<Longrightarrow> Lstat v (move_path S T p) = Lstat u p"
    and "\<not> below T p \<Longrightarrow> Lstat v p = (if below S p then None else Lstat u p)"
    and "Lstat u T = None"
proof -
  have T: "rooted T" using assms(3) by (simp add: clean_abs_def)
  have nodes: "uf_nodes v = moved_nodes S T (uf_nodes u)" and free: "Lstat u T = None"
    using assms(5,6) by (auto simp: os_RenameAny_def is_dir_def moved_nodes_def split: if_splits)
  have keys: "\<forall>k\<in>fst ` set (uf_nodes u). clean_abs k \<and> \<not> below T k"
    using tree_ok_keys [OF assms(1)] tree_ok_below [OF assms(1,3,4) free] by auto
  show "clean_abs p \<Longrightarrow> below S p \<Longrightarrow> Lstat v (move_path S T p) = Lstat u p"
    using map_of_moved [OF assms(2) T, of p "uf_nodes u"] keys by (simp add: Lstat_def nodes)
  show "\<not> below T p \<Longrightarrow> Lstat v p = (if below S p then None else Lstat u p)"
    using map_of_unmoved [OF assms(2) T, of p "uf_nodes u"] keys by (simp add: Lstat_def nodes clean_abs_def)
qed (use assms(5,6) in \<open>auto simp: os_RenameAny_def is_dir_def split: if_splits\<close>)

lemma image_Rename_steps:
  assumes "image_Rename bt a name target build w = (None, w')" "node_New (a_env a) (aw_wwd w) = Inr c"
  obtains u where "ValidSource (chrootdir a) (aw_files w) name" "ValidName target"
    "os_RenameAny (SourceDir (chrootdir a) name) (SourceDir (chrootdir a) target) (aw_files w) = (None, u)"
    "api_Persist (a_env a) (rename_users name target c) (aw_wwd w) = (None, aw_wwd w')"
    "\<not> build \<Longrightarrow> aw_files w' = snd (DeleteImage (provisiondir a) name u)"
proof -
  have v: "ValidSource (chrootdir a) (aw_files w) name" "ValidName target"
    using assms(1) by (auto simp: image_Rename_def split: if_splits)
  obtain u where u: "os_RenameAny (SourceDir (chrootdir a) name) (SourceDir (chrootdir a) target) (aw_files w) = (None, u)"
    using assms(1) v by (cases "os_RenameAny (SourceDir (chrootdir a) name) (SourceDir (chrootdir a) target) (aw_files w)")
      (auto simp: image_Rename_def split: option.splits)
  show thesis using assms v u
    by (intro that [OF v u]) (auto simp: image_Rename_def Let_def split: prod.splits option.splits)
qed


text \<open>A registry file of one node, and an encoder that knows it before and after the renaming.\<close>

definition image_user :: "string \<Rightarrow> NodesYaml" where
  "image_user img = \<lparr>NodeProfiles = Some [], Nodes = Some [(''n1'', zero_Node\<lparr>nd_Profile := zero_Profile\<lparr>pf_ImageName := img\<rparr>\<rparr>)]\<rparr>"

definition image_api :: api_env where
  "image_api = witness_api\<lparr>a_env := sample_env\<lparr>
     e_encode := (\<lambda>c. if c = image_user ''b'' then Inr ''b'' else Inl ErrIO),
     e_decode := (\<lambda>s. Inr (image_user (if s = ''b'' then ''b'' else ''a'')))\<rparr>\<rparr>"

definition image_state :: api_world where
  "image_state = witness_state\<lparr>aw_files := \<lparr>uf_nodes =
     [(''/srv'', new_node Dir []), (''/srv/chroots'', new_node Dir []), (''/srv/chroots/a'', new_node Dir []),
      (''/srv/chroots/a/rootfs'', new_node Dir []), (''/srv/chroots/a/rootfs/x'', new_node Regular ''hi'')],
     uf_refuse = []\<rparr>\<rparr>"

definition no_tools :: build_tools where
  "no_tools = \<lparr>bt_cpio = (\<lambda>_ _ u. ((Some ErrIO, None), u)), bt_renumber = False,
     bt_gz = \<lparr>gz_LookPath = (\<lambda>_. None), gz_keep = (\<lambda>_ _ u. ((None, []), u)), gz_stdout = (\<lambda>_ _ _ u. (None, u))\<rparr>,
     bt_dev = (\<lambda>_. 0), bt_ctime = (\<lambda>_ _. 0)\<rparr>"

lemma image_state_renames:
  "fst (image_Rename no_tools image_api ''a'' ''b'' False image_state) = None"
  by code_simp

text \<open>
  The build that follows a renaming may fail: the source has its new name then, but the registry still
  names the old image, which does not exist any more.
\<close>

lemma image_Rename_build_fails:
  "\<exists>e w'. image_Rename no_tools image_api ''a'' ''b'' True image_state = (Some e, w') \<and>
     node_New (a_env image_api) (aw_wwd w') = Inr (image_user ''a'') \<and> \<not> ValidSource (chrootdir image_api) (aw_files w') ''a''"
proof -
  have "fst (image_Rename no_tools image_api ''a'' ''b'' True image_state) = Some ErrIO"
    "node_New (a_env image_api) (aw_wwd (snd (image_Rename no_tools image_api ''a'' ''b'' True image_state))) = Inr (image_user ''a'')"
    "\<not> ValidSource (chrootdir image_api) (aw_files (snd (image_Rename no_tools image_api ''a'' ''b'' True image_state))) ''a''"
    by code_simp+
  then show ?thesis by (metis prod.collapse)
qed

lemma tree_ok_check:
  assumes "list_all (\<lambda>e. clean_abs (fst e) \<and>
      list_all (\<lambda>i. is_dir u (path_of True (take i (comps (fst e))))) [1..<length (comps (fst e))]) (uf_nodes u)"
  shows "tree_ok u"
  unfolding tree_ok_def
proof (intro allI impI)
  fix k assume "Lstat u k \<noteq> None"
  then obtain n where "(k, n) \<in> set (uf_nodes u)" by (auto simp: Lstat_def dest: map_of_SomeD)
  with assms have k: "clean_abs k" "\<forall>i\<in>{1..<length (comps k)}. is_dir u (path_of True (take i (comps k)))"
    by (auto simp: list_all_iff)
  have "is_dir u d" if d: "clean_abs d" "comps d \<noteq> []" "d \<noteq> k" "below d k" for d
  proof -
    have "d = path_of True (take (length (comps d)) (comps k))" "length (comps d) < length (comps k)"
      using d k(1) by (auto simp: below_iff elim!: clean_absE intro!: Nat.gr0I)
    with k(2) d(2) show ?thesis by (metis One_nat_def Suc_leI atLeastLessThan_iff length_greater_0_conv)
  qed
  with k(1) show "clean_abs k \<and> (\<forall>d. clean_abs d \<and> comps d \<noteq> [] \<and> d \<noteq> k \<and> below d k \<longrightarrow> is_dir u d)" by blast
qed


end
