(* ===== verification/Api_Server.thy ===== *)
theory Api_Server
  imports Api_Overlays Image_Facts
begin

text \<open>
  Who may use the API: the middleware of \<open>warewulfd/api/authentication.go\<close> and the service of
  \<open>warewulfd/api/api.go\<close>, in which every handler but the documentation is behind that middleware. The
  router (\<open>chi\<close>) is the parameter \<open>route\<close>, which names the handler and its input, if any matches; the
  header \<open>Authorization\<close> is given as the credentials that \<open>http.Request.BasicAuth\<close> returns.
\<close>

section \<open>Addresses\<close>

text \<open>\<open>net.SplitHostPort\<close>, with every error as \<open>None\<close>.\<close>

definition SplitHostPort :: "string \<Rightarrow> (string \<times> string) option" where
  "SplitHostPort hp =
     (let port = rev (takeWhile (\<lambda>c. c \<noteq> CHR '':'') (rev hp)); i = length hp - length port - 1 in
      if CHR '':'' \<notin> set hp then None
      else if hd hp = CHR ''['' then
        (let e = length (takeWhile (\<lambda>c. c \<noteq> CHR '']'') hp) in
         if CHR '']'' \<notin> set hp \<or> e + 1 \<noteq> i \<or> CHR ''['' \<in> set (drop 1 hp) \<or> CHR '']'' \<in> set (drop (e + 1) hp) then None
         else Some (drop 1 (take e hp), port))
      else if CHR '':'' \<in> set (take i hp) \<or> CHR ''['' \<in> set hp \<or> CHR '']'' \<in> set hp then None
      else Some (take i hp, port))"

text \<open>\<open>net.IPNet.Contains\<close>; the nil address is the empty list.\<close>

definition net_number :: "IPNet \<Rightarrow> IP \<times> IP" where
  "net_number n =
     (let ip = (case To4 (fst n) of Some x \<Rightarrow> x | None \<Rightarrow> fst n); m = snd n in
      if length ip \<noteq> 4 \<and> length ip \<noteq> 16 then ([], [])
      else if length m = 4 then (if length ip = 4 then (ip, m) else ([], []))
      else if length m = 16 then (ip, if length ip = 4 then drop 12 m else m)
      else ([], []))"

definition IPNet_Contains :: "IPNet \<Rightarrow> IP \<Rightarrow> bool" where
  "IPNet_Contains n ip =
     (let (nn, m) = net_number n; x = (case To4 ip of Some y \<Rightarrow> y | None \<Rightarrow> ip) in
      length x = length nn \<and> list_all (\<lambda>i. nn ! i AND m ! i = x ! i AND m ! i) [0..<length x])"

section \<open>The middleware\<close>

record api_http =
  ah_Method :: string
  ah_Path :: string
  ah_RemoteAddr :: string
  ah_BasicAuth :: "(string \<times> string) option"

text \<open>
  The first status written counts. An address that does not parse is answered with 403 without a
  return; it then goes through the nets as the nil address.
\<close>

definition AuthMiddleware :: "(string \<Rightarrow> string \<Rightarrow> bool) \<Rightarrow> Authentication option \<Rightarrow> IPNet list \<Rightarrow>
    (api_http \<Rightarrow> 's \<Rightarrow> (int + 'o) \<times> 's) \<Rightarrow> api_http \<Rightarrow> 's \<Rightarrow> (int + 'o) \<times> 's" where
  "AuthMiddleware bcrypt auth allowedNets nxt r w = (case SplitHostPort (ah_RemoteAddr r) of
      None \<Rightarrow> (Inl 403, w)
    | Some (ipStr, _) \<Rightarrow>
        (let ip = ParseIP ipStr;
             deny = (\<lambda>status. (Inl (if ip = None then 403 else status), w));
             go = (case nxt r w of (out, w) \<Rightarrow> (if ip = None then Inl 403 else out, w))
         in if \<not> list_ex (\<lambda>n. IPNet_Contains n (case ip of Some x \<Rightarrow> x | None \<Rightarrow> [])) allowedNets then deny 403
            else (case auth of
               None \<Rightarrow> go
             | Some au \<Rightarrow>
                 (case ah_BasicAuth r of
                    None \<Rightarrow> deny 401
                  | Some (username, password) \<Rightarrow>
                      (case Authenticate bcrypt au username password of
                         Inl _ \<Rightarrow> deny 401
                       | Inr _ \<Rightarrow> go)))))"

section \<open>The service\<close>

datatype api_op =
    GetNodes | GetNodeByID string | GetRawNodeByID string | PutNode string Node string | RemoveNode string
  | PatchNode string Node | GetNodeFields string | GetNodeOverlayInfo string
  | GetProfiles | GetProfileByID string | PutProfile string Profile string | PatchProfile string Profile | RemoveProfile string
  | GetImages | GetImageByName string | UpdateImage string string bool | BuildImage string bool | RemoveImageOp string
  | GetOverlays | GetOverlayByName string | GetOverlayFile string string string | CreateOverlay string
  | AddOverlayFile string string string string | DeleteOverlay string bool | DeleteOverlayFile string string bool bool

datatype api_out =
    OutNodes "(string \<times> Node) list" | OutNode Node | OutFields "Field list" | OutInfo "overlayInfo \<times> overlayInfo"
  | OutProfiles "Profile gomap" | OutProfile Profile | OutImages "string list" | OutImage string | OutDone unit
  | OutOverlays "(string \<times> OverlayResponse) list" | OutOverlay OverlayResponse | OutFile OverlayFile

abbreviation out_as :: "('o \<Rightarrow> api_out) \<Rightarrow> 'o answer \<times> api_world \<Rightarrow> api_out answer \<times> api_world" where
  "out_as f \<equiv> map_prod (map_sum id f) id"

fun api_handle :: "build_tools \<Rightarrow> api_env \<Rightarrow> api_op \<Rightarrow> api_world \<Rightarrow> api_out answer \<times> api_world" where
  "api_handle bt a GetNodes w = out_as OutNodes (getNodes a w)"
| "api_handle bt a (GetNodeByID i) w = out_as OutNode (getNodeByID a i w)"
| "api_handle bt a (GetRawNodeByID i) w = out_as OutNode (getRawNodeByID a i w)"
| "api_handle bt a (PutNode i n m) w = out_as OutNode (api_addNode a i n m w)"
| "api_handle bt a (RemoveNode i) w = out_as OutNode (api_deleteNode a i w)"
| "api_handle bt a (PatchNode i n) w = out_as OutNode (api_updateNode a i n w)"
| "api_handle bt a (GetNodeFields i) w = out_as OutFields (getNodeFields a i w)"
| "api_handle bt a (GetNodeOverlayInfo i) w = out_as OutInfo (getNodeOverlayInfo a i w)"
| "api_handle bt a GetProfiles w = out_as OutProfiles (getProfiles a w)"
| "api_handle bt a (GetProfileByID i) w = out_as OutProfile (getProfileByID a i w)"
| "api_handle bt a (PutProfile i p m) w = out_as OutProfile (api_addProfile a i p m w)"
| "api_handle bt a (PatchProfile i p) w = out_as OutProfile (api_updateProfile a i p w)"
| "api_handle bt a (RemoveProfile i) w = out_as OutProfile (api_deleteProfile a i w)"
| "api_handle bt a GetImages w = out_as OutImages (getImages a w)"
| "api_handle bt a (GetImageByName n) w = out_as OutImage (getImageByName a n w)"
| "api_handle bt a (UpdateImage n m b) w = out_as OutImage (api_updateImage bt a n m b w)"
| "api_handle bt a (BuildImage n f) w = out_as OutImage (api_buildImage bt a n f w)"
| "api_handle bt a (RemoveImageOp n) w = out_as OutDone (api_deleteImage a n w)"
| "api_handle bt a GetOverlays w = out_as OutOverlays (getOverlays a w)"
| "api_handle bt a (GetOverlayByName n) w = out_as OutOverlay (getOverlayByName a n w)"
| "api_handle bt a (GetOverlayFile n p r) w = out_as OutFile (api_getOverlayFile a n p r w)"
| "api_handle bt a (CreateOverlay n) w = out_as OutOverlay (createOverlay a n w)"
| "api_handle bt a (AddOverlayFile n p c m) w = out_as OutOverlay (addOverlayFile a n p c m w)"
| "api_handle bt a (DeleteOverlay n f) w = out_as OutOverlay (deleteOverlay a n f w)"
| "api_handle bt a (DeleteOverlayFile n p f c) w = out_as OutOverlay (deleteOverlayFile a n p f c w)"

text \<open>A request that no route matches, or one for the documentation, does not reach a handler.\<close>

definition Handler :: "(api_http \<Rightarrow> api_op option) \<Rightarrow> build_tools \<Rightarrow> api_env \<Rightarrow> (string \<Rightarrow> string \<Rightarrow> bool) \<Rightarrow> Authentication option \<Rightarrow> IPNet list \<Rightarrow>
    api_http \<Rightarrow> api_world \<Rightarrow> (int + api_out answer) \<times> api_world" where
  "Handler route bt a bcrypt auth allowedNets r w = (case route r of
      None \<Rightarrow> (Inl 404, w)
    | Some c \<Rightarrow> AuthMiddleware bcrypt auth allowedNets (\<lambda>_ w. map_prod Inr id (api_handle bt a c w)) r w)"

section \<open>Who is admitted\<close>

lemma all_some_length: "all_some xs = Some ys \<Longrightarrow> length ys = length xs"
  by (induction xs arbitrary: ys) (auto split: option.splits)

lemma parse_ip4_length: "parse_ip4 s = Some ip \<Longrightarrow> length ip = 4"
  by (auto simp: parse_ip4_def Let_def dest: all_some_length split: if_splits)

lemma parse_ip6_length: "parse_ip6 s = Some ip \<Longrightarrow> length ip = 16"
  by (auto simp: parse_ip6_def split: option.splits if_splits prod.splits)

lemma ParseIP_length: "ParseIP s = Some ip \<Longrightarrow> length ip = 16"
  by (auto simp: ParseIP_def v4InV6Prefix_def dest: parse_ip4_length parse_ip6_length split: list.splits if_splits)

lemma ParseIP_dotted:
  assumes "ParseIP s = Some ip" "CHR '':'' \<notin> set s"
  shows "take 12 ip = v4InV6Prefix"
proof -
  have "dropWhile P s \<noteq> CHR '':'' # x" for P x using assms(2) set_dropWhileD [of "CHR '':''" P s] by force
  with assms(1) show ?thesis by (auto simp: ParseIP_def v4InV6Prefix_def split: list.splits if_splits)
qed

text \<open>A net that was read from the configuration has a number, so the nil address is in none of them.\<close>

lemma configured_net:
  assumes "IPNet_UnmarshalText s = Inr n"
  shows "length (fst (net_number n)) \<in> {4, 16}"
proof -
  define bytes :: nat where "bytes = (if CHR '':'' \<in> set (takeWhile (\<lambda>c. c \<noteq> CHR ''/'') s) then 16 else 4)"
  obtain ip k where ip: "ParseIP (takeWhile (\<lambda>c. c \<noteq> CHR ''/'') s) = Some ip" and n: "n = (IP_Mask ip (CIDRMask k bytes), CIDRMask k bytes)"
    using assms by (auto simp: IPNet_UnmarshalText_def ParseCIDR_def Let_def bytes_def split: option.splits if_splits prod.splits)
  have m: "length (CIDRMask k bytes) = bytes" by (simp add: CIDRMask_def)
  have l: "length ip = 16" using ParseIP_length [OF ip] .
  have "length (IP_Mask ip (CIDRMask k bytes)) = bytes"
    using ParseIP_dotted [OF ip] l m by (auto simp: IP_Mask_def bytes_def Let_def)
  then show ?thesis using m unfolding n net_number_def
    by (auto simp: bytes_def To4_def Let_def split: if_splits)
qed

lemma nil_in_no_net: "IPNet_UnmarshalText s = Inr n \<Longrightarrow> \<not> IPNet_Contains n []"
  using configured_net [of s n] by (auto simp: IPNet_Contains_def To4_def split: prod.splits)

definition admitted :: "(string \<Rightarrow> string \<Rightarrow> bool) \<Rightarrow> Authentication option \<Rightarrow> IPNet list \<Rightarrow> api_http \<Rightarrow> bool" where
  "admitted bcrypt auth allowedNets r \<longleftrightarrow>
     (\<exists>ipStr port ip. SplitHostPort (ah_RemoteAddr r) = Some (ipStr, port) \<and> ParseIP ipStr = Some ip \<and>
        (\<exists>n\<in>set allowedNets. IPNet_Contains n ip)) \<and>
     (case auth of None \<Rightarrow> True | Some au \<Rightarrow>
        (\<exists>name pass u. ah_BasicAuth r = Some (name, pass) \<and> map_of (au_userMap au) name = Some u \<and> bcrypt (us_PasswordHash u) pass))"



end
