(* ===== verification/Api_Overlay_Facts.thy ===== *)
theory Api_Overlay_Facts
  imports Api_Overlays Overlay_Confined
begin

text \<open>
  Adding a file to an overlay through the API and reading it back, and where the file goes when the
  overlay was not there.
\<close>

section \<open>Directories stay directories\<close>

definition keeps_dirs :: "ufs \<Rightarrow> ufs \<Rightarrow> bool" where
  "keeps_dirs u v \<longleftrightarrow> (\<forall>p. uIsDir u p \<longrightarrow> uIsDir v p)"

lemma keeps_dirs_refl [simp]: "keeps_dirs u u"
  by (simp add: keeps_dirs_def)

lemma keeps_dirs_trans: "keeps_dirs u v \<Longrightarrow> keeps_dirs v w \<Longrightarrow> keeps_dirs u w"
  by (simp add: keeps_dirs_def)

lemma keeps_dirs_new: "Lstat u x = None \<Longrightarrow> keeps_dirs u (set_node x n u)"
  by (auto simp: keeps_dirs_def uIsDir_def Stat_def follow_link_def Lstat_set_node split: option.splits fkind.splits if_splits)

lemma keeps_dirs_file:
  "Lstat u x = Some n \<Longrightarrow> fn_kind n \<noteq> Dir \<Longrightarrow> fn_kind n' = fn_kind n \<Longrightarrow> keeps_dirs u (set_node x n' u)"
  by (auto simp: keeps_dirs_def uIsDir_def Stat_def follow_link_def Lstat_set_node split: option.splits fkind.splits if_splits)

lemma keeps_dirs_mkdirs: "keeps_dirs u (snd (mkdirs r ds cs u))"
proof (induction r ds cs u rule: mkdirs.induct)
  case (2 r ds c cs u)
  then show ?case
    by (auto simp: Let_def split: option.splits intro: keeps_dirs_trans [OF keeps_dirs_new])
qed simp

lemma keeps_dirs_MkdirAll: "keeps_dirs u (snd (os_MkdirAll p u))"
  by (simp add: os_MkdirAll_def keeps_dirs_mkdirs)

section \<open>Written files\<close>

text \<open>What was opened is a file at the end of the link, if there is one, and following it again ends there.\<close>

lemma os_Create_result:
  assumes "os_Create p u = (Some q, v)"
  obtains n where "Lstat v q = Some n" "fn_kind n \<noteq> Dir" "follow_link v p = Some q" "keeps_dirs u v"
proof (cases "Lstat u q")
  case None
  from assms have f: "follow_link u p = Some q" and v: "v = set_node q \<lparr>fn_kind = Regular, fn_uid = 0, fn_gid = 0, fn_data = []\<rparr> u"
    using None by (auto simp: os_Create_def split: option.splits if_splits)
  have "follow_link v p = Some q" using f None unfolding v follow_link_def Lstat_set_node by (auto split: option.splits)
  with keeps_dirs_new [OF None] v show ?thesis by (intro that) (auto simp: Lstat_set_node)
next
  case (Some n)
  from assms have f: "follow_link u p = Some q" and v: "v = set_node q (n\<lparr>fn_data := []\<rparr>) u" and k: "fn_kind n \<noteq> Dir"
    using Some by (auto simp: os_Create_def split: option.splits if_splits)
  have "follow_link v p = Some q" using f Some unfolding v follow_link_def Lstat_set_node by (auto split: option.splits fkind.splits)
  with keeps_dirs_file [OF Some k] v k show ?thesis by (intro that [of "n\<lparr>fn_data := []\<rparr>"]) (auto simp: Lstat_set_node)
qed

lemma os_WriteFile_result:
  assumes "os_WriteFile p d u = (None, v)" "p \<noteq> []"
  shows "os_ReadFile v p = Inr d \<and> keeps_dirs u v"
proof -
  from assms(1) obtain q u1 where c: "os_Create p u = (Some q, u1)"
    by (cases "os_Create p u") (auto simp: os_WriteFile_def split: option.splits)
  from os_Create_result [OF c] obtain n where n: "Lstat u1 q = Some n" "fn_kind n \<noteq> Dir" "follow_link u1 p = Some q" "keeps_dirs u u1" .
  have v: "v = set_node q (n\<lparr>fn_data := d\<rparr>) u1" using assms(1) c n(1) by (simp add: os_WriteFile_def)
  have "follow_link v p = Some q" using n unfolding v follow_link_def Lstat_set_node by (auto split: option.splits fkind.splits)
  then have "os_ReadFile v p = Inr d" using assms(2) n(2) by (simp add: os_ReadFile_def Stat_def v Lstat_set_node)
  moreover have "keeps_dirs u1 v" unfolding v by (rule keeps_dirs_file [OF n(1,2)]) simp
  ultimately show ?thesis using keeps_dirs_trans [OF n(4)] by blast
qed

lemma AddFile_result:
  assumes "IsSiteOverlay sitedir o1" "uIsDir u (path_Join [o1, ''rootfs''])"
    "AddFile dircopy sitedir o1 path content parents force u = (None, v)"
  shows "os_ReadFile v (Overlay_File v o1 path) = Inr content \<and> keeps_dirs u v"
proof -
  define full where "full = Overlay_File u o1 path"
  define u1 where "u1 = snd (if parents then os_MkdirAll (if full = [] then ''.'' else parent full) u else (None, u))"
  have w: "full \<noteq> []" "os_WriteFile full content u1 = (None, v)"
    using assms(1,3) unfolding AddFile_def writable_def Let_def full_def [symmetric]
    by (auto simp: and_then_def u1_def split: if_splits option.splits)
  from os_WriteFile_result [OF w(2,1)] have r: "os_ReadFile v full = Inr content" "keeps_dirs u1 v" by auto
  have k: "keeps_dirs u v" using keeps_dirs_trans [OF _ r(2), of u] keeps_dirs_MkdirAll by (simp add: u1_def)
  then have "uIsDir v (path_Join [o1, ''rootfs''])" using assms(2) by (simp add: keeps_dirs_def)
  then have "Overlay_File v o1 path = full" using assms(2) by (simp add: full_def Overlay_File_def Overlay_Rootfs_def)
  with r(1) k show ?thesis by simp
qed

text \<open>
  (C11) Files of overlays survive the round trip through the API: if adding a file to a site overlay
  that exists succeeds, asking for the file under the same path returns what was written, also where the
  path leads through a link; everything that was a directory before still is one.
\<close>

theorem addOverlayFile_roundtrip:
  assumes site: "Overlay_Exists (aw_files w) (getSiteOverlay (a_sitedir a) name)" "IsSiteOverlay (a_sitedir a) (getSiteOverlay (a_sitedir a) name)"
      "uIsDir (aw_files w) (path_Join [getSiteOverlay (a_sitedir a) name, ''rootfs''])"
    and add: "addOverlayFile a name path content ifNoneMatch w = (Inr out, w')"
  shows "(\<exists>f. api_getOverlayFile a name path [] w' = (Inr f, w') \<and> of_Contents f = content) \<and> keeps_dirs (aw_files w) (aw_files w')"
proof -
  let ?o = "getSiteOverlay (a_sitedir a) name"
  obtain rel where rel: "path \<noteq> []" "QueryUnescape path = Some rel"
    using add by (auto simp: addOverlayFile_def with_path_def split: if_splits option.splits)
  have v: "ValidateName name = None"
    using add rel by (auto simp: addOverlayFile_def with_path_def overlay_Get_def overlay_Create_def split: option.splits)
  then have "get_overlay a (aw_files w) name = Inr ?o" using site(1) by (simp add: overlay_Get_def)
  with add rel obtain u where u: "AddFile (a_dircopy a) (a_sitedir a) ?o rel content True (ifNoneMatch \<noteq> ''*'') (aw_files w) = (None, u)" "w' = w\<lparr>aw_files := u\<rparr>"
    by (auto simp: addOverlayFile_def with_path_def split: prod.splits option.splits)
  from AddFile_result [OF site(2,3) u(1)] have r: "os_ReadFile u (Overlay_File u ?o rel) = Inr content" "keeps_dirs (aw_files w) u" by auto
  have "get_overlay a u name = Inr ?o" using v site(1) r(2) by (simp add: overlay_Get_def Overlay_Exists_def keeps_dirs_def)
  moreover obtain n where "Stat u (Overlay_File u ?o rel) = Some n" using r(1) by (auto simp: os_ReadFile_def split: if_splits option.splits)
  ultimately show ?thesis using rel r u(2)
    by (auto simp: api_getOverlayFile_def with_path_def NewOverlayFile_def readContents_def of_FullPath_def Let_def)
qed

definition overlay_state :: api_world where
  "overlay_state = \<lparr>aw_wwd = sample_world, aw_files = \<lparr>uf_nodes =
     [(''/s'', new_node Dir []), (''/s/motd'', new_node Dir []), (''/s/motd/rootfs'', new_node Dir [])], uf_refuse = []\<rparr>\<rparr>"

definition overlay_api :: api_env where
  "overlay_api = \<lparr>a_env = sample_env, a_overwriteNode = (\<lambda>d s. Inr d), a_overwriteProfile = (\<lambda>d s. Inr d),
     a_sitedir = ''/s'', a_distdir = ''/d'', a_dircopy = (\<lambda>p q u. (None, u)), a_exec = (\<lambda>n x xs p q. Inr [])\<rparr>"

lemma addOverlayFile_run:
  assumes "path \<noteq> []" "QueryUnescape path = Some rel"
    "(case get_overlay a (aw_files w) name of Inr o1 \<Rightarrow> (o1, (None, aw_files w)) | Inl _ \<Rightarrow> ([], overlay_Create (a_sitedir a) name (aw_files w))) = (o1, (None, u))"
    "AddFile (a_dircopy a) (a_sitedir a) o1 rel content True (m \<noteq> ''*'') u = (None, v)"
  shows "addOverlayFile a name path content m w = (Inr (NewOverlayResponse a v name), w\<lparr>aw_files := v\<rparr>)"
  using assms by (simp add: addOverlayFile_def with_path_def)

theorem addOverlayFile_roundtrip_witness:
  "\<exists>out w' f. addOverlayFile overlay_api ''motd'' ''etc%2Fmotd'' ''hello'' '''' overlay_state = (Inr out, w') \<and>
     api_getOverlayFile overlay_api ''motd'' ''etc%2Fmotd'' [] w' = (Inr f, w') \<and> of_Contents f = ''hello''"
proof -
  let ?add = "AddFile (a_dircopy overlay_api) (a_sitedir overlay_api) ''/s/motd'' ''etc/motd'' ''hello'' True True (aw_files overlay_state)"
  have pre: "Overlay_Exists (aw_files overlay_state) (getSiteOverlay (a_sitedir overlay_api) ''motd'')"
    "IsSiteOverlay (a_sitedir overlay_api) (getSiteOverlay (a_sitedir overlay_api) ''motd'')"
    "uIsDir (aw_files overlay_state) (path_Join [getSiteOverlay (a_sitedir overlay_api) ''motd'', ''rootfs''])"
    and run: "QueryUnescape ''etc%2Fmotd'' = Some ''etc/motd''" "get_overlay overlay_api (aw_files overlay_state) ''motd'' = Inr ''/s/motd''" "fst ?add = None"
    by code_simp+
  have "addOverlayFile overlay_api ''motd'' ''etc%2Fmotd'' ''hello'' '''' overlay_state =
      (Inr (NewOverlayResponse overlay_api (snd ?add) ''motd''), overlay_state\<lparr>aw_files := snd ?add\<rparr>)"
    using run by (intro addOverlayFile_run) (auto simp: prod_eq_iff)
  from addOverlayFile_roundtrip [OF pre this] this show ?thesis by blast
qed

definition created_overlay :: ufs where
  "created_overlay = (aw_files overlay_state)\<lparr>uf_nodes := uf_nodes (aw_files overlay_state) @
     [(''/s/new'', new_node Dir []), (''/s/new/rootfs'', new_node Dir [])]\<rparr>"

definition misplaced_file :: ufs where
  "misplaced_file = set_node ''/s/motd/rootfs/x'' (new_node Regular ''hello'') created_overlay"

lemma misplaced:
  "overlay_Create (a_sitedir overlay_api) ''new'' (aw_files overlay_state) = (None, created_overlay)"
  "AddFile (a_dircopy overlay_api) (a_sitedir overlay_api) [] ''motd/rootfs/x'' ''hello'' True True created_overlay = (None, misplaced_file)"
proof -
  show "overlay_Create (a_sitedir overlay_api) ''new'' (aw_files overlay_state) = (None, created_overlay)" by code_simp
  have "\<not> IsSiteOverlay (a_sitedir overlay_api) []" "getSiteOverlay (a_sitedir overlay_api) (Overlay_Name []) = ''/s''"
    "Overlay_Exists created_overlay ''/s''" "Overlay_File created_overlay ''/s'' ''motd/rootfs/x'' = ''/s/motd/rootfs/x''"
    "parent ''/s/motd/rootfs/x'' = ''/s/motd/rootfs''" "os_MkdirAll ''/s/motd/rootfs'' created_overlay = (None, created_overlay)"
    "os_WriteFile ''/s/motd/rootfs/x'' ''hello'' created_overlay = (None, misplaced_file)"
    by code_simp+
  then show "AddFile (a_dircopy overlay_api) (a_sitedir overlay_api) [] ''motd/rootfs/x'' ''hello'' True True created_overlay = (None, misplaced_file)"
    by (simp add: AddFile_def writable_def CloneToSite_def Let_def and_then_def)
qed

text \<open>
  Where the overlay is not there, it is created, but the file goes to the path below the directory of all
  site overlays: into another overlay, or beside them. The new overlay does not have it.
\<close>

lemma addOverlayFile_missing:
  "\<exists>out. addOverlayFile overlay_api ''new'' ''motd/rootfs/x'' ''hello'' '''' overlay_state = (Inr out, overlay_state\<lparr>aw_files := misplaced_file\<rparr>) \<and>
     os_ReadFile misplaced_file ''/s/motd/rootfs/x'' = Inr ''hello'' \<and>
     get_overlay overlay_api misplaced_file ''new'' = Inr ''/s/new'' \<and>
     Overlay_File misplaced_file ''/s/new'' ''motd/rootfs/x'' = ''/s/new/rootfs/motd/rootfs/x'' \<and>
     Lstat misplaced_file ''/s/new/rootfs/motd/rootfs/x'' = None"
proof -
  have run: "QueryUnescape ''motd/rootfs/x'' = Some ''motd/rootfs/x''" "isl (get_overlay overlay_api (aw_files overlay_state) ''new'')"
    and res: "os_ReadFile misplaced_file ''/s/motd/rootfs/x'' = Inr ''hello''" "get_overlay overlay_api misplaced_file ''new'' = Inr ''/s/new''"
      "Overlay_File misplaced_file ''/s/new'' ''motd/rootfs/x'' = ''/s/new/rootfs/motd/rootfs/x''" "Lstat misplaced_file ''/s/new/rootfs/motd/rootfs/x'' = None"
    by code_simp+
  have "addOverlayFile overlay_api ''new'' ''motd/rootfs/x'' ''hello'' '''' overlay_state =
      (Inr (NewOverlayResponse overlay_api misplaced_file ''new''), overlay_state\<lparr>aw_files := misplaced_file\<rparr>)"
    using run misplaced by (intro addOverlayFile_run) (auto simp: isl_def)
  with res show ?thesis by blast
qed

end
