(* ===== verification/Client_Apply.thy ===== *)
theory Client_Apply
  imports Overlay_Build Ww_Config
begin

text \<open>
  The client on a node, \<open>wwclient/root.go\<close>: fetching the runtime overlay and putting its files in place.

  \<^item> The state is a file system together with the mode and the modification time of its paths; an
    operation returns its error, if any, the state it leaves and all states on the way, in order, which is
    what other processes of the node see.
  \<^item> The random part of a temporary name (\<open>rnd\<close>) and the programs that unpack the archive (\<open>unpack\<close>) are
    parameters. SELinux labels are not modelled; setting them changes nothing else.
  \<^item> The modes of directories that are made on the way to a path are tracked once they are set.
\<close>

record cfs =
  cf_files :: ufs
  cf_attr :: "(string \<times> int \<times> int) list"

definition attr :: "cfs \<Rightarrow> string \<Rightarrow> int \<times> int" where
  "attr s p = (case map_of (cf_attr s) p of Some a \<Rightarrow> a | None \<Rightarrow> (0, 0))"

type_synonym run = "cfs \<Rightarrow> err option \<times> cfs \<times> cfs list"

text \<open>One call, calls in sequence, a call whose error is only logged, and cleaning up after an error.\<close>

definition act :: "cfs effect \<Rightarrow> run" where
  "act f s = (case f s of (e, t) \<Rightarrow> (e, t, [t]))"

definition seq :: "run \<Rightarrow> run \<Rightarrow> run" where
  "seq f g s = (case f s of
      (Some e, t, ts) \<Rightarrow> (Some e, t, ts)
    | (None, t, ts) \<Rightarrow> (case g t of (e, u, us) \<Rightarrow> (e, u, ts @ us)))"

definition warn :: "run \<Rightarrow> run" where
  "warn f s = (case f s of (_, t, ts) \<Rightarrow> (None, t, ts))"

definition on_error :: "run \<Rightarrow> run \<Rightarrow> run" where
  "on_error f g s = (case f s of
      (None, t, ts) \<Rightarrow> (None, t, ts)
    | (Some e, t, ts) \<Rightarrow> (case g t of (_, u, us) \<Rightarrow> (Some e, u, ts @ us)))"

definition on_files :: "ufs effect \<Rightarrow> cfs effect" where
  "on_files f s = (case f (cf_files s) of (e, u) \<Rightarrow> (e, s\<lparr>cf_files := u\<rparr>))"

text \<open>Calls on a path that follow links.\<close>

definition set_attr :: "((int \<times> int) \<Rightarrow> int \<times> int) \<Rightarrow> string \<Rightarrow> cfs effect" where
  "set_attr f p s = (case follow_link (cf_files s) p of
      None \<Rightarrow> (Some ErrIO, s)
    | Some q \<Rightarrow>
        if Lstat (cf_files s) q = None \<or> q \<in> set (uf_refuse (cf_files s)) then (Some ErrIO, s)
        else (None, s\<lparr>cf_attr := al_update q (f (attr s q)) (cf_attr s)\<rparr>))"

definition c_Chmod :: "string \<Rightarrow> int \<Rightarrow> cfs effect" where
  "c_Chmod p mode = set_attr (\<lambda>a. (mode, snd a)) p"

definition c_Chtimes :: "string \<Rightarrow> int \<Rightarrow> cfs effect" where
  "c_Chtimes p mtime = set_attr (\<lambda>a. (fst a, mtime)) p"

text \<open>\<open>syscall.Lchown\<close> does not follow links.\<close>

definition os_Lchown :: "string \<Rightarrow> int \<Rightarrow> int \<Rightarrow> ufs effect" where
  "os_Lchown p uid gid u = (case Lstat u p of
      None \<Rightarrow> (Some ErrIO, u)
    | Some n \<Rightarrow>
        if p \<in> set (uf_refuse u) then (Some ErrIO, u)
        else (None, set_node p (n\<lparr>fn_uid := new_owner uid (fn_uid n), fn_gid := new_owner gid (fn_gid n)\<rparr>) u))"

definition c_Rename :: "string \<Rightarrow> string \<Rightarrow> cfs effect" where
  "c_Rename p q s = (case os_Rename p q (cf_files s) of
      (Some e, u) \<Rightarrow> (Some e, s\<lparr>cf_files := u\<rparr>)
    | (None, u) \<Rightarrow> (None, s\<lparr>cf_files := u, cf_attr := al_update q (attr s p) (filter (\<lambda>e. fst e \<noteq> p) (cf_attr s))\<rparr>))"

text \<open>\<open>os.CreateTemp\<close> makes a file that was not there, for its owner only.\<close>

definition c_CreateTemp :: "string \<Rightarrow> cfs effect" where
  "c_CreateTemp p s =
     (let u = cf_files s in
      if Lstat u p \<noteq> None \<or> p \<in> set (uf_refuse u) \<or> map_option fn_kind (Lstat u (parent p)) \<noteq> Some Dir then (Some ErrIO, s)
      else (None, s\<lparr>cf_files := set_node p (new_node Regular []) u, cf_attr := al_update p (384, 0) (cf_attr s)\<rparr>))"

text \<open>\<open>os.MkdirTemp\<close> makes a directory that was not there.\<close>

definition c_MkdirTemp :: "string \<Rightarrow> cfs effect" where
  "c_MkdirTemp p s =
     (let u = cf_files s in
      if Lstat u p \<noteq> None \<or> p \<in> set (uf_refuse u) \<or> map_option fn_kind (Lstat u (parent p)) \<noteq> Some Dir then (Some ErrIO, s)
      else (None, s\<lparr>cf_files := set_node p (new_node Dir []) u, cf_attr := al_update p (448, 0) (cf_attr s)\<rparr>))"

section \<open>Files that changed\<close>

definition fileChanged :: "string \<Rightarrow> string \<Rightarrow> cfs \<Rightarrow> bool result" where
  "fileChanged srcPath destPath s =
     (let u = cf_files s; at = (\<lambda>p. case follow_link u p of Some q \<Rightarrow> attr s q | None \<Rightarrow> (0, 0)) in
      case Stat u srcPath of
        None \<Rightarrow> Inl ErrIO
      | Some srcInfo \<Rightarrow>
          (case Stat u destPath of
             None \<Rightarrow> if follow_link u destPath = None then Inl ErrIO else Inr True
           | Some destInfo \<Rightarrow>
               Inr (length (fn_data srcInfo) \<noteq> length (fn_data destInfo) \<or> snd (at srcPath) \<noteq> snd (at destPath) \<or>
                    fn_kind srcInfo \<noteq> fn_kind destInfo \<or> fst (at srcPath) \<noteq> fst (at destPath))))"

section \<open>Copying a file\<close>

text \<open>\<open>io.Copy\<close> writes what it reads in pieces of 32 KiB.\<close>

function pieces :: "string \<Rightarrow> string list" where
  "pieces d = (if d = [] then [] else take 32768 d # pieces (drop 32768 d))"
  by pat_completeness auto

termination pieces
  by (relation "measure length") auto

declare pieces.simps [simp del]

definition os_Truncate :: "string \<Rightarrow> ufs effect" where
  "os_Truncate p u = (case os_Create p u of (None, u) \<Rightarrow> (Some ErrIO, u) | (Some _, u) \<Rightarrow> (None, u))"

definition os_Append :: "string \<Rightarrow> string \<Rightarrow> ufs effect" where
  "os_Append p d u = (case follow_link u p of
      None \<Rightarrow> (Some ErrIO, u)
    | Some q \<Rightarrow>
        (case Lstat u q of
           None \<Rightarrow> (Some ErrIO, u)
         | Some n \<Rightarrow> (None, set_node q (n\<lparr>fn_data := fn_data n @ d\<rparr>) u)))"

fun write_pieces :: "string \<Rightarrow> string list \<Rightarrow> run" where
  "write_pieces dst [] s = (None, s, [])"
| "write_pieces dst (d # ds) s = seq (act (on_files (os_Append dst d))) (write_pieces dst ds) s"

text \<open>The mode, the time and the owner of the source were read by the walk; what fails on them is logged.\<close>

definition copyFile :: "string \<Rightarrow> string \<Rightarrow> fnode \<Rightarrow> int \<times> int \<Rightarrow> run" where
  "copyFile src dst srcInfo srcAttr s = (case Stat (cf_files s) src of
      None \<Rightarrow> (Some ErrIO, s, [])
    | Some n \<Rightarrow>
        seq (act (on_files (os_Truncate dst)))
          (seq (if fn_kind n = Dir then (\<lambda>s. (Some ErrIO, s, [])) else write_pieces dst (pieces (fn_data n)))
            (seq (warn (act (c_Chmod dst (fst srcAttr))))
              (seq (warn (act (on_files (os_Chown dst (fn_uid srcInfo) (fn_gid srcInfo)))))
                (warn (act (c_Chtimes dst (snd srcAttr))))))) s)"

section \<open>Applying an overlay\<close>

definition temp_path :: "(cfs \<Rightarrow> string) \<Rightarrow> string \<Rightarrow> cfs \<Rightarrow> string" where
  "temp_path rnd destParent s = path_Join [destParent, ''.wwclient-tmp-'' @ rnd s]"

definition apply_dir :: "string \<Rightarrow> fnode \<Rightarrow> int \<times> int \<Rightarrow> run" where
  "apply_dir destPath info at =
     seq (act (on_files (os_MkdirAll destPath)))
       (seq (act (c_Chmod destPath (fst at)))
         (seq (warn (act (on_files (os_Chown destPath (fn_uid info) (fn_gid info)))))
           (warn (act (c_Chtimes destPath (snd at))))))"

definition place :: "string \<Rightarrow> string \<Rightarrow> run" where
  "place tempPath destPath = on_error (act (c_Rename tempPath destPath)) (act (on_files (os_Remove tempPath)))"

definition apply_link :: "(cfs \<Rightarrow> string) \<Rightarrow> string \<Rightarrow> fnode \<Rightarrow> run" where
  "apply_link rnd destPath info =
     seq (act (on_files (os_MkdirAll (parent destPath)))) (\<lambda>s.
       let tempPath = temp_path rnd (parent destPath) s in
       seq (act (on_files (os_Symlink (fn_data info) tempPath)))
         (seq (warn (act (on_files (os_Lchown tempPath (fn_uid info) (fn_gid info)))))
           (place tempPath destPath)) s)"

definition apply_file :: "(cfs \<Rightarrow> string) \<Rightarrow> string \<Rightarrow> string \<Rightarrow> fnode \<Rightarrow> int \<times> int \<Rightarrow> run" where
  "apply_file rnd srcPath destPath info at s = (case fileChanged srcPath destPath s of
      Inl e \<Rightarrow> (Some e, s, [])
    | Inr False \<Rightarrow> (None, s, [])
    | Inr True \<Rightarrow>
        seq (act (on_files (os_MkdirAll (parent destPath)))) (\<lambda>s.
          let tempPath = temp_path rnd (parent destPath) s in
          seq (act (c_CreateTemp tempPath))
            (seq (on_error (copyFile srcPath tempPath info at) (act (on_files (os_Remove tempPath))))
              (place tempPath destPath)) s) s)"

definition apply_entry :: "(cfs \<Rightarrow> string) \<Rightarrow> string \<Rightarrow> string \<Rightarrow> string \<times> fnode \<Rightarrow> int \<times> int \<Rightarrow> run" where
  "apply_entry rnd srcDir destDir e at s = (case Rel srcDir (fst e) of
      None \<Rightarrow> (Some ErrIO, s, [])
    | Some relPath \<Rightarrow>
        if relPath = ''.'' then (None, s, [])
        else (let destPath = path_Join [destDir, relPath] in
          if fn_kind (snd e) = Dir then apply_dir destPath (snd e) at s
          else if is_link (snd e) then apply_link rnd destPath (snd e) s
          else apply_file rnd (fst e) destPath (snd e) at s))"

fun apply_entries :: "(cfs \<Rightarrow> string) \<Rightarrow> string \<Rightarrow> string \<Rightarrow> ((string \<times> fnode) \<times> int \<times> int) list \<Rightarrow> run" where
  "apply_entries rnd srcDir destDir [] s = (None, s, [])"
| "apply_entries rnd srcDir destDir ((e, at) # es) s =
     seq (apply_entry rnd srcDir destDir e at) (apply_entries rnd srcDir destDir es) s"

text \<open>The walk; the source is not changed by what is written to the destination.\<close>

definition atomicApplyOverlay :: "(cfs \<Rightarrow> string) \<Rightarrow> string \<Rightarrow> string \<Rightarrow> run" where
  "atomicApplyOverlay rnd srcDir destDir s = (case Walk (cf_files s) srcDir of
      None \<Rightarrow> (Some ErrIO, s, [])
    | Some es \<Rightarrow> apply_entries rnd srcDir destDir (map (\<lambda>e. (e, attr s (fst e))) es) s)"

section \<open>Fetching\<close>

definition parseWWIDFromCmdline :: "string \<Rightarrow> string result" where
  "parseWWIDFromCmdline cmdline = (case find (\<lambda>p. HasPrefix p ''wwid='') (Fields cmdline) of
      None \<Rightarrow> Inl (ErrMsg ''wwid parameter not found in kernel command line'')
    | Some p \<Rightarrow> (let wwid = TrimPrefix p ''wwid='' in if wwid = [] then Inl (ErrMsg ''wwid parameter is empty'') else Inr wwid))"

text \<open>
  A \<open>wwid\<close> in brackets names an interface, whose address is read. The code slices off the first and the
  last byte: with a single bracket the end of the slice is before its start.
\<close>

definition deref_wwid :: "(string \<Rightarrow> string result) \<Rightarrow> string \<Rightarrow> string result" where
  "deref_wwid readAddress wwid =
     (if HasPrefix wwid ''['' then
        if length wwid - 1 < 1 then Inl ErrPanic
        else (case readAddress (drop 1 (take (length wwid - 1) wwid)) of
            Inl e \<Rightarrow> Inl e
          | Inr a \<Rightarrow> Inr (if a \<noteq> [] \<and> last a = CHR 10 then butlast a else a))
      else Inr wwid)"

text \<open>The port the client calls from, and where it calls. An absent section of the configuration panics.\<close>

definition client_port :: "WarewulfYaml \<Rightarrow> int result" where
  "client_port conf = (case y_WWClient conf of
      Some p \<Rightarrow> if p > 0 then Inr p else (case y_Warewulf conf of None \<Rightarrow> Inl ErrPanic | Some w \<Rightarrow> Inr (if Secure w then 987 else 0))
    | None \<Rightarrow> (case y_Warewulf conf of None \<Rightarrow> Inl ErrPanic | Some w \<Rightarrow> Inr (if Secure w then 987 else 0)))"

definition server_address :: "string \<Rightarrow> WarewulfYaml \<Rightarrow> (string \<times> string \<times> int) result" where
  "server_address env conf =
     (let ipaddr = (if env \<noteq> [] then env else if y_Ipaddr6 conf \<noteq> [] then y_Ipaddr6 conf else y_Ipaddr conf) in
      case y_Warewulf conf of
        None \<Rightarrow> Inl ErrPanic
      | Some w \<Rightarrow> Inr (if BoolP (ww_TLSEnabledP w) then (''https'', ipaddr, ww_TLSPort w) else (''http'', ipaddr, ww_Port w)))"

text \<open>
  The attempts to connect, one per second: an error of the certificate ends them, any other error makes
  the client try again. \<open>None\<close>: it is still trying when the given attempts are over.
\<close>

datatype attempt = Answer int string | BadCertificate | NoConnection

fun fetch :: "attempt list \<Rightarrow> (int \<times> string) result option" where
  "fetch [] = None"
| "fetch (Answer code body # as) = Some (Inr (code, body))"
| "fetch (BadCertificate # as) = Some (Inl (ErrMsg ''TLS connection failed''))"
| "fetch (NoConnection # as) = fetch as"

text \<open>
  \<open>updateSystem\<close>: only a failed certificate is an error; everything else is logged. The temporary
  directory is removed in all cases.
\<close>

definition updateSystem :: "(cfs \<Rightarrow> string) \<Rightarrow> (string \<Rightarrow> string \<Rightarrow> cfs effect) \<Rightarrow> (cfs \<Rightarrow> string) \<Rightarrow> string \<Rightarrow> attempt list \<Rightarrow> cfs \<Rightarrow>
    (err option \<times> cfs \<times> cfs list) option" where
  "updateSystem rnd unpack tempDir target attempts s = (case fetch attempts of
      None \<Rightarrow> None
    | Some (Inl e) \<Rightarrow> Some (Some e, s, [])
    | Some (Inr (code, body)) \<Rightarrow>
        Some (if code \<noteq> 200 then (None, s, [])
              else (let dir = tempDir s in
                warn (seq (act (c_MkdirTemp dir))
                  (\<lambda>s. seq (warn (seq (act (unpack body dir)) (atomicApplyOverlay rnd dir target))) (act (on_files (os_RemoveAll dir))) s)) s)))"

end
