(* ===== verification/Client_Facts.thy ===== *)
theory Client_Facts
  imports Client_Apply Overlay_Confined
begin

text \<open>
  What other processes of a node see while the client applies an overlay: at every moment each path shows
  what it showed before or a complete file of the overlay.
\<close>

section \<open>Watching a run\<close>

text \<open>
  \<open>watch I P r Q\<close>: started where \<open>P\<close> and \<open>I\<close> hold, every state on the way and the last one satisfy \<open>I\<close>,
  and if there is no error the last one satisfies \<open>Q\<close>.
\<close>

definition watch :: "(cfs \<Rightarrow> bool) \<Rightarrow> (cfs \<Rightarrow> bool) \<Rightarrow> run \<Rightarrow> (cfs \<Rightarrow> bool) \<Rightarrow> bool" where
  "watch I P r Q \<longleftrightarrow> (\<forall>s. P s \<and> I s \<longrightarrow> (case r s of (e, t, ts) \<Rightarrow> I t \<and> (\<forall>u\<in>set ts. I u) \<and> (e = None \<longrightarrow> Q t)))"

lemma watchI:
  assumes "\<And>s e t ts. P s \<Longrightarrow> I s \<Longrightarrow> r s = (e, t, ts) \<Longrightarrow> I t \<and> (\<forall>u\<in>set ts. I u) \<and> (e = None \<longrightarrow> Q t)"
  shows "watch I P r Q"
  unfolding watch_def
proof (intro allI impI)
  fix s assume "P s \<and> I s"
  with assms [of s "fst (r s)" "fst (snd (r s))" "snd (snd (r s))"]
  show "case r s of (e, t, ts) \<Rightarrow> I t \<and> (\<forall>u\<in>set ts. I u) \<and> (e = None \<longrightarrow> Q t)" by (simp add: case_prod_beta)
qed

lemma watchD: "watch I P r Q \<Longrightarrow> P s \<Longrightarrow> I s \<Longrightarrow> r s = (e, t, ts) \<Longrightarrow> I t \<and> (\<forall>u\<in>set ts. I u) \<and> (e = None \<longrightarrow> Q t)"
  unfolding watch_def by (drule spec [of _ s]) simp

lemma watch_seq:
  assumes "watch I P f R" "watch I R g Q"
  shows "watch I P (seq f g) Q"
proof (rule watchI)
  fix s e t ts assume s: "P s" "I s" "seq f g s = (e, t, ts)"
  obtain e1 t1 ts1 where f: "f s = (e1, t1, ts1)" by (cases "f s")
  note f1 = watchD [OF assms(1) s(1,2) f]
  show "I t \<and> (\<forall>u\<in>set ts. I u) \<and> (e = None \<longrightarrow> Q t)"
  proof (cases e1)
    case None
    obtain e2 t2 ts2 where g: "g t1 = (e2, t2, ts2)" by (cases "g t1")
    from watchD [OF assms(2) _ _ g] f1 None s(3) f g show ?thesis by (auto simp: seq_def)
  next
    case (Some x)
    with s(3) f f1 show ?thesis by (auto simp: seq_def)
  qed
qed

lemma watch_act: "(\<And>s e t. P s \<Longrightarrow> I s \<Longrightarrow> f s = (e, t) \<Longrightarrow> I t \<and> (e = None \<longrightarrow> Q t)) \<Longrightarrow> watch I P (act f) Q"
  by (auto simp: watch_def act_def split: prod.splits)

lemma watch_warn: "(\<And>s e t. P s \<Longrightarrow> I s \<Longrightarrow> f s = (e, t) \<Longrightarrow> I t \<and> Q t) \<Longrightarrow> watch I P (warn (act f)) Q"
  by (auto simp: watch_def act_def warn_def split: prod.splits)

lemma watch_on_error:
  assumes "watch I P f Q" "watch I (\<lambda>_. True) g (\<lambda>_. True)"
  shows "watch I P (on_error f g) Q"
proof (rule watchI)
  fix s e t ts assume s: "P s" "I s" "on_error f g s = (e, t, ts)"
  obtain e1 t1 ts1 where f: "f s = (e1, t1, ts1)" by (cases "f s")
  note f1 = watchD [OF assms(1) s(1,2) f]
  show "I t \<and> (\<forall>u\<in>set ts. I u) \<and> (e = None \<longrightarrow> Q t)"
  proof (cases e1)
    case None
    with s(3) f f1 show ?thesis by (auto simp: on_error_def)
  next
    case (Some x)
    obtain e2 t2 ts2 where g: "g t1 = (e2, t2, ts2)" by (cases "g t1")
    from watchD [OF assms(2) _ _ g] f1 Some s(3) f g show ?thesis by (auto simp: on_error_def)
  qed
qed

lemma watch_at:
  assumes "\<And>s. r s = f s s" "\<And>s. watch I P (f s) Q"
  shows "watch I P r Q"
proof (rule watchI)
  fix s e t ts assume "P s" "I s" "r s = (e, t, ts)"
  with watchD [OF assms(2) [of s], of s e t ts] assms(1) [of s]
  show "I t \<and> (\<forall>u\<in>set ts. I u) \<and> (e = None \<longrightarrow> Q t)" by simp
qed

lemma watch_pre: "watch I P f Q \<Longrightarrow> (\<And>s. P' s \<Longrightarrow> I s \<Longrightarrow> P s) \<Longrightarrow> watch I P' f Q"
  by (auto simp: watch_def split: prod.splits)

lemma watch_stop: "watch I P (\<lambda>s. (Some e, s, [])) Q"
  by (simp add: watch_def)

lemma watch_done: "(\<And>s. P s \<Longrightarrow> I s \<Longrightarrow> Q s) \<Longrightarrow> watch I P (\<lambda>s. (None, s, [])) Q"
  by (simp add: watch_def)

section \<open>What may be seen\<close>

definition temp_name :: "string \<Rightarrow> bool" where
  "temp_name p \<longleftrightarrow> comps p \<noteq> [] \<and> HasPrefix (last (comps p)) ''.wwclient-tmp-''"

text \<open>A complete copy of a file or link of the overlay.\<close>

definition same_file :: "fnode \<Rightarrow> fnode \<Rightarrow> bool" where
  "same_file n m \<longleftrightarrow> fn_data m = fn_data n \<and> is_link m = is_link n \<and> fn_kind m \<noteq> Dir"

definition overlay_file :: "(string \<times> fnode) list \<Rightarrow> string \<Rightarrow> string \<Rightarrow> string \<Rightarrow> fnode \<Rightarrow> bool" where
  "overlay_file es srcDir destDir p n \<longleftrightarrow>
     (\<exists>x rel. (x, n) \<in> set es \<and> Rel srcDir x = Some rel \<and> p = path_Join [destDir, rel] \<and> fn_kind n \<noteq> Dir)"

text \<open>What a path shows: what it showed at first, a directory in place of nothing or of a directory, or a file of the overlay.\<close>

definition shows_ok :: "(string \<times> fnode) list \<Rightarrow> string \<Rightarrow> string \<Rightarrow> ufs \<Rightarrow> string \<Rightarrow> fnode option \<Rightarrow> bool" where
  "shows_ok es srcDir destDir u0 p x \<longleftrightarrow>
     x = Lstat u0 p \<or>
     map_option fn_kind x = Some Dir \<and> map_option fn_kind (Lstat u0 p) \<in> {None, Some Dir} \<or>
     (\<exists>m n. x = Some m \<and> overlay_file es srcDir destDir p n \<and> same_file n m)"

definition seen_ok :: "(string \<times> fnode) list \<Rightarrow> string \<Rightarrow> string \<Rightarrow> ufs \<Rightarrow> ufs \<Rightarrow> bool" where
  "seen_ok es srcDir destDir u0 u \<longleftrightarrow>
     (\<forall>p. \<not> temp_name p \<longrightarrow> shows_ok es srcDir destDir u0 p (Lstat u p)) \<and>
     (\<forall>p n. below srcDir p \<and> Lstat u0 p = Some n \<and> fn_kind n \<noteq> Dir \<longrightarrow> Lstat u p = Some n)"

text \<open>Paths that are no file of the source, so that they may be written.\<close>

definition no_source :: "string \<Rightarrow> ufs \<Rightarrow> string \<Rightarrow> bool" where
  "no_source srcDir u0 p \<longleftrightarrow> \<not> (below srcDir p \<and> (\<exists>n. Lstat u0 p = Some n \<and> fn_kind n \<noteq> Dir))"

lemma seen_free:
  assumes "seen_ok es srcDir destDir u0 u" "\<And>n. Lstat u p = Some n \<Longrightarrow> fn_kind n = Dir"
  shows "no_source srcDir u0 p"
  using assms unfolding seen_ok_def no_source_def by blast

lemma seen_change:
  assumes "seen_ok es srcDir destDir u0 u" "no_source srcDir u0 x" "\<And>p. p \<noteq> x \<Longrightarrow> Lstat v p = Lstat u p"
    "temp_name x \<or> shows_ok es srcDir destDir u0 x (Lstat v x)"
  shows "seen_ok es srcDir destDir u0 v"
  unfolding seen_ok_def
proof (intro conjI allI impI)
  fix p assume "\<not> temp_name p"
  with assms show "shows_ok es srcDir destDir u0 p (Lstat v p)" by (cases "p = x") (auto simp: seen_ok_def)
next
  fix p n assume p: "below srcDir p \<and> Lstat u0 p = Some n \<and> fn_kind n \<noteq> Dir"
  with assms(2) have "p \<noteq> x" by (auto simp: no_source_def)
  with p assms(1,3) show "Lstat v p = Some n" by (auto simp: seen_ok_def)
qed

lemma seen_mkdir:
  assumes "seen_ok es srcDir destDir u0 u" "Lstat u x = None"
  shows "seen_ok es srcDir destDir u0 (set_node x (new_node Dir []) u)"
proof (rule seen_change [OF assms(1) seen_free [OF assms(1)]])
  have "temp_name x \<or> Lstat u0 x = None \<or> map_option fn_kind (Lstat u0 x) = Some Dir"
    using assms by (auto simp: seen_ok_def shows_ok_def dest!: spec [of _ x])
  then show "temp_name x \<or> shows_ok es srcDir destDir u0 x (Lstat (set_node x (new_node Dir []) u) x)"
    by (auto simp: shows_ok_def Lstat_set_node new_node_def)
qed (use assms(2) in \<open>simp_all add: Lstat_set_node\<close>)

lemma seen_mkdirs: "seen_ok es srcDir destDir u0 u \<Longrightarrow> seen_ok es srcDir destDir u0 (snd (mkdirs r ds cs u))"
proof (induction r ds cs u rule: mkdirs.induct)
  case (2 r ds c cs u)
  then show ?case by (auto simp: Let_def seen_mkdir split: option.splits)
qed simp

lemma seen_MkdirAll: "seen_ok es srcDir destDir u0 u \<Longrightarrow> seen_ok es srcDir destDir u0 (snd (os_MkdirAll p u))"
  by (simp add: os_MkdirAll_def seen_mkdirs)

lemma mkdirs_made: "mkdirs r ds cs u = (None, v) \<Longrightarrow> cs \<noteq> [] \<Longrightarrow> map_option fn_kind (Stat v (path_of r (ds @ cs))) = Some Dir"
proof (induction r ds cs u rule: mkdirs.induct)
  case (2 r ds c cs u)
  let ?p = "path_of r (ds @ [c])"
  have new: "map_option fn_kind (Stat (set_node ?p (new_node Dir []) u) ?p) = Some Dir"
    by (simp add: Stat_def follow_link_def Lstat_set_node new_node_def)
  show ?case
  proof (cases "Stat u ?p")
    case None
    with 2 new show ?thesis by (cases cs) (auto simp: Let_def split: if_splits)
  next
    case (Some n)
    with 2 show ?thesis by (cases cs) (auto simp: Let_def split: if_splits)
  qed
qed simp

section \<open>The temporary file\<close>

abbreviation seen :: "(string \<times> fnode) list \<Rightarrow> string \<Rightarrow> string \<Rightarrow> ufs \<Rightarrow> cfs \<Rightarrow> bool" where
  "seen es srcDir destDir u0 s \<equiv> seen_ok es srcDir destDir u0 (cf_files s)"

definition temp_at :: "string \<Rightarrow> ufs \<Rightarrow> string \<Rightarrow> (fnode \<Rightarrow> bool) \<Rightarrow> cfs \<Rightarrow> bool" where
  "temp_at srcDir u0 tp K s \<longleftrightarrow> temp_name tp \<and> no_source srcDir u0 tp \<and> (\<exists>n. Lstat (cf_files s) tp = Some n \<and> K n)"

lemma seen_temp:
  "seen_ok es srcDir destDir u0 u \<Longrightarrow> temp_name tp \<Longrightarrow> no_source srcDir u0 tp \<Longrightarrow> seen_ok es srcDir destDir u0 (set_node tp n u)"
  by (erule seen_change) (auto simp: Lstat_set_node)

lemma on_files_result: "on_files f s = (e, t) \<Longrightarrow> f (cf_files s) = (e, cf_files t)"
  by (auto simp: on_files_def split: prod.splits)

lemma set_attr_files: "set_attr f p s = (e, t) \<Longrightarrow> cf_files t = cf_files s"
  by (auto simp: set_attr_def split: option.splits if_splits)

text \<open>Changing the node of the temporary file.\<close>

lemma temp_set:
  assumes "temp_at srcDir u0 tp K s" "seen es srcDir destDir u0 s" "cf_files t = set_node tp m (cf_files s)" "K' m"
  shows "seen es srcDir destDir u0 t \<and> temp_at srcDir u0 tp K' t"
  using assms seen_temp [OF assms(2), of tp m] by (auto simp: temp_at_def Lstat_set_node)

lemma temp_same:
  assumes "temp_at srcDir u0 tp K s" "seen es srcDir destDir u0 s" "cf_files t = cf_files s"
  shows "seen es srcDir destDir u0 t \<and> temp_at srcDir u0 tp K t"
  using assms by (simp add: temp_at_def)

lemma watch_CreateTemp:
  assumes "temp_name tp"
  shows "watch (seen es srcDir destDir u0) P (act (c_CreateTemp tp)) (temp_at srcDir u0 tp (\<lambda>n. fn_kind n = Regular \<and> fn_data n = []))"
proof (rule watch_act)
  fix s e t assume s: "seen es srcDir destDir u0 s" and r: "c_CreateTemp tp s = (e, t)"
  show "seen es srcDir destDir u0 t \<and> (e = None \<longrightarrow> temp_at srcDir u0 tp (\<lambda>n. fn_kind n = Regular \<and> fn_data n = []) t)"
  proof (cases e)
    case None
    with r have "Lstat (cf_files s) tp = None" and t: "cf_files t = set_node tp (new_node Regular []) (cf_files s)"
      by (auto simp: c_CreateTemp_def Let_def split: if_splits)
    with seen_free [OF s, of tp] seen_temp [OF s assms] assms show ?thesis
      by (auto simp: temp_at_def Lstat_set_node new_node_def)
  qed (use r s in \<open>auto simp: c_CreateTemp_def Let_def split: if_splits\<close>)
qed

lemma regular_follow: "Lstat u p = Some n \<Longrightarrow> fn_kind n = Regular \<Longrightarrow> follow_link u p = Some p"
  by (simp add: follow_link_def)

lemma watch_Truncate:
  "watch (seen es srcDir destDir u0) (temp_at srcDir u0 tp (\<lambda>n. fn_kind n = Regular)) (act (on_files (os_Truncate tp)))
     (temp_at srcDir u0 tp (\<lambda>n. fn_kind n = Regular \<and> fn_data n = []))"
proof (rule watch_act)
  fix s e t assume p: "temp_at srcDir u0 tp (\<lambda>n. fn_kind n = Regular) s" and s: "seen es srcDir destDir u0 s" and r: "on_files (os_Truncate tp) s = (e, t)"
  obtain n where n: "Lstat (cf_files s) tp = Some n" "fn_kind n = Regular" using p by (auto simp: temp_at_def)
  show "seen es srcDir destDir u0 t \<and> (e = None \<longrightarrow> temp_at srcDir u0 tp (\<lambda>n. fn_kind n = Regular \<and> fn_data n = []) t)"
  proof (cases "tp \<in> set (uf_refuse (cf_files s))")
    case True
    then show ?thesis using on_files_result [OF r] n s by (auto simp: os_Truncate_def os_Create_def regular_follow)
  next
    case False
    then have "cf_files t = set_node tp (n\<lparr>fn_data := []\<rparr>) (cf_files s)"
      using on_files_result [OF r] n by (simp add: os_Truncate_def os_Create_def regular_follow)
    from temp_set [OF p s this] n(2) show ?thesis by simp
  qed
qed

lemma watch_Append:
  "watch (seen es srcDir destDir u0) (temp_at srcDir u0 tp (\<lambda>n. fn_kind n = Regular \<and> fn_data n = x)) (act (on_files (os_Append tp d)))
     (temp_at srcDir u0 tp (\<lambda>n. fn_kind n = Regular \<and> fn_data n = x @ d))"
proof (rule watch_act)
  fix s e t assume p: "temp_at srcDir u0 tp (\<lambda>n. fn_kind n = Regular \<and> fn_data n = x) s" and s: "seen es srcDir destDir u0 s"
    and r: "on_files (os_Append tp d) s = (e, t)"
  obtain n where n: "Lstat (cf_files s) tp = Some n" "fn_kind n = Regular" "fn_data n = x" using p by (auto simp: temp_at_def)
  have "cf_files t = set_node tp (n\<lparr>fn_data := fn_data n @ d\<rparr>) (cf_files s)"
    using on_files_result [OF r] n by (simp add: os_Append_def regular_follow)
  from temp_set [OF p s this] n(2,3)
  show "seen es srcDir destDir u0 t \<and> (e = None \<longrightarrow> temp_at srcDir u0 tp (\<lambda>n. fn_kind n = Regular \<and> fn_data n = x @ d) t)" by simp
qed

lemma watch_pieces:
  "watch (seen es srcDir destDir u0) (temp_at srcDir u0 tp (\<lambda>n. fn_kind n = Regular \<and> fn_data n = x)) (write_pieces tp ds)
     (temp_at srcDir u0 tp (\<lambda>n. fn_kind n = Regular \<and> fn_data n = x @ concat ds))"
proof (induction ds arbitrary: x)
  case Nil
  have "write_pieces tp [] = (\<lambda>s. (None, s, []))" by (rule ext) simp
  then show ?case by (auto intro: watch_done)
next
  case (Cons d ds)
  have "write_pieces tp (d # ds) = seq (act (on_files (os_Append tp d))) (write_pieces tp ds)" by (rule ext) simp
  with watch_seq [OF watch_Append [of es srcDir destDir u0 tp x d] Cons.IH [of "x @ d"]] show ?case by simp
qed

lemma concat_pieces: "concat (pieces d) = d"
  by (induction d rule: pieces.induct) (subst pieces.simps, simp)

lemma watch_attr: "watch (seen es srcDir destDir u0) (temp_at srcDir u0 tp K) (warn (act (set_attr f p))) (temp_at srcDir u0 tp K)"
  by (rule watch_warn) (erule (1) temp_same, erule set_attr_files)

lemma watch_Chown:
  "watch (seen es srcDir destDir u0) (temp_at srcDir u0 tp (\<lambda>n. fn_kind n = Regular \<and> fn_data n = x)) (warn (act (on_files (os_Chown tp i g))))
     (temp_at srcDir u0 tp (\<lambda>n. fn_kind n = Regular \<and> fn_data n = x))"
proof (rule watch_warn)
  fix s e t assume p: "temp_at srcDir u0 tp (\<lambda>n. fn_kind n = Regular \<and> fn_data n = x) s" and s: "seen es srcDir destDir u0 s"
    and r: "on_files (os_Chown tp i g) s = (e, t)"
  obtain n where n: "Lstat (cf_files s) tp = Some n" "fn_kind n = Regular" "fn_data n = x" using p by (auto simp: temp_at_def)
  have "cf_files t = cf_files s \<or>
      cf_files t = set_node tp (n\<lparr>fn_uid := new_owner i (fn_uid n), fn_gid := new_owner g (fn_gid n)\<rparr>) (cf_files s)"
    using on_files_result [OF r] n by (auto simp: os_Chown_def regular_follow split: if_splits)
  with temp_same [OF p s] temp_set [OF p s, of t] n(2,3)
  show "seen es srcDir destDir u0 t \<and> temp_at srcDir u0 tp (\<lambda>n. fn_kind n = Regular \<and> fn_data n = x) t" by fastforce
qed

lemma watch_copyFile:
  assumes src: "below srcDir src" "Lstat u0 src = Some n" "fn_kind n \<noteq> Dir" "\<not> is_link n"
  shows "watch (seen es srcDir destDir u0) (temp_at srcDir u0 tp (\<lambda>n. fn_kind n = Regular)) (copyFile src tp info at)
     (temp_at srcDir u0 tp (\<lambda>m. fn_kind m = Regular \<and> fn_data m = fn_data n))"
proof (rule watchI)
  let ?I = "seen es srcDir destDir u0" and ?T = "\<lambda>K. temp_at srcDir u0 tp (\<lambda>m. fn_kind m = Regular \<and> K m)"
  fix s e t ts assume p: "temp_at srcDir u0 tp (\<lambda>n. fn_kind n = Regular) s" "?I s" and r: "copyFile src tp info at s = (e, t, ts)"
  have "Lstat (cf_files s) src = Some n" using p(2) src(1-3) by (auto simp: seen_ok_def)
  then have "Stat (cf_files s) src = Some n" using src(4) by (auto simp: Stat_def follow_link_def is_link_def split: fkind.splits)
  with r src(3) have r: "seq (act (on_files (os_Truncate tp))) (seq (write_pieces tp (pieces (fn_data n)))
      (seq (warn (act (c_Chmod tp (fst at)))) (seq (warn (act (on_files (os_Chown tp (fn_uid info) (fn_gid info))))) (warn (act (c_Chtimes tp (snd at))))))) s = (e, t, ts)"
    by (simp add: copyFile_def)
  have w: "watch ?I (temp_at srcDir u0 tp (\<lambda>n. fn_kind n = Regular)) (seq (act (on_files (os_Truncate tp))) (seq (write_pieces tp (pieces (fn_data n)))
      (seq (warn (act (c_Chmod tp (fst at)))) (seq (warn (act (on_files (os_Chown tp (fn_uid info) (fn_gid info))))) (warn (act (c_Chtimes tp (snd at)))))))) (?T (\<lambda>m. fn_data m = fn_data n))"
    using watch_pieces [of es srcDir destDir u0 tp "[]" "pieces (fn_data n)"]
    unfolding c_Chmod_def c_Chtimes_def concat_pieces append_Nil
    by (intro watch_seq [OF watch_Truncate] watch_seq [OF _ watch_seq [OF watch_attr watch_seq [OF watch_Chown watch_attr]]])
  from watchD [OF w p r] show "?I t \<and> (\<forall>u\<in>set ts. ?I u) \<and> (e = None \<longrightarrow> ?T (\<lambda>m. fn_data m = fn_data n) t)" .
qed

section \<open>Putting files in place\<close>

lemma watch_Remove:
  "temp_name tp \<Longrightarrow> no_source srcDir u0 tp \<Longrightarrow> watch (seen es srcDir destDir u0) P (act (on_files (os_Remove tp))) (\<lambda>_. True)"
proof (rule watch_act)
  fix s e t assume tp: "temp_name tp" "no_source srcDir u0 tp" and s: "seen es srcDir destDir u0 s" and r: "on_files (os_Remove tp) s = (e, t)"
  have "cf_files t = snd (os_Remove tp (cf_files s))" using on_files_result [OF r] by simp
  with seen_change [OF s tp(2), of "cf_files t"] tp(1) show "seen es srcDir destDir u0 t \<and> (e = None \<longrightarrow> True)"
    by (simp add: Remove_Lstat)
qed

lemma os_Rename_result:
  assumes "os_Rename p q u = (None, v)"
  shows "p \<noteq> q \<Longrightarrow> Lstat v q = Lstat u p \<and> Lstat v p = None" "r \<noteq> p \<Longrightarrow> r \<noteq> q \<Longrightarrow> Lstat v r = Lstat u r"
  using assms
  by (auto simp: os_Rename_def Lstat_set_node Lstat_def map_of_filter_keys [of "\<lambda>x. x \<noteq> p"] set_node_def map_of_al_update
      split: option.splits if_splits)

lemma os_Rename_error: "os_Rename p q u = (Some e, v) \<Longrightarrow> v = u"
  by (auto simp: os_Rename_def split: option.splits if_splits)

lemma c_Rename_files: "c_Rename p q s = (e, t) \<Longrightarrow> os_Rename p q (cf_files s) = (e, cf_files t)"
  by (auto simp: c_Rename_def split: prod.splits option.splits)

lemma watch_place:
  assumes dest: "no_source srcDir u0 dest" "overlay_file es srcDir destDir dest n" and K: "\<And>m. K m \<Longrightarrow> same_file n m"
    and tp: "temp_name tp" "no_source srcDir u0 tp"
  shows "watch (seen es srcDir destDir u0) (temp_at srcDir u0 tp K) (place tp dest) (\<lambda>_. True)"
  unfolding place_def
proof (rule watch_on_error [OF watch_act watch_Remove [OF tp]])
  fix s e t assume p: "temp_at srcDir u0 tp K s" and s: "seen es srcDir destDir u0 s" and r: "c_Rename tp dest s = (e, t)"
  note r = c_Rename_files [OF r]
  show "seen es srcDir destDir u0 t \<and> (e = None \<longrightarrow> True)"
  proof (cases "e = None \<and> tp \<noteq> dest")
    case True
    with r have v: "Lstat (cf_files t) dest = Lstat (cf_files s) tp" "Lstat (cf_files t) tp = None"
        "\<And>r. r \<noteq> tp \<Longrightarrow> r \<noteq> dest \<Longrightarrow> Lstat (cf_files t) r = Lstat (cf_files s) r"
      using os_Rename_result [of tp dest "cf_files s" "cf_files t"] by auto
    obtain m where m: "Lstat (cf_files s) tp = Some m" "same_file n m" using p K by (auto simp: temp_at_def)
    let ?u = "set_node dest m (cf_files s)"
    have u: "seen_ok es srcDir destDir u0 ?u"
      using dest m(2) by (intro seen_change [OF s dest(1)]) (auto simp: Lstat_set_node shows_ok_def)
    show ?thesis using True v m(1) tp
      by (intro conjI seen_change [OF u tp(2)]) (auto simp: Lstat_set_node)
  next
    case False
    show ?thesis
    proof (cases e)
      case None
      with False have "tp = dest" by simp
      with r tp None show ?thesis using os_Rename_result(2) [of dest dest "cf_files s" "cf_files t"]
        by (intro conjI seen_change [OF s tp(2)]) auto
    next
      case (Some x)
      with r os_Rename_error [of tp dest "cf_files s" x "cf_files t"] s show ?thesis by simp
    qed
  qed
qed

lemma watch_MkdirAll: "watch (seen es srcDir destDir u0) P (act (on_files (os_MkdirAll p))) (\<lambda>_. True)"
proof (rule watch_act)
  fix s e t assume s: "seen es srcDir destDir u0 s" and r: "on_files (os_MkdirAll p) s = (e, t)"
  then have "cf_files t = snd (os_MkdirAll p (cf_files s))" using on_files_result [OF r] by simp
  with seen_MkdirAll [OF s, of p] show "seen es srcDir destDir u0 t \<and> (e = None \<longrightarrow> True)" by simp
qed

section \<open>Entries\<close>

lemma watch_Symlink:
  assumes "temp_name tp"
  shows "watch (seen es srcDir destDir u0) P (act (on_files (os_Symlink target tp))) (temp_at srcDir u0 tp (\<lambda>n. is_link n \<and> fn_data n = target))"
proof (rule watch_act)
  fix s e t assume s: "seen es srcDir destDir u0 s" and r: "on_files (os_Symlink target tp) s = (e, t)"
  note r = on_files_result [OF r]
  show "seen es srcDir destDir u0 t \<and> (e = None \<longrightarrow> temp_at srcDir u0 tp (\<lambda>n. is_link n \<and> fn_data n = target) t)"
  proof (cases e)
    case None
    with r have "Lstat (cf_files s) tp = None"
      and t: "cf_files t = set_node tp (new_node (Symlink (link_end (cf_files s) tp target)) target) (cf_files s)"
      by (auto simp: os_Symlink_def split: if_splits)
    with seen_free [OF s, of tp] seen_temp [OF s assms] assms show ?thesis
      by (auto simp: temp_at_def Lstat_set_node new_node_def is_link_def)
  qed (use r s in \<open>auto simp: os_Symlink_def split: if_splits\<close>)
qed

lemma watch_Lchown:
  "watch (seen es srcDir destDir u0) (temp_at srcDir u0 tp (\<lambda>n. is_link n \<and> fn_data n = x)) (warn (act (on_files (os_Lchown tp i g))))
     (temp_at srcDir u0 tp (\<lambda>n. is_link n \<and> fn_data n = x))"
proof (rule watch_warn)
  fix s e t assume p: "temp_at srcDir u0 tp (\<lambda>n. is_link n \<and> fn_data n = x) s" and s: "seen es srcDir destDir u0 s"
    and r: "on_files (os_Lchown tp i g) s = (e, t)"
  obtain n where n: "Lstat (cf_files s) tp = Some n" "is_link n" "fn_data n = x" using p by (auto simp: temp_at_def)
  have "cf_files t = cf_files s \<or>
      cf_files t = set_node tp (n\<lparr>fn_uid := new_owner i (fn_uid n), fn_gid := new_owner g (fn_gid n)\<rparr>) (cf_files s)"
    using on_files_result [OF r] n by (auto simp: os_Lchown_def split: if_splits)
  with temp_same [OF p s] temp_set [OF p s, of t] n(2,3)
  show "seen es srcDir destDir u0 t \<and> temp_at srcDir u0 tp (\<lambda>n. is_link n \<and> fn_data n = x) t" by (fastforce simp: is_link_def)
qed

text \<open>After the temporary file was made it is known to be no file of the source.\<close>

lemma watch_made:
  assumes "watch I P f (temp_at srcDir u0 tp K)" "temp_name tp \<Longrightarrow> no_source srcDir u0 tp \<Longrightarrow> watch I (temp_at srcDir u0 tp K) g Q"
  shows "watch I P (seq f g) Q"
proof (rule watch_seq [OF assms(1)], rule watchI)
  fix s e t ts assume "temp_at srcDir u0 tp K s" "I s" "g s = (e, t, ts)"
  moreover from this have "watch I (temp_at srcDir u0 tp K) g Q" by (intro assms(2)) (auto simp: temp_at_def)
  ultimately show "I t \<and> (\<forall>u\<in>set ts. I u) \<and> (e = None \<longrightarrow> Q t)" using watchD by blast
qed

lemma watch_apply_link:
  assumes "no_source srcDir u0 dest" "overlay_file es srcDir destDir dest n" "is_link n" "\<And>s. temp_name (temp_path rnd (parent dest) s)"
  shows "watch (seen es srcDir destDir u0) P (apply_link rnd dest n) (\<lambda>_. True)"
  unfolding apply_link_def
proof (rule watch_seq [OF watch_MkdirAll watch_at])
  fix s
  show "watch (seen es srcDir destDir u0) (\<lambda>_. True)
      (seq (act (on_files (os_Symlink (fn_data n) (temp_path rnd (parent dest) s))))
        (seq (warn (act (on_files (os_Lchown (temp_path rnd (parent dest) s) (fn_uid n) (fn_gid n))))) (place (temp_path rnd (parent dest) s) dest))) (\<lambda>_. True)"
    by (rule watch_made [OF watch_Symlink [OF assms(4)]], rule watch_seq [OF watch_Lchown], rule watch_place [OF assms(1,2)])
      (use assms(3) in \<open>auto simp: same_file_def is_link_def\<close>)
qed (simp add: Let_def)

lemma watch_apply_file:
  assumes src: "below srcDir src" "Lstat u0 src = Some n" "fn_kind n \<noteq> Dir" "\<not> is_link n"
    and dest: "no_source srcDir u0 dest" "overlay_file es srcDir destDir dest n" and tp: "\<And>s. temp_name (temp_path rnd (parent dest) s)"
  shows "watch (seen es srcDir destDir u0) P (apply_file rnd src dest info at) (\<lambda>_. True)"
proof (rule watchI)
  let ?I = "seen es srcDir destDir u0"
  let ?f = "\<lambda>tp. seq (act (c_CreateTemp tp)) (seq (on_error (copyFile src tp info at) (act (on_files (os_Remove tp)))) (place tp dest))"
  have f: "watch ?I (\<lambda>_. True) (?f tp) (\<lambda>_. True)" if "temp_name tp" for tp
  proof (rule watch_made [OF watch_CreateTemp [OF that]], rule watch_seq)
    assume tp: "temp_name tp" "no_source srcDir u0 tp"
    show "watch ?I (temp_at srcDir u0 tp (\<lambda>n. fn_kind n = Regular \<and> fn_data n = []))
        (on_error (copyFile src tp info at) (act (on_files (os_Remove tp)))) (temp_at srcDir u0 tp (\<lambda>m. fn_kind m = Regular \<and> fn_data m = fn_data n))"
      by (rule watch_on_error [OF watch_pre [OF watch_copyFile [OF src]] watch_Remove [OF tp]]) (auto simp: temp_at_def)
    show "watch ?I (temp_at srcDir u0 tp (\<lambda>m. fn_kind m = Regular \<and> fn_data m = fn_data n)) (place tp dest) (\<lambda>_. True)"
      by (rule watch_place [OF dest _ tp]) (use src(4) in \<open>auto simp: same_file_def is_link_def\<close>)
  qed
  have w: "watch ?I P (seq (act (on_files (os_MkdirAll (parent dest)))) (\<lambda>s. let tp = temp_path rnd (parent dest) s in ?f tp s)) (\<lambda>_. True)"
    by (rule watch_seq [OF watch_MkdirAll watch_at [OF _ f [OF tp]]]) (simp add: Let_def)
  fix s e t ts assume s: "P s" "?I s" and r: "apply_file rnd src dest info at s = (e, t, ts)"
  show "?I t \<and> (\<forall>u\<in>set ts. ?I u) \<and> (e = None \<longrightarrow> True)"
    using r s watchD [OF w s, of e t ts] unfolding apply_file_def by (cases "fileChanged src dest s") (auto split: bool.splits)
qed

text \<open>A directory is a directory when its owner is changed.\<close>

lemma watch_apply_dir:
  assumes "clean_abs dest" "comps dest \<noteq> []"
  shows "watch (seen es srcDir destDir u0) P (apply_dir dest info at) (\<lambda>_. True)"
proof -
  let ?I = "seen es srcDir destDir u0" and ?D = "\<lambda>s. map_option fn_kind (Stat (cf_files s) dest) = Some Dir"
  have m: "watch ?I P (act (on_files (os_MkdirAll dest))) ?D"
  proof (rule watch_act)
    fix s e t assume s: "?I s" and r: "on_files (os_MkdirAll dest) s = (e, t)"
    note r = on_files_result [OF r]
    from assms(1) have d: "rooted dest" "dest \<noteq> []" "path_of True (comps dest) = dest" by (auto simp: clean_abs_def path_of_rooted dest: rooted_ne)
    from r d have "e = None \<longrightarrow> ?D t" using mkdirs_made [of True "[]" "comps dest" "cf_files s" "cf_files t"] assms(2) by (simp add: os_MkdirAll_def)
    moreover have "?I t" using seen_MkdirAll [OF s, of dest] r by simp
    ultimately show "?I t \<and> (e = None \<longrightarrow> ?D t)" by blast
  qed
  have a: "watch ?I ?D (act (set_attr f dest)) ?D" "watch ?I ?D (warn (act (set_attr f dest))) (\<lambda>_. True)" for f
    by (rule watch_act watch_warn, drule set_attr_files, simp)+
  have c: "watch ?I ?D (warn (act (on_files (os_Chown dest i g)))) ?D" for i g
  proof (rule watch_warn)
    fix s e t assume p: "?D s" and s: "?I s" and r: "on_files (os_Chown dest i g) s = (e, t)"
    note r = on_files_result [OF r]
    obtain q n where q: "follow_link (cf_files s) dest = Some q" "Lstat (cf_files s) q = Some n" "fn_kind n = Dir"
      using p by (auto simp: Stat_def split: option.splits)
    let ?n = "n\<lparr>fn_uid := new_owner i (fn_uid n), fn_gid := new_owner g (fn_gid n)\<rparr>"
    have t: "cf_files t = cf_files s \<or> cf_files t = set_node q ?n (cf_files s)" using r q by (auto simp: os_Chown_def split: if_splits)
    have "temp_name q \<or> map_option fn_kind (Lstat u0 q) \<in> {None, Some Dir}"
      using s q(2,3) by (auto simp: seen_ok_def shows_ok_def same_file_def dest!: spec [of _ q])
    then have "?I (s\<lparr>cf_files := set_node q ?n (cf_files s)\<rparr>)"
      using q(3) seen_free [OF s, of q] q(2) by (simp, intro seen_change [OF s]) (auto simp: Lstat_set_node shows_ok_def)
    moreover have "map_option fn_kind (Stat (set_node q ?n (cf_files s)) dest) = Some Dir"
      using q by (auto simp: Stat_def follow_link_def Lstat_set_node split: option.splits fkind.splits)
    ultimately show "?I t \<and> ?D t" using t s p by auto
  qed
  show ?thesis unfolding apply_dir_def c_Chmod_def c_Chtimes_def by (intro watch_seq [OF m] watch_seq [OF a(1)] watch_seq [OF c] a(2))
qed

text \<open>Where the entries of the overlay go.\<close>

lemma dest_of_entry:
  assumes "rooted srcDir" "rooted destDir" "below srcDir x" "Rel srcDir x = Some rel" "rel \<noteq> ''.''"
  obtains ts where "ts \<noteq> []" "\<forall>c\<in>set ts. proper c" "comps (path_Join [destDir, rel]) = comps destDir @ ts" "clean_abs (path_Join [destDir, rel])"
proof -
  obtain ts where x: "rooted x" "comps x = comps srcDir @ ts" using assms(1,3) by (auto simp: below_iff)
  then have rel: "rel = path_of False ts" using assms(1,4) by (simp add: Rel_def strip_common_prefix)
  have ts: "\<forall>c\<in>set ts. proper c" using comps_rooted [OF x(1)] x(2) by auto
  have "ts \<noteq> []" using assms(5) rel by (auto simp: path_of_def)
  moreover have "path_Join [destDir, rel] = path_of True (comps destDir @ ts)" unfolding rel by (rule Join_rel [OF assms(2) ts])
  moreover have "\<forall>c\<in>set (comps destDir @ ts). proper c" using comps_rooted [OF assms(2)] ts by auto
  ultimately show thesis using that ts clean_abs_path_of comps_path_of by metis
qed

lemma temp_path_name:
  assumes "rooted d" "CHR ''/'' \<notin> set (rnd s)"
  shows "temp_name (temp_path rnd d s)"
proof -
  let ?n = "''.wwclient-tmp-'' @ rnd s"
  have n: "proper ?n" using assms(2) by (simp add: proper_def)
  then have "temp_path rnd d s = path_of True (comps d @ [?n])"
    using Join_rel [OF assms(1), of "[?n]"] by (simp add: temp_path_def path_of_def [of False])
  moreover have "comps (path_of True (comps d @ [?n])) = comps d @ [?n]"
    using comps_rooted [OF assms(1)] n by (intro comps_path_of) auto
  ultimately show ?thesis by (simp add: temp_name_def)
qed

lemma watch_apply_entry:
  assumes roots: "rooted srcDir" "rooted destDir" and rnd: "\<And>s. CHR ''/'' \<notin> set (rnd s)"
    and e: "(x, n) \<in> set es" "below srcDir x" "Lstat u0 x = Some n"
    and apart: "\<And>rel. Rel srcDir x = Some rel \<Longrightarrow> \<not> below srcDir (path_Join [destDir, rel]) \<or> fn_kind n = Dir"
  shows "watch (seen es srcDir destDir u0) P (apply_entry rnd srcDir destDir (x, n) at) (\<lambda>_. True)"
proof (cases "Rel srcDir x")
  case (Some rel)
  let ?d = "path_Join [destDir, rel]"
  show ?thesis
  proof (cases "rel = ''.''")
    case True
    then have "apply_entry rnd srcDir destDir (x, n) at = (\<lambda>s. (None, s, []))" using Some by (auto simp: apply_entry_def)
    then show ?thesis by (auto intro: watch_done)
  next
    case False
    from dest_of_entry [OF roots e(2) Some False] obtain ts where d: "ts \<noteq> []" "comps ?d = comps destDir @ ts" "clean_abs ?d" by metis
    have tp: "temp_name (temp_path rnd (parent ?d) s)" for s
      using d(3) rnd by (intro temp_path_name) (auto simp: parent_def clean_abs_def)
    have plain: "fn_kind n \<noteq> Dir \<Longrightarrow> no_source srcDir u0 ?d" "fn_kind n \<noteq> Dir \<Longrightarrow> overlay_file es srcDir destDir ?d n"
      using apart [OF Some] e(1) Some by (auto simp: no_source_def overlay_file_def)
    have "apply_entry rnd srcDir destDir (x, n) at =
        (if fn_kind n = Dir then apply_dir ?d n at else if is_link n then apply_link rnd ?d n else apply_file rnd x ?d n at)"
      using Some False by (auto simp: apply_entry_def Let_def)
    with watch_apply_dir [OF d(3)] d(1,2) watch_apply_link [OF plain _ tp] watch_apply_file [OF e(2,3) _ _ plain tp]
    show ?thesis by simp
  qed
next
  case None
  then have "apply_entry rnd srcDir destDir (x, n) at = (\<lambda>s. (Some ErrIO, s, []))" by (auto simp: apply_entry_def)
  then show ?thesis by (simp add: watch_stop)
qed

lemma watch_apply_entries:
  assumes roots: "rooted srcDir" "rooted destDir" and rnd: "\<And>s. CHR ''/'' \<notin> set (rnd s)"
    and es: "\<And>x n. (x, n) \<in> set es \<Longrightarrow> below srcDir x \<and> Lstat u0 x = Some n"
    and apart: "\<And>x n rel. (x, n) \<in> set es \<Longrightarrow> Rel srcDir x = Some rel \<Longrightarrow> \<not> below srcDir (path_Join [destDir, rel]) \<or> fn_kind n = Dir"
  shows "set (map fst xs) \<subseteq> set es \<Longrightarrow> watch (seen es srcDir destDir u0) (\<lambda>_. True) (apply_entries rnd srcDir destDir xs) (\<lambda>_. True)"
proof (induction xs)
  case Nil
  have "apply_entries rnd srcDir destDir [] = (\<lambda>s. (None, s, []))" by (rule ext) simp
  then show ?case by (auto intro: watch_done)
next
  case (Cons y xs)
  obtain x n at where y: "y = ((x, n), at)" by (metis prod.collapse)
  have "apply_entries rnd srcDir destDir (y # xs) = seq (apply_entry rnd srcDir destDir (x, n) at) (apply_entries rnd srcDir destDir xs)"
    using y by (intro ext) simp
  moreover have "(x, n) \<in> set es" using Cons.prems y by auto
  ultimately show ?case using Cons y es [of x n] apart [of x n] watch_seq [OF watch_apply_entry [OF roots rnd]] by simp
qed

lemma Walk_source:
  assumes "Walk u srcDir = Some es" "distinct (map fst (uf_nodes u))" "(x, n) \<in> set es"
  shows "below srcDir x \<and> Lstat u x = Some n"
  using assms by (auto simp: Walk_def Lstat_def below_def split: option.splits if_splits)

text \<open>
  (C12) Applying an overlay is atomic for every file: at each moment of the run, also of one that fails,
  every path that is not the name of a temporary file shows what it showed at the start, or a directory
  where there was none or a directory, or a file or link of the overlay that goes there with its whole
  contents. The files of the unpacked overlay are not changed. The suffix of a temporary name has no
  slash, and no file of the overlay goes into the directory where it was unpacked.
\<close>

theorem atomicApplyOverlay_atomic:
  assumes "rooted srcDir" "rooted destDir" "\<And>s. CHR ''/'' \<notin> set (rnd s)"
    and "Walk (cf_files s) srcDir = Some es" "distinct (map fst (uf_nodes (cf_files s)))"
    and "\<And>x n rel. (x, n) \<in> set es \<Longrightarrow> Rel srcDir x = Some rel \<Longrightarrow> \<not> below srcDir (path_Join [destDir, rel]) \<or> fn_kind n = Dir"
    and "atomicApplyOverlay rnd srcDir destDir s = (e, t, ts)"
  shows "\<forall>u\<in>set (t # ts). seen_ok es srcDir destDir (cf_files s) (cf_files u)"
proof -
  let ?xs = "map (\<lambda>e. (e, attr s (fst e))) es"
  have w: "watch (seen es srcDir destDir (cf_files s)) (\<lambda>_. True) (apply_entries rnd srcDir destDir ?xs) (\<lambda>_. True)"
    by (rule watch_apply_entries [OF assms(1-3) Walk_source [OF assms(4,5)] assms(6)]) (auto simp: comp_def)
  have i: "seen_ok es srcDir destDir (cf_files s) (cf_files s)" by (simp add: seen_ok_def shows_ok_def)
  have r: "apply_entries rnd srcDir destDir ?xs s = (e, t, ts)" using assms(4,7) by (simp add: atomicApplyOverlay_def)
  from watchD [OF w TrueI i r] show ?thesis by simp
qed

text \<open>Of the attempts only a certificate that is not accepted is an error, and then nothing was touched.\<close>

lemma fetch_error: "fetch as = Some (Inl e) \<Longrightarrow> BadCertificate \<in> set as"
  by (induction as rule: fetch.induct) auto

lemma fetch_returns: "(\<exists>a\<in>set as. a \<noteq> NoConnection) \<Longrightarrow> \<exists>r. fetch as = Some r"
  by (induction as rule: fetch.induct) auto

lemma updateSystem_error:
  assumes "updateSystem rnd unpack tempDir target as s = Some (Some e, t, ts)"
  shows "BadCertificate \<in> set as \<and> t = s \<and> ts = []"
  using assms fetch_error [of as e]
  by (auto simp: updateSystem_def Let_def warn_def split: option.splits sum.splits prod.splits if_splits)

text \<open>
  A client that uses secured runtime overlays calls from a privileged port, unless another port is
  configured.
\<close>

lemma client_port_privileged:
  assumes "y_Warewulf conf = Some w" "Secure w" "y_WWClient conf = None \<or> y_WWClient conf = Some 0"
  shows "client_port conf = Inr 987"
  using assms by (auto simp: client_port_def)

text \<open>Of the words of a kernel command line the first \<open>wwid\<close> counts; a lone bracket ends the client.\<close>

lemma parseWWIDFromCmdline_found:
  assumes "parseWWIDFromCmdline cmdline = Inr w"
  shows "w \<noteq> [] \<and> ''wwid='' @ w \<in> set (Fields cmdline)"
proof -
  from assms obtain p where p: "find (\<lambda>p. HasPrefix p ''wwid='') (Fields cmdline) = Some p" "w = TrimPrefix p ''wwid=''" "w \<noteq> []"
    by (auto simp: parseWWIDFromCmdline_def Let_def split: option.splits if_splits)
  then have h: "HasPrefix p ''wwid=''" "p \<in> set (Fields cmdline)" by (auto simp: find_Some_iff)
  then have "p = ''wwid='' @ w" using p(2) by (metis HasPrefix_def TrimPrefix_def append_take_drop_id)
  with h(2) p(3) show ?thesis by metis
qed

lemma deref_wwid_bracket: "deref_wwid rd ''['' = Inl ErrPanic"
  by (simp add: deref_wwid_def HasPrefix_def)

text \<open>The owner is not compared: a file of the overlay whose owner alone changed is not placed again.\<close>

lemma fileChanged_ignores_owner:
  assumes "Lstat (cf_files s) p = Some n" "fn_kind n = Regular" "Lstat (cf_files s) q = Some (n\<lparr>fn_uid := i, fn_gid := g\<rparr>)"
    and "attr s p = attr s q"
  shows "apply_file rnd p q n at s = (None, s, [])"
  using assms by (simp add: apply_file_def fileChanged_def Stat_def follow_link_def)

section \<open>A node that gets a new file\<close>

definition node_files :: cfs where
  "node_files = \<lparr>cf_files = \<lparr>uf_nodes = [(''/'', new_node Dir []), (''/motd'', new_node Regular ''old''), (''/tmp'', new_node Dir []),
       (''/tmp/w'', new_node Dir []), (''/tmp/w/motd'', new_node Regular ''hello'')], uf_refuse = []\<rparr>,
     cf_attr = [(''/motd'', 420, 1), (''/tmp/w/motd'', 420, 2)]\<rparr>"

lemma node_files_walk: "Walk (cf_files node_files) ''/tmp/w'' = Some [(''/tmp/w'', new_node Dir []), (''/tmp/w/motd'', new_node Regular ''hello'')]"
  by code_simp

lemma pieces_small [code]: "pieces d = (if d = [] then [] else if int (length d) \<le> 32768 then [d] else take 32768 d # pieces (drop 32768 d))"
  using pieces.simps [of "[]"] pieces.simps [of d] by simp

lemma node_files_applied:
  "case atomicApplyOverlay (\<lambda>_. ''1'') ''/tmp/w'' ''/'' node_files of (e, t, ts) \<Rightarrow>
     e = None \<and> length ts = 8 \<and> map_option fn_data (Lstat (cf_files t) ''/motd'') = Some ''hello''"
  by code_simp

text \<open>Witness for \<open>atomicApplyOverlay_atomic\<close>.\<close>

theorem atomicApplyOverlay_atomic_witness:
  "case atomicApplyOverlay (\<lambda>_. ''1'') ''/tmp/w'' ''/'' node_files of (e, t, ts) \<Rightarrow>
     e = None \<and> map_option fn_data (Lstat (cf_files t) ''/motd'') = Some ''hello'' \<and>
     (\<forall>u\<in>set (t # ts). seen_ok [(''/tmp/w'', new_node Dir []), (''/tmp/w/motd'', new_node Regular ''hello'')] ''/tmp/w'' ''/''
        (cf_files node_files) (cf_files u))"
proof -
  obtain e t ts where r: "atomicApplyOverlay (\<lambda>_. ''1'') ''/tmp/w'' ''/'' node_files = (e, t, ts)" by (metis prod.collapse)
  have a: "Rel ''/tmp/w'' ''/tmp/w/motd'' = Some ''motd''" "\<not> below ''/tmp/w'' (path_Join [''/'', ''motd''])" by code_simp+
  have "\<forall>u\<in>set (t # ts). seen_ok [(''/tmp/w'', new_node Dir []), (''/tmp/w/motd'', new_node Regular ''hello'')] ''/tmp/w'' ''/''
        (cf_files node_files) (cf_files u)"
  proof (rule atomicApplyOverlay_atomic [OF _ _ _ node_files_walk _ _ r])
    show "rooted ''/tmp/w''" "rooted ''/''" by code_simp+
    show "distinct (map fst (uf_nodes (cf_files node_files)))" by code_simp
    show "\<not> below ''/tmp/w'' (path_Join [''/'', rel]) \<or> fn_kind n = Dir"
      if "(x, n) \<in> set [(''/tmp/w'', new_node Dir []), (''/tmp/w/motd'', new_node Regular ''hello'')]" "Rel ''/tmp/w'' x = Some rel" for x n rel
      using that a by (auto simp: new_node_def)
  qed simp
  with node_files_applied r show ?thesis by simp
qed

end
