(* ===== verification/Capture.thy ===== *)
theory Capture
  imports Client_Apply Overlay_Artifact
begin

text \<open>
  Capturing the changes that were made on a node: \<open>wwclient/overlaydiff/capture\<close> with the files of
  \<open>overlaydiff/session.go\<close> and \<open>overlaydiff/snapshot.go\<close>.

  \<^item> The state is that of the client: files with modes. Reading and writing JSON, the tar archive, the random
    part of temporary names, the time and what a scan of the source sees are parameters (\<open>capture_env\<close>).
  \<^item> The answers of the operator are the lines of the input that end with a newline; a last line without
    one is dropped by the reader, which reports the end of the input.
  \<^item> What is printed is not modelled.
\<close>

section \<open>Snapshots and decisions on disk\<close>

definition SaveSnapshot :: "(Snapshot \<Rightarrow> string) \<Rightarrow> string \<Rightarrow> Snapshot \<Rightarrow> cfs effect" where
  "SaveSnapshot render p snapshot s =
     and_then (on_files (os_MkdirAll (parent p)) s) (on_files (os_WriteFile p (render snapshot)))"

text \<open>Removing the temporary file after an error.\<close>

definition cleanup :: "string \<Rightarrow> err option \<times> cfs \<Rightarrow> err option \<times> cfs" where
  "cleanup tmp r = (case r of (None, s) \<Rightarrow> (None, s) | (Some e, s) \<Rightarrow> (Some e, snd (on_files (os_Remove tmp) s)))"

definition decision_temp :: "(cfs \<Rightarrow> string) \<Rightarrow> string \<Rightarrow> cfs \<Rightarrow> string" where
  "decision_temp rnd p s = path_Join [parent p, ''.decision-state-'' @ rnd s @ ''.tmp'']"

definition SaveDecisionState :: "(Decision gomap \<Rightarrow> string) \<Rightarrow> (cfs \<Rightarrow> string) \<Rightarrow> string \<Rightarrow> Decision gomap \<Rightarrow> cfs effect" where
  "SaveDecisionState render rnd p decisions s =
     and_then (on_files (os_MkdirAll (parent p)) s) (\<lambda>s.
       let tmp = decision_temp rnd p s in
       and_then (c_CreateTemp tmp s) (\<lambda>s.
         cleanup tmp (and_then (on_files (os_Append tmp (render (Some (gm_entries decisions)))) s) (\<lambda>s.
           and_then (c_Chmod tmp 420 s) (c_Rename tmp p)))))"

text \<open>A file that is not there is told from other errors.\<close>

definition LoadDecisionState :: "(string \<Rightarrow> Decision gomap option) \<Rightarrow> ufs \<Rightarrow> string \<Rightarrow> Decision gomap result" where
  "LoadDecisionState parse u p = (case Stat u p of
      None \<Rightarrow> Inl (if follow_link u p = None then ErrIO else ErrDoesNotExist)
    | Some n \<Rightarrow>
        if fn_kind n = Dir then Inl ErrIO
        else (case parse (fn_data n) of
           None \<Rightarrow> Inl ErrSyntax
         | Some d \<Rightarrow> Inr (if d = None then gm_make else d)))"

section \<open>Decisions\<close>

definition decision_of :: "Decision gomap \<Rightarrow> string \<Rightarrow> Decision" where
  "decision_of decisions p = (case gm_get decisions p of None \<Rightarrow> [] | Some d \<Rightarrow> d)"

definition normalizeDecision :: "Decision \<Rightarrow> Decision" where
  "normalizeDecision value =
     (if value = [] \<or> value = DecisionUnset then DecisionUnset
      else if value = DecisionYes \<or> value = DecisionNo then value
      else DecisionUnset)"

definition summarizeDecisions :: "Change list \<Rightarrow> Decision gomap \<Rightarrow> DecisionSummary" where
  "summarizeDecisions changes decisions =
     (let ds = map (\<lambda>c. normalizeDecision (decision_of decisions (ch_Path c))) changes
      in \<lparr>ds_Selected = int (length (filter (\<lambda>d. d = DecisionYes) ds)), ds_Skipped = int (length (filter (\<lambda>d. d = DecisionNo) ds)),
          ds_Unset = int (length (filter (\<lambda>d. d \<noteq> DecisionYes \<and> d \<noteq> DecisionNo) ds))\<rparr>)"

text \<open>Asking for one path: lines that are no answer are passed over.\<close>

datatype answer = AnsYes | AnsNo | AnsExit | AnsEOF

fun ask :: "string list \<Rightarrow> answer \<times> string list" where
  "ask [] = (AnsEOF, [])"
| "ask (l # ls) =
     (let a = ToLower (TrimSpace l) in
      if a = ''y'' \<or> a = ''yes'' then (AnsYes, ls)
      else if a = ''n'' \<or> a = ''no'' then (AnsNo, ls)
      else if a = ''e'' \<or> a = ''exit'' then (AnsExit, ls)
      else ask ls)"

definition decisionCheckpointInterval :: nat where
  "decisionCheckpointInterval = 10"

definition errInteractiveCancelled :: err where
  "errInteractiveCancelled = ErrMsg ''interactive selection cancelled''"

type_synonym selection = "err option \<times> Decision gomap \<times> cfs"

text \<open>Saving, and going on if that succeeds.\<close>

definition flush_then :: "(Decision gomap \<Rightarrow> cfs effect) \<Rightarrow> Decision gomap \<Rightarrow> (cfs \<Rightarrow> selection) \<Rightarrow> cfs \<Rightarrow> selection" where
  "flush_then save decisions k s = (case save decisions s of (Some e, s) \<Rightarrow> (Some e, decisions, s) | (None, s) \<Rightarrow> k s)"

fun select_loop :: "(Decision gomap \<Rightarrow> cfs effect) \<Rightarrow> Change list \<Rightarrow> Decision gomap \<Rightarrow> nat \<Rightarrow> string list \<Rightarrow> cfs \<Rightarrow> selection" where
  "select_loop save [] decisions pendingSaves ls s = flush_then save decisions (\<lambda>s. (None, decisions, s)) s"
| "select_loop save (c # cs) decisions pendingSaves ls s =
     (let current = normalizeDecision (decision_of decisions (ch_Path c)) in
      case gm_put decisions (ch_Path c) current of
        Inl e \<Rightarrow> (Some e, decisions, s)
      | Inr decisions \<Rightarrow>
          if current \<noteq> DecisionUnset then select_loop save cs decisions pendingSaves ls s
          else (case ask ls of (a, ls) \<Rightarrow>
            if a = AnsEOF \<or> a = AnsExit then flush_then save decisions (\<lambda>s. (Some errInteractiveCancelled, decisions, s)) s
            else (case gm_put decisions (ch_Path c) (if a = AnsYes then DecisionYes else DecisionNo) of
                Inl e \<Rightarrow> (Some e, decisions, s)
              | Inr decisions \<Rightarrow>
                  if pendingSaves + 1 \<ge> decisionCheckpointInterval
                  then flush_then save decisions (select_loop save cs decisions 0 ls) s
                  else select_loop save cs decisions (pendingSaves + 1) ls s)))"

definition runInteractiveSelection :: "(Decision gomap \<Rightarrow> cfs effect) \<Rightarrow> Change list \<Rightarrow> Decision gomap \<Rightarrow> string list \<Rightarrow> cfs \<Rightarrow> selection" where
  "runInteractiveSelection save changes decisions ls s = select_loop save changes decisions 0 ls s"

section \<open>Exporting\<close>

definition ensureWithinExportRoot :: "string \<Rightarrow> string \<Rightarrow> err option" where
  "ensureWithinExportRoot root target = (case Rel root target of
      None \<Rightarrow> Some ErrIO
    | Some rel \<Rightarrow>
        if rel = ''..'' \<or> HasPrefix rel ''../'' then Some (ErrMsg (''refusing to export outside target root: '' @ target)) else None)"

text \<open>The directories on the way: each is a directory and no link, or is made for its owner only.\<close>

fun secure_parts :: "string \<Rightarrow> string list \<Rightarrow> cfs effect" where
  "secure_parts current [] s = (None, s)"
| "secure_parts current (part # parts) s =
     (if part = [] \<or> part = ''.'' then secure_parts current parts s
      else (let current = path_Join [current, part] in
        case Lstat (cf_files s) current of
          Some n \<Rightarrow>
            if is_link n then (Some (ErrMsg (''refusing to use symlinked directory: '' @ current)), s)
            else if fn_kind n \<noteq> Dir then (Some (ErrMsg (''export path is not a directory: '' @ current)), s)
            else secure_parts current parts s
        | None \<Rightarrow>
            (case on_files (os_MkdirAll current) s of
               (Some e, s) \<Rightarrow> (Some e, s)
             | (None, s) \<Rightarrow> secure_parts current parts (s\<lparr>cf_attr := al_update current (448, 0) (cf_attr s)\<rparr>))))"

definition ensureSecureDirPath :: "string \<Rightarrow> string \<Rightarrow> cfs effect" where
  "ensureSecureDirPath root target s = (case ensureWithinExportRoot root target of
      Some e \<Rightarrow> (Some e, s)
    | None \<Rightarrow>
        (case Rel root target of
           None \<Rightarrow> (Some ErrIO, s)
         | Some rel \<Rightarrow> if rel = ''.'' then (None, s) else secure_parts root (Split rel (CHR ''/'')) s))"

definition capture_copyFile :: "string \<Rightarrow> string \<Rightarrow> int \<Rightarrow> cfs effect" where
  "capture_copyFile sourcePath destPath mode s = (case Stat (cf_files s) sourcePath of
      None \<Rightarrow> (Some ErrIO, s)
    | Some _ \<Rightarrow>
        and_then (on_files (os_Truncate destPath) s) (\<lambda>s.
          (case Stat (cf_files s) sourcePath of
             None \<Rightarrow> (Some ErrIO, s)
           | Some n \<Rightarrow>
               if fn_kind n = Dir then (Some ErrIO, s)
               else and_then (on_files (os_Append destPath (fn_data n)) s) (c_Chmod destPath mode))))"

definition export_entry :: "string \<Rightarrow> string \<Rightarrow> string \<Rightarrow> Entry \<Rightarrow> cfs effect" where
  "export_entry exportDir sourcePath destPath src s = (case en_Type src of
      EntryDir \<Rightarrow> and_then (ensureSecureDirPath exportDir destPath s) (c_Chmod destPath (en_Mode src))
    | EntrySymlink \<Rightarrow> on_files (os_Symlink (en_LinkTarget src) destPath) (snd (on_files (os_RemoveAll destPath) s))
    | EntryFile \<Rightarrow> capture_copyFile sourcePath destPath (en_Mode src) s)"

definition export_change :: "string \<Rightarrow> string \<Rightarrow> string \<Rightarrow> Entry \<Rightarrow> cfs effect" where
  "export_change sourceRoot exportDir p src s =
     (let relPath = TrimPrefix p ''/''; sourcePath = path_Join [sourceRoot, relPath]; destPath = path_Join [exportDir, relPath] in
      case ensureWithinExportRoot exportDir destPath of
        Some e \<Rightarrow> (Some e, s)
      | None \<Rightarrow>
          and_then (ensureSecureDirPath exportDir (parent destPath) s) (\<lambda>s.
            if (case Lstat (cf_files s) destPath of Some n \<Rightarrow> is_link n | None \<Rightarrow> False)
            then (Some (ErrMsg (''refusing to write through symlinked destination: '' @ destPath)), s)
            else export_entry exportDir sourcePath destPath src s))"

text \<open>The changes that are exported: the selected ones that have a source.\<close>

definition chosen :: "Decision gomap \<Rightarrow> Change \<Rightarrow> bool" where
  "chosen decisions c = (decision_of decisions (ch_Path c) = DecisionYes \<and> ch_Source c \<noteq> None)"

definition selectedPaths :: "Change list \<Rightarrow> Decision gomap \<Rightarrow> string list" where
  "selectedPaths changes decisions = map ch_Path (filter (chosen decisions) changes)"

fun exportSelected :: "string \<Rightarrow> string \<Rightarrow> Change list \<Rightarrow> Decision gomap \<Rightarrow> cfs effect" where
  "exportSelected sourceRoot exportDir [] decisions s = (None, s)"
| "exportSelected sourceRoot exportDir (c # cs) decisions s =
     (if decision_of decisions (ch_Path c) \<noteq> DecisionYes then exportSelected sourceRoot exportDir cs decisions s
      else (case ch_Source c of
         None \<Rightarrow> exportSelected sourceRoot exportDir cs decisions s
       | Some src \<Rightarrow>
           and_then (export_change sourceRoot exportDir (ch_Path c) src s) (exportSelected sourceRoot exportDir cs decisions)))"

section \<open>Directories and archives\<close>

record capture_env =
  ce_cwd :: string
  ce_localstate :: string
  ce_now :: int
  ce_rnd :: "cfs \<Rightarrow> string"
  ce_sha :: "string \<Rightarrow> string"
  ce_info :: "string \<Rightarrow> string \<Rightarrow> sinfo"
  ce_tree :: "string \<Rightarrow> dtree"
  ce_read_snapshot :: "string \<Rightarrow> Snapshot option"
  ce_write_snapshot :: "Snapshot \<Rightarrow> string"
  ce_read_decisions :: "string \<Rightarrow> Decision gomap option"
  ce_write_decisions :: "Decision gomap \<Rightarrow> string"
  ce_read_manifest :: "string \<Rightarrow> ArtifactManifest option"
  ce_write_manifest :: "ArtifactManifest \<Rightarrow> string"
  ce_tar :: "(string \<times> fnode \<times> int) list \<Rightarrow> string"

definition filepath_Abs :: "string \<Rightarrow> string \<Rightarrow> string" where
  "filepath_Abs cwd p = (if rooted p then Clean p else path_Join [cwd, p])"

definition temp_dir :: "capture_env \<Rightarrow> string \<Rightarrow> cfs \<Rightarrow> string result \<times> cfs" where
  "temp_dir env prefix0 s =
     (let dir = path_Join [''/tmp'', prefix0 @ ce_rnd env s] in
      case c_MkdirTemp dir s of (None, s) \<Rightarrow> (Inr dir, s) | (Some e, s) \<Rightarrow> (Inl e, s))"

definition prepare_dir :: "string \<Rightarrow> capture_env \<Rightarrow> string \<Rightarrow> cfs \<Rightarrow> string result \<times> cfs" where
  "prepare_dir prefix0 env custom s =
     (if custom = [] then temp_dir env prefix0 s
      else (let dir = Clean custom in
        case Lstat (cf_files s) dir of
          Some n \<Rightarrow>
            (if is_link n then Inl (ErrMsg (''directory must not be a symlink: '' @ dir))
             else if fn_kind n \<noteq> Dir then Inl (ErrMsg (''not a directory: '' @ dir))
             else Inr dir, s)
        | None \<Rightarrow>
            (case ensureSecureDirPath ''/'' (filepath_Abs (ce_cwd env) dir) s of
               (Some e, s) \<Rightarrow> (Inl e, s)
             | (None, s) \<Rightarrow> (Inr dir, s))))"

definition prepareExportDir :: "capture_env \<Rightarrow> string \<Rightarrow> cfs \<Rightarrow> string result \<times> cfs" where
  "prepareExportDir = prepare_dir ''wwclient-overlaydiff-''"

definition prepareArtifactParentDir :: "capture_env \<Rightarrow> string \<Rightarrow> cfs \<Rightarrow> string result \<times> cfs" where
  "prepareArtifactParentDir = prepare_dir ''wwclient-overlay-artifact-''"

definition ensureArtifactFilePath :: "string \<Rightarrow> string \<Rightarrow> cfs effect" where
  "ensureArtifactFilePath root target s = (case ensureWithinExportRoot root target of
      Some e \<Rightarrow> (Some e, s)
    | None \<Rightarrow>
        and_then (ensureSecureDirPath root (parent target) s) (\<lambda>s.
          (if (case Lstat (cf_files s) target of Some n \<Rightarrow> is_link n | None \<Rightarrow> False)
           then Some (ErrMsg (''artifact archive must not be a symlink: '' @ target)) else None, s)))"

text \<open>The entries of the archive: all files below the root with their relative names, in the order of the walk.\<close>

definition archive_entries :: "cfs \<Rightarrow> string \<Rightarrow> (string \<times> fnode \<times> int) list option" where
  "archive_entries s artifactRoot = (case Walk (cf_files s) artifactRoot of
      None \<Rightarrow> None
    | Some es \<Rightarrow>
        if list_ex (\<lambda>e. Rel artifactRoot (fst e) = None) es then None
        else Some (map (\<lambda>e. (case Rel artifactRoot (fst e) of Some rel \<Rightarrow> rel | None \<Rightarrow> [], snd e, fst (attr s (fst e))))
          (filter (\<lambda>e. fst e \<noteq> artifactRoot) es)))"

definition writeArtifactArchive :: "((string \<times> fnode \<times> int) list \<Rightarrow> string) \<Rightarrow> string \<Rightarrow> string \<Rightarrow> cfs effect" where
  "writeArtifactArchive tar artifactRoot archivePath s =
     and_then (on_files (os_Truncate archivePath) s) (\<lambda>s.
       (case archive_entries s artifactRoot of
          None \<Rightarrow> (Some ErrIO, s)
        | Some es \<Rightarrow> on_files (os_Append archivePath (tar es)) s))"

section \<open>The commands\<close>

definition defaultSourcePath :: string where "defaultSourcePath = ''/''"

definition defaultIncludeRoots :: "string list" where
  "defaultIncludeRoots = [''/etc'', ''/var/lib'', ''/usr/local'', ''/opt'', ''/srv'']"

definition defaultStateFilePath :: "capture_env \<Rightarrow> string" where
  "defaultStateFilePath env =
     path_Join [if ce_localstate env = [] then ''/var/lib'' else ce_localstate env, ''warewulf'', ''overlaydiff'', ''capture.json'']"

definition resolveStateFilePath :: "capture_env \<Rightarrow> string \<Rightarrow> string" where
  "resolveStateFilePath env custom = (if TrimSpace custom = [] then defaultStateFilePath env else custom)"

text \<open>The map that a scan returns, on the paths of the tree.\<close>

fun tree_paths :: "string \<Rightarrow> dtree \<Rightarrow> string list" where
  "tree_paths dir (DTree ts) = concat (map (\<lambda>(n, t). (dir @ ''/'' @ n) # tree_paths (dir @ ''/'' @ n) t) ts)"

definition capture_scan :: "capture_env \<Rightarrow> string \<Rightarrow> ScanOptions \<Rightarrow> Entry gomap result" where
  "capture_scan env root opts = (case ScanTreeWithOptions (ce_sha env) (ce_info env root) (ce_tree env root) opts of
      Inl e \<Rightarrow> Inl e
    | Inr m \<Rightarrow> Inr (Some (List.map_filter (\<lambda>p. map_option (Pair p) (m p)) (remdups (tree_paths [] (ce_tree env root))))))"

definition start_options :: "string \<Rightarrow> string list \<Rightarrow> ScanOptions" where
  "start_options sourcePath excludes =
     \<lparr>so_Excludes = excludes, so_IncludeRoots = (if sourcePath = defaultSourcePath then defaultIncludeRoots else []),
      so_ScanWorkers = 0, so_HashWorkers = 0, so_BaselineEntries = gm_nil, so_BaselineCapturedAt = None\<rparr>"

definition runStart :: "capture_env \<Rightarrow> string \<Rightarrow> string \<Rightarrow> string list \<Rightarrow> cfs effect" where
  "runStart env startSourcePath startStateFile startExcludes s =
     (let trimmed = TrimSpace startSourcePath;
          sourcePath = (if trimmed = [] then defaultSourcePath else trimmed);
          sourceAbs = filepath_Abs (ce_cwd env) sourcePath;
          excludes = ResolveExcludes startExcludes
      in case capture_scan env sourceAbs (start_options sourcePath excludes) of
           Inl e \<Rightarrow> (Some e, s)
         | Inr es \<Rightarrow>
             SaveSnapshot (ce_write_snapshot env) (resolveStateFilePath env startStateFile) (NewSnapshot (ce_now env) sourceAbs excludes es) s)"

record StopFlags =
  st_SourcePath :: string
  st_StateFile :: string
  st_Excludes :: "string list"
  st_Format :: string
  st_Interactive :: bool
  st_NoInteractive :: bool
  st_Only :: "string list"
  st_PathPrefix :: "string list"
  st_Export :: bool
  st_ExportDir :: string
  st_Artifact :: bool
  st_ArtifactDir :: string
  st_OverlayName :: string
  st_NodeSource :: string

definition check_flags :: "StopFlags \<Rightarrow> ChangeType list result" where
  "check_flags f =
     (if ToLower (st_Format f) \<noteq> ''table'' \<and> ToLower (st_Format f) \<noteq> ''json'' then Inl (ErrMsg ''invalid format'')
      else (case ParseChangeTypes (st_Only f) of
         Inl e \<Rightarrow> Inl e
       | Inr onlyFilters \<Rightarrow>
           if st_Artifact f \<and> (st_Export f \<or> TrimSpace (st_ExportDir f) \<noteq> [])
           then Inl (ErrMsg ''--artifact mode can not be combined with --export/--export-dir'')
           else if TrimSpace (st_ArtifactDir f) \<noteq> [] \<and> \<not> st_Artifact f then Inl (ErrMsg ''--artifact-dir requires --artifact'')
           else if TrimSpace (st_OverlayName f) \<noteq> [] \<and> \<not> st_Artifact f then Inl (ErrMsg ''--overlay-name requires --artifact'')
           else (case (if st_Artifact f then ValidateOverlayName (st_OverlayName f) else None) of
              Some e \<Rightarrow> Inl e
            | None \<Rightarrow> Inr onlyFilters)))"

definition load_capture :: "capture_env \<Rightarrow> string \<Rightarrow> cfs \<Rightarrow> Snapshot result" where
  "load_capture env stateFile s = (case LoadSnapshot (ce_read_snapshot env) (cf_files s) stateFile of
      Inl e \<Rightarrow> Inl e
    | Inr snapshot \<Rightarrow>
        (case LoadDecisionState (ce_read_decisions env) (cf_files s) (DefaultDecisionStatePath stateFile) of
           Inr ds \<Rightarrow> Inr (snapshot\<lparr>ss_Decisions := ds\<rparr>)
         | Inl e \<Rightarrow> if e = ErrDoesNotExist then Inr snapshot else Inl e))"

definition stop_options :: "StopFlags \<Rightarrow> string \<Rightarrow> Snapshot \<Rightarrow> ScanOptions" where
  "stop_options f sourceAbs snapshot =
     \<lparr>so_Excludes = (if st_Excludes f \<noteq> [] then ResolveExcludes (st_Excludes f)
        else if ss_Excludes snapshot \<noteq> [] then NormalizeExcludes (ss_Excludes snapshot) else ResolveExcludes []),
      so_IncludeRoots = (if sourceAbs = defaultSourcePath then defaultIncludeRoots else []),
      so_ScanWorkers = 0, so_HashWorkers = 0, so_BaselineEntries = ss_Entries snapshot, so_BaselineCapturedAt = Some (ss_CreatedAt snapshot)\<rparr>"

definition stop_changes :: "capture_env \<Rightarrow> StopFlags \<Rightarrow> ChangeType list \<Rightarrow> string \<Rightarrow> Snapshot \<Rightarrow> Change list result" where
  "stop_changes env f onlyFilters sourceAbs snapshot = (case capture_scan env sourceAbs (stop_options f sourceAbs snapshot) of
      Inl e \<Rightarrow> Inl e
    | Inr es \<Rightarrow> Inr (FilterChanges (Compare es (ss_Entries snapshot)) onlyFilters (st_PathPrefix f)))"

definition stop_export :: "capture_env \<Rightarrow> StopFlags \<Rightarrow> string \<Rightarrow> Change list \<Rightarrow> Decision gomap \<Rightarrow> cfs effect" where
  "stop_export env f sourceAbs changes decisions s =
     (if st_Export f \<or> TrimSpace (st_ExportDir f) \<noteq> [] then
        (case prepareExportDir env (TrimSpace (st_ExportDir f)) s of
           (Inl e, s) \<Rightarrow> (Some e, s)
         | (Inr exportDir, s) \<Rightarrow> exportSelected sourceAbs exportDir changes decisions s)
      else (None, s))"

text \<open>What is staged: the selected files below \<open>rootfs\<close> and the manifest, checked before it is archived.\<close>

definition stage_artifact :: "capture_env \<Rightarrow> StopFlags \<Rightarrow> string \<Rightarrow> Change list \<Rightarrow> Decision gomap \<Rightarrow> string \<Rightarrow> string \<Rightarrow> cfs effect" where
  "stage_artifact env f sourceAbs changes decisions stageParent artifactRoot s =
     (let name = TrimSpace (st_OverlayName f); artifactRootfs = path_Join [artifactRoot, ''rootfs'']
      in and_then (ensureSecureDirPath stageParent artifactRootfs s) (\<lambda>s.
         and_then (exportSelected sourceAbs artifactRootfs changes decisions s) (\<lambda>s.
         and_then (on_files (SaveArtifactManifest (ce_write_manifest env) (path_Join [artifactRoot, ArtifactManifestFileName])
             (BuildArtifactManifest (ce_now env) name sourceAbs (TrimSpace (st_NodeSource f)) (selectedPaths changes decisions)
               (summarizeDecisions changes decisions))) s) (\<lambda>s.
         (ValidateArtifact (ce_read_manifest env) (cf_files s) artifactRoot, s)))))"

definition stop_artifact :: "capture_env \<Rightarrow> StopFlags \<Rightarrow> string \<Rightarrow> Change list \<Rightarrow> Decision gomap \<Rightarrow> cfs effect" where
  "stop_artifact env f sourceAbs changes decisions s =
     (if \<not> st_Artifact f then (None, s)
      else (case prepareArtifactParentDir env (TrimSpace (st_ArtifactDir f)) s of
         (Inl e, s) \<Rightarrow> (Some e, s)
       | (Inr artifactParent, s) \<Rightarrow>
           let name = TrimSpace (st_OverlayName f); artifactPath = path_Join [artifactParent, name @ ''.tar.gz'']
           in and_then (ensureArtifactFilePath artifactParent artifactPath s) (\<lambda>s.
             (case temp_dir env ''wwclient-overlay-artifact-stage-'' s of
                (Inl e, s) \<Rightarrow> (Some e, s)
              | (Inr stageParent, s) \<Rightarrow>
                  let artifactRoot = path_Join [stageParent, name];
                      r = and_then (stage_artifact env f sourceAbs changes decisions stageParent artifactRoot s)
                        (writeArtifactArchive (ce_tar env) artifactRoot artifactPath)
                  in (fst r, snd (on_files (os_RemoveAll stageParent) (snd r)))))))"

definition runStop :: "capture_env \<Rightarrow> StopFlags \<Rightarrow> string list \<Rightarrow> cfs effect" where
  "runStop env f input s = (case check_flags f of
      Inl e \<Rightarrow> (Some e, s)
    | Inr onlyFilters \<Rightarrow>
        let stateFile = resolveStateFilePath env (st_StateFile f) in
        (case load_capture env stateFile s of
           Inl e \<Rightarrow> (Some e, s)
         | Inr snapshot \<Rightarrow>
             let trimmed = TrimSpace (st_SourcePath f);
                 sourceAbs = filepath_Abs (ce_cwd env) (if trimmed = [] then defaultSourcePath else trimmed)
             in if ss_SourceRoot snapshot \<noteq> [] \<and> sourceAbs \<noteq> ss_SourceRoot snapshot
                then (Some (ErrMsg (''source path '' @ sourceAbs @ '' does not match capture '' @ ss_SourceRoot snapshot)), s)
                else (case stop_changes env f onlyFilters sourceAbs snapshot of
                   Inl e \<Rightarrow> (Some e, s)
                 | Inr changes \<Rightarrow>
                     and_then (SaveSnapshot (ce_write_snapshot env) stateFile (snapshot\<lparr>ss_Changes := SummarizeChanges changes\<rparr>) s) (\<lambda>s.
                       (case (if st_Interactive f \<or> \<not> st_NoInteractive f
                              then runInteractiveSelection (SaveDecisionState (ce_write_decisions env) (ce_rnd env) (DefaultDecisionStatePath stateFile))
                                     changes (ss_Decisions snapshot) input s
                              else (None, ss_Decisions snapshot, s)) of
                          (Some e, _, s) \<Rightarrow> (Some e, s)
                        | (None, decisions, s) \<Rightarrow>
                            and_then (stop_export env f sourceAbs changes decisions s) (stop_artifact env f sourceAbs changes decisions))))))"

end
