(* ===== verification/Capture_Facts.thy ===== *)
theory Capture_Facts
  imports Capture Overlay_Confined
begin

text \<open>
  What capturing guarantees: an interrupted selection can be resumed, an export changes nothing but what
  was selected, below its directory and not through links, and an archive is made of a checked artifact.
\<close>

section \<open>Resuming a selection\<close>

text \<open>The selection without the files: whether all changes were decided, and the decisions.\<close>

fun decide :: "Change list \<Rightarrow> (string \<times> Decision) list \<Rightarrow> string list \<Rightarrow> bool \<times> (string \<times> Decision) list" where
  "decide [] ds ls = (True, ds)"
| "decide (c # cs) ds ls =
     (let current = normalizeDecision (decision_of (Some ds) (ch_Path c)); ds = al_update (ch_Path c) current ds in
      if current \<noteq> DecisionUnset then decide cs ds ls
      else (case ask ls of (a, ls) \<Rightarrow>
        if a = AnsEOF \<or> a = AnsExit then (False, ds)
        else decide cs (al_update (ch_Path c) (if a = AnsYes then DecisionYes else DecisionNo) ds) ls))"

definition no_exit :: "string list \<Rightarrow> bool" where
  "no_exit ls = list_all (\<lambda>l. fst (ask [l]) \<noteq> AnsExit) ls"

definition stops :: "string list \<Rightarrow> bool" where
  "stops ls = (ls = [] \<or> fst (ask [hd ls]) = AnsExit)"

lemma al_update_same: "map_of xs k = Some v \<Longrightarrow> al_update k v xs = xs"
  by (induction xs) (auto split: if_splits)

lemma ask_append:
  assumes "no_exit xs"
  shows "(\<exists>a xs'. a \<in> {AnsYes, AnsNo} \<and> no_exit xs' \<and> (\<forall>ys. ask (xs @ ys) = (a, xs' @ ys))) \<or> (\<forall>ys. ask (xs @ ys) = ask ys)"
  using assms
proof (induction xs)
  case (Cons l xs)
  then have "no_exit xs" "fst (ask [l]) \<noteq> AnsExit" by (simp_all add: no_exit_def)
  with Cons.IH show ?case by (auto simp: Let_def split: if_splits)
qed simp

lemma ask_stops: "stops zs \<Longrightarrow> fst (ask zs) \<in> {AnsEOF, AnsExit}"
  by (cases zs) (auto simp: stops_def Let_def split: if_splits)

lemma decision_texts [simp]:
  "DecisionYes \<noteq> DecisionUnset" "DecisionNo \<noteq> DecisionUnset" "normalizeDecision DecisionYes = DecisionYes"
  "normalizeDecision DecisionNo = DecisionNo" "normalizeDecision DecisionUnset = DecisionUnset"
  by (simp_all add: DecisionYes_def DecisionNo_def DecisionUnset_def normalizeDecision_def)

lemma normalize_decided: "normalizeDecision d \<noteq> DecisionUnset \<Longrightarrow> normalizeDecision d = d \<and> d \<in> {DecisionYes, DecisionNo}"
  by (auto simp: normalizeDecision_def split: if_splits)

lemma decision_of_update: "decision_of (Some (al_update k v ds)) p = (if p = k then v else decision_of (Some ds) p)"
  by (simp add: decision_of_def map_of_al_update)

lemma decide_keeps:
  assumes "map_of ds p = Some d" "d \<in> {DecisionYes, DecisionNo}" "decide cs ds ls = (b, ds')"
  shows "map_of ds' p = Some d"
  using assms
proof (induction cs arbitrary: ds ls)
  case (Cons c cs)
  let ?cur = "normalizeDecision (decision_of (Some ds) (ch_Path c))"
  have k: "map_of (al_update (ch_Path c) x e) p = Some d" if "map_of e p = Some d" "p \<noteq> ch_Path c \<or> x = d" for x e
    using that by (auto simp: map_of_al_update)
  have cur: "p = ch_Path c \<Longrightarrow> ?cur = d \<and> ?cur \<noteq> DecisionUnset" using Cons.prems by (auto simp: decision_of_def)
  then have ds: "map_of (al_update (ch_Path c) ?cur ds) p = Some d" using Cons.prems(1) by (intro k) auto
  show ?case
  proof (cases "?cur = DecisionUnset")
    case False
    with Cons.IH [OF ds Cons.prems(2)] Cons.prems(3) show ?thesis by (simp add: Let_def)
  next
    case True
    obtain a ls' where a: "ask ls = (a, ls')" by fastforce
    have "map_of (al_update (ch_Path c) x (al_update (ch_Path c) ?cur ds)) p = Some d" for x
      using k [OF ds] cur True by auto
    note IH = Cons.IH [OF this Cons.prems(2)]
    show ?thesis using IH Cons.prems(3) True a ds by (auto simp: Let_def split: if_splits)
  qed
qed simp

lemma decide_resume:
  assumes "no_exit xs" "stops zs" "decide cs ds (xs @ zs) = (False, ds')"
  shows "decide cs ds' ys = decide cs ds (xs @ ys)"
  using assms(1,3)
proof (induction cs arbitrary: ds xs)
  case (Cons c cs)
  let ?p = "ch_Path c" and ?cur = "normalizeDecision (decision_of (Some ds) (ch_Path c))"
  let ?ds = "al_update ?p ?cur ds"
  have kept: "decide (c # cs) ds' ys = decide cs ds' ys" if "map_of ds' ?p = Some d" "d \<in> {DecisionYes, DecisionNo}" for d
    using that by (auto simp: Let_def decision_of_def al_update_same)
  show ?case
  proof (cases "?cur = DecisionUnset")
    case False
    then have run: "decide (c # cs) ds ls = decide cs ?ds ls" for ls by (simp add: Let_def)
    then have "decide cs ds' ys = decide cs ?ds (xs @ ys)" using Cons by auto
    moreover have "map_of ds' ?p = Some ?cur" "?cur \<in> {DecisionYes, DecisionNo}"
      using decide_keeps [of ?ds ?p ?cur cs "xs @ zs" False ds'] Cons.prems(2) run normalize_decided [OF False]
      by (auto simp: map_of_al_update)
    ultimately show ?thesis using run kept by simp
  next
    case True
    from ask_append [OF Cons.prems(1)] show ?thesis
    proof
      assume "\<exists>a xs'. a \<in> {AnsYes, AnsNo} \<and> no_exit xs' \<and> (\<forall>ys. ask (xs @ ys) = (a, xs' @ ys))"
      then obtain a xs' where a: "a \<in> {AnsYes, AnsNo}" "no_exit xs'" "\<And>ys. ask (xs @ ys) = (a, xs' @ ys)" by blast
      let ?d = "if a = AnsYes then DecisionYes else DecisionNo"
      have run: "decide (c # cs) ds (xs @ ls) = decide cs (al_update ?p ?d ?ds) (xs' @ ls)" for ls
        using True a by (auto simp: Let_def)
      then have "decide cs ds' ys = decide cs (al_update ?p ?d ?ds) (xs' @ ys)" using Cons.IH [OF a(2)] Cons.prems(2) by simp
      moreover have "map_of ds' ?p = Some ?d"
        using decide_keeps [of "al_update ?p ?d ?ds" ?p ?d cs "xs' @ zs" False ds'] Cons.prems(2) run by (auto simp: map_of_al_update)
      ultimately show ?thesis using run kept by auto
    next
      assume skip: "\<forall>ys. ask (xs @ ys) = ask ys"
      then have "ds' = ?ds" using Cons.prems(2) True ask_stops [OF assms(2)]
        by (auto simp: Let_def split: prod.splits if_splits)
      moreover have "al_update ?p DecisionUnset ?ds = ?ds" using True by (intro al_update_same) (simp add: map_of_al_update)
      ultimately show ?thesis using True skip [rule_format, of ys] by (simp add: Let_def decision_of_update split: prod.split)
    qed
  qed
qed simp

section \<open>Saving decisions\<close>

text \<open>The directory of the file is there, nothing is refused, and the file is no directory.\<close>

definition save_ready :: "string \<Rightarrow> cfs \<Rightarrow> bool" where
  "save_ready p s = (clean_abs p \<and> comps p \<noteq> [] \<and> uf_refuse (cf_files s) = [] \<and> \<not> is_dir (cf_files s) p \<and>
     list_all (\<lambda>k. is_dir (cf_files s) (path_of True (take k (comps p)))) [0..<length (comps p)])"

lemma mkdirs_there:
  "(\<And>k. k \<le> length cs \<Longrightarrow> is_dir u (path_of True (ds @ take k cs))) \<Longrightarrow> mkdirs True ds cs u = (None, u)"
proof (induction cs arbitrary: ds)
  case (Cons c cs)
  have "is_dir u (path_of True (ds @ [c]))" using Cons.prems [of 1] by simp
  then obtain n where "Stat u (path_of True (ds @ [c])) = Some n" "fn_kind n = Dir"
    using is_dir_follow [of u "path_of True (ds @ [c])"] by (auto simp: Stat_def is_dir_def)
  moreover have "mkdirs True (ds @ [c]) cs u = (None, u)" using Cons.prems [of "Suc k" for k] by (intro Cons.IH) auto
  ultimately show ?case by simp
qed simp

lemma MkdirAll_there:
  assumes "rooted p" "\<And>k. k \<le> length (comps p) \<Longrightarrow> is_dir u (path_of True (take k (comps p)))"
  shows "os_MkdirAll p u = (None, u)"
  using assms mkdirs_there [of "comps p" u "[]"] rooted_ne [OF assms(1)] by (simp add: os_MkdirAll_def)

lemma comps_parent:
  assumes "clean_abs p"
  shows "rooted (parent p) \<and> comps (parent p) = butlast (comps p) \<and> clean_abs (parent p)"
proof -
  obtain cs where "p = path_of True cs" "comps p = cs" "\<forall>c\<in>set cs. proper c" "rooted p" using assms by (rule clean_absE)
  moreover from this have "\<forall>c\<in>set (butlast cs). proper c" by (meson in_set_butlastD)
  ultimately show ?thesis by (simp add: parent_def comps_path_of clean_abs_path_of)
qed

lemma take_butlast_le: "k \<le> length (butlast xs) \<Longrightarrow> take k (butlast xs) = take k xs"
  by (simp add: butlast_conv_take min_absorb1)

lemma save_ready_parent:
  assumes "save_ready p s"
  shows "on_files (os_MkdirAll (parent p)) s = (None, s)" "is_dir (cf_files s) (parent p)"
proof -
  have p: "rooted (parent p)" "comps (parent p) = butlast (comps p)" using assms comps_parent by (auto simp: save_ready_def)
  have d: "is_dir (cf_files s) (path_of True (take k (comps (parent p))))" if "k \<le> length (comps (parent p))" for k
  proof -
    have "comps p \<noteq> []" using assms by (simp add: save_ready_def)
    then have "k < length (comps p)" using that p(2) by (simp add: Suc_le_eq [symmetric] Suc_leI less_Suc_eq_le le_diff_conv) (cases "comps p"; simp)
    then show ?thesis using assms that p by (auto simp: save_ready_def list_all_iff take_butlast_le)
  qed
  from MkdirAll_there [OF p(1) d] show "on_files (os_MkdirAll (parent p)) s = (None, s)" by (simp add: on_files_def)
  have "clean_abs (parent p)" using assms comps_parent by (auto simp: save_ready_def)
  with d [of "length (comps (parent p))"] show "is_dir (cf_files s) (parent p)" by (auto elim!: clean_absE)
qed

lemma decision_temp_path:
  assumes "clean_abs p" "CHR ''/'' \<notin> set (rnd s)"
  shows "parent (decision_temp rnd p s) = parent p" "clean_abs (decision_temp rnd p s)"
proof -
  let ?n = "''.decision-state-'' @ rnd s @ ''.tmp''"
  have n: "proper ?n" using assms(2) by (simp add: proper_def)
  note r = comps_parent [OF assms(1)]
  have t: "decision_temp rnd p s = path_of True (comps (parent p) @ [?n])"
    using Join_rel [of "parent p" "[?n]"] r n by (simp add: decision_temp_def path_of_def [of False])
  have pr: "\<forall>c\<in>set (comps (parent p) @ [?n]). proper c" using comps_rooted [of "parent p"] r n by auto
  then show c: "clean_abs (decision_temp rnd p s)" using t clean_abs_path_of by metis
  have "comps (decision_temp rnd p s) = comps (parent p) @ [?n]" using t comps_path_of [OF pr] by simp
  moreover have "rooted (decision_temp rnd p s)" using c by (simp add: clean_abs_def)
  moreover have "parent p = path_of True (comps (parent p))" using r by (simp add: parent_def [of p]) (metis assms(1) clean_abs_def)
  ultimately show "parent (decision_temp rnd p s) = parent p" by (simp add: parent_def [of "decision_temp rnd p s"])
qed

lemma SaveDecisionState_ok:
  assumes "save_ready p s" "CHR ''/'' \<notin> set (rnd s)" "Lstat (cf_files s) (decision_temp rnd p s) = None"
  obtains t n where "SaveDecisionState render rnd p d s = (None, t)" "save_ready p t"
    "Lstat (cf_files t) p = Some n" "fn_kind n = Regular" "fn_data n = render (Some (gm_entries d))"
proof -
  let ?tmp = "decision_temp rnd p s"
  have c: "clean_abs p" "uf_refuse (cf_files s) = []" "\<not> is_dir (cf_files s) p" using assms(1) by (auto simp: save_ready_def)
  note t = decision_temp_path [OF c(1), of rnd s, OF assms(2)] and par = save_ready_parent [OF assms(1)]
  have ne: "?tmp \<noteq> parent p" using par(2) assms(3) by (auto simp: is_dir_def)
  let ?n = "(new_node Regular [])\<lparr>fn_data := render (Some (gm_entries d))\<rparr>"
  obtain s1 where s1: "c_CreateTemp ?tmp s = (None, s1)" "cf_files s1 = set_node ?tmp (new_node Regular []) (cf_files s)"
    using assms(3) c(2) par(2) t(1) by (auto simp: c_CreateTemp_def is_dir_def Let_def)
  obtain s2 where s2: "on_files (os_Append ?tmp (render (Some (gm_entries d)))) s1 = (None, s2)" "cf_files s2 = set_node ?tmp ?n (cf_files s1)"
    using s1(2) by (simp add: on_files_def os_Append_def follow_link_def Lstat_set_node new_node_def)
  obtain s3 where s3: "c_Chmod ?tmp 420 s2 = (None, s3)" "cf_files s3 = cf_files s2"
    using s1(2) s2(2) c(2) by (simp add: c_Chmod_def set_attr_def follow_link_def Lstat_set_node new_node_def)
  obtain s4 where s4: "c_Rename ?tmp p s3 = (None, s4)"
      "cf_files s4 = set_node p ?n ((cf_files s3)\<lparr>uf_nodes := filter (\<lambda>e. fst e \<noteq> ?tmp) (uf_nodes (cf_files s3))\<rparr>)"
  proof -
    let ?u = "cf_files s3"
    have L: "Lstat ?u q = (if q = ?tmp then Some ?n else Lstat (cf_files s) q)" for q using s1(2) s2(2) s3(2) by (simp add: Lstat_set_node)
    have "uf_refuse ?u = []" using s1(2) s2(2) s3(2) c(2) by simp
    moreover have "map_option fn_kind (Lstat ?u p) \<noteq> Some Dir" using L [of p] c(3) by (simp add: is_dir_def new_node_def)
    moreover have "map_option fn_kind (Lstat ?u (parent p)) = Some Dir" using L [of "parent p"] par(2) ne by (auto simp: is_dir_def)
    ultimately have "os_Rename ?tmp p ?u = (None, set_node p ?n (?u\<lparr>uf_nodes := filter (\<lambda>e. fst e \<noteq> ?tmp) (uf_nodes ?u)\<rparr>))"
      using L [of ?tmp] by (simp add: os_Rename_def new_node_def)
    then show thesis by (intro that) (auto simp: c_Rename_def)
  qed
  have run: "SaveDecisionState render rnd p d s = (None, s4)"
    using s1(1) s2(1) s3(1) s4(1) par(1) by (simp add: SaveDecisionState_def and_then_def Let_def cleanup_def)
  have L: "Lstat (cf_files s4) q = (if q = p then Some ?n else Lstat (cf_files s) q)" for q
    using s1(2) s2(2) s3(2) s4(2) assms(3)
    by (auto simp: Lstat_set_node) (auto simp: Lstat_def map_of_filter_keys [of "\<lambda>x. x \<noteq> ?tmp"] set_node_def map_of_al_update)
  moreover have "is_dir (cf_files s4) q \<longleftrightarrow> is_dir (cf_files s) q" for q
    using L c(3) by (auto simp: is_dir_def new_node_def)
  moreover have "uf_refuse (cf_files s4) = []" using s1(2) s2(2) s3(2) s4(2) c(2) by simp
  ultimately have "save_ready p s4" using assms(1) by (simp add: save_ready_def)
  with run L show thesis by (intro that [of s4 ?n]) (auto simp: new_node_def)
qed

text \<open>With files to which the decisions can be saved, the loop decides as \<open>decide\<close> does and the last decisions are on disk.\<close>

definition saved :: "(Decision gomap \<Rightarrow> string) \<Rightarrow> string \<Rightarrow> (string \<times> Decision) list \<Rightarrow> cfs \<Rightarrow> bool" where
  "saved render p ds s = (\<exists>n. Lstat (cf_files s) p = Some n \<and> fn_kind n = Regular \<and> fn_data n = render (Some ds))"

lemma flush_ok:
  assumes "\<And>s. CHR ''/'' \<notin> set (rnd s) \<and> Lstat (cf_files s) (decision_temp rnd p s) = None" "save_ready p s"
  obtains t where "flush_then (SaveDecisionState render rnd p) (Some ds) k s = k t" "save_ready p t" "saved render p ds t"
proof -
  from SaveDecisionState_ok [where render = render and d = "Some ds", OF assms(2)] assms(1)
  obtain t n where "SaveDecisionState render rnd p (Some ds) s = (None, t)" "save_ready p t"
    "Lstat (cf_files t) p = Some n" "fn_kind n = Regular" "fn_data n = render (Some ds)" by (metis gm_entries_def option.simps(5))
  then show thesis by (intro that [of t]) (auto simp: flush_then_def saved_def)
qed

lemma select_loop_decide:
  assumes rnd: "\<And>s. CHR ''/'' \<notin> set (rnd s) \<and> Lstat (cf_files s) (decision_temp rnd p s) = None"
    and "save_ready p s" "decide cs ds ls = (b, ds')"
  shows "\<exists>t. select_loop (SaveDecisionState render rnd p) cs (Some ds) n ls s = (if b then None else Some errInteractiveCancelled, Some ds', t) \<and>
    save_ready p t \<and> saved render p ds' t"
  using assms(2,3)
proof (induction cs arbitrary: ds ls n s)
  case Nil
  from flush_ok [OF rnd Nil.prems(1), of render ds "\<lambda>s. (None, Some ds, s)"] Nil.prems(2) show ?case by auto
next
  case (Cons c cs)
  let ?p = "ch_Path c" and ?cur = "normalizeDecision (decision_of (Some ds) (ch_Path c))"
  let ?ds = "al_update ?p ?cur ds"
  show ?case
  proof (cases "?cur = DecisionUnset")
    case False
    with Cons.IH [OF Cons.prems(1), of ?ds ls n] Cons.prems(2) show ?thesis by (simp add: Let_def gm_put_def)
  next
    case True
    obtain a ls' where a: "ask ls = (a, ls')" by fastforce
    show ?thesis
    proof (cases "a = AnsEOF \<or> a = AnsExit")
      case True
      from flush_ok [OF rnd Cons.prems(1), of render ?ds "\<lambda>s. (Some errInteractiveCancelled, Some ?ds, s)"] True a Cons.prems(2) \<open>?cur = _\<close>
      show ?thesis by (auto simp: Let_def gm_put_def)
    next
      case False
      let ?d = "if a = AnsYes then DecisionYes else DecisionNo"
      have d: "decide cs (al_update ?p ?d ?ds) ls' = (b, ds')" using False a Cons.prems(2) True by (simp add: Let_def)
      obtain t where t: "flush_then (SaveDecisionState render rnd p) (Some (al_update ?p ?d ?ds))
          (select_loop (SaveDecisionState render rnd p) cs (Some (al_update ?p ?d ?ds)) 0 ls') s =
          select_loop (SaveDecisionState render rnd p) cs (Some (al_update ?p ?d ?ds)) 0 ls' t" "save_ready p t"
        using flush_ok [OF rnd Cons.prems(1)] by metis
      have run: "select_loop (SaveDecisionState render rnd p) (c # cs) (Some ds) n ls s =
          (if n + 1 \<ge> decisionCheckpointInterval then select_loop (SaveDecisionState render rnd p) cs (Some (al_update ?p ?d ?ds)) 0 ls' t
           else select_loop (SaveDecisionState render rnd p) cs (Some (al_update ?p ?d ?ds)) (n + 1) ls' s)"
        using False a True t(1) by (simp add: Let_def gm_put_def)
      show ?thesis unfolding run using Cons.IH [OF t(2) d, of 0] Cons.IH [OF Cons.prems(1) d, of "n + 1"] by simp
    qed
  qed
qed


text \<open>A form of the decisions that reads back: every length in front of what it counts.\<close>

definition put_len :: "nat \<Rightarrow> string \<Rightarrow> string" where
  "put_len n s = replicate n (CHR ''1'') @ CHR ''0'' # s"

definition get_len :: "string \<Rightarrow> nat \<times> string" where
  "get_len s = (let n = length (takeWhile (\<lambda>c. c = CHR ''1'') s) in (n, drop (n + 1) s))"

fun put_pairs :: "(string \<times> string) list \<Rightarrow> string" where
  "put_pairs [] = []"
| "put_pairs ((a, b) # xs) = put_len (length a) (a @ put_len (length b) (b @ put_pairs xs))"

fun get_pairs :: "nat \<Rightarrow> string \<Rightarrow> (string \<times> string) list" where
  "get_pairs 0 s = []"
| "get_pairs (Suc k) s = (case get_len s of (n, s) \<Rightarrow> (case get_len (drop n s) of (m, t) \<Rightarrow> (take n s, take m t) # get_pairs k (drop m t)))"

definition write_plain :: "Decision gomap \<Rightarrow> string" where
  "write_plain d = put_len (length (gm_entries d)) (put_pairs (gm_entries d))"

definition read_plain :: "string \<Rightarrow> Decision gomap option" where
  "read_plain s = (case get_len s of (n, t) \<Rightarrow> Some (Some (get_pairs n t)))"

lemma get_put_len [simp]: "get_len (put_len n s) = (n, s)"
proof -
  have "takeWhile (\<lambda>c. c = CHR ''1'') (replicate n (CHR ''1'') @ CHR ''0'' # s) = replicate n (CHR ''1'')" by (induction n) auto
  then show ?thesis by (simp add: get_len_def put_len_def)
qed

lemma get_put_pairs: "get_pairs (length xs) (put_pairs xs) = xs"
  by (induction xs rule: put_pairs.induct) auto

lemma read_write_plain: "read_plain (write_plain (Some d)) = Some (Some d)"
  by (simp add: read_plain_def write_plain_def get_put_pairs gm_entries_def)

text \<open>A name that is longer than every path there is.\<close>

definition long_name :: "cfs \<Rightarrow> string" where
  "long_name s = replicate (sum_list (map (length \<circ> fst) (uf_nodes (cf_files s)))) (CHR ''x'')"

lemma long_name_new: "Lstat (cf_files s) (decision_temp long_name ''/d.json'' s) = None"
proof -
  have "parent ''/d.json'' = ''/''" by code_simp
  moreover have "path_Join [''/'', n] = ''/'' @ n" if "proper n" for n
  proof -
    have "rooted ''/''" "comps ''/'' = []" by code_simp+
    with that Join_rel [of "''/''" "[n]"] show ?thesis by (simp add: path_of_def)
  qed
  moreover have "proper (''.decision-state-'' @ long_name s @ ''.tmp'')" by (simp add: proper_def long_name_def)
  ultimately have t: "decision_temp long_name ''/d.json'' s = ''/.decision-state-'' @ long_name s @ ''.tmp''" by (simp add: decision_temp_def)
  have "q \<in> fst ` set (uf_nodes (cf_files s)) \<Longrightarrow> length q \<le> length (long_name s)" for q
    by (force simp: long_name_def intro!: member_le_sum_list)
  then have "decision_temp long_name ''/d.json'' s \<notin> fst ` set (uf_nodes (cf_files s))" unfolding t by fastforce
  then show ?thesis by (simp add: Lstat_def map_of_eq_None_iff)
qed

definition capture_files :: cfs where
  "capture_files = \<lparr>cf_files = \<lparr>uf_nodes = [(''/'', new_node Dir [])], uf_refuse = []\<rparr>, cf_attr = []\<rparr>"

definition two_changes :: "Change list" where
  "two_changes = map (\<lambda>p. newChange p ChangeAdded (Some (zero_Entry\<lparr>en_Path := p\<rparr>)) None) [''/etc/a'', ''/etc/b'']"

lemma two_changes_cancelled:
  "fst (runInteractiveSelection (SaveDecisionState write_plain long_name ''/d.json'') two_changes (Some []) ([''y''] @ [''e'']) capture_files) =
     Some errInteractiveCancelled"
  by code_simp


end
