(* ===== verification/Capture_Export.thy ===== *)
theory Capture_Export
  imports Capture_Facts
begin

text \<open>
  Where an export of captured changes writes: only to the selected entries, below the export directory,
  and never through a link.
\<close>

section \<open>The state of an export\<close>

text \<open>Paths that belong to one of the destinations \<open>Ds\<close>: on the way to it or below it.\<close>

definition touched :: "string \<Rightarrow> string list \<Rightarrow> string \<Rightarrow> bool" where
  "touched D Ds p = (below D p \<and> (\<exists>d\<in>set Ds. below p d \<or> below d p))"

text \<open>From \<open>D\<close> on, all directories that lead to the path are there and are no links.\<close>

definition reached :: "string \<Rightarrow> string \<Rightarrow> ufs \<Rightarrow> bool" where
  "reached D p u = (\<forall>q. clean_abs q \<and> below D q \<and> below q p \<and> q \<noteq> p \<longrightarrow> is_dir u q)"

definition dirs_to :: "string \<Rightarrow> ufs \<Rightarrow> bool" where
  "dirs_to D u = (\<forall>q. clean_abs q \<and> below q D \<longrightarrow> is_dir u q)"

definition exporting :: "string \<Rightarrow> string list \<Rightarrow> cfs \<Rightarrow> cfs \<Rightarrow> bool" where
  "exporting D Ds s t = (dirs_to D (cf_files t) \<and>
     (\<forall>p. Lstat (cf_files t) p \<noteq> Lstat (cf_files s) p \<longrightarrow> touched D Ds p \<and> (Lstat (cf_files t) p = None \<or> reached D p (cf_files t))) \<and>
     (\<forall>p. attr t p \<noteq> attr s p \<longrightarrow> touched D Ds p))"

lemma below_refl [simp]: "below p p"
  by (simp add: below_def)

lemma attr_files [simp]: "attr (s\<lparr>cf_files := u\<rparr>) p = attr s p"
  by (simp add: attr_def)

lemma attr_update: "attr (s\<lparr>cf_attr := al_update q x (cf_attr s)\<rparr>) p = (if p = q then x else attr s p)"
  by (simp add: attr_def map_of_al_update)

lemma exporting_attr: "exporting D Ds s t \<Longrightarrow> touched D Ds q \<Longrightarrow> exporting D Ds s (t\<lparr>cf_attr := al_update q x (cf_attr t)\<rparr>)"
  by (auto simp: exporting_def attr_update)

text \<open>Setting a node: it replaces a directory by a directory only.\<close>

lemma exporting_set:
  assumes "exporting D Ds s t" "clean_abs D" "clean_abs p" "p \<noteq> D" "touched D Ds p" "reached D p (cf_files t)"
    and "is_dir (cf_files t) p \<Longrightarrow> fn_kind n = Dir"
  shows "exporting D Ds s (t\<lparr>cf_files := set_node p n (cf_files t)\<rparr>)"
proof -
  let ?u = "cf_files t" and ?v = "set_node p n (cf_files t)"
  have dir: "is_dir ?u q \<Longrightarrow> is_dir ?v q" for q using assms(7) by (auto simp: is_dir_set_node)
  have "dirs_to D ?v" using assms(1) dir by (auto simp: exporting_def dirs_to_def)
  moreover have "reached D q ?v" if "reached D q ?u" for q using that dir by (auto simp: reached_def)
  ultimately show ?thesis using assms(1,5,6) by (auto simp: exporting_def Lstat_set_node)
qed

lemma exporting_RemoveAll:
  assumes "exporting D Ds s t" "clean_abs D" "clean_abs d" "below D d" "d \<noteq> D" "d \<in> set Ds"
  shows "exporting D Ds s (snd (on_files (os_RemoveAll d) t))"
proof -
  let ?u = "cf_files t" and ?v = "snd (os_RemoveAll d (cf_files t))"
  let ?keep = "\<lambda>p. \<not> below d p \<or> list_ex (below p) (uf_refuse ?u)"
  have L: "Lstat ?v p = (if ?keep p then Lstat ?u p else None)" for p
    by (rule RemoveAll_Lstat)
  have r: "rooted D" "rooted d" using assms(2,3) by (auto simp: clean_abs_def)
  have keep: "?keep q" if "clean_abs q" "below q p" "?keep p" for p q
    using that r below_trans [of d q p] below_trans [of q p] by (auto simp: list_ex_iff clean_abs_def below_iff)
  have "?keep D" using below_antisym [OF assms(2,3)] assms(4,5) by auto
  then have "dirs_to D ?v" using assms(1) keep [of _ D] L by (auto simp: exporting_def dirs_to_def is_dir_def)
  moreover have "reached D p ?v" if "reached D p ?u" "?keep p" for p
    using that keep [of _ p] L by (auto simp: reached_def is_dir_def)
  moreover have "touched D Ds p" if "below d p" for p
    using that assms(4,6) r below_trans [of D d p] by (auto simp: touched_def)
  moreover have "snd (on_files (os_RemoveAll d) t) = t\<lparr>cf_files := ?v\<rparr>" by (simp add: on_files_def case_prod_beta)
  ultimately show ?thesis using assms(1) L by (auto simp: exporting_def)
qed

section \<open>Directories\<close>

lemma below_prefix: "\<forall>c\<in>set (xs @ ys). proper c \<Longrightarrow> below (path_of True xs) (path_of True (xs @ ys))"
  by (simp add: below_path_of comps_path_of)

lemma below_cases:
  assumes "clean_abs q" "\<forall>c\<in>set (xs @ [c]). proper c" "below q (path_of True (xs @ [c]))"
  shows "q = path_of True (xs @ [c]) \<or> below q (path_of True xs)"
proof -
  obtain qs where q: "q = path_of True qs" "comps q = qs" "rooted q" using assms(1) by (rule clean_absE)
  obtain ys where ys: "xs @ [c] = qs @ ys" using assms(2,3) q by (auto simp: below_path_of)
  show ?thesis
  proof (cases "ys = []")
    case False
    then obtain zs z where "ys = zs @ [z]" by (meson rev_exhaust)
    with ys q assms(2) show ?thesis by (auto simp: below_path_of)
  qed (use ys q in simp)
qed

text \<open>Making a directory whose parents are there.\<close>

lemma mkdirs_last:
  "(\<And>k. k \<le> length cs \<Longrightarrow> is_dir u (path_of True (ds @ take k cs))) \<Longrightarrow>
   mkdirs True ds (cs @ [c]) u = mkdirs True (ds @ cs) [c] u"
proof (induction cs arbitrary: ds)
  case (Cons a cs)
  have "is_dir u (path_of True (ds @ [a]))" using Cons.prems [of 1] by simp
  then obtain n where "Stat u (path_of True (ds @ [a])) = Some n" "fn_kind n = Dir"
    using is_dir_follow [of u "path_of True (ds @ [a])"] by (auto simp: Stat_def is_dir_def)
  moreover have "mkdirs True (ds @ [a]) (cs @ [c]) u = mkdirs True ((ds @ [a]) @ cs) [c] u"
    using Cons.prems [of "Suc k" for k] by (intro Cons.IH) auto
  ultimately show ?case by simp
qed simp

lemma MkdirAll_one:
  assumes "\<forall>c\<in>set (xs @ [c]). proper c" "dirs_to (path_of True xs) u" "Lstat u (path_of True (xs @ [c])) = None"
  shows "os_MkdirAll (path_of True (xs @ [c])) u =
    (if path_of True (xs @ [c]) \<in> set (uf_refuse u) then (Some ErrIO, u) else (None, set_node (path_of True (xs @ [c])) (new_node Dir []) u))"
proof -
  have "is_dir u (path_of True (take k xs))" for k
  proof -
    have pr: "\<forall>c\<in>set (take k xs). proper c" using assms(1) in_set_takeD [of _ k xs] by auto
    moreover have "below (path_of True (take k xs)) (path_of True xs)"
      using below_prefix [of "take k xs" "drop k xs"] assms(1) by simp
    ultimately show ?thesis using assms(2) clean_abs_path_of [OF pr] by (simp add: dirs_to_def)
  qed
  then have "mkdirs True [] (xs @ [c]) u = mkdirs True xs [c] u" using mkdirs_last [of xs u "[]" c] by simp
  moreover have "path_of True (xs @ [c]) \<noteq> []" by (simp add: path_of_def)
  ultimately show ?thesis using assms(1,3) by (simp add: os_MkdirAll_def comps_path_of Stat_def follow_link_def Let_def)
qed

lemma dirs_to_step:
  assumes "dirs_to (path_of True xs) u" "\<forall>c\<in>set (xs @ [c]). proper c" "is_dir u (path_of True (xs @ [c]))"
  shows "dirs_to (path_of True (xs @ [c])) u"
  using assms below_cases [of _ xs c] by (auto simp: dirs_to_def)

lemma dirs_to_reached:
  assumes "dirs_to (path_of True xs) u" "\<forall>c\<in>set (xs @ [c]). proper c"
  shows "reached D (path_of True (xs @ [c])) u"
  using assms below_cases [of _ xs c] by (auto simp: dirs_to_def reached_def)

lemma Join_step:
  assumes "\<forall>c\<in>set (xs @ [c]). proper c"
  shows "path_Join [path_of True xs, c] = path_of True (xs @ [c])"
proof -
  have "path_Join [path_of True xs, path_of False [c]] = path_of True (comps (path_of True xs) @ [c])"
    using assms by (intro Join_rel) auto
  then show ?thesis using assms by (simp add: path_of_def [of False] comps_path_of)
qed

lemma secure_parts_export:
  assumes "exporting D Ds s t" "clean_abs D" "\<forall>c\<in>set (xs @ cs). proper c" "below D (path_of True xs)"
    and "dirs_to (path_of True xs) (cf_files t)" "d \<in> set Ds" "below (path_of True (xs @ cs)) d"
    and "secure_parts (path_of True xs) cs t = (e, t')"
  shows "exporting D Ds s t' \<and> (e = None \<longrightarrow> dirs_to (path_of True (xs @ cs)) (cf_files t'))"
  using assms(1,3-5,7,8)
proof (induction cs arbitrary: xs t)
  case (Cons c cs)
  let ?p = "path_of True (xs @ [c])"
  have pr: "\<forall>c\<in>set (xs @ [c]). proper c" using Cons.prems(2) by auto
  have ne: "c \<noteq> []" "c \<noteq> ''.''" using pr by (auto simp: proper_def)
  have r: "rooted D" "clean_abs ?p" using assms(2) clean_abs_path_of [OF pr] by (auto simp: clean_abs_def)
  have bd: "below D ?p" using below_trans [of D "path_of True xs" ?p] below_prefix [of xs "[c]"] pr r(1) Cons.prems(3) by simp
  have "below ?p (path_of True (xs @ c # cs))" using below_prefix [of "xs @ [c]" cs] Cons.prems(2) by simp
  then have "below ?p d" using Cons.prems(5) below_trans [of ?p "path_of True (xs @ c # cs)" d] by simp
  then have t: "touched D Ds ?p" using bd assms(6) by (auto simp: touched_def)
  have D: "?p \<noteq> D"
  proof
    assume "?p = D"
    then have "xs = xs @ [c] @ ys" for ys using Cons.prems(3) pr by (auto simp: below_path_of comps_path_of)
    then show False by simp
  qed
  have IH: "exporting D Ds s t' \<and> (e = None \<longrightarrow> dirs_to (path_of True (xs @ c # cs)) (cf_files t'))"
    if "exporting D Ds s t2" "is_dir (cf_files t2) ?p" "dirs_to (path_of True xs) (cf_files t2)" "secure_parts ?p cs t2 = (e, t')" for t2
    using that Cons.IH [of t2 "xs @ [c]"] Cons.prems(2,5) bd dirs_to_step [OF that(3) pr that(2)] by simp
  show ?case
  proof (cases "Lstat (cf_files t) ?p")
    case (Some n)
    show ?thesis
    proof (cases "\<not> is_link n \<and> fn_kind n = Dir")
      case True
      then have "secure_parts ?p cs t = (e, t')" using Cons.prems(6) ne Some by (simp add: Join_step [OF pr])
      with IH [OF Cons.prems(1) _ Cons.prems(4)] Some True show ?thesis by (simp add: is_dir_def)
    next
      case False
      with Cons.prems(1,6) ne Some show ?thesis by (auto simp: Join_step [OF pr] Let_def split: if_splits)
    qed
  next
    case None
    note mk = MkdirAll_one [OF pr Cons.prems(4) None]
    show ?thesis
    proof (cases "?p \<in> set (uf_refuse (cf_files t))")
      case True
      with Cons.prems(1,6) ne None mk show ?thesis by (auto simp: Join_step [OF pr] on_files_def)
    next
      case False
      let ?t1 = "t\<lparr>cf_files := set_node ?p (new_node Dir []) (cf_files t)\<rparr>"
      let ?t2 = "?t1\<lparr>cf_attr := al_update ?p (448, 0) (cf_attr ?t1)\<rparr>"
      have "exporting D Ds s ?t1"
        using None by (intro exporting_set [OF Cons.prems(1) assms(2) r(2) D t dirs_to_reached [OF Cons.prems(4) pr]]) (simp add: is_dir_def)
      then have "exporting D Ds s ?t2" by (rule exporting_attr [OF _ t])
      moreover have "is_dir (cf_files ?t2) ?p" "dirs_to (path_of True xs) (cf_files ?t2)"
        using Cons.prems(4) by (auto simp: is_dir_set_node new_node_def dirs_to_def)
      moreover have "secure_parts ?p cs ?t2 = (e, t')" using Cons.prems(6) ne None mk False by (simp add: Join_step [OF pr] on_files_def Let_def)
      ultimately show ?thesis by (rule IH)
    qed
  qed
qed simp

section \<open>Entries\<close>

lemma within_root:
  assumes "clean_abs D" "clean_abs p" "ensureWithinExportRoot D p = None"
  shows "\<exists>cs. comps p = comps D @ cs \<and> p = path_of True (comps D @ cs) \<and> (\<forall>c\<in>set cs. proper c)"
proof -
  obtain rel where "Rel D p = Some rel" "rel \<noteq> ''..''" "\<not> HasPrefix rel ''../''"
    using assms(3) by (auto simp: ensureWithinExportRoot_def split: option.splits if_splits)
  with Rel_inside assms(1) obtain cs where "comps p = comps D @ cs" by (metis clean_abs_def)
  moreover from this assms(2) have "p = path_of True (comps D @ cs)" "\<forall>c\<in>set (comps D @ cs). proper c" by (auto elim!: clean_absE)
  ultimately show ?thesis by auto
qed

lemma secure_dir_export:
  assumes "exporting D Ds s t" "clean_abs D" "clean_abs p" "d \<in> set Ds" "below p d" "ensureSecureDirPath D p t = (e, t')"
  shows "exporting D Ds s t' \<and> (e = None \<longrightarrow> dirs_to p (cf_files t'))"
proof (cases "ensureWithinExportRoot D p")
  case None
  with within_root [OF assms(2,3)] obtain cs
    where cs: "comps p = comps D @ cs" "p = path_of True (comps D @ cs)" "\<forall>c\<in>set cs. proper c" by blast
  obtain ds where D: "D = path_of True ds" "comps D = ds" "\<forall>c\<in>set ds. proper c" "rooted D" using assms(2) by (rule clean_absE)
  have rel: "Rel D p = Some (path_of False cs)" using cs(1) D(4) assms(3) by (simp add: Rel_def strip_common_prefix clean_abs_def)
  have to: "dirs_to D (cf_files t)" using assms(1) by (simp add: exporting_def)
  show ?thesis
  proof (cases "cs = []")
    case True
    then have "(e, t') = (None, t)" using assms(6) None rel by (simp add: ensureSecureDirPath_def path_of_def)
    with assms(1) to cs(2) D True show ?thesis by simp
  next
    case False
    have sp: "Split (path_of False cs) (CHR ''/'') = cs" using False cs(3) Split_Join [of cs "CHR ''/''"] by (auto simp: path_of_def proper_def)
    moreover have "path_of False cs \<noteq> ''.''"
    proof
      assume "path_of False cs = ''.''"
      then have "cs = Split ''.'' (CHR ''/'')" using sp by simp
      also have "\<dots> = [''.'']" by code_simp
      finally show False using cs(3) by (simp add: proper_def)
    qed
    ultimately have "secure_parts (path_of True ds) cs t = (e, t')" using assms(6) None rel D(1) by (simp add: ensureSecureDirPath_def)
    from secure_parts_export [OF assms(1,2) _ _ _ assms(4) _ this] to cs D assms(5) show ?thesis by (simp add: ball_Un)
  qed
next
  case (Some x)
  with assms(1,6) show ?thesis by (auto simp: ensureSecureDirPath_def)
qed

text \<open>Writing a file that is no link and whose directory is there.\<close>

lemma Truncate_export:
  assumes "exporting D Ds s t" "clean_abs D" "clean_abs p" "p \<noteq> D" "touched D Ds p" "reached D p (cf_files t)"
    and "follow_link (cf_files t) p = Some p" "on_files (os_Truncate p) t = (e, t')"
  shows "exporting D Ds s t' \<and> (e = None \<longrightarrow> (\<exists>n. Lstat (cf_files t') p = Some n \<and> fn_kind n \<noteq> Dir) \<and>
    reached D p (cf_files t') \<and> follow_link (cf_files t') p = Some p)"
proof -
  have set: "exporting D Ds s (t\<lparr>cf_files := set_node p n (cf_files t)\<rparr>) \<and> reached D p (set_node p n (cf_files t))"
    if "\<not> is_dir (cf_files t) p" for n
    using exporting_set [OF assms(1-6), of n] assms(6) that by (auto simp: reached_def is_dir_set_node)
  show ?thesis
  proof (cases "Lstat (cf_files t) p")
    case None
    then have "\<not> is_dir (cf_files t) p" by (simp add: is_dir_def)
    from set [OF this] None assms(1,7,8) show ?thesis
      by (auto simp: on_files_def os_Truncate_def os_Create_def Lstat_set_node follow_link_def split: option.splits if_splits)
  next
    case (Some n)
    show ?thesis
    proof (cases "fn_kind n = Dir")
      case True
      with Some assms(1,7,8) show ?thesis by (auto simp: on_files_def os_Truncate_def os_Create_def split: if_splits)
    next
      case False
      with Some have "\<not> is_dir (cf_files t) p" by (simp add: is_dir_def)
      from set [OF this, of "n\<lparr>fn_data := []\<rparr>"] Some False assms(1,7,8) show ?thesis
        by (auto simp: on_files_def os_Truncate_def os_Create_def Lstat_set_node follow_link_def split: if_splits fkind.splits)
    qed
  qed
qed

lemma Chmod_export:
  assumes "exporting D Ds s t" "touched D Ds p" "follow_link (cf_files t) p = Some p" "c_Chmod p m t = (e, t')"
  shows "exporting D Ds s t'"
  using assms exporting_attr [OF assms(1,2)] by (auto simp: c_Chmod_def set_attr_def split: if_splits)

lemma copy_export:
  assumes "exporting D Ds s t" "clean_abs D" "clean_abs p" "p \<noteq> D" "touched D Ds p" "reached D p (cf_files t)"
    and "follow_link (cf_files t) p = Some p" "capture_copyFile src p m t = (e, t')"
  shows "exporting D Ds s t'"
proof -
  obtain e1 t1 where t1: "on_files (os_Truncate p) t = (e1, t1)" by fastforce
  note tr = Truncate_export [OF assms(1-7) t1]
  show ?thesis
  proof (cases "e1 = None \<and> Stat (cf_files t) src \<noteq> None \<and> (\<exists>n. Stat (cf_files t1) src = Some n \<and> fn_kind n \<noteq> Dir)")
    case False
    with assms(1,8) t1 tr show ?thesis by (auto simp: capture_copyFile_def and_then_def split: option.splits if_splits)
  next
    case True
    then obtain n0 n where n: "e1 = None" "Stat (cf_files t) src = Some n0" "Stat (cf_files t1) src = Some n" "fn_kind n \<noteq> Dir" by blast
    with tr obtain m0 where m: "Lstat (cf_files t1) p = Some m0" "fn_kind m0 \<noteq> Dir" "reached D p (cf_files t1)" "follow_link (cf_files t1) p = Some p" by blast
    let ?t2 = "t1\<lparr>cf_files := set_node p (m0\<lparr>fn_data := fn_data m0 @ fn_data n\<rparr>) (cf_files t1)\<rparr>"
    have "exporting D Ds s ?t2" using tr m by (intro exporting_set [OF _ assms(2-5)]) (auto simp: is_dir_def)
    moreover have "follow_link (cf_files ?t2) p = Some p"
      using m(1,4) by (auto simp: follow_link_def Lstat_set_node split: fkind.splits)
    moreover have "c_Chmod p m ?t2 = (e, t')"
      using assms(8) t1 n m by (simp add: capture_copyFile_def and_then_def on_files_def [of "os_Append _ _"] os_Append_def)
    ultimately show ?thesis using Chmod_export [OF _ assms(5)] by blast
  qed
qed

lemma Symlink_export:
  assumes "exporting D Ds s t" "clean_abs D" "clean_abs p" "p \<noteq> D" "touched D Ds p" "reached D p (cf_files t)"
    and "on_files (os_Symlink x p) t = (e, t')"
  shows "exporting D Ds s t'"
  using assms exporting_set [OF assms(1-6)] by (auto simp: on_files_def os_Symlink_def is_dir_def split: if_splits)

lemma reached_RemoveAll:
  assumes "reached D p (cf_files t)" "clean_abs p"
  shows "reached D p (cf_files (snd (on_files (os_RemoveAll p) t)))"
proof -
  have "is_dir (snd (os_RemoveAll p (cf_files t))) q" if "is_dir (cf_files t) q" "\<not> below p q" for q
    using that by (simp add: is_dir_def RemoveAll_Lstat)
  with assms below_antisym [of _ p] show ?thesis by (auto simp: reached_def on_files_def case_prod_beta)
qed

lemma export_entry_export:
  assumes "exporting D Ds s t" "clean_abs D" "clean_abs p" "p \<noteq> D" "p \<in> set Ds" "below D p"
    and "reached D p (cf_files t)" "follow_link (cf_files t) p = Some p" "export_entry D src p entry t = (e, t')"
  shows "exporting D Ds s t'"
proof -
  have t: "touched D Ds p" using assms(5,6) by (auto simp: touched_def intro!: bexI [of _ p])
  show ?thesis
  proof (cases "en_Type entry")
    case EntryFile
    with assms(9) copy_export [OF assms(1-4) t assms(7,8)] show ?thesis by (auto simp: export_entry_def)
  next
    case EntryDir
    obtain e1 t1 where t1: "ensureSecureDirPath D p t = (e1, t1)" by fastforce
    note sec = secure_dir_export [OF assms(1-3,5) below_refl t1]
    show ?thesis
    proof (cases e1)
      case None
      then have "follow_link (cf_files t1) p = Some p" using sec assms(3) by (auto simp: dirs_to_def intro: is_dir_follow)
      with None assms(9) EntryDir t1 Chmod_export [OF conjunct1 [OF sec] t] show ?thesis by (auto simp: export_entry_def and_then_def)
    next
      case (Some x)
      with assms(9) EntryDir t1 sec show ?thesis by (auto simp: export_entry_def and_then_def)
    qed
  next
    case EntrySymlink
    note rm = exporting_RemoveAll [OF assms(1-3,6,4,5)] and re = reached_RemoveAll [OF assms(7,3)]
    from assms(9) EntrySymlink Symlink_export [OF rm assms(2-4) t re] show ?thesis by (auto simp: export_entry_def)
  qed
qed

text \<open>Where a change is exported to.\<close>

definition export_dest :: "string \<Rightarrow> Change \<Rightarrow> string" where
  "export_dest exportDir c = path_Join [exportDir, TrimPrefix (ch_Path c) ''/'']"

lemma export_change_export:
  assumes "exporting D Ds s t" "clean_abs D" "comps D \<noteq> []" "export_dest D c \<in> set Ds"
    and "export_change sourceRoot D (ch_Path c) entry t = (e, t')"
  shows "exporting D Ds s t'"
proof -
  let ?p = "export_dest D c"
  have c: "clean_abs ?p" using assms(2) clean_abs_Join by (simp add: export_dest_def clean_abs_def)
  obtain e1 t1 where t1: "ensureSecureDirPath D (parent ?p) t = (e1, t1)" by fastforce
  show ?thesis
  proof (cases "ensureWithinExportRoot D ?p = None \<and> e1 = None \<and> (\<forall>n. Lstat (cf_files t1) ?p = Some n \<longrightarrow> \<not> is_link n)")
    case True
    then obtain cs where cs: "comps ?p = comps D @ cs" "?p = path_of True (comps D @ cs)" "\<forall>c\<in>set cs. proper c"
      using within_root [OF assms(2) c] by blast
    have D: "D = path_of True (comps D)" "rooted D" using assms(2) by (auto elim!: clean_absE)
    note par = comps_parent [OF c]
    have "ensureWithinExportRoot D (parent ?p) = None" using t1 True by (auto simp: ensureSecureDirPath_def split: option.splits)
    with within_root [OF assms(2)] par obtain ds where "comps (parent ?p) = comps D @ ds" by blast
    then have "cs \<noteq> []" using par cs(1) assms(3) by (cases "comps D" rule: rev_cases) auto
    then obtain zs z where zs: "cs = zs @ [z]" by (meson rev_exhaust)
    have pp: "parent ?p = path_of True (comps D @ zs)" using cs(1) zs c by (simp add: parent_def clean_abs_def butlast_append)
    have pr: "\<forall>c\<in>set ((comps D @ zs) @ [z]). proper c" using cs(3) comps_rooted [OF D(2)] zs by auto
    have "below (parent ?p) ?p" using below_prefix [OF pr] pp cs(2) zs by (metis append_assoc)
    note sec = secure_dir_export [OF assms(1,2) _ assms(4) this t1]
    have re: "reached D ?p (cf_files t1)"
      using dirs_to_reached [of "comps D @ zs" "cf_files t1" z D] sec par True pp cs(2) zs pr by simp
    have fo: "follow_link (cf_files t1) ?p = Some ?p" using True by (intro no_link_follow) auto
    have bd: "below D ?p" "?p \<noteq> D" using cs(1) D zs c by (auto simp: below_iff clean_abs_def)
    have "export_entry D (path_Join [sourceRoot, TrimPrefix (ch_Path c) ''/'']) ?p entry t1 = (e, t')"
      using assms(5) True t1 by (auto simp: export_change_def Let_def and_then_def export_dest_def split: option.splits)
    then show ?thesis using export_entry_export [OF _ assms(2) c bd(2) assms(4) bd(1) re fo] sec par by blast
  next
    case False
    have "rooted ?p" using c by (simp add: clean_abs_def)
    then have "exporting D Ds s t1 \<or> ensureWithinExportRoot D ?p \<noteq> None"
      using secure_dir_export [OF assms(1,2) _ assms(4) _ t1] comps_parent [OF c] c
      by (cases "comps ?p" rule: rev_cases) (auto simp: below_iff)
    with False assms(1,5) t1 show ?thesis
      by (auto simp: export_change_def Let_def and_then_def export_dest_def split: option.splits if_splits)
  qed
qed

lemma exportSelected_export:
  assumes "clean_abs D" "comps D \<noteq> []"
  shows "exporting D Ds s t \<Longrightarrow> set (map (export_dest D) (filter (chosen decisions) cs)) \<subseteq> set Ds \<Longrightarrow>
    exportSelected sourceRoot D cs decisions t = (e, t') \<Longrightarrow> exporting D Ds s t'"
proof (induction cs arbitrary: t)
  case (Cons c cs)
  show ?case
  proof (cases "chosen decisions c")
    case False
    with Cons show ?thesis by (auto simp: chosen_def split: if_splits option.splits)
  next
    case True
    then obtain src where src: "ch_Source c = Some src" "decision_of decisions (ch_Path c) = DecisionYes" by (auto simp: chosen_def)
    obtain e1 t1 where t1: "export_change sourceRoot D (ch_Path c) src t = (e1, t1)" by fastforce
    have "exporting D Ds s t1" using export_change_export [OF Cons.prems(1) assms _ t1] True Cons.prems(2) by simp
    with Cons.IH [of t1] Cons.prems(2,3) src t1 True show ?thesis by (auto simp: and_then_def split: option.splits)
  qed
qed simp

text \<open>
  (C15) An export writes only what was selected: whatever the recorded paths are and whatever links lie in the
  export directory, also when it ends with an error, a path whose node or mode differs afterwards lies below
  the export directory and leads to, or lies below, the destination of a selected change; and what is there
  is reached from the export directory through directories that are no links.
\<close>

theorem exportSelected_confined:
  assumes "clean_abs exportDir" "comps exportDir \<noteq> []" "dirs_to exportDir (cf_files s)"
    and "exportSelected sourceRoot exportDir changes decisions s = (e, t)"
    and "Lstat (cf_files t) p \<noteq> Lstat (cf_files s) p \<or> attr t p \<noteq> attr s p"
  shows "below exportDir p \<and>
    (\<exists>c\<in>set changes. chosen decisions c \<and> (below p (export_dest exportDir c) \<or> below (export_dest exportDir c) p)) \<and>
    (Lstat (cf_files t) p \<noteq> Lstat (cf_files s) p \<and> Lstat (cf_files t) p \<noteq> None \<longrightarrow> reached exportDir p (cf_files t))"
proof -
  let ?Ds = "map (export_dest exportDir) (filter (chosen decisions) changes)"
  have "exporting exportDir ?Ds s s" using assms(3) by (simp add: exporting_def)
  from exportSelected_export [OF assms(1,2) this subset_refl assms(4)] assms(5) show ?thesis
    by (auto simp: exporting_def touched_def)
qed

section \<open>An export\<close>

lemma dirs_to_root: "is_dir u ''/'' \<Longrightarrow> dirs_to ''/'' u"
proof -
  assume d: "is_dir u ''/''"
  have c: "comps ''/'' = []" by code_simp
  have "q = ''/''" if "clean_abs q" "below q ''/''" for q
    using that c by (auto simp: below_iff path_of_def elim!: clean_absE)
  with d show ?thesis by (auto simp: dirs_to_def)
qed

definition source_files :: cfs where
  "source_files = \<lparr>cf_files = \<lparr>uf_nodes = [(''/'', new_node Dir []), (''/out'', new_node Dir []), (''/src'', new_node Dir []),
       (''/src/etc'', new_node Dir []), (''/src/etc/a'', new_node Regular ''hello'')], uf_refuse = []\<rparr>, cf_attr = []\<rparr>"

definition one_change :: "Change list" where
  "one_change = [newChange ''/etc/a'' ChangeAdded (Some (zero_Entry\<lparr>en_Path := ''/etc/a'', en_Mode := 420\<rparr>)) None]"

lemma export_files_exported:
  "case exportSelected ''/src'' ''/out'' one_change (Some [(''/etc/a'', DecisionYes)]) source_files of (e, t) \<Rightarrow>
     e = None \<and> map_option fn_data (Lstat (cf_files t) ''/out/etc/a'') = Some ''hello'' \<and> fst (attr t ''/out/etc/a'') = 420"
  by code_simp

text \<open>Witness for \<open>exportSelected_confined\<close>.\<close>

theorem exportSelected_confined_witness:
  "case exportSelected ''/src'' ''/out'' one_change (Some [(''/etc/a'', DecisionYes)]) source_files of (e, t) \<Rightarrow>
     e = None \<and> map_option fn_data (Lstat (cf_files t) ''/out/etc/a'') = Some ''hello'' \<and> below ''/out'' ''/out/etc/a'' \<and>
     reached ''/out'' ''/out/etc/a'' (cf_files t)"
proof -
  obtain e t where r: "exportSelected ''/src'' ''/out'' one_change (Some [(''/etc/a'', DecisionYes)]) source_files = (e, t)" by fastforce
  have x: "e = None" "map_option fn_data (Lstat (cf_files t) ''/out/etc/a'') = Some ''hello''" using export_files_exported r by auto
  have f: "is_dir (cf_files source_files) ''/''" "is_dir (cf_files source_files) ''/out''" "clean_abs ''/out''" "comps ''/out'' \<noteq> []"
    "Lstat (cf_files source_files) ''/out/etc/a'' = None" "path_of True [] = ''/''" "path_of True [''out''] = ''/out''" "proper ''out''" by code_simp+
  have "dirs_to ''/out'' (cf_files source_files)"
    using dirs_to_step [of "[]" "cf_files source_files" "''out''"] dirs_to_root [OF f(1)] f by simp
  from exportSelected_confined [OF f(3,4) this r, of "''/out/etc/a''"] x f(5) r show ?thesis by auto
qed

text \<open>
  The start of a capture looks at the path as it was given, the end at the absolute one: with another way
  to write the root the baseline covers the whole tree and the comparison the default roots only.
\<close>

lemma start_stop_roots:
  "so_IncludeRoots (start_options ''//'' excludes) = [] \<and>
   so_IncludeRoots (stop_options f (filepath_Abs cwd ''//'') snapshot) = defaultIncludeRoots"
proof -
  have "filepath_Abs cwd ''//'' = ''/''" unfolding filepath_Abs_def by code_simp
  then show ?thesis by (simp add: start_options_def stop_options_def defaultSourcePath_def)
qed

end
