(* ===== verification/Overlay_Import.thy ===== *)
theory Overlay_Import
  imports Image_Facts Capture_Export
begin

text \<open>
  Importing into overlays, \<open>wwctl/overlay/imprt\<close>: a single file, or the archive of an artifact that was
  captured on a node.

  \<^item> The decoder of the archive is the parameter \<open>untar\<close>: the entries that can be read, and whether the end of
    the archive was reached; \<open>None\<close> when it is no compressed archive.
  \<^item> The calls of \<open>os.Root\<close> are made on the path below the root; that the code looks for links on the way before
    each of them is modelled.
\<close>

section \<open>A single file\<close>

definition import_file :: "(string \<Rightarrow> string \<Rightarrow> ufs effect) \<Rightarrow> string \<Rightarrow> string \<Rightarrow> bool \<Rightarrow> bool \<Rightarrow> string \<Rightarrow> string \<Rightarrow> string option \<Rightarrow> ufs effect" where
  "import_file dircopy sitedir distdir overwrite createDirs name source dest0 u =
     (case overlay_Get sitedir distdir u name of
        Inl e \<Rightarrow> (Some e, u)
      | Inr o1 \<Rightarrow> writable dircopy sitedir (\<not> IsSiteOverlay sitedir o1) o1 (\<lambda>o1 u.
          let dest = (case dest0 of Some d \<Rightarrow> d | None \<Rightarrow> source);
              dest = (if uIsDir u (Overlay_File u o1 dest) then path_Join [dest, path_Base source] else dest);
              full = Overlay_File u o1 dest
          in if \<not> overwrite \<and> uIsFile u full then (Some (ErrMsg ''a file with that name already exists in the overlay''), u)
             else and_then
               (if createDirs \<and> Stat u (if full = [] then ''.'' else parent full) = None
                then (if Stat u source = None then (Some ErrIO, u) else os_MkdirAll (if full = [] then ''.'' else parent full) u)
                else (None, u))
               (\<lambda>u. if full = [] then (Some ErrIO, u) else CopyFile source full u)) u)"

section \<open>Entries of an archive\<close>

datatype typeflag = TypeDir | TypeReg | TypeSymlink | TypeLink | TypeOther

record tar_header =
  hd_Name :: string
  hd_Typeflag :: typeflag
  hd_Mode :: int
  hd_Linkname :: string
  hd_Data :: string

definition cleanArchiveEntryName :: "string \<Rightarrow> string result" where
  "cleanArchiveEntryName name =
     (if TrimSpace name = [] then Inl (ErrMsg ''artifact archive contains an empty path'')
      else if rooted name then Inl (ErrMsg (''artifact archive contains absolute path: '' @ name))
      else let cleaned = Clean name in
        if cleaned = ''.'' \<or> cleaned = ''..'' \<or> HasPrefix cleaned ''../'' then Inl (ErrMsg (''artifact archive path escapes root: '' @ name))
        else Inr cleaned)"

text \<open>The components of a link target: a name was seen before a step up.\<close>

fun up_after_name :: "bool \<Rightarrow> string list \<Rightarrow> bool" where
  "up_after_name seenName [] = False"
| "up_after_name seenName (part # parts) =
     (if part = [] \<or> part = ''.'' then up_after_name seenName parts
      else if part = ''..'' then seenName \<or> up_after_name seenName parts
      else up_after_name True parts)"

definition in_rootfs :: "string \<Rightarrow> bool" where
  "in_rootfs name = (name = ''rootfs'' \<or> HasPrefix name ''rootfs/'')"

definition validateArchiveSymlink :: "string \<Rightarrow> string \<Rightarrow> err option" where
  "validateArchiveSymlink entryName linkName =
     (if TrimSpace linkName = [] then Some (ErrMsg (''artifact symlink has empty target: '' @ entryName))
      else if rooted linkName then Some (ErrMsg (''artifact symlink target must be relative: '' @ entryName @ '' -> '' @ linkName))
      else if up_after_name False (Split linkName (CHR ''/'')) then
        Some (ErrMsg (''artifact symlink target must not contain .. after other components: '' @ entryName @ '' -> '' @ linkName))
      else let resolved = Clean (path_Join [parent entryName, linkName]) in
        if resolved = ''..'' \<or> HasPrefix resolved ''../'' then Some (ErrMsg (''artifact symlink target escapes archive root: '' @ entryName @ '' -> '' @ linkName))
        else if \<not> in_rootfs resolved then Some (ErrMsg (''artifact symlink target escapes rootfs: '' @ entryName @ '' -> '' @ linkName))
        else None)"

section \<open>Extracting\<close>

text \<open>Making what was not there: \<open>Mkdir\<close>, \<open>Symlink\<close> and \<open>OpenFile\<close> with \<open>O_EXCL\<close>.\<close>

definition make_node :: "string \<Rightarrow> fnode \<Rightarrow> ufs effect" where
  "make_node p n u =
     (if Lstat u p \<noteq> None \<or> p \<in> set (uf_refuse u) \<or> \<not> is_dir u (parent p) then (Some ErrIO, u) else (None, set_node p n u))"

fun import_dirs :: "string \<Rightarrow> string list \<Rightarrow> ufs effect" where
  "import_dirs current [] u = (None, u)"
| "import_dirs current (part # parts) u =
     (if part = [] \<or> part = ''.'' then import_dirs current parts u
      else (let current = path_Join [current, part] in
        case Lstat u current of
          Some n \<Rightarrow>
            if is_link n then (Some (ErrMsg (''refusing to extract through symlinked directory: '' @ current)), u)
            else if fn_kind n \<noteq> Dir then (Some (ErrMsg (''artifact extraction path is not a directory: '' @ current)), u)
            else import_dirs current parts u
        | None \<Rightarrow> and_then (make_node current (new_node Dir []) u) (import_dirs current parts)))"

definition ensureImportDir :: "string \<Rightarrow> string \<Rightarrow> ufs effect" where
  "ensureImportDir root dir = import_dirs root (Split dir (CHR ''/''))"

definition writeArchiveFile :: "string \<Rightarrow> string \<Rightarrow> string \<Rightarrow> ufs effect" where
  "writeArchiveFile root name content u = make_node (path_Join [root, name]) (new_node Regular content) u"

definition extractArtifactEntry :: "string \<Rightarrow> tar_header \<Rightarrow> ufs effect" where
  "extractArtifactEntry root header u = (case cleanArchiveEntryName (hd_Name header) of
      Inl e \<Rightarrow> (Some e, u)
    | Inr name \<Rightarrow>
        if name \<noteq> ArtifactManifestFileName \<and> \<not> in_rootfs name
        then (Some (ErrMsg (''artifact archive entry is outside allowed layout: '' @ hd_Name header)), u)
        else (case hd_Typeflag header of
            TypeDir \<Rightarrow> ensureImportDir root name u
          | TypeReg \<Rightarrow> and_then (ensureImportDir root (parent name) u) (writeArchiveFile root name (hd_Data header))
          | TypeSymlink \<Rightarrow>
              (case validateArchiveSymlink name (hd_Linkname header) of
                 Some e \<Rightarrow> (Some e, u)
               | None \<Rightarrow> and_then (ensureImportDir root (parent name) u) (os_Symlink (hd_Linkname header) (path_Join [root, name])))
          | TypeLink \<Rightarrow> (Some (ErrMsg (''artifact archive hardlinks are not supported: '' @ hd_Name header)), u)
          | TypeOther \<Rightarrow> (Some (ErrMsg (''unsupported artifact archive entry type for '' @ hd_Name header)), u)))"

fun extract_entries :: "string \<Rightarrow> tar_header list \<Rightarrow> ufs effect" where
  "extract_entries root [] u = (None, u)"
| "extract_entries root (h # hs) u = and_then (extractArtifactEntry root h u) (extract_entries root hs)"

definition extractArtifactArchive :: "(string \<Rightarrow> (tar_header list \<times> bool) option) \<Rightarrow> string \<Rightarrow> string \<Rightarrow> ufs effect" where
  "extractArtifactArchive untar archivePath destRoot u =
     (if \<not> is_dir u destRoot then (Some ErrIO, u)
      else (case Stat u archivePath of
         None \<Rightarrow> (Some ErrIO, u)
       | Some n \<Rightarrow>
           (case (if fn_kind n = Dir then None else untar (fn_data n)) of
              None \<Rightarrow> (Some (ErrMsg ''artifact archive is not gzip-compressed tar''), u)
            | Some (hs, complete) \<Rightarrow>
                and_then (extract_entries destRoot hs u) (\<lambda>u. (if complete then None else Some (ErrMsg ''could not read artifact archive''), u)))))"

section \<open>Installing an archive\<close>

definition stage_dir :: "string \<Rightarrow> (ufs \<Rightarrow> string) \<Rightarrow> ufs \<Rightarrow> string" where
  "stage_dir siteDir rnd u = path_Join [siteDir, ''.ww-overlay-import-'' @ rnd u]"

definition check_stage :: "(string \<Rightarrow> ArtifactManifest option) \<Rightarrow> string \<Rightarrow> string \<Rightarrow> ufs effect" where
  "check_stage parse overlayName stageRoot u = (case ValidateArtifact parse u stageRoot of
      Some e \<Rightarrow> (Some e, u)
    | None \<Rightarrow>
        (case LoadArtifactManifest parse u (path_Join [stageRoot, ArtifactManifestFileName]) of
           Inl e \<Rightarrow> (Some e, u)
         | Inr manifest \<Rightarrow>
             (if am_OverlayName manifest \<noteq> overlayName then Some (ErrMsg ''artifact overlay name does not match requested overlay'') else None, u)))"

definition install_stage :: "bool \<Rightarrow> string \<Rightarrow> string \<Rightarrow> ufs effect" where
  "install_stage overwrite stageRoot targetOverlay u =
     and_then (if overwrite then os_RemoveAll targetOverlay u else (None, u)) (os_RenameAny stageRoot targetOverlay)"

text \<open>After an error the staging directory is removed.\<close>

definition importArchive :: "(string \<Rightarrow> (tar_header list \<times> bool) option) \<Rightarrow> (string \<Rightarrow> ArtifactManifest option) \<Rightarrow> (ufs \<Rightarrow> string) \<Rightarrow>
    string \<Rightarrow> bool \<Rightarrow> string \<Rightarrow> string \<Rightarrow> ufs effect" where
  "importArchive untar parse rnd siteDir overwrite overlayName archivePath u = (case ValidateOverlayName overlayName of
      Some e \<Rightarrow> (Some e, u)
    | None \<Rightarrow>
        and_then (os_MkdirAll siteDir u) (\<lambda>u.
          let targetOverlay = path_Join [siteDir, overlayName] in
          if Lstat u targetOverlay \<noteq> None \<and> \<not> overwrite then (Some (ErrMsg (''overlay already exists: '' @ overlayName)), u)
          else (let stageRoot = stage_dir siteDir rnd u in
            and_then (make_node stageRoot (new_node Dir []) u) (\<lambda>u.
              (case and_then (and_then (extractArtifactArchive untar archivePath stageRoot u) (check_stage parse overlayName stageRoot))
                 (install_stage overwrite stageRoot targetOverlay) of
                 (None, u) \<Rightarrow> (None, u)
               | (Some e, u) \<Rightarrow> (Some e, snd (os_RemoveAll stageRoot u)))))))"

end
