(* ===== verification/Import_Facts.thy ===== *)
theory Import_Facts
  imports Overlay_Import
begin

text \<open>
  What an imported archive can contain, and what an import changes.
\<close>

section \<open>Relative paths\<close>

definition rel_form :: "string list \<Rightarrow> bool" where
  "rel_form cs = (\<exists>k xs. cs = replicate k ''..'' @ xs \<and> (\<forall>c\<in>set xs. proper c))"

lemma rel_form_ups: "\<forall>c\<in>set xs. proper c \<Longrightarrow> rel_form (replicate k ''..'' @ xs)"
  by (auto simp: rel_form_def)

lemma rev_ups: "rev (replicate j ''..'' @ ys) = rev ys @ replicate j ''..''"
  by simp

lemma clean_comps_rel_form:
  "\<forall>c\<in>set cs. CHR ''/'' \<notin> set c \<Longrightarrow> \<forall>c\<in>set ys. proper c \<Longrightarrow> rel_form (clean_comps False cs (rev ys @ replicate j ''..''))"
proof (induction cs arbitrary: ys j)
  case Nil
  then show ?case using rel_form_ups [of ys j] by simp
next
  case (Cons c cs)
  show ?case
  proof (cases "c = [] \<or> c = ''.''")
    case True
    with Cons show ?thesis by simp
  next
    case dots: False
    show ?thesis
    proof (cases "c = ''..''")
      case False
      then have "proper c" using dots Cons.prems(1) by (simp add: proper_def)
      with False dots Cons.IH [of "ys @ [c]" j] Cons.prems show ?thesis by simp
    next
      case True
      show ?thesis
      proof (cases ys rule: rev_cases)
        case Nil
        with True dots Cons.IH [of "[]" "Suc j"] Cons.prems show ?thesis by (cases j) simp_all
      next
        case (snoc zs z)
        with Cons.prems(2) have "z \<noteq> ''..''" by (auto simp: proper_def)
        with snoc True dots Cons.IH [of zs j] Cons.prems show ?thesis by simp
      qed
    qed
  qed
qed

lemma comps_rel_form: "\<not> rooted p \<Longrightarrow> rel_form (comps p)"
  unfolding comps_def using clean_comps_rel_form [of "Split p (CHR ''/'')" "[]" 0] Split_parts_no_sep [of _ p "CHR ''/''"] by simp

lemma rel_form_no_slash:
  assumes "rel_form cs"
  shows "\<forall>c\<in>set cs. CHR ''/'' \<notin> set c \<and> c \<noteq> []"
proof -
  obtain k xs where k: "cs = replicate k ''..'' @ xs" "\<forall>c\<in>set xs. proper c" using assms by (auto simp: rel_form_def)
  have "c = ''..'' \<or> proper c" if "c \<in> set cs" for c using that k by (auto split: if_splits)
  then show ?thesis by (fastforce simp: proper_def)
qed

lemma Split_path_rel: "rel_form cs \<Longrightarrow> Split (path_of False cs) (CHR ''/'') = (if cs = [] then [''.''] else cs)"
proof (cases "cs = []")
  case True
  then show ?thesis using Split_no_sep [of "CHR ''/''" "''.''"] by (simp add: path_of_def)
next
  case False
  assume "rel_form cs"
  with False show ?thesis using rel_form_no_slash [of cs] Split_Join [of cs "CHR ''/''"] by (simp add: path_of_def)
qed

lemma clean_comps_ups: "clean_comps False (replicate k ''..'' @ xs) (replicate j ''..'') = clean_comps False xs (replicate (j + k) ''..'')"
proof (induction k arbitrary: j)
  case (Suc k)
  then show ?case using Suc.IH [of "Suc j"] by (cases j) simp_all
qed simp

lemma not_rooted_rel: "rel_form cs \<Longrightarrow> \<not> rooted (path_of False cs)"
proof
  assume cs: "rel_form cs" and r: "rooted (path_of False cs)"
  then obtain x where "path_of False cs = CHR ''/'' # x" by (cases "path_of False cs") (auto simp: rooted_def HasPrefix_def)
  then have "hd (Split (path_of False cs) (CHR ''/'')) = []" using Split_append [of "CHR ''/''" "[]" x] by simp
  with cs show False using Split_path_rel [OF cs] rel_form_no_slash [OF cs] by (cases cs) auto
qed

lemma comps_path_rel: "rel_form cs \<Longrightarrow> comps (path_of False cs) = cs"
proof -
  assume cs: "rel_form cs"
  then obtain k xs where k: "cs = replicate k ''..'' @ xs" "\<forall>c\<in>set xs. proper c" by (auto simp: rel_form_def)
  have "comps (path_of False cs) = clean_comps False cs []"
    using Split_path_rel [OF cs] not_rooted_rel [OF cs] by (simp add: comps_def)
  then show ?thesis using clean_comps_ups [of k xs 0] clean_comps_proper [OF k(2)] k(1) by simp
qed

lemma no_climb:
  assumes "rel_form cs" "path_of False cs \<noteq> ''..''" "\<not> HasPrefix (path_of False cs) ''../''"
  shows "\<forall>c\<in>set cs. proper c"
proof -
  obtain k xs where k: "cs = replicate k ''..'' @ xs" "\<forall>c\<in>set xs. proper c" using assms(1) by (auto simp: rel_form_def)
  have "k = 0"
  proof (rule ccontr)
    assume "k \<noteq> 0"
    then obtain ys where ys: "cs = ''..'' # ys" using k(1) by (cases k) auto
    with assms(2,3) show False by (cases ys) (auto simp: path_of_def)
  qed
  with k show ?thesis by simp
qed

lemma in_rootfs_hd:
  assumes "\<forall>c\<in>set cs. proper c" "in_rootfs (path_of False cs)"
  shows "\<exists>rest. cs = ''rootfs'' # rest"
proof -
  have cs: "rel_form cs" using rel_form_ups [of cs 0] assms(1) by simp
  from assms(2) consider "path_of False cs = ''rootfs''" | x where "path_of False cs = ''rootfs'' @ CHR ''/'' # x"
    unfolding in_rootfs_def HasPrefix_def by (metis append_Cons append_Nil append_assoc append_take_drop_id)
  then have "hd (Split (path_of False cs) (CHR ''/'')) = ''rootfs''"
  proof cases
    case 1
    then show ?thesis using Split_no_sep [of "CHR ''/''" "''rootfs''"] by simp
  next
    case 2
    then show ?thesis using Split_append [of "CHR ''/''" "''rootfs''" x] by simp
  qed
  with Split_path_rel [OF cs] show ?thesis by (cases cs) auto
qed

section \<open>Names and links of entries\<close>

definition layout :: "string list \<Rightarrow> bool" where
  "layout cs = (cs = [ArtifactManifestFileName] \<or> cs \<noteq> [] \<and> hd cs = ''rootfs'')"

text \<open>
  A link at the components \<open>cs\<close> below the overlay: its target climbs first and then only descends, and from
  the directory of the link it leads into \<open>rootfs\<close>.
\<close>

definition safe_link :: "string list \<Rightarrow> string \<Rightarrow> bool" where
  "safe_link cs target = (\<exists>k names rest. filter (\<lambda>c. c \<noteq> [] \<and> c \<noteq> ''.'') (Split target (CHR ''/'')) = replicate k ''..'' @ names \<and>
     ''..'' \<notin> set names \<and> k < length cs \<and> take (length cs - 1 - k) cs @ names = ''rootfs'' # rest)"

lemma entry_name:
  assumes "cleanArchiveEntryName x = Inr name" "name = ArtifactManifestFileName \<or> in_rootfs name"
  shows "\<exists>cs. name = path_of False cs \<and> (\<forall>c\<in>set cs. proper c) \<and> layout cs"
proof -
  have x: "\<not> rooted x" "name = Clean x" "name \<noteq> ''.''" "name \<noteq> ''..''" "\<not> HasPrefix name ''../''"
    using assms(1) by (auto simp: cleanArchiveEntryName_def Let_def split: if_splits)
  let ?cs = "comps x"
  have n: "name = path_of False ?cs" using x(1,2) by (simp add: Clean_def)
  have pr: "\<forall>c\<in>set ?cs. proper c" using no_climb [OF comps_rel_form [OF x(1)]] n x(4,5) by simp
  have "layout ?cs"
  proof (cases "name = ArtifactManifestFileName")
    case True
    have "Split ArtifactManifestFileName (CHR ''/'') = [ArtifactManifestFileName]" "ArtifactManifestFileName \<noteq> ''.''" by code_simp+
    then show ?thesis using Split_path_rel [OF comps_rel_form [OF x(1)]] n True by (auto simp: layout_def split: if_splits)
  next
    case False
    with assms(2) in_rootfs_hd [OF pr] n show ?thesis by (auto simp: layout_def)
  qed
  with n pr show ?thesis by blast
qed

lemma up_after_name_False:
  "\<not> up_after_name seen parts \<Longrightarrow> \<exists>k names. filter (\<lambda>c. c \<noteq> [] \<and> c \<noteq> ''.'') parts = replicate k ''..'' @ names \<and> ''..'' \<notin> set names \<and> (seen \<longrightarrow> k = 0)"
proof (induction parts arbitrary: seen)
  case (Cons part parts)
  consider "part = [] \<or> part = ''.''" | "part = ''..''" | "\<not> (part = [] \<or> part = ''.'')" "part \<noteq> ''..''" by blast
  then show ?case
  proof cases
    case 1
    with Cons show ?thesis by auto
  next
    case 2
    then have "\<not> seen" "\<not> up_after_name seen parts" using Cons.prems by auto
    with Cons.IH obtain k names where "filter (\<lambda>c. c \<noteq> [] \<and> c \<noteq> ''.'') parts = replicate k ''..'' @ names" "''..'' \<notin> set names" by blast
    with 2 \<open>\<not> seen\<close> show ?thesis by (intro exI [of _ "Suc k"] exI [of _ names]) simp
  next
    case 3
    with Cons.prems have "\<not> up_after_name True parts" by simp
    from Cons.IH [OF this] have "''..'' \<notin> set (filter (\<lambda>c. c \<noteq> [] \<and> c \<noteq> ''.'') parts)" by auto
    then obtain names where "filter (\<lambda>c. c \<noteq> [] \<and> c \<noteq> ''.'') parts = names" "''..'' \<notin> set names" by blast
    with 3 show ?thesis by (intro exI [of _ 0] exI [of _ "part # names"]) auto
  qed
qed simp

lemma clean_comps_skip: "clean_comps r cs out = clean_comps r (filter (\<lambda>c. c \<noteq> [] \<and> c \<noteq> ''.'') cs) out"
  by (induction r cs out rule: clean_comps.induct) (auto split: list.splits)

lemma clean_comps_climb:
  "\<forall>c\<in>set bs. proper c \<Longrightarrow> clean_comps False (replicate k ''..'' @ names) (rev bs) =
     (if k \<le> length bs then clean_comps False names (rev (take (length bs - k) bs))
      else clean_comps False names (replicate (k - length bs) ''..''))"
proof (induction k arbitrary: bs)
  case (Suc k)
  show ?case
  proof (cases bs rule: rev_cases)
    case Nil
    then show ?thesis using clean_comps_ups [of k names 1] by simp
  next
    case (snoc cs c)
    with Suc.prems have "c \<noteq> ''..''" by (auto simp: proper_def)
    with snoc Suc.IH [of cs] Suc.prems show ?thesis by (simp add: Suc_diff_le)
  qed
qed simp

lemma parent_rel: "\<forall>c\<in>set cs. proper c \<Longrightarrow> parent (path_of False cs) = path_of False (butlast cs)"
  using rel_form_ups [of cs 0] comps_path_rel [of cs] not_rooted_rel [of cs] by (simp add: parent_def)

lemma names_proper:
  assumes "filter (\<lambda>c. c \<noteq> [] \<and> c \<noteq> ''.'') (Split x (CHR ''/'')) = ys @ names" "''..'' \<notin> set names"
  shows "\<forall>c\<in>set names. proper c"
proof
  fix c assume c: "c \<in> set names"
  then have "c \<in> set (filter (\<lambda>c. c \<noteq> [] \<and> c \<noteq> ''.'') (Split x (CHR ''/'')))" using assms(1) by simp
  with c assms(2) show "proper c" using Split_parts_no_sep [of c x] by (auto simp: proper_def)
qed

lemma validated_link:
  assumes "\<forall>c\<in>set cs. proper c" "cs \<noteq> []" "validateArchiveSymlink (path_of False cs) target = None"
  shows "safe_link cs target"
proof -
  let ?bs = "butlast cs" and ?parts = "filter (\<lambda>c. c \<noteq> [] \<and> c \<noteq> ''.'') (Split target (CHR ''/''))"
  have bs: "\<forall>c\<in>set ?bs. proper c" using assms(1) by (meson in_set_butlastD)
  have rb: "rel_form ?bs" using rel_form_ups [of ?bs 0] bs by simp
  let ?j = "path_of False ?bs @ ''/'' @ target" and ?resolved = "Clean (path_Join [parent (path_of False cs), target])"
  have v: "TrimSpace target \<noteq> []" "\<not> rooted target" "\<not> up_after_name False (Split target (CHR ''/''))" "?resolved \<noteq> ''..''"
    "\<not> HasPrefix ?resolved ''../''" "in_rootfs ?resolved"
    using assms(3) by (auto simp: validateArchiveSymlink_def Let_def split: if_splits)
  from up_after_name_False [OF v(3)] obtain k names where k: "?parts = replicate k ''..'' @ names" "''..'' \<notin> set names" by blast
  have names: "\<forall>c\<in>set names. proper c" using names_proper [OF k] .
  have "target \<noteq> []" using v(1) by (auto simp: TrimSpace_def)
  moreover have ne: "path_of False ?bs \<noteq> []"
  proof
    assume "path_of False ?bs = []"
    then have "[[]] = (if ?bs = [] then [''.''] else ?bs)" using Split_path_rel [OF rb] Split_no_sep [of "CHR ''/''" "[]"] by simp
    then have "?bs = [[]]" by (cases "?bs = []") simp_all
    then show False using rel_form_no_slash [OF rb] by simp
  qed
  ultimately have j: "path_Join [parent (path_of False cs), target] = Clean ?j" using parent_rel [OF assms(1)] by (simp add: path_Join_def)
  have nr: "\<not> rooted ?j" using not_rooted_rel [OF rb] ne by (cases "path_of False ?bs") (auto simp: rooted_def HasPrefix_def)
  have "comps ?j = clean_comps False (Split (path_of False ?bs) (CHR ''/'') @ Split target (CHR ''/'')) []"
    using nr Split_append_sep [of "path_of False ?bs" "CHR ''/''" target] by (simp add: comps_def)
  also have "\<dots> = clean_comps False (Split target (CHR ''/'')) (rev ?bs)"
    using Split_path_rel [OF rb] clean_comps_proper [OF bs, of False "[]"] by (simp add: clean_comps_append)
  also have "\<dots> = clean_comps False (replicate k ''..'' @ names) (rev ?bs)" using clean_comps_skip [of False "Split target (CHR ''/'')"] k(1) by simp
  finally have c: "comps ?j = (if k \<le> length ?bs then take (length ?bs - k) ?bs @ names else replicate (k - length ?bs) ''..'' @ names)"
    using clean_comps_climb [OF bs] clean_comps_proper [OF names] by simp
  have rc: "rel_form (comps ?j)" by (rule comps_rel_form [OF nr])
  have res: "?resolved = path_of False (comps ?j)"
    using j nr comps_path_rel [OF rc] not_rooted_rel [OF rc] by (simp add: Clean_def)
  have pr: "\<forall>c\<in>set (comps ?j). proper c" using no_climb [OF rc] res v(4,5) by simp
  from in_rootfs_hd [OF pr] res v(6) obtain rest where rest: "comps ?j = ''rootfs'' # rest" by auto
  have kl: "k \<le> length ?bs"
  proof (rule ccontr)
    assume "\<not> k \<le> length ?bs"
    then have "''..'' \<in> set (comps ?j)" using c by simp
    with pr show False by (metis proper_def)
  qed
  then have "k < length cs" using assms(2) by (cases cs rule: rev_cases) auto
  moreover have "take (length cs - 1 - k) cs @ names = ''rootfs'' # rest"
    using c kl rest take_butlast_le [of "length cs - 1 - k" cs] by simp
  ultimately show ?thesis using k by (auto simp: safe_link_def)
qed

section \<open>Extracting\<close>

definition staged :: "string \<Rightarrow> ufs \<Rightarrow> ufs \<Rightarrow> bool" where
  "staged D u0 u = (tree_ok u \<and> is_dir u D \<and> same_outside D u0 u \<and> uf_refuse u = uf_refuse u0 \<and>
     (\<forall>p n. Lstat u p = Some n \<and> below D p \<and> p \<noteq> D \<longrightarrow>
        (\<exists>cs. comps p = comps D @ cs \<and> layout cs \<and> (is_link n \<longrightarrow> safe_link cs (fn_data n)))))"

lemma tree_ok_new:
  assumes "tree_ok u" "clean_abs p" "Lstat u p = None" "is_dir u (parent p)"
  shows "tree_ok (set_node p n u)"
proof -
  have up: "is_dir u d" if "clean_abs d" "comps d \<noteq> []" "d \<noteq> p" "below d p" for d
  proof (cases "d = parent p")
    case False
    have "comps p \<noteq> []" using that by (auto simp: below_iff clean_abs_def)
    then obtain xs x where x: "comps p = xs @ [x]" by (meson rev_exhaust)
    have p: "p = path_of True (xs @ [x])" "\<forall>c\<in>set (xs @ [x]). proper c" using assms(2) x by (auto elim!: clean_absE)
    have "parent p = path_of True xs" using x assms(2) by (simp add: parent_def clean_abs_def)
    with below_cases [OF that(1) p(2)] that p(1) have "below d (parent p)" by auto
    moreover have "Lstat u (parent p) \<noteq> None" using assms(4) by (auto simp: is_dir_def)
    ultimately show ?thesis using assms(1) that False unfolding tree_ok_def by blast
  qed (use assms(4) in simp)
  have keep: "is_dir u d \<Longrightarrow> is_dir (set_node p n u) d" for d using assms(3) by (auto simp: is_dir_def Lstat_set_node)
  show ?thesis unfolding tree_ok_def
  proof (intro allI impI conjI)
    fix k assume k: "Lstat (set_node p n u) k \<noteq> None"
    then show "clean_abs k" using assms(1,2) unfolding tree_ok_def Lstat_set_node by (cases "k = p") auto
    fix d assume d: "clean_abs d \<and> comps d \<noteq> [] \<and> d \<noteq> k \<and> below d k"
    have "is_dir u d"
    proof (cases "k = p")
      case False
      with k have "Lstat u k \<noteq> None" by (simp add: Lstat_set_node)
      then show ?thesis using assms(1) d unfolding tree_ok_def by blast
    qed (use up d in auto)
    then show "is_dir (set_node p n u) d" by (rule keep)
  qed
qed

lemma staged_make:
  assumes "staged D u0 u" "clean_abs D" "\<forall>c\<in>set cs. proper c" "layout cs" "is_link n \<Longrightarrow> safe_link cs (fn_data n)"
    and "make_node (path_of True (comps D @ cs)) n u = (e, v)"
  shows "staged D u0 v \<and> (e = None \<longrightarrow> Lstat v (path_of True (comps D @ cs)) = Some n)"
proof -
  let ?p = "path_of True (comps D @ cs)"
  have pr: "\<forall>c\<in>set (comps D @ cs). proper c" using assms(2,3) comps_rooted [of D] by (auto simp: clean_abs_def)
  have cp: "clean_abs ?p" "comps ?p = comps D @ cs" using clean_abs_path_of [OF pr] comps_path_of [OF pr] by auto
  have r: "rooted D" using assms(2) by (simp add: clean_abs_def)
  have bd: "below D ?p" "?p \<noteq> D" using cp r assms(4) by (auto simp: below_iff layout_def)
  have "staged D u0 (set_node ?p n u)" if "Lstat u ?p = None" "is_dir u (parent ?p)"
  proof -
    have "is_dir (set_node ?p n u) D" using assms(1) bd(2) by (simp add: is_dir_set_node staged_def)
    moreover have "same_outside D u0 (set_node ?p n u)" using assms(1) bd(1) by (auto simp: staged_def same_outside_def Lstat_set_node)
    ultimately show ?thesis using assms(1,4,5) tree_ok_new [OF _ cp(1) that] cp(2) unfolding staged_def
      by (auto simp: Lstat_set_node split: if_splits)
  qed
  then show ?thesis using assms(1,6) by (auto simp: make_node_def Lstat_set_node split: if_splits)
qed

lemma layout_prefix: "layout (xs @ ys) \<Longrightarrow> xs \<noteq> [] \<Longrightarrow> layout xs"
  by (cases xs) (auto simp: layout_def)

lemma import_dirs_staged:
  assumes "clean_abs D"
  shows "staged D u0 u \<Longrightarrow> \<forall>c\<in>set (xs @ cs). proper c \<Longrightarrow> cs = [] \<or> layout (xs @ cs) \<Longrightarrow>
    import_dirs (path_of True (comps D @ xs)) cs u = (e, v) \<Longrightarrow> staged D u0 v"
proof (induction cs arbitrary: xs u)
  case (Cons c cs)
  let ?p = "path_of True (comps D @ xs @ [c])"
  have pr: "\<forall>c\<in>set ((comps D @ xs) @ [c]). proper c" using Cons.prems(2) assms comps_rooted [of D] by (auto simp: clean_abs_def)
  have ne: "c \<noteq> []" "c \<noteq> ''.''" using pr by (auto simp: proper_def)
  have lay: "layout (xs @ [c])" "layout ((xs @ [c]) @ cs)" using Cons.prems(3) layout_prefix [of "xs @ [c]" cs] by auto
  have IH: "staged D u0 v" if "staged D u0 w" "import_dirs ?p cs w = (e, v)" for w
    using Cons.IH [of w "xs @ [c]"] that lay(2) Cons.prems(2) by simp
  note run = Cons.prems(4) [simplified, unfolded Join_step [OF pr] Let_def, simplified]
  show ?case
  proof (cases "Lstat u ?p")
    case (Some n)
    with Cons.prems(1,4) IH [OF Cons.prems(1)] ne Join_step [OF pr] show ?thesis by (auto simp: Let_def split: if_splits)
  next
    case None
    obtain e1 w where w: "make_node ?p (new_node Dir []) u = (e1, w)" by fastforce
    have sw: "staged D u0 w"
      using staged_make [OF Cons.prems(1) assms _ lay(1) _ w] Cons.prems(2) by (auto simp: is_link_def new_node_def)
    with Cons.prems(4) IH [OF sw] ne Join_step [OF pr] None w show ?thesis by (auto simp: Let_def and_then_def split: option.splits)
  qed
qed simp

lemma import_dir_staged:
  assumes "staged D u0 u" "clean_abs D" "\<forall>c\<in>set cs. proper c" "cs = [] \<or> layout cs" "ensureImportDir D (path_of False cs) u = (e, v)"
  shows "staged D u0 v"
proof -
  have D: "D = path_of True (comps D @ [])" using assms(2) by (auto elim!: clean_absE)
  have rf: "rel_form cs" using rel_form_ups [of cs 0] assms(3) by simp
  show ?thesis
  proof (cases "cs = []")
    case True
    with assms(1,5) Split_path_rel [OF rf] show ?thesis by (auto simp: ensureImportDir_def)
  next
    case False
    with assms(5) Split_path_rel [OF rf] D have "import_dirs (path_of True (comps D @ [])) cs u = (e, v)" by (simp add: ensureImportDir_def)
    from import_dirs_staged [OF assms(2,1) _ _ this] assms(3,4) show ?thesis by simp
  qed
qed

lemma Symlink_make: "p \<noteq> [] \<Longrightarrow> os_Symlink x p u = make_node p (new_node (Symlink (link_end u p x)) x) u"
  by (auto simp: os_Symlink_def make_node_def is_dir_def)

lemma extract_entry_staged:
  assumes "staged D u0 u" "clean_abs D" "extractArtifactEntry D h u = (e, v)"
  shows "staged D u0 v"
proof (cases "cleanArchiveEntryName (hd_Name h)")
  case (Inl x)
  with assms(1,3) show ?thesis by (simp add: extractArtifactEntry_def)
next
  case (Inr name)
  show ?thesis
  proof (cases "name = ArtifactManifestFileName \<or> in_rootfs name")
    case False
    with Inr assms(1,3) show ?thesis by (auto simp: extractArtifactEntry_def)
  next
    case True
    from entry_name [OF Inr True] obtain cs where cs: "name = path_of False cs" "\<forall>c\<in>set cs. proper c" "layout cs" by blast
    have D: "rooted D" using assms(2) by (simp add: clean_abs_def)
    have p: "path_Join [D, name] = path_of True (comps D @ cs)" using Join_rel [OF D cs(2)] cs(1) by simp
    have "cs \<noteq> []" using cs(3) by (auto simp: layout_def)
    then have bs: "\<forall>c\<in>set (butlast cs). proper c" "butlast cs = [] \<or> layout (butlast cs)"
      using cs(2,3) layout_prefix [of "butlast cs" "[last cs]"] by (auto dest: in_set_butlastD)
    obtain e1 w where w: "ensureImportDir D (parent name) u = (e1, w)" by fastforce
    then have sw: "staged D u0 w" using import_dir_staged [OF assms(1,2) bs] parent_rel [OF cs(2)] cs(1) by simp
    have ne: "path_of True (comps D @ cs) \<noteq> []" by (simp add: path_of_def)
    show ?thesis
    proof (cases "hd_Typeflag h")
      case TypeDir
      with assms(3) Inr True cs import_dir_staged [OF assms(1,2) cs(2)] show ?thesis by (auto simp: extractArtifactEntry_def)
    next
      case TypeReg
      with assms(3) Inr True w have "and_then (e1, w) (writeArchiveFile D name (hd_Data h)) = (e, v)" by (auto simp: extractArtifactEntry_def)
      moreover have "\<not> is_link (new_node Regular (hd_Data h))" by (simp add: is_link_def new_node_def)
      ultimately show ?thesis using sw staged_make [OF sw assms(2) cs(2,3), of "new_node Regular (hd_Data h)"] p
        by (auto simp: and_then_def writeArchiveFile_def split: option.splits)
    next
      case TypeSymlink
      show ?thesis
      proof (cases "validateArchiveSymlink name (hd_Linkname h)")
        case None
        then have "safe_link cs (hd_Linkname h)" using validated_link [OF cs(2)] cs(1,3) by (auto simp: layout_def)
        moreover have "and_then (e1, w) (os_Symlink (hd_Linkname h) (path_Join [D, name])) = (e, v)"
          using TypeSymlink None assms(3) Inr True w by (auto simp: extractArtifactEntry_def)
        moreover have "fn_data (new_node k x) = x" for k x by (simp add: new_node_def)
        ultimately show ?thesis using sw p Symlink_make [OF ne, of "hd_Linkname h" w]
            staged_make [OF sw assms(2) cs(2,3), of "new_node (Symlink (link_end w (path_of True (comps D @ cs)) (hd_Linkname h))) (hd_Linkname h)"]
          by (auto simp: and_then_def split: option.splits)
      qed (use TypeSymlink assms(1,3) Inr True in \<open>auto simp: extractArtifactEntry_def\<close>)
    qed (use assms(1,3) Inr True in \<open>auto simp: extractArtifactEntry_def\<close>)
  qed
qed

lemma extract_entries_staged:
  "clean_abs D \<Longrightarrow> staged D u0 u \<Longrightarrow> extract_entries D hs u = (e, v) \<Longrightarrow> staged D u0 v"
proof (induction hs arbitrary: u)
  case (Cons h hs)
  obtain e1 w where w: "extractArtifactEntry D h u = (e1, w)" by fastforce
  with extract_entry_staged [OF Cons.prems(2,1) w] Cons.IH [OF Cons.prems(1), of w] Cons.prems(3) show ?case
    by (auto simp: and_then_def split: option.splits)
qed simp

lemma extract_archive_staged:
  assumes "staged D u0 u" "clean_abs D" "extractArtifactArchive untar a D u = (e, v)"
  shows "staged D u0 v"
  using assms extract_entries_staged [OF assms(2,1) surjective_pairing] extract_entries_staged [OF assms(2,1)]
  by (auto simp: extractArtifactArchive_def and_then_def split: if_splits option.splits prod.splits)

lemma check_stage_keeps: "check_stage parse name D u = (e, v) \<Longrightarrow> v = u"
  by (auto simp: check_stage_def split: option.splits sum.splits)

section \<open>Installing\<close>

lemma tree_ok_RemoveAll:
  assumes "tree_ok u"
  shows "tree_ok (snd (os_RemoveAll T u))"
  unfolding tree_ok_def
proof (intro allI impI conjI)
  fix k assume k: "Lstat (snd (os_RemoveAll T u)) k \<noteq> None"
  then have u: "Lstat u k \<noteq> None" "\<not> below T k \<or> list_ex (below k) (uf_refuse u)" by (auto simp: RemoveAll_Lstat split: if_splits)
  show c: "clean_abs k" using assms u(1) unfolding tree_ok_def by blast
  fix d assume d: "clean_abs d \<and> comps d \<noteq> [] \<and> d \<noteq> k \<and> below d k"
  then have "is_dir u d" using assms u(1) unfolding tree_ok_def by blast
  moreover have "\<not> below T d \<or> list_ex (below d) (uf_refuse u)"
  proof (cases "list_ex (below k) (uf_refuse u)")
    case True
    with d c show ?thesis by (auto simp: list_ex_iff clean_abs_def intro: below_trans)
  next
    case False
    with u(2) have "\<not> below T k" by simp
    moreover have "below T d \<Longrightarrow> below T k" using d by (auto simp: below_def clean_abs_def) (metis append_take_drop_id min_absorb1 take_append take_take length_append le_add1)
    ultimately show ?thesis by blast
  qed
  ultimately show "is_dir (snd (os_RemoveAll T u)) d" by (simp add: is_dir_def RemoveAll_Lstat)
qed

lemma RenameAny_error: "os_RenameAny S T u = (Some e, v) \<Longrightarrow> v = u"
  by (auto simp: os_RenameAny_def os_Rename_def split: if_splits option.splits)

lemma siblings:
  assumes "clean_abs D" "proper x" "proper y" "path_of True (comps D @ [x]) \<noteq> path_of True (comps D @ [y])"
  shows "\<not> below (path_of True (comps D @ [x])) (path_of True (comps D @ [y]))"
proof -
  have "\<forall>c\<in>set (comps D @ [z]). proper c" if "proper z" for z using that assms(1) comps_rooted [of D] by (auto simp: clean_abs_def)
  with assms show ?thesis by (auto simp: below_path_of comps_path_of)
qed

lemma install_moved:
  assumes "staged S u0 w" "tree_ok w1" "clean_abs S" "clean_abs T" "comps T \<noteq> []" "\<not> below T S"
    and "\<And>p. \<not> below T p \<Longrightarrow> Lstat w1 p = Lstat w p" "os_RenameAny S T w1 = (None, v)"
  shows "\<not> below T p \<Longrightarrow> Lstat v p = (if below S p then None else Lstat w p)"
    and "Lstat v p = Some n \<Longrightarrow> below T p \<Longrightarrow> p = T \<and> fn_kind n = Dir \<or>
      (\<exists>cs. comps p = comps T @ cs \<and> layout cs \<and> (is_link n \<longrightarrow> safe_link cs (fn_data n)))"
proof -
  have r: "rooted S" "rooted T" using assms(3,4) by (auto simp: clean_abs_def)
  have dir: "is_dir w1 S" using assms(1,6,7) by (simp add: staged_def is_dir_def)
  note ren = os_RenameAny_dir [OF assms(2) r(1) assms(4,5) dir assms(8)]
  show "\<not> below T p \<Longrightarrow> Lstat v p = (if below S p then None else Lstat w p)" using ren(2) assms(7) by simp
  assume p: "Lstat v p = Some n" "below T p"
  have nodes: "uf_nodes v = moved_nodes S T (uf_nodes w1)" using assms(8) dir by (auto simp: os_RenameAny_def is_dir_def moved_nodes_def split: if_splits)
  have "(p, n) \<in> set (uf_nodes v)" using p(1) by (simp add: Lstat_def map_of_SomeD)
  then obtain k m where k: "(k, m) \<in> set (uf_nodes w1)" "p = (if below S k then move_path S T k else k)"
    unfolding nodes moved_nodes_def by force
  have kk: "k \<in> fst ` set (uf_nodes w1)" using k(1) by force
  have nk: "\<not> below T k" by (rule tree_ok_below [OF assms(2,4,5) ren(3) kk])
  have ck: "clean_abs k" by (rule tree_ok_keys [OF assms(2) kk])
  have bk: "below S k" "p = move_path S T k" using k(2) nk p(2) by (auto split: if_splits)
  have Lk: "Lstat w k = Some n" using ren(1) [OF ck bk(1)] p(1) bk(2) assms(7) [OF nk] by simp
  have cp: "comps p = comps T @ drop (length (comps S)) (comps k)"
    using move_path_comps [OF r, of k] bk(2) ck by (simp add: clean_abs_def)
  show "p = T \<and> fn_kind n = Dir \<or> (\<exists>cs. comps p = comps T @ cs \<and> layout cs \<and> (is_link n \<longrightarrow> safe_link cs (fn_data n)))"
  proof (cases "k = S")
    case True
    have "p = T" using bk(2) True assms(4) by (auto simp: move_path_def elim!: clean_absE)
    moreover have "fn_kind n = Dir" using Lk True assms(1) by (auto simp: staged_def is_dir_def)
    ultimately show ?thesis by blast
  next
    case False
    with assms(1) Lk bk(1) cp show ?thesis by (fastforce simp: staged_def)
  qed
qed

lemma install_stage_cases:
  assumes "staged S u w" "clean_abs S" "clean_abs T" "comps T \<noteq> []" "S \<noteq> T \<Longrightarrow> \<not> below T S" "install_stage overwrite S T w = (e, v)"
  shows "e \<noteq> None \<Longrightarrow> \<not> below T p \<or> \<not> overwrite \<Longrightarrow> Lstat v p = Lstat w p"
    and "e = None \<Longrightarrow> \<not> below T p \<Longrightarrow> Lstat v p = (if below S p then None else Lstat w p)"
    and "e = None \<Longrightarrow> Lstat v p = Some n \<Longrightarrow> below T p \<Longrightarrow> p = T \<and> fn_kind n = Dir \<or>
      (\<exists>cs. comps p = comps T @ cs \<and> layout cs \<and> (is_link n \<longrightarrow> safe_link cs (fn_data n)))"
proof -
  obtain e1 w1 where w1: "(if overwrite then os_RemoveAll T w else (None, w)) = (e1, w1)" by fastforce
  have L: "Lstat w1 q = Lstat w q" if "\<not> below T q \<or> \<not> overwrite" for q
    using w1 that RemoveAll_Lstat [of T w q] by (auto split: if_splits)
  have t1: "tree_ok w1" using w1 assms(1) tree_ok_RemoveAll [of w T] by (auto simp: staged_def split: if_splits)
  have run: "and_then (e1, w1) (os_RenameAny S T) = (e, v)" using assms(6) w1 by (simp add: install_stage_def)
  show "e \<noteq> None \<Longrightarrow> \<not> below T p \<or> \<not> overwrite \<Longrightarrow> Lstat v p = Lstat w p"
    using run L by (auto simp: and_then_def dest!: RenameAny_error split: option.splits)
  assume "e = None"
  then have ren: "e1 = None" "os_RenameAny S T w1 = (None, v)" using run by (auto simp: and_then_def split: option.splits)
  have "S \<noteq> T"
  proof
    assume "S = T"
    with ren w1 assms(1) RemoveAll_empty [of T w T] below_refl [of T] show False
      by (auto simp: os_RenameAny_def os_Rename_def staged_def is_dir_def split: if_splits)
  qed
  note moved = install_moved [OF assms(1) t1 assms(2-4) assms(5) [OF this] L ren(2)]
  show "\<not> below T p \<Longrightarrow> Lstat v p = (if below S p then None else Lstat w p)" using moved(1) by blast
  show "Lstat v p = Some n \<Longrightarrow> below T p \<Longrightarrow> p = T \<and> fn_kind n = Dir \<or>
      (\<exists>cs. comps p = comps T @ cs \<and> layout cs \<and> (is_link n \<longrightarrow> safe_link cs (fn_data n)))" using moved(2) by blast
qed

lemma MkdirAll_dirs_to:
  assumes "clean_abs D" "dirs_to D u"
  shows "os_MkdirAll D u = (None, u)"
proof (rule MkdirAll_there)
  show r: "rooted D" using assms(1) by (simp add: clean_abs_def)
  fix k
  have pr: "\<forall>c\<in>set (take k (comps D)). proper c" using comps_rooted [OF r] by (meson in_set_takeD)
  have "below (path_of True (take k (comps D))) D"
    using pr r by (auto simp: below_iff comps_path_of) (metis append_take_drop_id)
  then show "is_dir u (path_of True (take k (comps D)))" using assms(2) clean_abs_path_of [OF pr] by (simp add: dirs_to_def)
qed

lemma stage_made:
  assumes "tree_ok u" "clean_abs S" "comps S \<noteq> []" "make_node S (new_node Dir []) u = (None, w)"
  shows "staged S u w" "\<And>p. below S p \<Longrightarrow> Lstat u p = None"
proof -
  have w: "Lstat u S = None" "is_dir u (parent S)" "w = set_node S (new_node Dir []) u" using assms(4) by (auto simp: make_node_def split: if_splits)
  show none: "Lstat u p = None" if "below S p" for p
    using tree_ok_below [OF assms(1-3) w(1), of p] that by (auto simp: Lstat_def map_of_eq_None_iff)
  have "same_outside S u w" by (auto simp: w(3) same_outside_def Lstat_set_node)
  with tree_ok_new [OF assms(1,2) w(1,2)] none show "staged S u w"
    by (auto simp: staged_def w(3) is_dir_set_node Lstat_set_node new_node_def split: if_splits)
qed


section \<open>An import\<close>

definition import_files :: ufs where
  "import_files = \<lparr>uf_nodes = [(''/'', new_node Dir []), (''/a.tar.gz'', new_node Regular ''x''), (''/o'', new_node Dir []),
     (''/o/other'', new_node Dir [])], uf_refuse = []\<rparr>"

definition import_headers :: "tar_header list" where
  "import_headers = [\<lparr>hd_Name = ArtifactManifestFileName, hd_Typeflag = TypeReg, hd_Mode = 420, hd_Linkname = [], hd_Data = ''m''\<rparr>,
     \<lparr>hd_Name = ''rootfs/etc/motd'', hd_Typeflag = TypeReg, hd_Mode = 420, hd_Linkname = [], hd_Data = ''hello''\<rparr>,
     \<lparr>hd_Name = ''rootfs/etc/issue'', hd_Typeflag = TypeSymlink, hd_Mode = 511, hd_Linkname = ''../etc/motd'', hd_Data = []\<rparr>]"

definition import_manifest :: "string \<Rightarrow> ArtifactManifest" where
  "import_manifest name = BuildArtifactManifest 0 name ''/'' [] [''/etc/motd''] \<lparr>ds_Selected = 1, ds_Skipped = 0, ds_Unset = 0\<rparr>"

abbreviation run_import :: "bool \<Rightarrow> string \<Rightarrow> ufs effect" where
  "run_import overwrite name \<equiv> importArchive (\<lambda>_. Some (import_headers, True)) (\<lambda>_. Some (import_manifest name)) (\<lambda>_. ''1'') ''/o'' overwrite name ''/a.tar.gz''"

lemma import_files_run:
  "case run_import False ''site'' import_files of (e, v) \<Rightarrow> e = None \<and> map_option fn_data (Lstat v ''/o/site/rootfs/etc/issue'') = Some ''../etc/motd''"
  by code_simp

lemma import_link: "case run_import False ''site'' import_files of (e, v) \<Rightarrow> map_option is_link (Lstat v ''/o/site/rootfs/etc/issue'') = Some True"
  by code_simp


text \<open>
  The name of an overlay may be a single dot: an import that overwrites then removes the directory of all
  site overlays, and with it the staged archive.
\<close>

lemma import_dot: "case run_import True ''.'' import_files of (e, v) \<Rightarrow> e \<noteq> None \<and> Lstat v ''/o/other'' = None"
  by code_simp

text \<open>A link with an absolute target, which a capture exports as it is, is refused by the import.\<close>

lemma absolute_link_refused:
  assumes "cleanArchiveEntryName (hd_Name h) = Inr name" "in_rootfs name" "hd_Typeflag h = TypeSymlink" "rooted (hd_Linkname h)"
  shows "fst (extractArtifactEntry root h u) \<noteq> None"
  using assms by (auto simp: extractArtifactEntry_def validateArchiveSymlink_def)

end
