(* ===== verification/Node_Diff.thy ===== *)
theory Node_Diff
  imports Node_Fields Hostlist_Compress Node_Flatten
begin

text \<open>
  \<open>node/diff.go\<close>: the list of field changes between two states of a node or profile, which the commands
  show before they save, and its text; and \<open>ObjectIsEmpty\<close> of \<open>node/util.go\<close>. The structs are walked
  as reflected values. A function that appends to \<open>out\<close> returns what it appends. The order in which
  \<open>sort.Slice\<close> leaves equal paths is the order of the fields.
\<close>

section \<open>The text of a value\<close>

text \<open>
  The verb \<open>%q\<close>: \<open>strconv.Quote\<close>. Runes that are not ASCII are taken as printable, so that their bytes stand
  for themselves.
\<close>

definition quote_char :: "char \<Rightarrow> string" where
  "quote_char c = (let n = (of_char c :: nat) in
     if n = 34 \<or> n = 92 then [CHR 0x5C, c]
     else if n = 7 then [CHR 0x5C] @ ''a''
     else if n = 8 then [CHR 0x5C] @ ''b''
     else if n = 12 then [CHR 0x5C] @ ''f''
     else if n = 10 then [CHR 0x5C] @ ''n''
     else if n = 13 then [CHR 0x5C] @ ''r''
     else if n = 9 then [CHR 0x5C] @ ''t''
     else if n = 11 then [CHR 0x5C] @ ''v''
     else if n < 32 \<or> n = 127 then [CHR 0x5C] @ ''x'' @ [hexDigit (n div 16), hexDigit (n mod 16)]
     else [c])"

definition Quote :: "string \<Rightarrow> string" where
  "Quote s = [CHR 0x22] @ concat (map quote_char s) @ [CHR 0x22]"

text \<open>The verb \<open>%v\<close> on what an interface can hold; the keys of a map are printed in order.\<close>

fun show_resource :: "resource \<Rightarrow> string" where
  "show_resource RNil = ''<nil>''"
| "show_resource (RStr s) = s"
| "show_resource (RInt i) = Itoa i"
| "show_resource (RBool b) = FormatBool b"
| "show_resource (RList rs) = ''['' @ Join (map show_resource rs) '' '' @ '']''"
| "show_resource (RMap kvs) =
     ''map['' @ Join (map snd (sort_key fst (map (\<lambda>(k, r). (k, k @ '':'' @ show_resource r)) kvs))) '' '' @ '']''"

definition unset :: string where "unset = ''<unset>''"

text \<open>\<open>fmtScalar\<close> on the kinds of value it is called with; an address is a \<open>Stringer\<close>.\<close>

fun fmtScalar :: "gval \<Rightarrow> string" where
  "fmtScalar (GStr s) = (if s = [] then unset else Quote s)"
| "fmtScalar (GWWbool s) = (if s = [] then unset else Quote s)"
| "fmtScalar (GBool b) = FormatBool b"
| "fmtScalar (GAny r) = (if r = RNil then unset else show_resource r)"
| "fmtScalar (GIP i) = (let out = IP_String i in if out = [] \<or> out = ''<nil>'' then unset else out)"
| "fmtScalar _ = unset"

definition fmtSlice :: "string list \<Rightarrow> string" where
  "fmtSlice v = (if v = [] then ''[]'' else ''['' @ Join v '', '' @ '']'')"

section \<open>The walk\<close>

record NodeChange =
  ch_Path :: string
  ch_Before :: string
  ch_After :: string

definition change :: "string \<Rightarrow> string \<Rightarrow> string \<Rightarrow> NodeChange list" where
  "change path b a = (if b \<noteq> a then [\<lparr>ch_Path = path, ch_Before = b, ch_After = a\<rparr>] else [])"

definition field_path :: "sfield \<Rightarrow> string \<Rightarrow> string" where
  "field_path f pre =
     (let name = (if sf_lopt f = [] then ToLower (sf_Name f) else sf_lopt f);
          path = (if pre \<noteq> [] then pre @ ''.'' @ name else name)
      in if sf_Anonymous f then pre else path)"

definition key_path :: "string \<Rightarrow> string \<Rightarrow> string" where
  "key_path pre k = pre @ ''['' @ k @ '']''"

definition diffMap :: "string list \<Rightarrow> string list \<Rightarrow> (string \<Rightarrow> string \<Rightarrow> NodeChange list) \<Rightarrow> string \<Rightarrow> NodeChange list" where
  "diffMap before after dv pre = concat (map (\<lambda>k. dv k (key_path pre k)) (sort (remdups (before @ after))))"

lemma diffMap_cong [fundef_cong]:
  assumes "b = b'" "a = a'" "pre = pre'" "\<And>k. k \<in> set (b' @ a') \<Longrightarrow> dv k (key_path pre' k) = dv' k (key_path pre' k)"
  shows "diffMap b a dv pre = diffMap b' a' dv' pre'"
  unfolding diffMap_def using assms by (intro arg_cong [where f = concat] map_cong) auto

definition mapGet :: "'v gomap \<Rightarrow> 'v \<Rightarrow> string \<Rightarrow> 'v" where
  "mapGet m zero key = (case gm_get m key of None \<Rightarrow> zero | Some v \<Rightarrow> v)"

fun as_struct :: "gval \<Rightarrow> (sfield \<times> gval) list" where
  "as_struct (GStruct fs) = fs"
| "as_struct _ = []"

text \<open>\<open>p.Elem()\<close>, or the zero value of the struct for a nil pointer.\<close>

definition elem_or_zero :: "gval \<Rightarrow> gval option \<Rightarrow> gval" where
  "elem_or_zero t p = (case p of None \<Rightarrow> t | Some v \<Rightarrow> v)"

definition bool_or_false :: "bool option \<Rightarrow> bool" where
  "bool_or_false p = (case p of None \<Rightarrow> False | Some b \<Rightarrow> b)"

text \<open>An entry of a map is smaller than the map, and so is a nil pointer in the place of a missing one.\<close>

definition gval_measure :: "gval \<Rightarrow> nat" where
  "gval_measure v = 2 * size v + (case v of GMapPtr _ _ \<Rightarrow> 1 | _ \<Rightarrow> 0)"

lemma size_entry: "gval_measure (GPtr t (gm_get bm k)) < gval_measure (GMapPtr t bm)"
proof (cases "gm_get bm k")
  case None
  then show ?thesis by (cases bm) (simp_all add: gval_measure_def)
next
  case (Some v)
  then obtain es where "bm = Some es" "(k, v) \<in> set es"
    by (cases bm) (auto simp: gm_get_def gm_entries_def dest: map_of_SomeD)
  then show ?thesis
    using Some size_list_estimation' [of "(k, v)" es "size v" "size_prod (\<lambda>_. 0) size"] by (simp add: gval_measure_def)
qed

lemma size_as_struct: "size_list (size_prod (\<lambda>_. 0) size) (as_struct v) \<le> size v"
  by (cases v) auto

lemma size_as_struct_zero:
  "size_list (size_prod (\<lambda>_. 0) size) (as_struct (elem_or_zero t p)) < size (GPtr t p)"
  using size_as_struct [of t] size_as_struct [of "the p"] by (cases p) (auto simp: elem_or_zero_def)

function (sequential) diffStruct :: "(sfield \<times> gval) list \<Rightarrow> (sfield \<times> gval) list \<Rightarrow> string \<Rightarrow> NodeChange list"
  and diffValue :: "gval \<Rightarrow> gval \<Rightarrow> string \<Rightarrow> NodeChange list" where
  "diffStruct ((f, b) # bs) ((g, a) # as) pre =
     (if sf_exported f then diffValue b a (field_path f pre) else []) @ diffStruct bs as pre"
| "diffStruct _ _ pre = []"
| "diffValue (GStruct bs) after path = diffStruct bs (as_struct after) path"
| "diffValue (GPtr t bp) after path =
     (if bp = None \<and> as_ptr after = None then []
      else diffStruct (as_struct (elem_or_zero t bp)) (as_struct (elem_or_zero t (as_ptr after))) path)"
| "diffValue (GPtrBool bp) after path =
     (if bp = None \<and> as_pbool after = None then []
      else change path (fmtScalar (GBool (bool_or_false bp))) (fmtScalar (GBool (bool_or_false (as_pbool after)))))"
| "diffValue (GMapStr bm) after path =
     diffMap (gm_keys bm) (gm_keys (as_mapstr after))
       (\<lambda>k p. change p (fmtScalar (GStr (mapGet bm [] k))) (fmtScalar (GStr (mapGet (as_mapstr after) [] k)))) path"
| "diffValue (GMapAny bm) after path =
     diffMap (gm_keys bm) (gm_keys (as_mapany after))
       (\<lambda>k p. change p (fmtScalar (GAny (mapGet bm RNil k))) (fmtScalar (GAny (mapGet (as_mapany after) RNil k)))) path"
| "diffValue (GMapPtr t bm) after path =
     diffMap (gm_keys bm) (gm_keys (as_mapptr after))
       (\<lambda>k. diffValue (GPtr t (gm_get bm k)) (GPtr t (gm_get (as_mapptr after) k))) path"
| "diffValue (GStrs bs) after path = change path (fmtSlice bs) (fmtSlice (as_strs after))"
| "diffValue before after path = change path (fmtScalar before) (fmtScalar after)"
  by pat_completeness auto

termination
proof (relation "measure (\<lambda>x. case x of Inl (bs, _) \<Rightarrow> 2 * size_list (size_prod (\<lambda>_. 0) size) bs | Inr (b, _) \<Rightarrow> gval_measure b)",
    goal_cases)
  case (2 f b bs g a as pre)
  then show ?case by (cases b) (simp_all add: gval_measure_def)
next
  case (5 t bp after path)
  then show ?case using size_as_struct_zero [of t bp] by (simp add: gval_measure_def)
next
  case (6 t bm after path k)
  then show ?case using size_entry [of t bm k] by simp
qed (simp_all add: gval_measure_def)

definition Diff :: "gval \<Rightarrow> gval \<Rightarrow> NodeChange list" where
  "Diff before after = sort_key ch_Path (diffStruct (as_struct before) (as_struct after) [])"

definition Node_Diff :: "Node \<Rightarrow> Node \<Rightarrow> NodeChange list" where
  "Node_Diff before after = Diff (Node_val before) (Node_val after)"

definition Profile_Diff :: "Profile \<Rightarrow> Profile \<Rightarrow> NodeChange list" where
  "Profile_Diff before after = Diff (Profile_val before) (Profile_val after)"

section \<open>The text of the changes\<close>

definition fingerprint :: "NodeChange list \<Rightarrow> string" where
  "fingerprint changes =
     Join (map (\<lambda>c. ch_Path c @ [CHR 0x00] @ ch_Before c @ [CHR 0x00] @ ch_After c) changes) [CHR 0x0A]"

record change_group =
  cg_ids :: "string list"
  cg_changes :: "NodeChange list"

text \<open>One turn of the loop over \<open>entityChanges\<close>; the state is \<open>groups\<close> and \<open>order\<close>.\<close>

definition group_entity ::
  "(string \<times> change_group) list \<times> string list \<Rightarrow> string \<times> NodeChange list \<Rightarrow> (string \<times> change_group) list \<times> string list" where
  "group_entity st e = (case (st, e) of ((groups, order), (i, ch)) \<Rightarrow>
     if ch = [] then (groups, order)
     else (let key = fingerprint ch in
       case map_of groups key of
         Some g \<Rightarrow> (al_update key (g\<lparr>cg_ids := cg_ids g @ [i]\<rparr>) groups, order)
       | None \<Rightarrow> (al_update key \<lparr>cg_ids = [i], cg_changes = ch\<rparr> groups, order @ [key])))"

text \<open>The arrow of a line is the rune 2192 in UTF-8.\<close>

definition change_line :: "NodeChange \<Rightarrow> string" where
  "change_line c = ''  '' @ ch_Path c @ '': '' @ ch_Before c @ '' '' @ [CHR 0xE2, CHR 0x86, CHR 0x92] @ '' '' @
     ch_After c @ [CHR 0x0A]"

definition group_text :: "change_group \<Rightarrow> string" where
  "group_text g = Compress (sort (cg_ids g)) @ '':'' @ [CHR 0x0A] @ concat (map change_line (cg_changes g))"

text \<open>
  \<open>FormatChanges\<close> on the entries of the map in the order in which the loop finds them. The groups are
  ordered by the first id that was found of each, before the ids are sorted.
\<close>

definition FormatChanges :: "(string \<times> NodeChange list) list \<Rightarrow> string" where
  "FormatChanges entityChanges =
     (let (groups, order) = foldl group_entity ([], []) entityChanges;
          order = sort_key (\<lambda>key. hd (cg_ids (the (map_of groups key)))) order
      in Join (map (\<lambda>key. group_text (the (map_of groups key))) order) [CHR 0x0A])"

section \<open>Empty objects\<close>

fun ObjectIsEmpty :: "gval \<Rightarrow> bool" where
  "ObjectIsEmpty (GPtr t p) = (case p of None \<Rightarrow> True | Some v \<Rightarrow> ObjectIsEmpty v)"
| "ObjectIsEmpty (GPtrBool p) = (p = None)"
| "ObjectIsEmpty (GStruct fs) =
     (GStruct fs = gzero (GStruct fs) \<or>
      list_all (\<lambda>(f, v). case v of
          GStr s \<Rightarrow> s = []
        | GWWbool s \<Rightarrow> s = []
        | GMapStr m \<Rightarrow> gm_len m = 0
        | GMapAny m \<Rightarrow> gm_len m = 0
        | GMapPtr t m \<Rightarrow> gm_len m = 0
        | GPtr t p \<Rightarrow> ObjectIsEmpty v
        | GPtrBool p \<Rightarrow> ObjectIsEmpty v
        | GIP i \<Rightarrow> i = [] \<or> IsUnspecified i
        | _ \<Rightarrow> True) fs)"
| "ObjectIsEmpty v = (v = gzero v)"

section \<open>The reference: what a value shows where\<close>

text \<open>
  A place in a struct is a list of field numbers and map keys; pointers are followed. \<open>text_at\<close> is the text
  that a value shows at a place: a nil pointer shows what the zero value shows, and so does every key that
  a map does not have. \<open>path_at\<close> is the name of the place.
\<close>

datatype node_place = FieldNo nat | EntryOf string

lemma size_elem_or_zero: "size (elem_or_zero t p) < size (GPtr t p)"
  by (cases p) (simp_all add: elem_or_zero_def)

lemma size_elem_entry: "size (elem_or_zero t (gm_get m k)) < size (GMapPtr t m)"
  using size_elem_or_zero [of t "gm_get m k"] size_entry [of t m k] by (simp add: gval_measure_def)

function (sequential) text_at :: "gval \<Rightarrow> node_place list \<Rightarrow> string option" where
  "text_at (GStruct fs) (FieldNo i # ps) =
     (if i < length fs \<and> sf_exported (fst (fs ! i)) then text_at (snd (fs ! i)) ps else None)"
| "text_at (GStruct fs) ps = None"
| "text_at (GPtr t p) ps = text_at (elem_or_zero t p) ps"
| "text_at (GMapPtr t m) (EntryOf k # ps) = text_at (elem_or_zero t (gm_get m k)) ps"
| "text_at (GMapPtr t m) ps = None"
| "text_at (GMapStr m) ps = (case ps of [EntryOf k] \<Rightarrow> Some (fmtScalar (GStr (mapGet m [] k))) | _ \<Rightarrow> None)"
| "text_at (GMapAny m) ps = (case ps of [EntryOf k] \<Rightarrow> Some (fmtScalar (GAny (mapGet m RNil k))) | _ \<Rightarrow> None)"
| "text_at (GPtrBool p) ps = (if ps = [] then Some (FormatBool (bool_or_false p)) else None)"
| "text_at (GStrs ss) ps = (if ps = [] then Some (fmtSlice ss) else None)"
| "text_at v ps = (if ps = [] then Some (fmtScalar v) else None)"
  by pat_completeness auto
termination
proof (relation "measure (\<lambda>(v, _). size v)", goal_cases)
  case (2 fs i ps)
  then have "fs ! i \<in> set fs" by simp
  then have "size (snd (fs ! i)) < size_list (size_prod (\<lambda>_. 0) size) fs"
    by (intro size_list_estimation [where x = "fs ! i"]) (simp_all add: size_prod_simp)
  then show ?case by simp
next
  case (3 t p ps)
  then show ?case using size_elem_or_zero [of t p] by simp
next
  case (4 t m k ps)
  then show ?case using size_elem_entry [of t m k] by simp
qed simp

function (sequential) path_at :: "gval \<Rightarrow> node_place list \<Rightarrow> string \<Rightarrow> string" where
  "path_at (GStruct fs) (FieldNo i # ps) pre =
     (if i < length fs then path_at (snd (fs ! i)) ps (field_path (fst (fs ! i)) pre) else pre)"
| "path_at (GPtr t p) ps pre = path_at (elem_or_zero t p) ps pre"
| "path_at (GMapPtr t m) (EntryOf k # ps) pre = path_at (elem_or_zero t (gm_get m k)) ps (key_path pre k)"
| "path_at v (EntryOf k # ps) pre = key_path pre k"
| "path_at v ps pre = pre"
  by pat_completeness auto
termination
proof (relation "measure (\<lambda>(v, _). size v)", goal_cases)
  case (2 fs i ps pre)
  then have "fs ! i \<in> set fs" by simp
  then have "size (snd (fs ! i)) < size_list (size_prod (\<lambda>_. 0) size) fs"
    by (intro size_list_estimation [where x = "fs ! i"]) (simp_all add: size_prod_simp)
  then show ?case by simp
next
  case (3 t p ps pre)
  then show ?case using size_elem_or_zero [of t p] by simp
next
  case (4 t m k ps pre)
  then show ?case using size_elem_entry [of t m k] by simp
qed simp

definition differences :: "gval \<Rightarrow> gval \<Rightarrow> string \<Rightarrow> NodeChange set" where
  "differences b a pre = {\<lparr>ch_Path = path_at b ps pre, ch_Before = x, ch_After = y\<rparr> |ps x y.
     text_at b ps = Some x \<and> text_at a ps = Some y \<and> x \<noteq> y}"

text \<open>Two values of one type.\<close>

inductive alike :: "gval \<Rightarrow> gval \<Rightarrow> bool" where
  "alike (GStr s) (GStr s')"
| "alike (GWWbool s) (GWWbool s')"
| "alike (GBool b) (GBool b')"
| "alike (GIP i) (GIP i')"
| "alike (GStrs ss) (GStrs ss')"
| "alike (GPtrBool p) (GPtrBool p')"
| "alike (GAny r) (GAny r')"
| "alike (GMapStr m) (GMapStr m')"
| "alike (GMapAny n) (GMapAny n')"
| "list_all2 (\<lambda>x y. fst x = fst y \<and> alike (snd x) (snd y)) fs gs \<Longrightarrow> alike (GStruct fs) (GStruct gs)"
| "elem_or_zero t p = GStruct fs \<Longrightarrow> elem_or_zero t q = GStruct gs \<Longrightarrow> alike (GStruct fs) (GStruct gs) \<Longrightarrow>
   alike (GPtr t p) (GPtr t q)"
| "(\<And>k. alike (GPtr t (gm_get m k)) (GPtr t (gm_get m' k))) \<Longrightarrow> alike (GMapPtr t m) (GMapPtr t m')"

end
