(* ===== verification/Wwctl_Nodes.thy ===== *)
theory Wwctl_Nodes
  imports Api_Nodes Node_Update Node_Diff Util_Files
begin

text \<open>
  The commands of \<open>wwctl\<close> that change the registry: \<open>node add\<close>, \<open>set\<close>, \<open>unset\<close> and \<open>delete\<close>, \<open>profile add\<close>,
  \<open>set\<close>, \<open>unset\<close> and \<open>delete\<close>. A command gets what its flags hold and returns its error and the new state,
  of which it changes only the file \<open>nodes.conf\<close>.

  \<^item> A command that expands host patterns returns \<open>None\<close> when \<open>Expand\<close> counts for ever.
  \<^item> \<open>Clone\<close>, which goes through YAML, the answer to a question (a function of the text that is shown
    before it and of the question) and the outcome of \<open>service warewulfd reload\<close> are fields of the
    environment. Messages are not modelled.
\<close>

record cmd_env =
  ce_env :: env
  ce_cloneNode :: "Node \<Rightarrow> Node"
  ce_cloneProfile :: "Profile \<Rightarrow> Profile"
  ce_confirm :: "string \<Rightarrow> string \<Rightarrow> bool"
  ce_reload :: "err option"

definition UNDEF :: string where "UNDEF = ''UNDEF''"

definition map_put :: "('v gomap \<Rightarrow> 'r) \<Rightarrow> 'v gomap \<Rightarrow> string \<Rightarrow> 'v \<Rightarrow> 'r result" where
  "map_put f m k v = map_sum id f (gm_put m k v)"

text \<open>\<open>hostlist.Expand\<close> with the groups of the registry, which \<open>node.New\<close> has installed.\<close>

definition expand_args :: "cmd_env \<Rightarrow> NodesYaml \<Rightarrow> string list \<Rightarrow> string list option" where
  "expand_args c nodeDB args = Expand (GroupMembers (e_lib (ce_env c)) nodeDB) args"

text \<open>\<open>nodeDB.Persist()\<close> and \<open>warewulfd.DaemonReload()\<close>.\<close>

definition persist_reload :: "cmd_env \<Rightarrow> NodesYaml \<Rightarrow> world \<Rightarrow> err option \<times> world" where
  "persist_reload c nodeDB w = (case api_Persist (ce_env c) nodeDB w of
      (Some e, w) \<Rightarrow> (Some e, w)
    | (None, w) \<Rightarrow> (ce_reload c, w))"

section \<open>The values of the flags\<close>

text \<open>
  The flags of a device, a disk, a partition and a file system are bound to entries \<open>UNDEF\<close>; these become
  the entries with the names that were given.
\<close>

definition name_netdev :: "Profile \<Rightarrow> NodeConfAdd \<Rightarrow> Profile result" where
  "name_netdev p add =
     (let dev = gm_get (pf_NetDevs p) UNDEF;
          drop_undef = (\<lambda>m. p\<lparr>pf_NetDevs := gm_delete m UNDEF\<rparr>) in
      if \<not> ObjectIsEmpty (GPtr (NetDev_val zero_NetDev) (map_option NetDev_val dev)) \<or> gm_len (add_NetTagsAdd add) > 0
      then (case dev of None \<Rightarrow> Inl ErrPanic | Some d \<Rightarrow> map_put drop_undef (pf_NetDevs p) (add_Net add) d)
      else Inr (drop_undef (pf_NetDevs p)))"

definition name_filesystem :: "Profile \<Rightarrow> NodeConfAdd \<Rightarrow> (Profile \<times> NodeConfAdd) result" where
  "name_filesystem p add =
     (let drop_undef = (\<lambda>m. p\<lparr>pf_FileSystems := gm_delete m UNDEF\<rparr>) in
      if add_FsName add = [] then Inr (drop_undef (pf_FileSystems p), add)
      else if \<not> HasPrefix (add_FsName add) ''/dev'' \<and> add_FsName add \<noteq> add_PartName add
      then Inl (ErrMsg ''filesystems need to have a underlying blockdev'')
      else (let add = (if HasPrefix (add_FsName add) ''/dev'' then add
                       else add\<lparr>add_FsName := ''/dev/disk/by-partlabel/'' @ add_PartName add\<rparr>) in
        case gm_get (pf_FileSystems p) UNDEF of
          None \<Rightarrow> Inl ErrPanic
        | Some fs \<Rightarrow> map_put (\<lambda>m. (drop_undef m, add)) (pf_FileSystems p) (add_FsName add) fs))"

definition name_disk :: "Profile \<Rightarrow> NodeConfAdd \<Rightarrow> Profile result" where
  "name_disk p add =
     (if add_DiskName add = [] \<or> add_PartName add = [] then Inr p
      else (case gm_get (pf_Disks p) UNDEF of
          None \<Rightarrow> Inl ErrPanic
        | Some d \<Rightarrow>
            (case gm_get (dk_Partitions d) UNDEF of
               None \<Rightarrow> Inl ErrPanic
             | Some prt \<Rightarrow>
                 (case gm_put (dk_Partitions d) (add_PartName add) prt of
                    Inl e \<Rightarrow> Inl e
                  | Inr parts \<Rightarrow>
                      let dsk = d\<lparr>dk_Partitions := gm_delete parts UNDEF\<rparr> in
                      (case gm_put (pf_Disks p) UNDEF dsk of
                         Inl e \<Rightarrow> Inl e
                       | Inr m \<Rightarrow> map_put (\<lambda>m. p\<lparr>pf_Disks := m\<rparr>) m (add_DiskName add) dsk)))))"

text \<open>The commands that add want both a disk and a partition or none; the others only a disk with a partition.\<close>

definition name_entries :: "bool \<Rightarrow> Profile \<Rightarrow> NodeConfAdd \<Rightarrow> (Profile \<times> NodeConfAdd) result" where
  "name_entries both p add =
     (case name_netdev p add of
        Inl e \<Rightarrow> Inl e
      | Inr p \<Rightarrow>
          (case name_filesystem p add of
             Inl e \<Rightarrow> Inl e
           | Inr (p, add) \<Rightarrow>
               (case name_disk p add of
                  Inl e \<Rightarrow> Inl e
                | Inr p \<Rightarrow>
                    if (if both then (add_DiskName add \<noteq> []) \<noteq> (add_PartName add \<noteq> [])
                        else add_PartName add \<noteq> [] \<and> add_DiskName add = [])
                    then Inl (ErrMsg ''partition and disk must be specified'')
                    else Inr (p\<lparr>pf_Disks := gm_delete (pf_Disks p) UNDEF\<rparr>, add))))"

section \<open>Set\<close>

definition del_partition :: "Profile \<Rightarrow> string \<Rightarrow> string \<Rightarrow> Profile result" where
  "del_partition p diskname part =
     (if diskname \<noteq> [] then
        (case gm_get (pf_Disks p) diskname of
           None \<Rightarrow> Inl (ErrMsg (''disk doesn't exist: '' @ diskname))
         | Some disk \<Rightarrow>
             if gm_get (dk_Partitions disk) part = None then Inl (ErrMsg (''partition doesn't exist: '' @ part))
             else map_put (\<lambda>m. p\<lparr>pf_Disks := m\<rparr>) (pf_Disks p) diskname
                    (disk\<lparr>dk_Partitions := gm_delete (dk_Partitions disk) part\<rparr>))
      else if \<forall>(k, disk)\<in>set (gm_entries (pf_Disks p)). gm_get (dk_Partitions disk) part = None
      then Inl (ErrMsg (''partition doesn't exist: '' @ part))
      else Inr (p\<lparr>pf_Disks := gm_map (\<lambda>disk. disk\<lparr>dk_Partitions := gm_delete (dk_Partitions disk) part\<rparr>) (pf_Disks p)\<rparr>))"

definition delete_named :: "Profile \<Rightarrow> NodeConfAdd \<Rightarrow> NodeConfDel \<Rightarrow> Profile result" where
  "delete_named p add del =
     (if del_NetDel del \<noteq> [] \<and> gm_get (pf_NetDevs p) (del_NetDel del) = None
      then Inl (ErrMsg (''network device name doesn't exist: '' @ del_NetDel del))
      else (let p = (if del_NetDel del \<noteq> [] then p\<lparr>pf_NetDevs := gm_delete (pf_NetDevs p) (del_NetDel del)\<rparr> else p) in
        case (if del_PartDel del \<noteq> [] then del_partition p (add_DiskName add) (del_PartDel del) else Inr p) of
          Inl e \<Rightarrow> Inl e
        | Inr p \<Rightarrow>
            if del_DiskDel del \<noteq> [] \<and> gm_get (pf_Disks p) (del_DiskDel del) = None
            then Inl (ErrMsg (''disk doesn't exist: '' @ del_DiskDel del))
            else (let p = (if del_DiskDel del \<noteq> [] then p\<lparr>pf_Disks := gm_delete (pf_Disks p) (del_DiskDel del)\<rparr> else p) in
              if del_FsDel del \<noteq> [] \<and> gm_get (pf_FileSystems p) (del_FsDel del) = None
              then Inl (ErrMsg (''filesystem doesn't exist: '' @ del_FsDel del))
              else Inr (if del_FsDel del \<noteq> [] then p\<lparr>pf_FileSystems := gm_delete (pf_FileSystems p) (del_FsDel del)\<rparr> else p))))"

definition set_entity :: "Profile \<Rightarrow> NodeConfAdd \<Rightarrow> NodeConfDel \<Rightarrow> Profile result" where
  "set_entity p add del = (case delete_named p add del of
      Inl e \<Rightarrow> Inl e
    | Inr p \<Rightarrow> ApplyTagChanges p add del)"

text \<open>What the loops over nodes and profiles have in common: the change of one entry, and its list of changes.\<close>

definition edit_entry ::
  "('v \<Rightarrow> 'v result) \<Rightarrow> ('v \<Rightarrow> 'v) \<Rightarrow> ('v \<Rightarrow> 'v \<Rightarrow> NodeChange list) \<Rightarrow> string \<Rightarrow> 'v \<Rightarrow>
   'v gomap \<times> (string \<times> NodeChange list) list \<Rightarrow> ('v gomap \<times> (string \<times> NodeChange list) list) result" where
  "edit_entry f before diff i v st = (case st of (m, changes) \<Rightarrow>
     (case f v of
        Inl e \<Rightarrow> Inl e
      | Inr v' \<Rightarrow>
          (case gm_put m i v' of
             Inl e \<Rightarrow> Inl e
           | Inr m \<Rightarrow> let ch = diff (before v) v' in Inr (m, if ch \<noteq> [] then al_update i ch changes else changes))))"

fun set_entries ::
  "('v \<Rightarrow> 'v result) \<Rightarrow> ('v \<Rightarrow> 'v) \<Rightarrow> ('v \<Rightarrow> 'v \<Rightarrow> NodeChange list) \<Rightarrow> (string \<Rightarrow> 'v \<Rightarrow> 'v) \<Rightarrow> string list \<Rightarrow>
   'v gomap \<times> (string \<times> NodeChange list) list \<Rightarrow> ('v gomap \<times> (string \<times> NodeChange list) list) result" where
  "set_entries f before diff found [] st = Inr st"
| "set_entries f before diff found (i # is') st =
     (case gm_get (fst st) i of
        None \<Rightarrow> set_entries f before diff found is' st
      | Some v \<Rightarrow>
          (case edit_entry f before diff i (found i v) st of
             Inl e \<Rightarrow> Inl e
           | Inr st \<Rightarrow> set_entries f before diff found is' st))"

definition apply_question :: "nat \<Rightarrow> string \<Rightarrow> string" where
  "apply_question n what = ''Apply these changes to '' @ show_nat n @ '' '' @ what @ ''(s)?''"

text \<open>The end of the commands that change entries: the summary, the question, and saving.\<close>

definition confirm_and_save :: "cmd_env \<Rightarrow> bool \<Rightarrow> string \<Rightarrow> (string \<times> NodeChange list) list \<Rightarrow> NodesYaml \<Rightarrow> world \<Rightarrow> err option \<times> world" where
  "confirm_and_save c yes what changes nodeDB w =
     (let summary = FormatChanges changes in
      if \<not> yes \<and> summary = [] then (None, w)
      else if \<not> yes \<and> \<not> ce_confirm c summary (apply_question (length changes) what)
      then (None, w)
      else persist_reload c nodeDB w)"

record set_vars =
  sv_conf :: Node
  sv_add :: NodeConfAdd
  sv_del :: NodeConfDel
  sv_yes :: bool
  sv_all :: bool
  sv_changed :: "string \<Rightarrow> bool"

definition set_one_node :: "set_vars \<Rightarrow> Profile \<Rightarrow> NodeConfAdd \<Rightarrow> Node \<Rightarrow> Node result" where
  "set_one_node v conf add n =
     (let n = Node_UpdateFrom n ((sv_conf v)\<lparr>nd_Profile := conf\<rparr>) (sv_changed v) in
      map_sum id (\<lambda>p. Node_Flatten (n\<lparr>nd_Profile := p\<rparr>)) (set_entity (nd_Profile n) add (sv_del v)))"

definition node_set_names :: "cmd_env \<Rightarrow> set_vars \<Rightarrow> Profile \<Rightarrow> NodeConfAdd \<Rightarrow> NodesYaml \<Rightarrow> string list \<Rightarrow> world \<Rightarrow> err option \<times> world" where
  "node_set_names c v conf add nodeDB args w =
     (if args = [] \<and> \<not> sv_all v then (Some (ErrMsg ''no nodes specified; use --all to modify all nodes''), w)
      else if \<not> sv_all v \<and> ListAllNodes nodeDB = [] then (None, w)
      else (case set_entries (set_one_node v conf add) (\<lambda>n. Node_Flatten (ce_cloneNode c n)) Node_Diff (\<lambda>_ n. n)
                (if sv_all v then ListAllNodes nodeDB else args) (Nodes nodeDB, []) of
          Inl e \<Rightarrow> (Some e, w)
        | Inr (nodes, changes) \<Rightarrow> confirm_and_save c (sv_yes v) ''node'' changes (nodeDB\<lparr>Nodes := nodes\<rparr>) w))"

definition node_set :: "cmd_env \<Rightarrow> set_vars \<Rightarrow> string list \<Rightarrow> world \<Rightarrow> (err option \<times> world) option" where
  "node_set c v args w =
     (case name_entries False (nd_Profile (sv_conf v)) (sv_add v) of
        Inl e \<Rightarrow> Some (Some e, w)
      | Inr (conf, add) \<Rightarrow>
          (case node_New (ce_env c) w of
             Inl e \<Rightarrow> Some (Some e, w)
           | Inr nodeDB \<Rightarrow>
               map_option (\<lambda>args. node_set_names c v conf add nodeDB args w) (expand_args c nodeDB args)))"

text \<open>Profiles: the flags are those of a profile, held here in the node; \<open>GetProfilePtr\<close> sets the id of the entry.\<close>

definition set_one_profile :: "set_vars \<Rightarrow> Profile \<Rightarrow> NodeConfAdd \<Rightarrow> Profile \<Rightarrow> Profile result" where
  "set_one_profile v conf add p =
     map_sum id Profile_Flatten (set_entity (Profile_UpdateFrom p conf (sv_changed v)) add (sv_del v))"

definition profile_set :: "cmd_env \<Rightarrow> set_vars \<Rightarrow> string list \<Rightarrow> world \<Rightarrow> err option \<times> world" where
  "profile_set c v args w =
     (case name_entries False (nd_Profile (sv_conf v)) (sv_add v) of
        Inl e \<Rightarrow> (Some e, w)
      | Inr (conf, add) \<Rightarrow>
          (case node_New (ce_env c) w of
             Inl e \<Rightarrow> (Some e, w)
           | Inr nodeDB \<Rightarrow>
               if args = [] then (Some (ErrMsg ''no profiles specified''), w)
               else if ListAllProfiles nodeDB = [] then (None, w)
               else (case set_entries (set_one_profile v conf add) (\<lambda>p. Profile_Flatten (ce_cloneProfile c p)) Profile_Diff
                         (\<lambda>i p. p\<lparr>pf_id := i\<rparr>) args (NodeProfiles nodeDB, []) of
                   Inl e \<Rightarrow> (Some e, w)
                 | Inr (profiles, changes) \<Rightarrow>
                     confirm_and_save c (sv_yes v) ''profile'' changes (nodeDB\<lparr>NodeProfiles := profiles\<rparr>) w)))"

section \<open>Add\<close>

definition no_del :: NodeConfDel where
  "no_del = \<lparr>del_TagsDel = [], del_IpmiTagsDel = [], del_NetTagsDel = [], del_NetDel = [], del_DiskDel = [],
     del_PartDel = [], del_FsDel = []\<rparr>"

text \<open>
  One address of the loop of \<open>node add\<close>: the last one plus one, if there is one, or else the address that the
  flags gave, which becomes the last one. A nil address is not unspecified.
\<close>

definition next_addr :: "IP \<Rightarrow> IP \<Rightarrow> (IP \<times> IP) result" where
  "next_addr prev addr =
     (if \<not> IsUnspecified prev \<and> prev \<noteq> [] then map_sum id (\<lambda>ip. (ip, ip)) (IncrementIPv4 prev 1)
      else Inr (if \<not> IsUnspecified addr then addr else prev, addr))"

fun next_devs :: "IP \<Rightarrow> (string \<times> NetDev) list \<Rightarrow> (IP \<times> (string \<times> NetDev) list) result" where
  "next_devs prev [] = Inr (prev, [])"
| "next_devs prev ((k, dev) # devs) =
     (case next_addr prev (dev_Ipaddr dev) of
        Inl e \<Rightarrow> Inl e
      | Inr (prev, addr) \<Rightarrow>
          map_sum id (\<lambda>(prev, devs). (prev, (k, dev\<lparr>dev_Ipaddr := addr\<rparr>) # devs)) (next_devs prev devs))"

definition next_ipmi :: "IP \<Rightarrow> IpmiConf option \<Rightarrow> (IP \<times> IpmiConf option) result" where
  "next_ipmi prev ipmi = (case ipmi of
      None \<Rightarrow> Inr (prev, None)
    | Some i \<Rightarrow> map_sum id (\<lambda>(prev, addr). (prev, Some (i\<lparr>ip_Ipaddr := addr\<rparr>))) (next_addr prev (ip_Ipaddr i)))"

record add_vars =
  av_conf :: Node
  av_add :: NodeConfAdd
  av_changed :: "string \<Rightarrow> bool"

text \<open>The node of one turn, before its addresses: from the flags, with tags and profiles.\<close>

definition flagged_node :: "add_vars \<Rightarrow> Node \<Rightarrow> NodeConfAdd \<Rightarrow> Node \<Rightarrow> Node result" where
  "flagged_node v conf add n =
     (let n = Node_UpdateFrom n conf (av_changed v) in
      case ApplyTagChanges (nd_Profile n) add no_del of
        Inl e \<Rightarrow> Inl e
      | Inr p \<Rightarrow> Inr (n\<lparr>nd_Profile :=
          (if \<not> av_changed v ''profile'' \<and> pf_Profiles (nd_Profile conf) \<noteq> []
           then p\<lparr>pf_Profiles := pf_Profiles (nd_Profile conf)\<rparr> else p)\<rparr>))"

definition number_node :: "IP \<Rightarrow> IP \<Rightarrow> Node \<Rightarrow> (IP \<times> IP \<times> Node) result" where
  "number_node ipv4 ipmiaddr n =
     (let p = nd_Profile n in
      case next_devs ipv4 (gm_entries (pf_NetDevs p)) of
        Inl e \<Rightarrow> Inl e
      | Inr (ipv4, devs) \<Rightarrow>
          (case next_ipmi ipmiaddr (pf_Ipmi p) of
             Inl e \<Rightarrow> Inl e
           | Inr (ipmiaddr, ipmi) \<Rightarrow>
               Inr (ipv4, ipmiaddr, n\<lparr>nd_Profile := p\<lparr>pf_NetDevs := map_option (\<lambda>_. devs) (pf_NetDevs p), pf_Ipmi := ipmi\<rparr>\<rparr>)))"

fun add_nodes :: "add_vars \<Rightarrow> Node \<Rightarrow> NodeConfAdd \<Rightarrow> IP \<Rightarrow> IP \<Rightarrow> string list \<Rightarrow> NodesYaml \<Rightarrow> NodesYaml result" where
  "add_nodes v conf add ipv4 ipmiaddr [] nodeDB = Inr nodeDB"
| "add_nodes v conf add ipv4 ipmiaddr (a # as) nodeDB =
     (case AddNode nodeDB a of
        Inl e \<Rightarrow> Inl e
      | Inr (nodeDB, n) \<Rightarrow>
          (case flagged_node v conf add n of
             Inl e \<Rightarrow> Inl e
           | Inr n \<Rightarrow>
               (case number_node ipv4 ipmiaddr n of
                  Inl e \<Rightarrow> Inl e
                | Inr (ipv4, ipmiaddr, n) \<Rightarrow>
                    (case gm_put (Nodes nodeDB) a n of
                       Inl e \<Rightarrow> Inl e
                     | Inr m \<Rightarrow> add_nodes v conf add ipv4 ipmiaddr as (nodeDB\<lparr>Nodes := m\<rparr>)))))"

text \<open>Without the flag, nodes get the profile \<open>default\<close> if there is one.\<close>

definition default_profiles :: "NodesYaml \<Rightarrow> Profile \<Rightarrow> Profile" where
  "default_profiles registry p =
     (if pf_Profiles p = [] then
        (case GetProfile registry ''default'' of Inr _ \<Rightarrow> p\<lparr>pf_Profiles := [''default'']\<rparr> | Inl _ \<Rightarrow> p)
      else p)"

definition node_add :: "cmd_env \<Rightarrow> add_vars \<Rightarrow> string list \<Rightarrow> world \<Rightarrow> (err option \<times> world) option" where
  "node_add c v args w =
     (case name_entries True (nd_Profile (av_conf v)) (av_add v) of
        Inl e \<Rightarrow> Some (Some e, w)
      | Inr (p, add) \<Rightarrow>
          (case node_New (ce_env c) w of
             Inl e \<Rightarrow> Some (Some e, w)
           | Inr nodeDB \<Rightarrow>
               (case expand_args c nodeDB args of
                  None \<Rightarrow> None
                | Some nodeArgs \<Rightarrow> Some
                    (case add_nodes v ((av_conf v)\<lparr>nd_Profile := default_profiles nodeDB p\<rparr>) add [] [] nodeArgs nodeDB of
                       Inl e \<Rightarrow> (Some e, w)
                     | Inr nodeDB \<Rightarrow> persist_reload c nodeDB w))))"

fun add_profiles :: "add_vars \<Rightarrow> Profile \<Rightarrow> NodeConfAdd \<Rightarrow> string list \<Rightarrow> NodesYaml \<Rightarrow> NodesYaml result" where
  "add_profiles v conf add [] nodeDB = Inr nodeDB"
| "add_profiles v conf add (p # ps) nodeDB =
     (if p \<in> set (ListAllProfiles nodeDB) then Inl (ErrMsg (''profile with name '' @ p @ '' already exists''))
      else (case AddProfile nodeDB p of
          Inl e \<Rightarrow> Inl e
        | Inr (nodeDB, pNew) \<Rightarrow>
            (case ApplyTagChanges (Profile_UpdateFrom pNew conf (av_changed v)) add no_del of
               Inl e \<Rightarrow> Inl e
             | Inr pNew \<Rightarrow>
                 (case gm_put (NodeProfiles nodeDB) p pNew of
                    Inl e \<Rightarrow> Inl e
                  | Inr m \<Rightarrow> add_profiles v conf add ps (nodeDB\<lparr>NodeProfiles := m\<rparr>)))))"

definition profile_add :: "cmd_env \<Rightarrow> add_vars \<Rightarrow> string list \<Rightarrow> world \<Rightarrow> err option \<times> world" where
  "profile_add c v args w =
     (case name_entries True (nd_Profile (av_conf v)) (av_add v) of
        Inl e \<Rightarrow> (Some e, w)
      | Inr (p, add) \<Rightarrow>
          (case node_New (ce_env c) w of
             Inl e \<Rightarrow> (Some e, w)
           | Inr nodeDB \<Rightarrow>
               (case add_profiles v p add args nodeDB of
                  Inl e \<Rightarrow> (Some e, w)
                | Inr nodeDB \<Rightarrow> api_Persist (ce_env c) nodeDB w)))"

section \<open>Unset\<close>

text \<open>The flags are given as a list of names with their values and scopes; no value is a nil pointer.\<close>

record unset_vars =
  uv_Yes :: bool
  uv_Force :: bool
  uv_Fields :: "(string \<times> bool) list"
  uv_Scopes :: "string \<Rightarrow> string"
  uv_Netname :: string
  uv_Diskname :: string
  uv_Partname :: string
  uv_Fsname :: string
  uv_NetnameChanged :: bool
  uv_Tags :: "string list"
  uv_IpmiTags :: "string list"
  uv_NetTags :: "string list"

definition scope_error :: "unset_vars \<Rightarrow> string \<Rightarrow> err option" where
  "scope_error v flag =
     (let s = uv_Scopes v flag in
      if s = ''disk,part'' \<and> (uv_Diskname v = [] \<or> uv_Partname v = [])
      then Some (ErrMsg (''--diskname and --partname must be specified with --'' @ flag))
      else if s = ''disk'' \<and> uv_Diskname v = [] then Some (ErrMsg (''--diskname must be specified with --'' @ flag))
      else if s = ''fs'' \<and> uv_Fsname v = [] then Some (ErrMsg (''--fsname must be specified with --'' @ flag))
      else None)"

definition ValidateScopeRequirements :: "unset_vars \<Rightarrow> err option" where
  "ValidateScopeRequirements v =
     (case List.map_filter (\<lambda>(flag, b). if b then scope_error v flag else None) (uv_Fields v) of
        [] \<Rightarrow> None | e # _ \<Rightarrow> Some e)"

definition HasScopedFieldSet :: "unset_vars \<Rightarrow> string \<Rightarrow> bool" where
  "HasScopedFieldSet v scope = list_ex (\<lambda>(flag, b). b \<and> uv_Scopes v flag = scope) (uv_Fields v)"

definition unset_scope :: "unset_vars \<Rightarrow> Profile" where
  "unset_scope v =
     (let p = NewProfile [];
          p = (if HasScopedFieldSet v ''net'' then p\<lparr>pf_NetDevs := Some (al_update (uv_Netname v) zero_NetDev (gm_entries (pf_NetDevs p)))\<rparr> else p);
          disk = HasScopedFieldSet v ''disk''; part = HasScopedFieldSet v ''disk,part'';
          p = (if uv_Diskname v \<noteq> [] \<and> (disk \<or> part)
               then p\<lparr>pf_Disks := Some [(uv_Diskname v,
                        if uv_Partname v \<noteq> [] \<and> part then zero_Disk\<lparr>dk_Partitions := Some [(uv_Partname v, zero_Partition)]\<rparr>
                        else zero_Disk)]\<rparr>
               else p)
      in if uv_Fsname v \<noteq> [] \<and> HasScopedFieldSet v ''fs''
         then p\<lparr>pf_FileSystems := Some [(uv_Fsname v, zero_FileSystem)]\<rparr> else p)"

definition unset_changed :: "unset_vars \<Rightarrow> string \<Rightarrow> bool" where
  "unset_changed v lopt = (map_of (uv_Fields v) lopt = Some True)"

text \<open>The deletions of tags and of whole entries.\<close>

definition unset_tags :: "unset_vars \<Rightarrow> Profile \<Rightarrow> Profile" where
  "unset_tags v p = p\<lparr>
     pf_Tags := del_all gm_delete (pf_Tags p) (uv_Tags v),
     pf_Ipmi := map_option (\<lambda>i. i\<lparr>ip_Tags := del_all gm_delete (ip_Tags i) (uv_IpmiTags v)\<rparr>) (pf_Ipmi p),
     pf_NetDevs := gm_map_key (\<lambda>k d. if k = uv_Netname v then d\<lparr>dev_Tags := del_all gm_delete (dev_Tags d) (uv_NetTags v)\<rparr> else d)
       (pf_NetDevs p)\<rparr>"

definition unset_entries :: "unset_vars \<Rightarrow> Profile \<Rightarrow> Profile result" where
  "unset_entries v p =
     (let p = (if uv_NetnameChanged v \<and> \<not> HasScopedFieldSet v ''net'' \<and> uv_NetTags v = []
               then p\<lparr>pf_NetDevs := gm_delete (pf_NetDevs p) (uv_Netname v)\<rparr> else p);
          p = (if uv_Diskname v \<noteq> [] \<and> uv_Partname v = [] \<and> \<not> HasScopedFieldSet v ''disk''
               then p\<lparr>pf_Disks := gm_delete (pf_Disks p) (uv_Diskname v)\<rparr> else p);
          p = (if uv_Fsname v \<noteq> [] \<and> \<not> HasScopedFieldSet v ''fs''
               then p\<lparr>pf_FileSystems := gm_delete (pf_FileSystems p) (uv_Fsname v)\<rparr> else p)
      in if uv_Partname v \<noteq> [] \<and> \<not> HasScopedFieldSet v ''disk,part''
         then del_partition p (uv_Diskname v) (uv_Partname v) else Inr p)"

definition drop_empty :: "('v \<Rightarrow> gval) \<Rightarrow> 'v gomap \<Rightarrow> 'v gomap" where
  "drop_empty f m = map_option (filter (\<lambda>(k, v). \<not> ObjectIsEmpty (f v))) m"

definition drop_empties :: "Profile \<Rightarrow> Profile" where
  "drop_empties p = p\<lparr>pf_NetDevs := drop_empty NetDev_val (pf_NetDevs p), pf_Disks := drop_empty Disk_val (pf_Disks p),
     pf_FileSystems := drop_empty FileSystem_val (pf_FileSystems p)\<rparr>"

text \<open>\<open>UpdateEntity\<close> on a node and on a profile; the commands flatten the result once more.\<close>

definition UpdateEntity_Node :: "unset_vars \<Rightarrow> Node \<Rightarrow> Node result" where
  "UpdateEntity_Node v n =
     (let n = Node_UpdateFromProfile n (unset_scope v) (unset_changed v) in
      case unset_entries v (unset_tags v (nd_Profile n)) of
        Inl e \<Rightarrow> Inl e
      | Inr p \<Rightarrow> (let n = Node_Flatten (n\<lparr>nd_Profile := p\<rparr>) in Inr (n\<lparr>nd_Profile := drop_empties (nd_Profile n)\<rparr>)))"

definition UpdateEntity_Profile :: "unset_vars \<Rightarrow> Profile \<Rightarrow> Profile result" where
  "UpdateEntity_Profile v p =
     map_sum id (\<lambda>p. drop_empties (Profile_Flatten p))
       (unset_entries v (unset_tags v (Profile_UpdateFromProfile p (unset_scope v) (unset_changed v))))"

text \<open>The loop: a name that is not known is an error unless it is forced; the number of changed entries is counted.\<close>

fun unset_loop ::
  "('v \<Rightarrow> 'v result) \<Rightarrow> ('v \<Rightarrow> 'v) \<Rightarrow> ('v \<Rightarrow> 'v \<Rightarrow> NodeChange list) \<Rightarrow> bool \<Rightarrow> string \<Rightarrow> string list \<Rightarrow> nat \<Rightarrow>
   'v gomap \<times> (string \<times> NodeChange list) list \<Rightarrow> (nat \<times> 'v gomap \<times> (string \<times> NodeChange list) list) result" where
  "unset_loop f before diff force what [] cnt st = Inr (cnt, st)"
| "unset_loop f before diff force what (i # is') cnt st =
     (case gm_get (fst st) i of
        None \<Rightarrow> if force then unset_loop f before diff force what is' cnt st
                else Inl (ErrMsg (what @ '' not found: '' @ i))
      | Some v \<Rightarrow>
          (case edit_entry f before diff i v st of
             Inl e \<Rightarrow> Inl e
           | Inr st \<Rightarrow> unset_loop f before diff force what is' (cnt + 1) st))"

definition any_field_set :: "unset_vars \<Rightarrow> (string \<Rightarrow> bool) \<Rightarrow> bool" where
  "any_field_set v changed = (list_ex snd (uv_Fields v) \<or> uv_Tags v \<noteq> [] \<or> uv_IpmiTags v \<noteq> [] \<or> uv_NetTags v \<noteq> [] \<or>
     changed ''netname'' \<or> changed ''diskname'' \<or> changed ''fsname'' \<or> changed ''partname'')"

text \<open>Saving at the end of \<open>unset\<close>: a failed reload is only a warning.\<close>

definition unset_save :: "cmd_env \<Rightarrow> bool \<Rightarrow> string \<Rightarrow> (string \<times> NodeChange list) list \<Rightarrow> NodesYaml \<Rightarrow> world \<Rightarrow> err option \<times> world" where
  "unset_save c yes what changes nodeDB w = confirm_and_save (c\<lparr>ce_reload := None\<rparr>) yes what changes nodeDB w"

definition node_unset :: "cmd_env \<Rightarrow> unset_vars \<Rightarrow> (string \<Rightarrow> bool) \<Rightarrow> string list \<Rightarrow> world \<Rightarrow> (err option \<times> world) option" where
  "node_unset c v changed args w =
     (let v = v\<lparr>uv_NetnameChanged := changed ''netname''\<rparr> in
      if \<not> any_field_set v changed then Some (Some (ErrMsg ''no fields specified to unset''), w)
      else (case node_New (ce_env c) w of
          Inl e \<Rightarrow> Some (Some e, w)
        | Inr nodeDB \<Rightarrow>
            (case expand_args c nodeDB args of
               None \<Rightarrow> None
             | Some args \<Rightarrow> Some
                 (case ValidateScopeRequirements v of
                    Some e \<Rightarrow> (Some e, w)
                  | None \<Rightarrow>
                      (case unset_loop (\<lambda>n. map_sum id Node_Flatten (UpdateEntity_Node v n)) (\<lambda>n. Node_Flatten (ce_cloneNode c n)) Node_Diff
                              (uv_Force v) ''node'' args 0 (Nodes nodeDB, []) of
                         Inl e \<Rightarrow> (Some e, w)
                       | Inr (cnt, nodes, changes) \<Rightarrow>
                           if cnt = 0 then (Some (ErrMsg ''no nodes were modified''), w)
                           else unset_save c (uv_Yes v) ''node'' changes (nodeDB\<lparr>Nodes := nodes\<rparr>) w)))))"

definition profile_unset :: "cmd_env \<Rightarrow> unset_vars \<Rightarrow> (string \<Rightarrow> bool) \<Rightarrow> string list \<Rightarrow> world \<Rightarrow> err option \<times> world" where
  "profile_unset c v changed args w =
     (let v = v\<lparr>uv_NetnameChanged := changed ''netname''\<rparr> in
      if \<not> any_field_set v changed then (Some (ErrMsg ''no fields specified to unset''), w)
      else (case node_New (ce_env c) w of
          Inl e \<Rightarrow> (Some e, w)
        | Inr nodeDB \<Rightarrow>
            (case ValidateScopeRequirements v of
               Some e \<Rightarrow> (Some e, w)
             | None \<Rightarrow>
                 (case unset_loop (\<lambda>p. map_sum id Profile_Flatten (UpdateEntity_Profile v p)) (\<lambda>p. Profile_Flatten (ce_cloneProfile c p)) Profile_Diff
                         (uv_Force v) ''profile'' args 0 (NodeProfiles nodeDB, []) of
                    Inl e \<Rightarrow> (Some e, w)
                  | Inr (cnt, profiles, changes) \<Rightarrow>
                      if cnt = 0 then (Some (ErrMsg ''no profiles were modified''), w)
                      else unset_save c (uv_Yes v) ''profile'' changes (nodeDB\<lparr>NodeProfiles := profiles\<rparr>) w))))"

section \<open>Delete\<close>

text \<open>A node that cannot be deleted is reported and left out.\<close>

definition del_or_keep :: "(NodesYaml \<Rightarrow> string \<Rightarrow> NodesYaml result) \<Rightarrow> NodesYaml \<Rightarrow> string \<Rightarrow> NodesYaml" where
  "del_or_keep del nodeDB i = (case del nodeDB i of Inl _ \<Rightarrow> nodeDB | Inr nodeDB' \<Rightarrow> nodeDB')"

definition node_delete :: "cmd_env \<Rightarrow> bool \<Rightarrow> string list \<Rightarrow> world \<Rightarrow> (err option \<times> world) option" where
  "node_delete c yes args w = (case node_New (ce_env c) w of
      Inl e \<Rightarrow> Some (Some e, w)
    | Inr nodeDB \<Rightarrow>
        (case FindAllNodes (e_lib (ce_env c)) nodeDB [] of
           (_, Some e) \<Rightarrow> Some (Some e, w)
         | (nodes, None) \<Rightarrow>
             (case expand_args c nodeDB args of
                None \<Rightarrow> None
              | Some nodeArgs \<Rightarrow> Some
                  (let nodeList = concat (map (\<lambda>r. filter (\<lambda>n. Node_Id n = r) nodes) nodeArgs) in
                   if nodeList = [] then (None, w)
                   else if \<not> yes \<and> \<not> ce_confirm c [] (''Are you sure you want to delete '' @ show_nat (length nodeList) @ '' nodes(s)'')
                   then (None, w)
                   else persist_reload c (foldl (del_or_keep DelNode) nodeDB (map Node_Id nodeList)) w))))"

text \<open>
  The loop that takes a profile out of the list of a node. It runs over the array of the list as it was,
  while \<open>append\<close> moves the rest of the list in this array; \<open>len\<close> is the length of the list as it is.
\<close>

function remove_profile :: "string \<Rightarrow> nat \<Rightarrow> string list \<Rightarrow> nat \<Rightarrow> string list result" where
  "remove_profile r i array len =
     (if i \<ge> length array then Inr (take len array)
      else if array ! i \<noteq> r then remove_profile r (i + 1) array len
      else if i + 1 > len then Inl ErrPanic
      else remove_profile r (i + 1) (take i array @ drop (i + 1) (take len array) @ drop (len - 1) array) (len - 1))"
  by pat_completeness auto
termination
  by (relation "measure (\<lambda>(r, i, array, len). length array - i)") auto

declare remove_profile.simps [simp del]

text \<open>The nodes are merged copies: what is taken out of their lists is not in the registry.\<close>

fun remove_from_copies :: "string \<Rightarrow> Node list \<Rightarrow> err option" where
  "remove_from_copies r [] = None"
| "remove_from_copies r (n # ns) =
     (case remove_profile r 0 (pf_Profiles (nd_Profile n)) (length (pf_Profiles (nd_Profile n))) of
        Inl e \<Rightarrow> Some e
      | Inr _ \<Rightarrow> remove_from_copies r ns)"

fun remove_profiles :: "merge_lib \<Rightarrow> NodesYaml \<Rightarrow> string list \<Rightarrow> err option" where
  "remove_profiles lib nodeDB [] = None"
| "remove_profiles lib nodeDB (r # rs) =
     (case FindAllNodes lib nodeDB [] of
        (_, Some e) \<Rightarrow> Some e
      | (nodes, None) \<Rightarrow> (case remove_from_copies r nodes of Some e \<Rightarrow> Some e | None \<Rightarrow> remove_profiles lib nodeDB rs))"

definition profile_delete :: "cmd_env \<Rightarrow> bool \<Rightarrow> string list \<Rightarrow> world \<Rightarrow> err option \<times> world" where
  "profile_delete c yes args w =
     (if ''default'' \<in> set args then (Some (ErrMsg ''can't delete the `default` profile ''), w)
      else (case node_New (ce_env c) w of
          Inl e \<Rightarrow> (Some e, w)
        | Inr nodeDB \<Rightarrow>
            (case FindAllProfiles nodeDB [] of
               (_, Some e) \<Rightarrow> (Some e, w)
             | (profiles, None) \<Rightarrow>
                 let known = concat (map (\<lambda>r. filter (\<lambda>i. i = r) (map Profile_Id profiles)) args) in
                 (case remove_profiles (e_lib (ce_env c)) nodeDB known of
                    Some e \<Rightarrow> (Some e, w)
                  | None \<Rightarrow>
                      let nodeDB = foldl (del_or_keep DelProfile) nodeDB known in
                      if known = [] then (Some (ErrMsg ''no profiles found''), w)
                      else if yes \<or> ce_confirm c [] (''Are you sure you want to delete '' @ show_nat (length known) @ '' profile(s)'')
                      then api_Persist (ce_env c) nodeDB w
                      else (None, w)))))"

end
