(* ===== verification/Node_Diff_Facts.thy ===== *)
theory Node_Diff_Facts
  imports Node_Diff
begin

text \<open>
  What the list of changes of \<open>Node_Diff\<close> means: it holds one change for each place at which the two values
  show different texts, and nothing else.
\<close>

section \<open>Differences, constructor by constructor\<close>

lemma differences_same [simp]: "differences v v pre = {}"
  by (auto simp: differences_def)

lemma differences_leaf:
  assumes "\<And>ps. text_at b ps = (if ps = [] then Some x else None)" "\<And>ps. text_at a ps = (if ps = [] then Some y else None)"
    and "path_at b [] pre = pre"
  shows "differences b a pre = set (change pre x y)"
  using assms by (auto simp: differences_def change_def)

lemma differences_map:
  assumes "\<And>ps. text_at b ps = (case ps of [EntryOf k] \<Rightarrow> Some (f k) | _ \<Rightarrow> None)"
    "\<And>ps. text_at a ps = (case ps of [EntryOf k] \<Rightarrow> Some (g k) | _ \<Rightarrow> None)"
    "\<And>k. path_at b [EntryOf k] pre = key_path pre k" "\<And>k. k \<notin> set (ks @ ls) \<Longrightarrow> f k = g k"
  shows "differences b a pre = set (diffMap ks ls (\<lambda>k p. change p (f k) (g k)) pre)"
proof -
  have one: "(case ps of [EntryOf k] \<Rightarrow> Some (h k) | _ \<Rightarrow> None) = Some x \<longleftrightarrow> (\<exists>k. ps = [EntryOf k] \<and> x = h k)" for ps x and h :: "string \<Rightarrow> string"
    by (auto split: list.splits node_place.splits)
  have "differences b a pre = (\<Union>k. set (change (key_path pre k) (f k) (g k)))"
    unfolding differences_def assms(1,2) one by (auto simp: change_def assms(3)) (metis assms(3))
  also have "\<dots> = (\<Union>k\<in>set (ks @ ls). set (change (key_path pre k) (f k) (g k)))"
    using assms(4) by (auto simp: change_def split: if_splits)
  finally show ?thesis by (simp add: diffMap_def)
qed

lemma differences_leaves:
  "differences (GStr s) (GStr s') pre = set (change pre (fmtScalar (GStr s)) (fmtScalar (GStr s')))"
  "differences (GWWbool s) (GWWbool s') pre = set (change pre (fmtScalar (GWWbool s)) (fmtScalar (GWWbool s')))"
  "differences (GBool b) (GBool b') pre = set (change pre (fmtScalar (GBool b)) (fmtScalar (GBool b')))"
  "differences (GIP i) (GIP i') pre = set (change pre (fmtScalar (GIP i)) (fmtScalar (GIP i')))"
  "differences (GAny r) (GAny r') pre = set (change pre (fmtScalar (GAny r)) (fmtScalar (GAny r')))"
  "differences (GStrs ss) (GStrs ss') pre = set (change pre (fmtSlice ss) (fmtSlice ss'))"
  "differences (GPtrBool p) (GPtrBool p') pre = set (change pre (FormatBool (bool_or_false p)) (FormatBool (bool_or_false p')))"
  by (rule differences_leaf; simp)+

lemma differences_Struct:
  assumes "length fs = length gs" "\<And>i. i < length fs \<Longrightarrow> fst (fs ! i) = fst (gs ! i)"
  shows "differences (GStruct fs) (GStruct gs) pre =
    (\<Union>i\<in>{i. i < length fs \<and> sf_exported (fst (fs ! i))}. differences (snd (fs ! i)) (snd (gs ! i)) (field_path (fst (fs ! i)) pre))"
    (is "?l = ?r")
proof (intro set_eqI iffI)
  fix c assume "c \<in> ?l"
  then obtain ps x y where c: "text_at (GStruct fs) ps = Some x" "text_at (GStruct gs) ps = Some y" "x \<noteq> y"
      "c = \<lparr>ch_Path = path_at (GStruct fs) ps pre, ch_Before = x, ch_After = y\<rparr>"
    by (auto simp: differences_def)
  then obtain i qs where "ps = FieldNo i # qs" by (metis list.exhaust option.distinct(1) node_place.exhaust text_at.simps(2,3))
  with c show "c \<in> ?r" by (fastforce simp: differences_def split: if_splits)
next
  fix c assume "c \<in> ?r"
  then obtain i ps x y where c: "i < length fs" "sf_exported (fst (fs ! i))" "text_at (snd (fs ! i)) ps = Some x"
      "text_at (snd (gs ! i)) ps = Some y" "x \<noteq> y"
      "c = \<lparr>ch_Path = path_at (snd (fs ! i)) ps (field_path (fst (fs ! i)) pre), ch_Before = x, ch_After = y\<rparr>"
    by (auto simp: differences_def)
  then have "text_at (GStruct fs) (FieldNo i # ps) = Some x" "text_at (GStruct gs) (FieldNo i # ps) = Some y"
      "c = \<lparr>ch_Path = path_at (GStruct fs) (FieldNo i # ps) pre, ch_Before = x, ch_After = y\<rparr>"
    using assms(1) assms(2) [OF c(1)] by simp_all
  with c(5) show "c \<in> ?l" unfolding differences_def by blast
qed

lemma differences_Ptr: "differences (GPtr t p) (GPtr t q) pre = differences (elem_or_zero t p) (elem_or_zero t q) pre"
  by (simp add: differences_def)

lemma differences_MapPtr:
  "differences (GMapPtr t m) (GMapPtr t m') pre =
     (\<Union>k. differences (GPtr t (gm_get m k)) (GPtr t (gm_get m' k)) (key_path pre k))" (is "?l = ?r")
proof (intro set_eqI iffI)
  fix c assume "c \<in> ?l"
  then obtain ps x y where c: "text_at (GMapPtr t m) ps = Some x" "text_at (GMapPtr t m') ps = Some y" "x \<noteq> y"
      "c = \<lparr>ch_Path = path_at (GMapPtr t m) ps pre, ch_Before = x, ch_After = y\<rparr>"
    by (auto simp: differences_def)
  then obtain k qs where "ps = EntryOf k # qs" by (metis list.exhaust option.distinct(1) node_place.exhaust text_at.simps(6,7))
  with c show "c \<in> ?r" by (fastforce simp: differences_def)
next
  fix c assume "c \<in> ?r"
  then obtain k ps x y where "text_at (GMapPtr t m) (EntryOf k # ps) = Some x" "text_at (GMapPtr t m') (EntryOf k # ps) = Some y"
      "x \<noteq> y" "c = \<lparr>ch_Path = path_at (GMapPtr t m) (EntryOf k # ps) pre, ch_Before = x, ch_After = y\<rparr>"
    by (auto simp: differences_def)
  then show "c \<in> ?l" unfolding differences_def by blast
qed

section \<open>The walk finds the differences\<close>

lemma set_diffStruct:
  assumes "list_all2 (\<lambda>x y. fst x = fst y \<and> (\<forall>pre. set (diffValue (snd x) (snd y) pre) = differences (snd x) (snd y) pre)) fs gs"
  shows "set (diffStruct fs gs pre) =
    (\<Union>i\<in>{i. i < length fs \<and> sf_exported (fst (fs ! i))}. differences (snd (fs ! i)) (snd (gs ! i)) (field_path (fst (fs ! i)) pre))"
  using assms
proof (induction rule: list_all2_induct)
  case (Cons x fs y gs)
  have split: "{i. i < length (x # fs) \<and> sf_exported (fst ((x # fs) ! i))} =
      {i. i = 0 \<and> sf_exported (fst x)} \<union> Suc ` {i. i < length fs \<and> sf_exported (fst (fs ! i))}"
    by (auto simp: less_Suc_eq_0_disj)
  show ?case using Cons unfolding split by (cases x; cases y) auto
qed simp

lemma gm_get_keys: "k \<notin> set (gm_keys m) \<longleftrightarrow> gm_get m k = None"
  by (simp add: gm_keys_def gm_get_def map_of_eq_None_iff)

lemma mapGet_absent: "k \<notin> set (gm_keys m) \<Longrightarrow> mapGet m z k = z"
  by (simp add: mapGet_def gm_get_keys)

lemma diffValue_exact: "alike b a \<Longrightarrow> set (diffValue b a pre) = differences b a pre"
proof (induction arbitrary: pre rule: alike.induct)
  case (6 p p')
  then show ?case by (cases "p = None \<and> p' = None") (simp_all add: differences_leaves change_def)
next
  case (8 m m')
  show ?case
    by (simp del: fmtScalar.simps) (rule differences_map [symmetric]; simp add: mapGet_absent del: fmtScalar.simps)
next
  case (9 m m')
  show ?case
    by (simp del: fmtScalar.simps) (rule differences_map [symmetric]; simp add: mapGet_absent del: fmtScalar.simps)
next
  case (10 fs gs)
  then have "list_all2 (\<lambda>x y. fst x = fst y \<and> (\<forall>pre. set (diffValue (snd x) (snd y) pre) = differences (snd x) (snd y) pre)) fs gs"
    by (auto elim: list_all2_mono)
  then show ?case
    using 10 by (simp add: set_diffStruct differences_Struct list_all2_conv_all_nth)
next
  case (11 t p fs q gs)
  then show ?case by (auto simp: differences_Ptr)
next
  case (12 t m m')
  then have "set (diffValue (GMapPtr t m) (GMapPtr t m') pre) =
      (\<Union>k\<in>set (gm_keys m @ gm_keys m'). differences (GPtr t (gm_get m k)) (GPtr t (gm_get m' k)) (key_path pre k))"
    by (simp add: diffMap_def del: diffValue.simps(2))
  also have "\<dots> = differences (GMapPtr t m) (GMapPtr t m') pre"
    unfolding differences_MapPtr by (auto simp: gm_get_keys) (metis differences_same empty_iff gm_get_keys)
  finally show ?case .
qed (simp_all add: differences_leaves change_def del: fmtScalar.simps(1,2,4-))

section \<open>Nodes and profiles\<close>

inductive_cases alike_StructE: "alike (GStruct fs) (GStruct gs)"

lemma alike_structs:
  assumes "alike (GStruct fs) (GStruct gs)" "f = g" "alike v w"
  shows "alike (GStruct ((f, v) # fs)) (GStruct ((g, w) # gs))"
  using assms by (auto elim: alike_StructE intro: alike.intros(10))

lemma alike_Nil: "alike (GStruct []) (GStruct [])"
  by (simp add: alike.intros)

lemma alike_ptr:
  assumes "\<And>x y. alike (f x) (f y)" "\<And>x. \<exists>fs. f x = GStruct fs"
  shows "alike (GPtr (f z) (map_option f p)) (GPtr (f z) (map_option f q))"
proof -
  have "elem_or_zero (f z) (map_option f r) = f (case r of None \<Rightarrow> z | Some x \<Rightarrow> x)" for r
    by (cases r) (simp_all add: elem_or_zero_def)
  then show ?thesis using assms by (metis alike.intros(11))
qed

lemma gm_get_map: "gm_get (gm_map f m) k = map_option f (gm_get m k)"
  by (cases m) (auto simp: gm_get_def gm_map_def gm_entries_def map_of_map map_prod_def)

lemma alike_map:
  assumes "\<And>x y. alike (f x) (f y)" "\<And>x. \<exists>fs. f x = GStruct fs"
  shows "alike (GMapPtr (f z) (gm_map f m)) (GMapPtr (f z) (gm_map f m'))"
  using alike_ptr [of f, OF assms] by (intro alike.intros(12)) (simp add: gm_get_map)

lemmas alike_rules = alike_structs alike_Nil alike.intros(1-9) refl

lemma alike_parts:
  "alike (IpmiConf_val i) (IpmiConf_val i')" "alike (KernelConf_val k) (KernelConf_val k')"
  "alike (NetDev_val n) (NetDev_val n')" "alike (Partition_val p) (Partition_val p')"
  "alike (FileSystem_val f) (FileSystem_val f')"
  unfolding IpmiConf_val_def KernelConf_val_def NetDev_val_def Partition_val_def FileSystem_val_def
  by (intro alike_rules)+

lemma struct_vals:
  "\<exists>fs. IpmiConf_val i = GStruct fs" "\<exists>fs. KernelConf_val k = GStruct fs" "\<exists>fs. NetDev_val n = GStruct fs"
  "\<exists>fs. Partition_val p = GStruct fs" "\<exists>fs. FileSystem_val f = GStruct fs" "\<exists>fs. Disk_val d = GStruct fs"
  by (simp_all add: IpmiConf_val_def KernelConf_val_def NetDev_val_def Partition_val_def FileSystem_val_def Disk_val_def)

lemma alike_Disk: "alike (Disk_val d) (Disk_val d')"
  unfolding Disk_val_def by (intro alike_rules alike_map alike_parts struct_vals)

lemma alike_Profile: "alike (Profile_val p) (Profile_val p')"
  unfolding Profile_val_def by (intro alike_rules alike_map alike_ptr alike_parts alike_Disk struct_vals)

lemma alike_Node: "alike (Node_val n) (Node_val n')"
  unfolding Node_val_def by (intro alike_rules alike_Profile)

lemma Diff_exact:
  assumes "alike b a" "b = GStruct fs" "a = GStruct gs"
  shows "set (Diff b a) = differences b a []" "sorted (map ch_Path (Diff b a))"
  using diffValue_exact [OF assms(1), of "[]"] assms(2,3) by (simp_all add: Diff_def)

text \<open>
  (C17) The changes that are shown for a node are exact: they are sorted by path, and there is one with
  path \<open>p\<close>, old text \<open>x\<close> and new text \<open>y\<close> exactly if at a place with the name \<open>p\<close> (fields by number, entries of
  maps by key, nil pointers and missing entries read as the zero value) the node before shows \<open>x\<close>, the node
  after shows \<open>y\<close>, and these differ. No place is left out, whatever maps and structs one of both lacks.
\<close>

theorem Node_Diff_exact:
  "set (Node_Diff before after) = {\<lparr>ch_Path = path_at (Node_val before) ps [], ch_Before = x, ch_After = y\<rparr> |ps x y.
     text_at (Node_val before) ps = Some x \<and> text_at (Node_val after) ps = Some y \<and> x \<noteq> y} \<and>
   sorted (map ch_Path (Node_Diff before after))"
  using Diff_exact [OF alike_Node [of before after]] unfolding Node_Diff_def differences_def
  by (simp add: Node_val_def)

section \<open>What the texts tell apart\<close>

text \<open>Reading the first character of a quoted string back.\<close>

definition unquote_code :: "string \<Rightarrow> nat \<times> string" where
  "unquote_code s = (case s of
     [] \<Rightarrow> (0, [])
   | b # t \<Rightarrow>
       if b \<noteq> CHR 0x5C then (of_char b, t)
       else (case t of
           [] \<Rightarrow> (0, [])
         | d # r \<Rightarrow>
             if d = CHR ''x'' then
               (16 * the (hex_digit_val (hd r)) + the (hex_digit_val (hd (tl r))), drop 2 r)
             else (case map_of (zip ''abfnrtv'' [7, 8, 12, 10, 13, 9, 11]) d of Some n \<Rightarrow> (n, r) | None \<Rightarrow> (of_char d, r))))"

lemma hex_digit_val_hexDigit: "k < 16 \<Longrightarrow> hex_digit_val (hexDigit k) = Some k"
  by (auto simp: hex_digit_val_def hexDigit_def digit_char_def Let_def)

lemma unquote_quote_char: "unquote_code (quote_char c @ xs) = (of_char c, xs)"
proof -
  have n: "(of_char c :: nat) < 256" using nat_of_char_less_256 [of c] by simp
  consider "of_char c \<in> {34, 92 :: nat}" | "of_char c \<in> {7, 8, 12, 10, 13, 9, 11 :: nat}"
    | "of_char c \<notin> {34, 92 :: nat}" "of_char c \<notin> {7, 8, 12, 10, 13, 9, 11 :: nat}" "of_char c < (32 :: nat) \<or> of_char c = (127 :: nat)"
    | "of_char c \<notin> {34, 92 :: nat}" "of_char c \<notin> {7, 8, 12, 10, 13, 9, 11 :: nat}" "\<not> (of_char c < (32 :: nat) \<or> of_char c = (127 :: nat))"
    by blast
  then show ?thesis
  proof cases
    case 1
    then consider "c = CHR 0x22" | "c = CHR 0x5C"
      using of_char_eq_iff [where 'a = nat, of c "CHR 0x22"] of_char_eq_iff [where 'a = nat, of c "CHR 0x5C"] by auto
    then show ?thesis by cases (simp_all add: unquote_code_def quote_char_def)
  next
    case 2
    then show ?thesis by (auto simp: unquote_code_def quote_char_def Let_def)
  next
    case 3
    then show ?thesis using n
      by (auto simp: unquote_code_def quote_char_def Let_def hex_digit_val_hexDigit)
  next
    case 4
    then have "c \<noteq> CHR 0x5C" by auto
    with 4 show ?thesis by (simp add: unquote_code_def quote_char_def)
  qed
qed

lemma quote_char_inj: "quote_char c @ xs = quote_char d @ ys \<Longrightarrow> c = d \<and> xs = ys"
  by (metis of_char_eq_iff prod.inject unquote_quote_char)

lemma quote_char_start: "\<exists>x xs. quote_char c = x # xs \<and> x \<noteq> CHR 0x22"
  by (cases "c = CHR 0x22") (auto simp: quote_char_def Let_def)

lemma Quote_inj: "Quote s = Quote t \<longleftrightarrow> s = t"
proof -
  have "concat (map quote_char s) @ [CHR 0x22] = concat (map quote_char t) @ [CHR 0x22] \<Longrightarrow> s = t"
  proof (induction s arbitrary: t)
    case Nil
    then show ?case using quote_char_start [of "hd t"] by (cases t) auto
  next
    case (Cons c s)
    then obtain d u where t: "t = d # u" using quote_char_start [of c] by (cases t) auto
    with Cons.prems have "quote_char c @ (concat (map quote_char s) @ [CHR 0x22]) = quote_char d @ (concat (map quote_char u) @ [CHR 0x22])"
      by simp
    from quote_char_inj [OF this] Cons.IH t show ?case by blast
  qed
  then show ?thesis by (auto simp: Quote_def)
qed

lemma fmtScalar_string: "fmtScalar (GStr s) = fmtScalar (GStr t) \<longleftrightarrow> s = t"
  using Quote_inj [of s t] by (auto simp: unset_def) (simp_all add: Quote_def)

section \<open>What the texts do not tell\<close>

text \<open>
  A flag that is set to false on a disk that the node did not have shows as no change, because a nil pointer
  reads as false.
\<close>

definition wiped :: "bool option \<Rightarrow> Node" where
  "wiped b = zero_Node\<lparr>nd_Profile := zero_Profile\<lparr>pf_Disks := Some [(''/dev/sda'', zero_Disk\<lparr>dk_WipeTableP := b\<rparr>)]\<rparr>\<rparr>"

lemma false_not_shown: "Node_Diff zero_Node (wiped (Some False)) = [] \<and> wiped (Some False) \<noteq> zero_Node"
  by code_simp

lemma false_kept: "Node_Flatten (wiped (Some False)) = wiped (Some False)"
  by code_simp

text \<open>A list with one entry that has a comma shows like the list of both parts.\<close>

lemma comma_not_shown:
  "Profile_Diff (zero_Profile\<lparr>pf_Groups := [''a, b'']\<rparr>) (zero_Profile\<lparr>pf_Groups := [''a'', ''b'']\<rparr>) = []"
  by code_simp

text \<open>The order of the text depends on the order in which the entries of the map are found.\<close>

lemma FormatChanges_order:
  "let x = [\<lparr>ch_Path = ''image'', ch_Before = ''a'', ch_After = ''b''\<rparr>];
       y = [\<lparr>ch_Path = ''image'', ch_Before = ''a'', ch_After = ''c''\<rparr>]
   in FormatChanges [(''n1'', x), (''n2'', y), (''n3'', x)] \<noteq> FormatChanges [(''n3'', x), (''n2'', y), (''n1'', x)]"
  by code_simp

text \<open>Lists do not count: a file system that has only options is empty.\<close>

lemma options_only_empty:
  "ObjectIsEmpty (FileSystem_val (zero_FileSystem\<lparr>fs_Options := [''-L'', ''data'']\<rparr>)) \<and>
   Profile_Flatten (zero_Profile\<lparr>pf_FileSystems := Some [(''/dev/sda1'', zero_FileSystem\<lparr>fs_Options := [''-L'', ''data'']\<rparr>)]\<rparr>) =
     zero_Profile\<lparr>pf_FileSystems := Some [(''/dev/sda1'', zero_FileSystem\<lparr>fs_Options := [''-L'', ''data'']\<rparr>)]\<rparr>"
  by code_simp

end
