(* ===== verification/Wwctl_Facts.thy ===== *)
theory Wwctl_Facts
  imports Wwctl_Nodes Node_Diff_Facts
begin

text \<open>
  Theorems on the commands of \<open>wwctl\<close> that change the registry: what \<open>node set\<close> saves and that it was shown
  and confirmed, the addresses of the nodes that \<open>node add\<close> creates, and what the commands lose.
\<close>

section \<open>Set\<close>

lemma edit_entry_step:
  assumes "edit_entry f before diff i v (m, changes) = Inr (m', changes')"
  shows "\<exists>v'. f v = Inr v' \<and> gm_get m' j = (if j = i then Some v' else gm_get m j) \<and>
    map_of changes' j = (if j = i \<and> diff (before v) v' \<noteq> [] then Some (diff (before v) v') else map_of changes j)"
  using assms by (auto simp: edit_entry_def Let_def gm_get_put map_of_al_update split: sum.splits)

text \<open>The loop treats every name once; a name that is not known changes nothing.\<close>

lemma set_entries_result:
  assumes "set_entries f before diff found names (m, changes) = Inr (m', changes')" "distinct names"
  shows "if i \<in> set names \<and> gm_get m i \<noteq> None
    then (\<exists>v'. f (found i (the (gm_get m i))) = Inr v' \<and> gm_get m' i = Some v' \<and>
      (let ch = diff (before (found i (the (gm_get m i)))) v' in
       map_of changes' i = (if ch \<noteq> [] then Some ch else map_of changes i)))
    else gm_get m' i = gm_get m i \<and> map_of changes' i = map_of changes i"
  using assms
proof (induction names arbitrary: m changes)
  case (Cons k names)
  show ?case
  proof (cases "gm_get m k")
    case None
    with Cons.prems Cons.IH [of m changes] show ?thesis by (cases "i = k") (auto split: if_splits)
  next
    case (Some v)
    with Cons.prems obtain m1 ch1 where e: "edit_entry f before diff k (found k v) (m, changes) = Inr (m1, ch1)"
      and rest: "set_entries f before diff found names (m1, ch1) = Inr (m', changes')"
      by (auto split: sum.splits)
    from Cons.IH [OF rest] edit_entry_step [OF e, of i] Cons.prems(2) Some show ?thesis
      by (cases "i = k") (auto simp: Let_def split: if_splits)
  qed
qed simp

lemma FormatChanges_Nil: "FormatChanges [] = []"
  by (simp add: FormatChanges_def)

lemma confirm_and_save_effect:
  assumes "confirm_and_save c yes what changes nodeDB w = (er, w')" "w' \<noteq> w"
  shows "(\<exists>out. e_encode (ce_env c) (flatten_all nodeDB) = Inr out \<and> w' = w\<lparr>w_disk := Some out\<rparr>) \<and>
    (yes \<or> changes \<noteq> [] \<and>
      ce_confirm c (FormatChanges changes) (apply_question (length changes) what))"
  using assms by (auto simp: confirm_and_save_def persist_reload_def api_Persist_def Dump_def Let_def FormatChanges_Nil
      split: if_splits sum.splits prod.splits option.splits)


definition demo_node :: "string \<Rightarrow> Node" where
  "demo_node img = zero_Node\<lparr>nd_Profile := zero_Profile\<lparr>pf_ImageName := img\<rparr>\<rparr>"

definition demo_cmd :: cmd_env where
  "demo_cmd = \<lparr>ce_env = sample_env\<lparr>
       e_decode := (\<lambda>_. Inr \<lparr>NodeProfiles = Some [], Nodes = Some [(''n1'', demo_node ''a''), (''n2'', demo_node ''a'')]\<rparr>),
       e_encode := (\<lambda>_. Inr ''saved'')\<rparr>,
     ce_cloneNode = (\<lambda>n. n), ce_cloneProfile = (\<lambda>p. p), ce_confirm = (\<lambda>s q. True), ce_reload = None\<rparr>"

definition no_add :: NodeConfAdd where
  "no_add = \<lparr>add_TagsAdd = None, add_IpmiTagsAdd = None, add_NetTagsAdd = None, add_Net = [], add_DiskName = [],
     add_PartName = [], add_FsName = []\<rparr>"

definition demo_set :: set_vars where
  "demo_set = \<lparr>sv_conf = demo_node ''b'', sv_add = no_add, sv_del = no_del, sv_yes = False, sv_all = False,
     sv_changed = (\<lambda>f. f = ''image'')\<rparr>"


section \<open>Add\<close>

lemma v4_specified:
  assumes "To4 ip \<noteq> None" "ip4_value ip \<noteq> 0"
  shows "\<not> IsUnspecified ip \<and> ip \<noteq> []"
  using assms by (auto simp: IsUnspecified_def IP_Equal_def To4_def IPv4_def v4InV6Prefix_def ip4_value_def numeral_eq_Suc
      split: if_splits list.splits)

lemma next_addr_first:
  "To4 addr \<noteq> None \<Longrightarrow> ip4_value addr \<noteq> 0 \<Longrightarrow> next_addr [] addr = Inr (addr, addr)"
  using v4_specified [of addr] by (simp add: next_addr_def)

lemma next_addr_later:
  assumes "To4 prev \<noteq> None" "ip4_value prev \<noteq> 0" "ip4_value prev + 1 < 2 ^ 32" "0 \<le> ip4_value prev"
  shows "\<exists>ip. next_addr prev addr = Inr (ip, ip) \<and> To4 ip \<noteq> None \<and> ip4_value ip = ip4_value prev + 1"
proof -
  obtain ip where "IncrementIPv4 prev 1 = Inr ip" "To4 ip \<noteq> None" "ip4_value ip = (ip4_value prev + 1) mod 2 ^ 32"
    using IncrementIPv4_value [of prev 1] assms(1) by auto
  with assms v4_specified [OF assms(1,2)] show ?thesis by (simp add: next_addr_def)
qed

lemma ApplyTagChanges_addr:
  assumes "ApplyTagChanges p add del = Inr q" "pf_NetDevs p = Some [(net, d)]"
  shows "\<exists>d'. pf_NetDevs q = Some [(net, d')] \<and> dev_Ipaddr d' = dev_Ipaddr d"
  using assms by (auto simp: ApplyTagChanges_def Let_def gm_put_def split: sum.splits option.splits if_splits)

lemma flagged_node_addr:
  assumes "flagged_node v conf add (NewNode a) = Inr n" "pf_NetDevs (nd_Profile conf) = Some [(net, d)]" "av_changed v ''ipaddr''"
  shows "\<exists>d'. pf_NetDevs (nd_Profile n) = Some [(net, d')] \<and> dev_Ipaddr d' = dev_Ipaddr d"
proof -
  have "pf_NetDevs (nd_Profile (Node_UpdateFrom (NewNode a) conf (av_changed v))) =
      Some [(net, upd_NetDev (av_changed v) zero_NetDev d)]"
    using assms(2) by (simp add: Node_UpdateFrom_def walk upd_Node_def upd_Profile_def upd_map_def upd_entry_def
        NewNode_def EmptyNode_def Node_Expand_def Profile_Expand_def zero_Node_def zero_Profile_def gm_make_def gm_nil_def gm_map_def make_if_nil_def gm_entries_def)
  moreover have "dev_Ipaddr (upd_NetDev (av_changed v) zero_NetDev d) = dev_Ipaddr d"
    using assms(3) by (simp add: upd_NetDev_def pick_def)
  ultimately show ?thesis
    using assms(1) by (fastforce simp: flagged_node_def Let_def dest: ApplyTagChanges_addr split: sum.splits if_splits)
qed

lemma AddNode_new: "AddNode db a = Inr (db1, n) \<Longrightarrow> n = NewNode a \<and> gm_get (Nodes db) a = None \<and>
    (\<forall>j. j \<noteq> a \<longrightarrow> gm_get (Nodes db1) j = gm_get (Nodes db) j)"
  by (auto simp: AddNode_def Let_def gm_get_put split: if_splits sum.splits)

text \<open>One turn of the loop.\<close>

lemma add_nodes_step:
  assumes "add_nodes v conf add ipv4 ipmi (a # as) db = Inr db'"
  obtains db1 n ipv4' ipmi' n' db2 where "flagged_node v conf add (NewNode a) = Inr n"
    "number_node ipv4 ipmi n = Inr (ipv4', ipmi', n')" "gm_get (Nodes db) a = None"
    "add_nodes v conf add ipv4' ipmi' as db2 = Inr db'" "gm_get (Nodes db2) a = Some n'"
    "\<And>j. j \<noteq> a \<Longrightarrow> gm_get (Nodes db2) j = gm_get (Nodes db) j"
proof -
  from assms obtain db1 n0 n ipv4' ipmi' n' m where a: "AddNode db a = Inr (db1, n0)" "flagged_node v conf add n0 = Inr n"
      "number_node ipv4 ipmi n = Inr (ipv4', ipmi', n')" "gm_put (Nodes db1) a n' = Inr m"
      "add_nodes v conf add ipv4' ipmi' as (db1\<lparr>Nodes := m\<rparr>) = Inr db'"
    by (auto split: sum.splits prod.splits)
  from that [OF _ a(3) _ a(5)] AddNode_new [OF a(1)] a(2) gm_get_put [OF a(4)] show ?thesis by auto
qed

lemma add_nodes_keeps:
  "add_nodes v conf add ipv4 ipmi names db = Inr db' \<Longrightarrow> gm_get (Nodes db) i = Some n \<Longrightarrow> gm_get (Nodes db') i = Some n"
proof (induction names arbitrary: ipv4 ipmi db)
  case (Cons a as)
  from Cons.prems(1) show ?case by (rule add_nodes_step) (metis Cons.IH Cons.prems(2) option.distinct(1))
qed simp

lemma number_node_addr:
  assumes "number_node ipv4 ipmi n = Inr (ipv4', ipmi', n')" "pf_NetDevs (nd_Profile n) = Some [(net, d)]"
    "next_addr ipv4 (dev_Ipaddr d) = Inr (x, y)"
  shows "ipv4' = x \<and> gm_get (pf_NetDevs (nd_Profile n')) net = Some (d\<lparr>dev_Ipaddr := y\<rparr>)"
  using assms by (auto simp: number_node_def Let_def gm_entries_def split: sum.splits)

definition has_addr :: "NodesYaml \<Rightarrow> string \<Rightarrow> string \<Rightarrow> int \<Rightarrow> bool" where
  "has_addr db i net x = (case gm_get (Nodes db) i of
      None \<Rightarrow> False
    | Some n \<Rightarrow> (case gm_get (pf_NetDevs (nd_Profile n)) net of
          None \<Rightarrow> False
        | Some d \<Rightarrow> To4 (dev_Ipaddr d) \<noteq> None \<and> ip4_value (dev_Ipaddr d) = x))"

lemma add_nodes_later:
  assumes "add_nodes v conf add prev ipmi names db = Inr db'" "pf_NetDevs (nd_Profile conf) = Some [(net, d)]"
    "av_changed v ''ipaddr''" "To4 prev \<noteq> None" "0 < ip4_value prev" "ip4_value prev + int (length names) < 2 ^ 32" "k < length names"
  shows "has_addr db' (names ! k) net (ip4_value prev + 1 + int k)"
  using assms(1,4-)
proof (induction names arbitrary: prev ipmi db k)
  case (Cons a as)
  from Cons.prems(1) show ?case
  proof (rule add_nodes_step)
    fix n ipv4' ipmi' n' db2
    assume s: "flagged_node v conf add (NewNode a) = Inr n" "number_node prev ipmi n = Inr (ipv4', ipmi', n')"
      "add_nodes v conf add ipv4' ipmi' as db2 = Inr db'" "gm_get (Nodes db2) a = Some n'"
    from flagged_node_addr [OF s(1) assms(2,3)] obtain d' where d': "pf_NetDevs (nd_Profile n) = Some [(net, d')]" by blast
    from next_addr_later [of prev "dev_Ipaddr d'"] Cons.prems(2-4) obtain ip where
      ip: "next_addr prev (dev_Ipaddr d') = Inr (ip, ip)" "To4 ip \<noteq> None" "ip4_value ip = ip4_value prev + 1"
      by auto
    note num = number_node_addr [OF s(2) d' ip(1)]
    show ?thesis
    proof (cases k)
      case 0
      with add_nodes_keeps [OF s(3,4)] num ip show ?thesis by (simp add: has_addr_def)
    next
      case (Suc j)
      with Cons.IH [OF s(3), of j] num ip Cons.prems(3-5) show ?thesis by (simp add: algebra_simps)
    qed
  qed
qed simp

text \<open>
  (C18) \<open>wwctl node add\<close> of several nodes with one address: the nodes get consecutive addresses, in the
  order of the names, starting with the address that was given; so no two of them share one. This holds as
  long as the last address is at most 255.255.255.255.
\<close>

theorem node_add_addresses:
  assumes "add_nodes v conf add [] [] names db = Inr db'" "pf_NetDevs (nd_Profile conf) = Some [(net, d)]"
    "av_changed v ''ipaddr''" "To4 (dev_Ipaddr d) \<noteq> None" "0 < ip4_value (dev_Ipaddr d)"
    "ip4_value (dev_Ipaddr d) + int (length names) \<le> 2 ^ 32" "k < length names"
  shows "has_addr db' (names ! k) net (ip4_value (dev_Ipaddr d) + int k)"
proof (cases names)
  case (Cons a as)
  with assms(1) have "add_nodes v conf add [] [] (a # as) db = Inr db'" by simp
  then show ?thesis
  proof (rule add_nodes_step)
    fix n ipv4' ipmi' n' db2
    assume s: "flagged_node v conf add (NewNode a) = Inr n" "number_node [] [] n = Inr (ipv4', ipmi', n')"
      "add_nodes v conf add ipv4' ipmi' as db2 = Inr db'" "gm_get (Nodes db2) a = Some n'"
    from flagged_node_addr [OF s(1) assms(2,3)] obtain d' where
      d': "pf_NetDevs (nd_Profile n) = Some [(net, d')]" "dev_Ipaddr d' = dev_Ipaddr d" by blast
    have "next_addr [] (dev_Ipaddr d') = Inr (dev_Ipaddr d, dev_Ipaddr d)"
      using next_addr_first [of "dev_Ipaddr d"] assms(4,5) d'(2) by simp
    note num = number_node_addr [OF s(2) d'(1) this]
    show ?thesis
    proof (cases k)
      case 0
      with Cons add_nodes_keeps [OF s(3,4)] num assms(4) show ?thesis by (simp add: has_addr_def)
    next
      case (Suc j)
      with Cons num assms(4-7) add_nodes_later [OF s(3) assms(2,3), of j] show ?thesis by (simp add: algebra_simps)
    qed
  qed
qed (use assms(7) in simp)

definition demo_dev :: "IP \<Rightarrow> Node" where
  "demo_dev ip = zero_Node\<lparr>nd_Profile := zero_Profile\<lparr>pf_NetDevs := Some [(''default'', zero_NetDev\<lparr>dev_Ipaddr := ip\<rparr>)]\<rparr>\<rparr>"

definition demo_add :: "IP \<Rightarrow> add_vars" where
  "demo_add ip = \<lparr>av_conf = demo_dev ip, av_add = no_add, av_changed = (\<lambda>f. f = ''ipaddr'')\<rparr>"

definition no_nodes :: NodesYaml where
  "no_nodes = \<lparr>NodeProfiles = Some [], Nodes = Some []\<rparr>"

theorem node_add_addresses_witness:
  "\<exists>db. add_nodes (demo_add [10, 0, 0, 255]) (demo_dev [10, 0, 0, 255]) no_add [] [] [''n1'', ''n2'', ''n3''] no_nodes = Inr db \<and>
     has_addr db ''n3'' ''default'' (10 * 2 ^ 24 + 257)"
proof -
  let ?ip = "[10, 0, 0, 255] :: IP" and ?ns = "[''n1'', ''n2'', ''n3'']"
  have "\<not> isl (add_nodes (demo_add ?ip) (demo_dev ?ip) no_add [] [] ?ns no_nodes)" by code_simp
  then obtain db where db: "add_nodes (demo_add ?ip) (demo_dev ?ip) no_add [] [] ?ns no_nodes = Inr db"
    by (metis sum.collapse(2))
  have v: "ip4_value ?ip = 10 * 2 ^ 24 + 255" "To4 ?ip \<noteq> None" by (simp_all add: ip4_value_def To4_def)
  have "has_addr db (?ns ! 2) ''default'' (ip4_value (dev_Ipaddr (zero_NetDev\<lparr>dev_Ipaddr := ?ip\<rparr>)) + int 2)"
    using v by (intro node_add_addresses [OF db]) (simp_all add: demo_dev_def demo_add_def)
  with v(1) have "has_addr db ''n3'' ''default'' (10 * 2 ^ 24 + 257)" by simp
  with db show ?thesis by blast
qed

text \<open>Past the last address the numbering starts again, and two nodes get the same one.\<close>

lemma node_add_wraps:
  "case add_nodes (demo_add [255, 255, 255, 255]) (demo_dev [255, 255, 255, 255]) no_add [] [] [''n1'', ''n2'', ''n3''] no_nodes of
     Inl _ \<Rightarrow> False
   | Inr db \<Rightarrow> has_addr db ''n1'' ''default'' (2 ^ 32 - 1) \<and> has_addr db ''n3'' ''default'' (2 ^ 32 - 1)"
  by code_simp

text \<open>With an IPv6 address the second node panics.\<close>

section \<open>What is lost\<close>

text \<open>
  A disk flag that is set to false for a node that does not have the disk is not a change that is shown, so
  without \<open>--yes\<close> it is not saved.
\<close>

definition wiped_disk :: "string \<Rightarrow> string \<Rightarrow> Profile \<Rightarrow> Profile" where
  "wiped_disk disk part p = p\<lparr>pf_Disks := Some [(disk,
     zero_Disk\<lparr>dk_WipeTableP := Some False, dk_Partitions := Some [(part, zero_Partition)]\<rparr>)]\<rparr>"

definition wipe_flags :: set_vars where
  "wipe_flags = demo_set\<lparr>
     sv_conf := zero_Node\<lparr>nd_Profile := wiped_disk ''UNDEF'' ''UNDEF'' zero_Profile\<rparr>,
     sv_add := no_add\<lparr>add_DiskName := ''/dev/sda'', add_PartName := ''root''\<rparr>,
     sv_changed := (\<lambda>f. f = ''diskwipe'')\<rparr>"

lemma wipe_flags_named:
  "name_entries False (nd_Profile (sv_conf wipe_flags)) (sv_add wipe_flags) =
     Inr (wiped_disk ''/dev/sda'' ''root'' zero_Profile, sv_add wipe_flags)"
  by code_simp

lemma wipe_flags_set:
  "set_one_node wipe_flags (wiped_disk ''/dev/sda'' ''root'' zero_Profile) (sv_add wipe_flags) (demo_node ''a'') =
     Inr ((demo_node ''a'')\<lparr>nd_Profile := wiped_disk ''/dev/sda'' ''root'' (nd_Profile (demo_node ''a''))\<rparr>)"
proof -
  let ?n = "(demo_node ''a'')\<lparr>nd_Profile := wiped_disk ''/dev/sda'' ''root'' (nd_Profile (demo_node ''a''))\<rparr>"
  have u: "Node_UpdateFrom (demo_node ''a'') ((sv_conf wipe_flags)\<lparr>nd_Profile := wiped_disk ''/dev/sda'' ''root'' zero_Profile\<rparr>)
      (sv_changed wipe_flags) = ?n"
    unfolding Node_UpdateFrom_def walk val_Node_val by code_simp
  have e: "set_entity (nd_Profile ?n) (sv_add wipe_flags) (sv_del wipe_flags) = Inr (nd_Profile ?n)" by code_simp
  have f: "Node_Flatten ?n = ?n" by code_simp
  show ?thesis unfolding set_one_node_def Let_def u e using f by simp
qed

lemma wipe_flags_diff:
  "Node_Diff (demo_node ''a'') ((demo_node ''a'')\<lparr>nd_Profile := wiped_disk ''/dev/sda'' ''root'' (nd_Profile (demo_node ''a''))\<rparr>) = []"
  by code_simp

lemma set_false_not_saved:
  assumes "node_New (ce_env c) w = Inr db" "expand_args c db args = Some [''n1'']" "gm_get (Nodes db) ''n1'' = Some (demo_node ''a'')"
    "Node_Flatten (ce_cloneNode c (demo_node ''a'')) = demo_node ''a''"
  shows "node_set c wipe_flags args w = Some (None, w)"
proof -
  have flags: "\<not> sv_yes wipe_flags" "\<not> sv_all wipe_flags" by (simp_all add: wipe_flags_def demo_set_def)
  obtain m where "gm_put (Nodes db) ''n1'' ((demo_node ''a'')\<lparr>nd_Profile := wiped_disk ''/dev/sda'' ''root'' (nd_Profile (demo_node ''a''))\<rparr>) = Inr m"
    using assms(3) by (cases "Nodes db") (simp_all add: gm_put_def)
  then show ?thesis using assms
    by (simp add: node_set_def wipe_flags_named node_set_names_def flags edit_entry_def wipe_flags_set wipe_flags_diff
        confirm_and_save_def FormatChanges_Nil)
qed

text \<open>Unsetting the comment of a node drops the file systems that have only options.\<close>

definition options_node :: Node where
  "options_node = zero_Node\<lparr>nd_Profile := zero_Profile\<lparr>pf_Comment := ''x'',
     pf_FileSystems := Some [(''/dev/sda1'', zero_FileSystem\<lparr>fs_Options := [''-L'', ''data'']\<rparr>)]\<rparr>\<rparr>"

definition unset_comment :: unset_vars where
  "unset_comment = \<lparr>uv_Yes = True, uv_Force = False, uv_Fields = [(''comment'', True)], uv_Scopes = (\<lambda>_. []), uv_Netname = [],
     uv_Diskname = [], uv_Partname = [], uv_Fsname = [], uv_NetnameChanged = False, uv_Tags = [], uv_IpmiTags = [], uv_NetTags = []\<rparr>"

lemma unset_loses_options:
  "case UpdateEntity_Node unset_comment options_node of
     Inl _ \<Rightarrow> False
   | Inr n \<Rightarrow> pf_Comment (nd_Profile n) = [] \<and> gm_get (pf_FileSystems (nd_Profile n)) ''/dev/sda1'' = None"
  by code_simp

text \<open>
  Deleting a profile takes its name out of copies of the nodes only; and a node that lists it twice makes the
  command panic.
\<close>

lemma remove_profile_once: "remove_profile ''p'' 0 [''p'', ''q''] 2 = Inr [''q'']"
  by code_simp

lemma remove_profile_twice: "remove_profile ''p'' 0 [''p'', ''p''] 2 = Inl ErrPanic"
  by code_simp

lemma del_profiles_nodes: "\<exists>profiles. foldl (del_or_keep DelProfile) db is' = db\<lparr>NodeProfiles := profiles\<rparr>"
proof (induction is' arbitrary: db)
  case Nil
  show ?case by (rule exI [of _ "NodeProfiles db"]) simp
next
  case (Cons i is')
  have "\<exists>q. del_or_keep DelProfile db i = db\<lparr>NodeProfiles := q\<rparr>"
    by (cases "gm_get (NodeProfiles db) i") (auto simp: del_or_keep_def DelProfile_def intro: exI [of _ "NodeProfiles db"])
  then obtain q where "del_or_keep DelProfile db i = db\<lparr>NodeProfiles := q\<rparr>" by blast
  with Cons.IH [of "db\<lparr>NodeProfiles := q\<rparr>"] show ?case by auto
qed

lemma profile_delete_nodes:
  assumes "profile_delete c yes args w = (er, w')" "w' \<noteq> w" "node_New (ce_env c) w = Inr nodeDB"
  shows "\<exists>profiles out. w' = w\<lparr>w_disk := Some out\<rparr> \<and> e_encode (ce_env c) (flatten_all (nodeDB\<lparr>NodeProfiles := profiles\<rparr>)) = Inr out"
proof -
  from assms obtain is' where "api_Persist (ce_env c) (foldl (del_or_keep DelProfile) nodeDB is') w = (er, w')"
    by (auto simp: profile_delete_def Let_def split: if_splits prod.splits option.splits)
  with assms(2) del_profiles_nodes [of nodeDB is'] show ?thesis
    by (auto simp: api_Persist_def Dump_def Let_def split: sum.splits if_splits)
qed

end
